(* ===== verification/Py_Prelude.thy ===== *)
theory Py_Prelude
  imports Complex_Main "HOL-Library.Char_ord" "HOL-Library.List_Lexorder"
    "HOL-Library.Product_Lexorder" "HOL-Library.AList" "HOL-Library.Multiset"
begin

text \<open>
  The shared base of the development: what the Python sources use of the language.

  \<^item> Exceptions are values: a function that may raise returns \<open>'e + 'a\<close>, with \<open>Inl\<close> for the
    raised exception. \<open>bindE\<close> is the sequencing of two statements, \<open>raise_when\<close> is
    \<^verbatim>\<open>if c: raise e\<close>, \<open>forE\<close>, \<open>mapE\<close> and \<open>foldE\<close> are loops whose body may raise.
  \<^item> A \<^verbatim>\<open>str\<close> is a HOL \<open>string\<close>: a list of code points below 256 (Latin-1). The string methods
    the sources call (\<^verbatim>\<open>strip\<close>, \<^verbatim>\<open>split\<close>, \<^verbatim>\<open>replace\<close>, \<^verbatim>\<open>lower\<close>, \<^verbatim>\<open>splitlines\<close>, ...) follow CPython
    on that alphabet. The only code points whose \<^verbatim>\<open>upper\<close> or \<^verbatim>\<open>casefold\<close> leaves the alphabet
    (U+00B5 and U+00FF) are mapped to themselves.
  \<^item> A \<^verbatim>\<open>dict\<close> is an association list in insertion order with \<open>AList.update\<close> as item assignment,
    a \<^verbatim>\<open>set\<close> that is only ever sorted or tested is a list.
  \<^item> \<^verbatim>\<open>sorted\<close> is \<open>sort\<close>; strings are ordered by code point (\<open>Char_ord\<close> and \<open>List_Lexorder\<close>),
    tuples lexicographically (\<open>Product_Lexorder\<close>).

  The named collections \<open>res_simps\<close> (the result type) and \<open>str_simps\<close> (string methods) carry
  the component proofs.
\<close>

named_theorems res_simps \<open>equations of the result type\<close>
named_theorems str_simps \<open>equations of the string methods\<close>

section \<open>Results and exceptions\<close>

type_synonym ('e, 'a) result = "'e + 'a"

definition bindE :: "'e + 'a \<Rightarrow> ('a \<Rightarrow> 'e + 'b) \<Rightarrow> 'e + 'b" where
  "bindE m f = (case m of Inl e \<Rightarrow> Inl e | Inr a \<Rightarrow> f a)"

definition raise_when :: "bool \<Rightarrow> 'e \<Rightarrow> 'e + unit" where
  "raise_when c e = (if c then Inl e else Inr ())"

fun forE :: "('a \<Rightarrow> 'e + unit) \<Rightarrow> 'a list \<Rightarrow> 'e + unit" where
  "forE f [] = Inr ()"
| "forE f (x # xs) = bindE (f x) (\<lambda>_. forE f xs)"

fun mapE :: "('a \<Rightarrow> 'e + 'b) \<Rightarrow> 'a list \<Rightarrow> 'e + 'b list" where
  "mapE f [] = Inr []"
| "mapE f (x # xs) = bindE (f x) (\<lambda>y. bindE (mapE f xs) (\<lambda>ys. Inr (y # ys)))"

fun foldE :: "('s \<Rightarrow> 'a \<Rightarrow> 'e + 's) \<Rightarrow> 's \<Rightarrow> 'a list \<Rightarrow> 'e + 's" where
  "foldE f s [] = Inr s"
| "foldE f s (x # xs) = bindE (f s x) (\<lambda>s'. foldE f s' xs)"

definition concatE :: "('a \<Rightarrow> 'e + 'b list) \<Rightarrow> 'a list \<Rightarrow> 'e + 'b list" where
  "concatE f xs = bindE (mapE f xs) (\<lambda>ys. Inr (concat ys))"

definition is_ok :: "'e + 'a \<Rightarrow> bool" where
  "is_ok m = (case m of Inl _ \<Rightarrow> False | Inr _ \<Rightarrow> True)"

section \<open>Strings\<close>

subsection \<open>Characters\<close>

definition py_isspace :: "char \<Rightarrow> bool" where
  "py_isspace c = (let n = (of_char c :: nat) in
     (9 \<le> n \<and> n \<le> 13) \<or> (28 \<le> n \<and> n \<le> 32) \<or> n = 133 \<or> n = 160)"

definition is_line_break :: "char \<Rightarrow> bool" where
  "is_line_break c = (let n = (of_char c :: nat) in
     (10 \<le> n \<and> n \<le> 13) \<or> (28 \<le> n \<and> n \<le> 30) \<or> n = 133)"

definition lower_char :: "char \<Rightarrow> char" where
  "lower_char c = (let n = (of_char c :: nat) in
     if (65 \<le> n \<and> n \<le> 90) \<or> (192 \<le> n \<and> n \<le> 222 \<and> n \<noteq> 215) then char_of (n + 32) else c)"

definition upper_char :: "char \<Rightarrow> string" where
  "upper_char c = (let n = (of_char c :: nat) in
     if n = 223 then ''SS''
     else if (97 \<le> n \<and> n \<le> 122) \<or> (224 \<le> n \<and> n \<le> 254 \<and> n \<noteq> 247) then [char_of (n - 32)]
     else [c])"

definition casefold_char :: "char \<Rightarrow> string" where
  "casefold_char c = (if (of_char c :: nat) = 223 then ''ss'' else [lower_char c])"

definition is_ascii_digit :: "char \<Rightarrow> bool" where
  "is_ascii_digit c = (let n = (of_char c :: nat) in 48 \<le> n \<and> n \<le> 57)"

text \<open>\<^verbatim>\<open>unicodedata.category(c).startswith("C")\<close>.\<close>

definition is_control :: "char \<Rightarrow> bool" where
  "is_control c = (let n = (of_char c :: nat) in n < 32 \<or> (127 \<le> n \<and> n < 160) \<or> n = 173)"

subsection \<open>Methods of str\<close>

definition lower :: "string \<Rightarrow> string" where
  "lower s = map lower_char s"

definition upper :: "string \<Rightarrow> string" where
  "upper s = concat (map upper_char s)"

definition casefold :: "string \<Rightarrow> string" where
  "casefold s = concat (map casefold_char s)"

definition lstrip_by :: "(char \<Rightarrow> bool) \<Rightarrow> string \<Rightarrow> string" where
  "lstrip_by p s = dropWhile p s"

definition rstrip_by :: "(char \<Rightarrow> bool) \<Rightarrow> string \<Rightarrow> string" where
  "rstrip_by p s = rev (dropWhile p (rev s))"

definition strip_by :: "(char \<Rightarrow> bool) \<Rightarrow> string \<Rightarrow> string" where
  "strip_by p s = rstrip_by p (lstrip_by p s)"

definition lstrip :: "string \<Rightarrow> string" where
  "lstrip s = lstrip_by py_isspace s"

definition rstrip :: "string \<Rightarrow> string" where
  "rstrip s = rstrip_by py_isspace s"

definition strip :: "string \<Rightarrow> string" where
  "strip s = strip_by py_isspace s"

definition startswith :: "string \<Rightarrow> string \<Rightarrow> bool" where
  "startswith s p = (take (length p) s = p)"

definition endswith :: "string \<Rightarrow> string \<Rightarrow> bool" where
  "endswith s p = startswith (rev s) (rev p)"

definition removeprefix :: "string \<Rightarrow> string \<Rightarrow> string" where
  "removeprefix s p = (if startswith s p then drop (length p) s else s)"

text \<open>\<^verbatim>\<open>sub in s\<close>.\<close>

fun contains :: "string \<Rightarrow> string \<Rightarrow> bool" where
  "contains sub [] = (sub = [])"
| "contains sub (c # cs) = (startswith (c # cs) sub \<or> contains sub cs)"

text \<open>\<^verbatim>\<open>s.split(c)\<close> for a one-character separator.\<close>

fun split_char :: "char \<Rightarrow> string \<Rightarrow> string list" where
  "split_char c [] = [[]]"
| "split_char c (x # xs) =
     (if x = c then [] # split_char c xs
      else (case split_char c xs of [] \<Rightarrow> [[x]] | p # ps \<Rightarrow> (x # p) # ps))"

text \<open>\<^verbatim>\<open>s.split(c, n)\<close>: at most \<open>n\<close> splits.\<close>

fun split_char_max :: "nat \<Rightarrow> char \<Rightarrow> string \<Rightarrow> string list" where
  "split_char_max n c [] = [[]]"
| "split_char_max 0 c s = [s]"
| "split_char_max (Suc n) c (x # xs) =
     (if x = c then [] # split_char_max n c xs
      else (case split_char_max (Suc n) c xs of [] \<Rightarrow> [[x]] | p # ps \<Rightarrow> (x # p) # ps))"

text \<open>\<^verbatim>\<open>s.split(sub, 1)[0]\<close>.\<close>

fun before_first :: "string \<Rightarrow> string \<Rightarrow> string" where
  "before_first sub [] = []"
| "before_first sub (c # cs) =
     (if startswith (c # cs) sub then [] else c # before_first sub cs)"

fun join :: "string \<Rightarrow> string list \<Rightarrow> string" where
  "join sep [] = []"
| "join sep [x] = x"
| "join sep (x # y # ys) = x @ sep @ join sep (y # ys)"

text \<open>\<^verbatim>\<open>s.replace(old, new)\<close> for a non-empty \<open>old\<close>.\<close>

function replace_str :: "string \<Rightarrow> string \<Rightarrow> string \<Rightarrow> string" where
  "replace_str old new s =
     (case s of [] \<Rightarrow> []
      | c # cs \<Rightarrow>
          if old \<noteq> [] \<and> startswith s old then new @ replace_str old new (drop (length old) s)
          else c # replace_str old new cs)"
  by pat_completeness auto
termination
  by (relation "measure (\<lambda>(old, new, s). length s)") auto

declare replace_str.simps [simp del]

text \<open>\<^verbatim>\<open>s.splitlines()\<close>: a carriage return followed by a line feed is one break.\<close>

fun splitlines_acc :: "string \<Rightarrow> string \<Rightarrow> string list" where
  "splitlines_acc acc [] = (if acc = [] then [] else [rev acc])"
| "splitlines_acc acc (c # cs) =
     (if is_line_break c
      then rev acc # (case cs of
             d # ds \<Rightarrow> if c = CHR 0x0D \<and> d = CHR 0x0A then splitlines_acc [] ds else splitlines_acc [] cs
           | [] \<Rightarrow> [])
      else splitlines_acc (c # acc) cs)"

definition splitlines :: "string \<Rightarrow> string list" where
  "splitlines s = splitlines_acc [] s"

text \<open>\<^verbatim>\<open>str(n)\<close> for an int.\<close>

fun str_of_nat :: "nat \<Rightarrow> string" where
  "str_of_nat n =
     (if n < 10 then [char_of (48 + n)]
      else str_of_nat (n div 10) @ [char_of (48 + n mod 10)])"

declare str_of_nat.simps [simp del]

definition str_of_int :: "int \<Rightarrow> string" where
  "str_of_int i = (if i < 0 then CHR ''-'' # str_of_nat (nat (- i)) else str_of_nat (nat i))"

text \<open>\<^verbatim>\<open>f"{n:o}"\<close>.\<close>

fun octal :: "nat \<Rightarrow> string" where
  "octal n = (if n < 8 then [char_of (48 + n)] else octal (n div 8) @ [char_of (48 + n mod 8)])"

declare octal.simps [simp del]

subsection \<open>UTF-8\<close>

text \<open>\<^verbatim>\<open>str.encode("utf-8")\<close>, for code points below 256.\<close>

definition utf8_char :: "char \<Rightarrow> string" where
  "utf8_char c = (let n = (of_char c :: nat) in
     if n < 128 then [c] else [char_of (192 + n div 64), char_of (128 + n mod 64)])"

definition utf8_encode :: "string \<Rightarrow> string" where
  "utf8_encode s = concat (map utf8_char s)"

text \<open>\<^verbatim>\<open>bytes.decode("utf-8")\<close> onto the code points of the model's strings.\<close>

fun utf8_decode :: "string \<Rightarrow> string option" where
  "utf8_decode [] = Some []"
| "utf8_decode (a # bs) =
     (let n = (of_char a :: nat) in
      if n < 128 then map_option (Cons a) (utf8_decode bs)
      else case bs of
        [] \<Rightarrow> None
      | b # cs \<Rightarrow> (let m = (of_char b :: nat) in
          if n \<in> {194, 195} \<and> 128 \<le> m \<and> m < 192
          then map_option (Cons (char_of ((n - 192) * 64 + (m - 128)))) (utf8_decode cs)
          else None))"

text \<open>\<^verbatim>\<open>os.fsdecode\<close>, \<^verbatim>\<open>decode("utf-8", "surrogateescape")\<close>: a name that is not UTF-8 keeps its bytes.\<close>

definition fsdecode :: "string \<Rightarrow> string" where
  "fsdecode raw = (case utf8_decode raw of Some s \<Rightarrow> s | None \<Rightarrow> raw)"

section \<open>Dictionaries and sets\<close>

type_synonym ('k, 'v) dict = "('k \<times> 'v) list"

abbreviation dict_set :: "'k \<Rightarrow> 'v \<Rightarrow> ('k, 'v) dict \<Rightarrow> ('k, 'v) dict" where
  "dict_set \<equiv> AList.update"

abbreviation dict_get :: "('k, 'v) dict \<Rightarrow> 'k \<Rightarrow> 'v option" where
  "dict_get \<equiv> map_of"

abbreviation keys_of :: "('k, 'v) dict \<Rightarrow> 'k list" where
  "keys_of d \<equiv> map fst d"

text \<open>\<^verbatim>\<open>sorted(set(xs))\<close>.\<close>

definition sorted_set :: "'a::linorder list \<Rightarrow> 'a list" where
  "sorted_set xs = sort (remdups xs)"

definition list_diff :: "'a list \<Rightarrow> 'a list \<Rightarrow> 'a list" where
  "list_diff xs ys = filter (\<lambda>x. x \<notin> set ys) xs"

definition list_inter :: "'a list \<Rightarrow> 'a list \<Rightarrow> 'a list" where
  "list_inter xs ys = filter (\<lambda>x. x \<in> set ys) xs"

text \<open>
  The sources deduplicate findings by filling a dict keyed by the finding's fields and reading it
  back in key order: \<^verbatim>\<open>[unique[key] for key in sorted(unique)]\<close>.
\<close>

definition dict_of_key :: "('a \<Rightarrow> 'k) \<Rightarrow> 'a list \<Rightarrow> ('k, 'a) dict" where
  "dict_of_key key xs = foldl (\<lambda>d x. dict_set (key x) x d) [] xs"

definition sorted_unique :: "('a \<Rightarrow> 'k::linorder) \<Rightarrow> 'a list \<Rightarrow> 'a list" where
  "sorted_unique key xs = map snd (sort_key fst (dict_of_key key xs))"

section \<open>Laws of the result type\<close>

lemma bindE_Inl [simp, res_simps]: "bindE (Inl e) f = Inl e"
  by (simp add: bindE_def)

lemma bindE_Inr [simp, res_simps]: "bindE (Inr a) f = f a"
  by (simp add: bindE_def)

lemma bindE_cong:
  "m = m' \<Longrightarrow> (\<And>a. m' = Inr a \<Longrightarrow> f a = g a) \<Longrightarrow> bindE m f = bindE m' g"
  by (auto simp: bindE_def split: sum.splits)

text \<open>
  The weaker congruence is the one recursive definitions use: a termination condition must not
  mention the value of the first statement, which may itself be a recursive call.
\<close>

lemma bindE_fundef_cong [fundef_cong]:
  "m = m' \<Longrightarrow> (\<And>a. f a = g a) \<Longrightarrow> bindE m f = bindE m' g"
  by (auto simp: bindE_def split: sum.splits)

lemma bindE_eq_Inr [res_simps]: "bindE m f = Inr b \<longleftrightarrow> (\<exists>a. m = Inr a \<and> f a = Inr b)"
  by (auto simp: bindE_def split: sum.splits)

lemma bindE_eq_Inl [res_simps]:
  "bindE m f = Inl e \<longleftrightarrow> m = Inl e \<or> (\<exists>a. m = Inr a \<and> f a = Inl e)"
  by (auto simp: bindE_def split: sum.splits)

lemma bindE_assoc: "bindE (bindE m f) g = bindE m (\<lambda>x. bindE (f x) g)"
  by (auto simp: bindE_def split: sum.splits)

lemma bindE_return [simp]: "bindE m Inr = m"
  by (auto simp: bindE_def split: sum.splits)

lemma raise_when_Inr [simp, res_simps]: "raise_when c e = Inr u \<longleftrightarrow> \<not> c"
  by (simp add: raise_when_def)

lemma raise_when_Inl [simp, res_simps]: "raise_when c e = Inl e' \<longleftrightarrow> c \<and> e = e'"
  by (simp add: raise_when_def)

lemma raise_when_True [simp]: "raise_when True e = Inl e"
  by (simp add: raise_when_def)

lemma raise_when_False [simp]: "raise_when False e = Inr ()"
  by (simp add: raise_when_def)

lemma is_ok_simps [simp]: "is_ok (Inl e) = False" "is_ok (Inr a) = True"
  by (simp_all add: is_ok_def)

lemma is_ok_iff: "is_ok m \<longleftrightarrow> (\<exists>a. m = Inr a)"
  by (cases m) auto

lemma forE_cong [fundef_cong]:
  "xs = ys \<Longrightarrow> (\<And>x. x \<in> set ys \<Longrightarrow> f x = g x) \<Longrightarrow> forE f xs = forE g ys"
  by (induction xs arbitrary: ys) auto

lemma mapE_cong [fundef_cong]:
  "xs = ys \<Longrightarrow> (\<And>x. x \<in> set ys \<Longrightarrow> f x = g x) \<Longrightarrow> mapE f xs = mapE g ys"
  by (induction xs arbitrary: ys) auto

lemma foldE_cong [fundef_cong]:
  "s = t \<Longrightarrow> xs = ys \<Longrightarrow> (\<And>s x. x \<in> set ys \<Longrightarrow> f s x = g s x) \<Longrightarrow> foldE f s xs = foldE g t ys"
  by (induction xs arbitrary: s t ys) (auto intro!: bindE_cong)

lemma concatE_cong [fundef_cong]:
  "xs = ys \<Longrightarrow> (\<And>x. x \<in> set ys \<Longrightarrow> f x = g x) \<Longrightarrow> concatE f xs = concatE g ys"
  unfolding concatE_def by (metis mapE_cong)

lemma forE_Inr_iff [res_simps]: "forE f xs = Inr u \<longleftrightarrow> (\<forall>x \<in> set xs. f x = Inr ())"
  by (induction xs) (auto simp: bindE_eq_Inr)

lemma forE_Inl_D: "forE f xs = Inl e \<Longrightarrow> \<exists>x \<in> set xs. f x = Inl e"
  by (induction xs) (auto simp: bindE_eq_Inl)

lemma mapE_Inr_iff: "mapE f xs = Inr ys \<longleftrightarrow> list_all2 (\<lambda>x y. f x = Inr y) xs ys"
  by (induction xs arbitrary: ys) (auto simp: bindE_eq_Inr list_all2_Cons1)

lemma mapE_Inl_D: "mapE f xs = Inl e \<Longrightarrow> \<exists>x \<in> set xs. f x = Inl e"
  by (induction xs) (auto simp: bindE_eq_Inl)

lemma mapE_total: "(\<And>x. x \<in> set xs \<Longrightarrow> f x = Inr (g x)) \<Longrightarrow> mapE f xs = Inr (map g xs)"
  by (induction xs) auto

lemma mapE_ok_iff: "is_ok (mapE f xs) \<longleftrightarrow> (\<forall>x \<in> set xs. is_ok (f x))"
  by (induction xs) (auto simp: is_ok_iff bindE_eq_Inr)

lemma concatE_simps [simp, res_simps]:
  "concatE f [] = Inr []"
  "concatE f (x # xs) = bindE (f x) (\<lambda>y. bindE (concatE f xs) (\<lambda>ys. Inr (y @ ys)))"
  by (simp_all add: concatE_def bindE_def split: sum.splits)

lemma concatE_Inl_D: "concatE f xs = Inl e \<Longrightarrow> \<exists>x \<in> set xs. f x = Inl e"
  by (induction xs) (auto simp: bindE_eq_Inl)

lemma concatE_total:
  "(\<And>x. x \<in> set xs \<Longrightarrow> f x = Inr (g x)) \<Longrightarrow> concatE f xs = Inr (concat (map g xs))"
  by (induction xs) auto

lemma concatE_Inr_mem:
  "concatE f xs = Inr zs \<Longrightarrow> z \<in> set zs \<longleftrightarrow> (\<exists>x \<in> set xs. \<exists>ys. f x = Inr ys \<and> z \<in> set ys)"
  by (induction xs arbitrary: zs) (auto simp: bindE_eq_Inr)

lemma concatE_Inr_nil:
  "concatE f xs = Inr [] \<longleftrightarrow> (\<forall>x \<in> set xs. f x = Inr [])"
  by (induction xs) (auto simp: bindE_eq_Inr)

lemma concatE_Nil_iff: "concatE f xs = Inr [] \<longleftrightarrow> (\<forall>x\<in>set xs. f x = Inr [])"
  by (induction xs) (auto simp: bindE_eq_Inr)

lemma foldE_invariant:
  assumes "foldE f s xs = Inr t" and "P s"
    and "\<And>s x s'. x \<in> set xs \<Longrightarrow> P s \<Longrightarrow> f s x = Inr s' \<Longrightarrow> P s'"
  shows "P t"
  using assms
proof (induction xs arbitrary: s)
  case Nil
  then show ?case by simp
next
  case (Cons x xs)
  then obtain s' where "f s x = Inr s'" and "foldE f s' xs = Inr t"
    by (auto simp: bindE_eq_Inr)
  with Cons show ?case by (metis list.set_intros(1,2))
qed

lemma foldE_append:
  "foldE f s (xs @ ys) = bindE (foldE f s xs) (\<lambda>s'. foldE f s' ys)"
  by (induction xs arbitrary: s) (auto simp: bindE_assoc)

section \<open>Laws of the string methods\<close>

lemma startswith_simps [simp, str_simps]:
  "startswith s []"
  "\<not> startswith [] (p # ps)"
  "startswith (c # s) (p # ps) \<longleftrightarrow> c = p \<and> startswith s ps"
  by (auto simp: startswith_def)

lemma startswith_iff: "startswith s p \<longleftrightarrow> (\<exists>t. s = p @ t)"
proof
  assume "startswith s p"
  then have "s = p @ drop (length p) s"
    by (metis append_take_drop_id startswith_def)
  then show "\<exists>t. s = p @ t" ..
qed (auto simp: startswith_def)

lemma startswith_append [simp]: "startswith (p @ t) p"
  by (auto simp: startswith_iff)

lemma startswith_refl [simp]: "startswith s s"
  by (auto simp: startswith_iff)

lemma startswith_trans: "startswith s p \<Longrightarrow> startswith p q \<Longrightarrow> startswith s q"
  by (auto simp: startswith_iff)

lemma endswith_iff: "endswith s p \<longleftrightarrow> (\<exists>t. s = t @ p)"
proof -
  have "endswith s p \<longleftrightarrow> (\<exists>t. rev s = rev p @ t)"
    by (simp add: endswith_def startswith_iff)
  also have "\<dots> \<longleftrightarrow> (\<exists>t. s = t @ p)"
    by (metis rev_append rev_rev_ident)
  finally show ?thesis .
qed

lemma endswith_char: "endswith s [c] \<longleftrightarrow> s \<noteq> [] \<and> last s = c"
  by (auto simp: endswith_iff) (metis append_butlast_last_id)

lemma contains_iff: "contains sub s \<longleftrightarrow> (\<exists>a b. s = a @ sub @ b)"
proof (induction s)
  case Nil
  then show ?case by auto
next
  case (Cons c cs)
  have "(\<exists>a b. c # cs = a @ sub @ b) \<longleftrightarrow> startswith (c # cs) sub \<or> (\<exists>a b. cs = a @ sub @ b)"
    by (auto simp: startswith_iff Cons_eq_append_conv)
  with Cons.IH show ?case by simp
qed

lemma startswith_contains: "startswith s sub \<Longrightarrow> contains sub s"
  by (metis append_Nil contains_iff startswith_iff)

lemma contains_char: "contains [c] s \<longleftrightarrow> c \<in> set s"
  by (auto simp: contains_iff in_set_conv_decomp)

lemma split_char_nonempty [simp]: "split_char c s \<noteq> []"
  by (induction s) (auto split: list.splits)

lemma split_char_Cons_neq:
  "x \<noteq> c \<Longrightarrow> split_char c (x # xs) = (x # hd (split_char c xs)) # tl (split_char c xs)"
  by (cases "split_char c xs") auto

lemma join_Cons: "xs \<noteq> [] \<Longrightarrow> join sep (x # xs) = x @ sep @ join sep xs"
  by (cases xs) auto

lemma join_hd_append:
  "join sep ((x @ p) # ps) = x @ join sep (p # ps)"
  by (cases ps) auto

lemma join_split_char [simp]: "join [c] (split_char c s) = s"
proof (induction s)
  case Nil
  then show ?case by simp
next
  case (Cons x xs)
  show ?case
  proof (cases "x = c")
    case True
    with Cons show ?thesis by (simp add: join_Cons)
  next
    case False
    have "join [c] ((x # hd (split_char c xs)) # tl (split_char c xs)) = x # join [c] (split_char c xs)"
      using join_hd_append [of "[c]" "[x]" "hd (split_char c xs)" "tl (split_char c xs)"] by simp
    with False Cons show ?thesis by (simp add: split_char_Cons_neq del: split_char.simps)
  qed
qed

lemma split_char_free: "p \<in> set (split_char c s) \<Longrightarrow> c \<notin> set p"
proof (induction s arbitrary: p)
  case Nil
  then show ?case by simp
next
  case (Cons x xs)
  then show ?case
    by (cases "split_char c xs") (auto split: if_splits)
qed

lemma split_char_no_sep: "c \<notin> set s \<Longrightarrow> split_char c s = [s]"
  by (induction s) auto

lemma split_char_append_sep:
  "c \<notin> set p \<Longrightarrow> split_char c (p @ c # s) = p # split_char c s"
  by (induction p) auto

lemma split_char_join:
  "xs \<noteq> [] \<Longrightarrow> (\<And>x. x \<in> set xs \<Longrightarrow> c \<notin> set x) \<Longrightarrow> split_char c (join [c] xs) = xs"
proof (induction xs)
  case Nil
  then show ?case by simp
next
  case (Cons x xs)
  then show ?case
    by (cases xs) (auto simp: split_char_no_sep split_char_append_sep)
qed

lemma lstrip_by_idem [simp]: "lstrip_by p (lstrip_by p s) = lstrip_by p s"
  by (simp add: lstrip_by_def)

lemma hd_dropWhile_not: "dropWhile p s \<noteq> [] \<Longrightarrow> \<not> p (hd (dropWhile p s))"
  by (rule hd_dropWhile)

lemma dropWhile_idem_hd: "(s \<noteq> [] \<Longrightarrow> \<not> p (hd s)) \<Longrightarrow> dropWhile p s = s"
  by (cases s) auto

lemma rstrip_by_prefix: "\<exists>t. s = rstrip_by p s @ t"
proof -
  have "rev s = takeWhile p (rev s) @ dropWhile p (rev s)" by simp
  then have "s = rev (dropWhile p (rev s)) @ rev (takeWhile p (rev s))"
    by (metis rev_append rev_rev_ident)
  then show ?thesis unfolding rstrip_by_def by blast
qed

lemma rstrip_by_hd: "rstrip_by p s \<noteq> [] \<Longrightarrow> hd (rstrip_by p s) = hd s"
  using rstrip_by_prefix [of s p] by (metis hd_append)

lemma rstrip_by_last: "rstrip_by p s \<noteq> [] \<Longrightarrow> \<not> p (last (rstrip_by p s))"
  by (metis hd_dropWhile last_rev rev_is_Nil_conv rstrip_by_def)

lemma strip_by_hd: "strip_by p s \<noteq> [] \<Longrightarrow> \<not> p (hd (strip_by p s))"
  unfolding strip_by_def lstrip_by_def
  by (metis hd_dropWhile rstrip_by_def rstrip_by_hd dropWhile.simps(1) rev.simps(1))

lemma strip_by_last: "strip_by p s \<noteq> [] \<Longrightarrow> \<not> p (last (strip_by p s))"
  unfolding strip_by_def by (rule rstrip_by_last)

lemma strip_by_fix:
  assumes "s \<noteq> [] \<Longrightarrow> \<not> p (hd s)" and "s \<noteq> [] \<Longrightarrow> \<not> p (last s)"
  shows "strip_by p s = s"
proof (cases "s = []")
  case False
  with assms have "dropWhile p s = s" and "dropWhile p (rev s) = rev s"
    by (auto intro: dropWhile_idem_hd simp: hd_rev)
  then show ?thesis by (simp add: strip_by_def lstrip_by_def rstrip_by_def)
qed (simp add: strip_by_def lstrip_by_def rstrip_by_def)

lemma strip_by_idem [simp]: "strip_by p (strip_by p s) = strip_by p s"
  by (rule strip_by_fix) (simp_all add: strip_by_hd strip_by_last)

lemma strip_idem [simp]: "strip (strip s) = strip s"
  by (simp add: strip_def)

lemma set_strip_by: "set (strip_by p s) \<subseteq> set s"
proof -
  have "set (rstrip_by p t) \<subseteq> set t" for t
    using rstrip_by_prefix [of t p] by (metis Un_upper1 set_append)
  then show ?thesis
    unfolding strip_by_def lstrip_by_def by (meson set_dropWhileD subset_code(1) subset_trans)
qed

lemma strip_Nil [simp]: "strip [] = []"
  by (simp add: strip_def strip_by_def lstrip_by_def rstrip_by_def)

lemma replace_char_map:
  "replace_str [a] [b] s = map (\<lambda>c. if c = a then b else c) s"
  by (induction s) (simp_all add: replace_str.simps)

section \<open>Laws of dictionaries and sets\<close>

lemma set_sorted_set [simp]: "set (sorted_set xs) = set xs"
  by (simp add: sorted_set_def)

lemma distinct_sorted_set [simp]: "distinct (sorted_set xs)"
  by (simp add: sorted_set_def)

lemma sorted_sorted_set [simp]: "sorted (sorted_set xs)"
  by (simp add: sorted_set_def)

lemma sorted_set_Nil_iff [simp]: "sorted_set xs = [] \<longleftrightarrow> xs = []"
  by (metis set_empty set_sorted_set)

lemma set_list_diff [simp]: "set (list_diff xs ys) = set xs - set ys"
  by (auto simp: list_diff_def)

lemma set_list_inter [simp]: "set (list_inter xs ys) = set xs \<inter> set ys"
  by (auto simp: list_inter_def)

lemma list_diff_Nil_iff: "list_diff xs ys = [] \<longleftrightarrow> set xs \<subseteq> set ys"
  by (auto simp: list_diff_def filter_empty_conv)

lemma set_dict_set: "set (dict_set k v d) \<subseteq> insert (k, v) (set d)"
  by (induction d) auto

definition keyed :: "('a \<Rightarrow> 'k) \<Rightarrow> ('k, 'a) dict \<Rightarrow> bool" where
  "keyed key d \<longleftrightarrow> distinct (map fst d) \<and> (\<forall>(k, x) \<in> set d. key x = k)"

lemma keyed_Nil [simp]: "keyed key []"
  by (simp add: keyed_def)

lemma keyed_update: "keyed key d \<Longrightarrow> keyed key (dict_set (key x) x d)"
  using set_dict_set [of "key x" x d] distinct_update [of d "key x" x]
  by (auto simp: keyed_def)

lemma dict_of_key_snoc:
  "dict_of_key key (xs @ [x]) = dict_set (key x) x (dict_of_key key xs)"
  by (simp add: dict_of_key_def)

lemma dict_of_key_Nil [simp]: "dict_of_key key [] = []"
  by (simp add: dict_of_key_def)

lemma keyed_dict_of_key: "keyed key (dict_of_key key xs)"
  by (induction xs rule: rev_induct) (auto simp: dict_of_key_snoc keyed_update)

lemma keys_dict_of_key: "fst ` set (dict_of_key key xs) = key ` set xs"
  by (induction xs rule: rev_induct) (auto simp: dict_of_key_snoc dom_update)

lemma values_dict_of_key: "snd ` set (dict_of_key key xs) \<subseteq> set xs"
proof (induction xs rule: rev_induct)
  case (snoc x xs)
  have "set (dict_set (key x) x (dict_of_key key xs)) \<subseteq> insert (key x, x) (set (dict_of_key key xs))"
    by (rule set_dict_set)
  then have "snd ` set (dict_set (key x) x (dict_of_key key xs)) \<subseteq> insert x (snd ` set (dict_of_key key xs))"
    by force
  also have "\<dots> \<subseteq> insert x (set xs)"
    using snoc by (rule insert_mono)
  finally show ?case by (simp add: dict_of_key_snoc)
qed simp

lemma map_key_sorted_unique:
  "map key (sorted_unique key xs) = sort (map fst (dict_of_key key xs))"
proof -
  let ?d = "sort_key fst (dict_of_key key xs)"
  have "key x = k" if "(k, x) \<in> set ?d" for k x
    using that keyed_dict_of_key [of key xs] by (auto simp: keyed_def)
  then have "map (key \<circ> snd) ?d = map fst ?d"
    by (intro map_cong) auto
  moreover have "map fst ?d = sort (map fst (dict_of_key key xs))"
    by (rule properties_for_sort [symmetric]) (simp_all add: mset_map)
  ultimately show ?thesis by (simp add: sorted_unique_def)
qed

lemma sorted_unique_sorted: "sorted (map key (sorted_unique key xs))"
  by (simp add: map_key_sorted_unique)

lemma sorted_unique_distinct: "distinct (map key (sorted_unique key xs))"
  using keyed_dict_of_key [of key xs] by (simp add: map_key_sorted_unique keyed_def)

lemma sorted_unique_keys: "key ` set (sorted_unique key xs) = key ` set xs"
proof -
  have "key ` set (sorted_unique key xs) = set (map key (sorted_unique key xs))" by simp
  also have "\<dots> = key ` set xs"
    unfolding map_key_sorted_unique by (simp add: keys_dict_of_key)
  finally show ?thesis .
qed

lemma sorted_unique_subset: "set (sorted_unique key xs) \<subseteq> set xs"
  using values_dict_of_key [of key xs] by (auto simp: sorted_unique_def)

lemma sorted_unique_Nil_iff [simp]: "sorted_unique key xs = [] \<longleftrightarrow> xs = []"
  by (metis image_is_empty set_empty sorted_unique_keys)

lemma sorted_unique_set:
  assumes "inj key"
  shows "set (sorted_unique key xs) = set xs"
  using assms sorted_unique_keys [of key xs] by (simp add: inj_image_eq_iff)

section \<open>Paths as lists of components\<close>

lemma split_char_at: "split_char c (f @ c # t) = split_char c f @ split_char c t"
proof (induction f)
  case (Cons x f)
  then show ?case
    by (cases "x = c") (simp_all add: split_char_Cons_neq hd_append tl_append split: list.splits)
qed simp

lemma join_append: "xs \<noteq> [] \<Longrightarrow> ys \<noteq> [] \<Longrightarrow> join sep (xs @ ys) = join sep xs @ sep @ join sep ys"
  by (induction sep xs rule: join.induct) (auto simp: join_Cons)

lemma prefix_parts_iff:
  "startswith a (f @ [c]) \<or> a = f \<longleftrightarrow> (\<exists>rest. split_char c a = split_char c f @ rest)"
proof
  assume "startswith a (f @ [c]) \<or> a = f"
  then show "\<exists>rest. split_char c a = split_char c f @ rest"
    by (auto simp: startswith_iff split_char_at)
next
  assume "\<exists>rest. split_char c a = split_char c f @ rest"
  then obtain rest where r: "split_char c a = split_char c f @ rest" ..
  show "startswith a (f @ [c]) \<or> a = f"
  proof (cases "rest = []")
    case True
    with r show ?thesis by (metis append_Nil2 join_split_char)
  next
    case False
    have "a = join [c] (split_char c f @ rest)" using r by (metis join_split_char)
    also have "\<dots> = f @ [c] @ join [c] rest"
      using False by (simp add: join_append)
    finally show ?thesis by (simp add: startswith_iff)
  qed
qed

lemma enumerate_snd: "(\<exists>i. (i, x) \<in> set (enumerate n xs)) \<longleftrightarrow> x \<in> set xs"
proof -
  have "snd ` set (enumerate n xs) = set xs"
    by (metis list.set_map map_snd_enumerate)
  then show ?thesis by force
qed

lemma utf8_decode_encode [simp]: "utf8_decode (utf8_encode s) = Some s"
proof (induction s)
  case (Cons c s)
  have *: "(of_char c :: nat) < 256" by (simp add: of_char_def)
  show ?case
  proof (cases "(of_char c :: nat) < 128")
    case True
    then show ?thesis using Cons by (simp add: utf8_encode_def utf8_char_def Let_def)
  next
    case False
    let ?n = "of_char c :: nat"
    have d: "?n div 64 = 2 \<or> ?n div 64 = 3" using False * by linarith
    have k: "char_of (k * 64 + ?n mod 64) = c" if "?n div 64 = k" for k
      using that by (metis char_of_char div_mult_mod_eq)
    show ?thesis using Cons False d k [of 2] k [of 3] by (auto simp: utf8_encode_def utf8_char_def Let_def)
  qed
qed (simp add: utf8_encode_def)

lemma utf8_encode_inj: "utf8_encode a = utf8_encode b \<longleftrightarrow> a = b"
  by (metis option.inject utf8_decode_encode)

end
