(* ===== verification/Py_Json.thy ===== *)
theory Py_Json
  imports Py_Prelude
begin

text \<open>
  Decoded JSON documents as Python values, with what the sources use of them: equality (\<open>==\<close>, which
  identifies \<^verbatim>\<open>True\<close> with \<^verbatim>\<open>1\<close> and \<^verbatim>\<open>1\<close> with \<^verbatim>\<open>1.0\<close>), truth value, \<^verbatim>\<open>str()\<close>/\<^verbatim>\<open>repr()\<close> and
  \<^verbatim>\<open>json.dumps(value, ensure_ascii=False, sort_keys=True, separators=(",", ":"))\<close>.

  A finite float is carried as its shortest decimal \<^verbatim>\<open>repr\<close> together with its exact value: the sources
  never compute with the floats of a document, they only compare, print and classify them.
  An object is an association list in insertion order.

  The main result is that the canonical text identifies a document: on documents without floats two
  values print alike exactly when they are equal up to the order of object keys
  (\<open>json_dumps_eq_iff\<close>), through unique readability of the printed text (\<open>json_print_readable\<close>).
\<close>

section \<open>Values\<close>

datatype pyfloat = Finite string rat | PosInf | NegInf | NaN

datatype json =
    JNull
  | JBool bool
  | JInt int
  | JFloat pyfloat
  | JStr string
  | JList "json list"
  | JDict "(string \<times> json) list"

type_synonym jobject = "(string \<times> json) list"

fun is_str :: "json \<Rightarrow> bool" where
  "is_str (JStr _) = True"
| "is_str _ = False"

fun is_dict :: "json \<Rightarrow> bool" where
  "is_dict (JDict _) = True"
| "is_dict _ = False"

fun is_list :: "json \<Rightarrow> bool" where
  "is_list (JList _) = True"
| "is_list _ = False"

fun is_bool :: "json \<Rightarrow> bool" where
  "is_bool (JBool _) = True"
| "is_bool _ = False"

text \<open>\<^verbatim>\<open>bool(value)\<close>.\<close>

fun truthy :: "json \<Rightarrow> bool" where
  "truthy JNull = False"
| "truthy (JBool b) = b"
| "truthy (JInt i) = (i \<noteq> 0)"
| "truthy (JFloat f) = (case f of Finite _ r \<Rightarrow> r \<noteq> 0 | _ \<Rightarrow> True)"
| "truthy (JStr s) = (s \<noteq> [])"
| "truthy (JList xs) = (xs \<noteq> [])"
| "truthy (JDict d) = (d \<noteq> [])"

section \<open>Equality\<close>

fun num_val :: "json \<Rightarrow> rat option" where
  "num_val (JBool b) = Some (if b then 1 else 0)"
| "num_val (JInt i) = Some (of_int i)"
| "num_val (JFloat (Finite _ r)) = Some r"
| "num_val _ = None"

fun num_eq :: "json \<Rightarrow> json \<Rightarrow> bool" where
  "num_eq (JFloat PosInf) (JFloat PosInf) = True"
| "num_eq (JFloat NegInf) (JFloat NegInf) = True"
| "num_eq a b = (case (num_val a, num_val b) of (Some x, Some y) \<Rightarrow> x = y | _ \<Rightarrow> False)"

fun py_eq :: "json \<Rightarrow> json \<Rightarrow> bool"
  and py_eq_list :: "json list \<Rightarrow> json list \<Rightarrow> bool"
  and py_eq_items :: "jobject \<Rightarrow> jobject \<Rightarrow> bool" where
  "py_eq JNull JNull = True"
| "py_eq (JStr a) (JStr b) = (a = b)"
| "py_eq (JList xs) (JList ys) = py_eq_list xs ys"
| "py_eq (JDict d) (JDict e) = (length d = length e \<and> py_eq_items d e)"
| "py_eq a b = num_eq a b"
| "py_eq_list [] [] = True"
| "py_eq_list (x # xs) (y # ys) = (py_eq x y \<and> py_eq_list xs ys)"
| "py_eq_list _ _ = False"
| "py_eq_items [] e = True"
| "py_eq_items ((k, v) # d) e =
     ((case map_of e k of None \<Rightarrow> False | Some w \<Rightarrow> py_eq v w) \<and> py_eq_items d e)"

text \<open>\<^verbatim>\<open>value in items\<close> for a list.\<close>

definition py_in :: "json \<Rightarrow> json list \<Rightarrow> bool" where
  "py_in v items = list_ex (\<lambda>e. py_eq v e) items"

section \<open>Printing\<close>

definition hex_digit :: "nat \<Rightarrow> char" where
  "hex_digit n = (if n < 10 then char_of (48 + n) else char_of (87 + n))"

definition hex2 :: "nat \<Rightarrow> string" where
  "hex2 n = [hex_digit (n div 16), hex_digit (n mod 16)]"

subsection \<open>repr and str\<close>

definition repr_char :: "char \<Rightarrow> char \<Rightarrow> string" where
  "repr_char quote c = (let n = (of_char c :: nat) in
     if c = quote \<or> n = 92 then [CHR 0x5C, c]
     else if n = 10 then CHR 0x5C # ''n''
     else if n = 13 then CHR 0x5C # ''r''
     else if n = 9 then CHR 0x5C # ''t''
     else if n < 32 \<or> (127 \<le> n \<and> n \<le> 160) \<or> n = 173 then CHR 0x5C # ''x'' @ hex2 n
     else [c])"

definition repr_str :: "string \<Rightarrow> string" where
  "repr_str s =
     (let quote = (if CHR 0x27 \<in> set s \<and> CHR 0x22 \<notin> set s then CHR 0x22 else CHR 0x27)
      in quote # concat (map (repr_char quote) s) @ [quote])"

definition float_repr :: "pyfloat \<Rightarrow> string" where
  "float_repr f = (case f of Finite s _ \<Rightarrow> s | PosInf \<Rightarrow> ''inf'' | NegInf \<Rightarrow> ''-inf'' | NaN \<Rightarrow> ''nan'')"

fun py_repr :: "json \<Rightarrow> string" where
  "py_repr JNull = ''None''"
| "py_repr (JBool b) = (if b then ''True'' else ''False'')"
| "py_repr (JInt i) = str_of_int i"
| "py_repr (JFloat f) = float_repr f"
| "py_repr (JStr s) = repr_str s"
| "py_repr (JList xs) = ''['' @ join '', '' (map py_repr xs) @ '']''"
| "py_repr (JDict d) =
     ''{'' @ join '', '' (map (\<lambda>(k, v). repr_str k @ '': '' @ py_repr v) d) @ ''}''"

text \<open>\<^verbatim>\<open>str(value)\<close>, also what an f-string inserts.\<close>

definition py_str :: "json \<Rightarrow> string" where
  "py_str v = (case v of JStr s \<Rightarrow> s | _ \<Rightarrow> py_repr v)"

subsection \<open>Canonical JSON\<close>

definition dumps_char :: "char \<Rightarrow> string" where
  "dumps_char c = (let n = (of_char c :: nat) in
     if n = 34 \<or> n = 92 then [CHR 0x5C, c]
     else if n = 10 then CHR 0x5C # ''n''
     else if n = 13 then CHR 0x5C # ''r''
     else if n = 9 then CHR 0x5C # ''t''
     else if n = 12 then CHR 0x5C # ''f''
     else if n = 8 then CHR 0x5C # ''b''
     else if n < 32 then CHR 0x5C # ''u00'' @ hex2 n
     else [c])"

definition dumps_str :: "string \<Rightarrow> string" where
  "dumps_str s = CHR 0x22 # concat (map dumps_char s) @ [CHR 0x22]"

definition dumps_float :: "pyfloat \<Rightarrow> string" where
  "dumps_float f =
     (case f of Finite s _ \<Rightarrow> s | PosInf \<Rightarrow> ''Infinity'' | NegInf \<Rightarrow> ''-Infinity'' | NaN \<Rightarrow> ''NaN'')"

fun json_dumps :: "json \<Rightarrow> string" where
  "json_dumps JNull = ''null''"
| "json_dumps (JBool b) = (if b then ''true'' else ''false'')"
| "json_dumps (JInt i) = str_of_int i"
| "json_dumps (JFloat f) = dumps_float f"
| "json_dumps (JStr s) = dumps_str s"
| "json_dumps (JList xs) = ''['' @ join '','' (map json_dumps xs) @ '']''"
| "json_dumps (JDict d) =
     ''{'' @ join '','' (map (\<lambda>(k, s). dumps_str k @ '':'' @ s)
                        (sort_key fst (map (\<lambda>(k, v). (k, json_dumps v)) d))) @ ''}''"

section \<open>Canonical printing is injective up to key order\<close>

fun canon :: "json \<Rightarrow> json" where
  "canon (JList xs) = JList (map canon xs)"
| "canon (JDict d) = JDict (sort_key fst (map (\<lambda>(k, v). (k, canon v)) d))"
| "canon v = v"

fun json_print :: "json \<Rightarrow> string" where
  "json_print JNull = ''null''"
| "json_print (JBool b) = (if b then ''true'' else ''false'')"
| "json_print (JInt i) = str_of_int i"
| "json_print (JFloat f) = dumps_float f"
| "json_print (JStr s) = dumps_str s"
| "json_print (JList xs) = ''['' @ join '','' (map json_print xs) @ '']''"
| "json_print (JDict d) =
     ''{'' @ join '','' (map (\<lambda>(k, v). dumps_str k @ '':'' @ json_print v) d) @ ''}''"

fun float_free :: "json \<Rightarrow> bool" where
  "float_free (JFloat f) = False"
| "float_free (JList xs) = list_all float_free xs"
| "float_free (JDict d) = list_all (\<lambda>(k, v). float_free v) d"
| "float_free v = True"

lemma insort_key_map_snd:
  "insort_key fst (k, f v) (map (\<lambda>(k, v). (k, f v)) d) =
     map (\<lambda>(k, v). (k, f v)) (insort_key fst (k, v) d)"
  by (induction d) auto

lemma sort_key_map_snd:
  "sort_key fst (map (\<lambda>(k, v). (k, f v)) d) = map (\<lambda>(k, v). (k, f v)) (sort_key fst d)"
  by (induction d) (auto simp: insort_key_map_snd)

lemma json_dumps_canon: "json_dumps a = json_print (canon a)"
proof (induction a)
  case (JList xs)
  then have "map json_dumps xs = map json_print (map canon xs)" by simp
  then show ?case by (simp only: json_dumps.simps json_print.simps canon.simps)
next
  case (JDict d)
  then have "map (\<lambda>(k, v). (k, json_dumps v)) d = map (\<lambda>(k, v). (k, json_print v)) (map (\<lambda>(k, v). (k, canon v)) d)"
    by (fastforce simp: case_prod_unfold)
  then have "sort_key fst (map (\<lambda>(k, v). (k, json_dumps v)) d) =
      map (\<lambda>(k, v). (k, json_print v)) (sort_key fst (map (\<lambda>(k, v). (k, canon v)) d))"
    by (simp only: sort_key_map_snd)
  moreover have "map (\<lambda>(k, s). dumps_str k @ '':'' @ s) (map (\<lambda>(k, v). (k, json_print v)) e) =
      map (\<lambda>(k, v). dumps_str k @ '':'' @ json_print v) e" for e
    by auto
  ultimately show ?case by (simp only: json_dumps.simps json_print.simps canon.simps)
qed auto

lemma float_free_canon: "float_free a \<Longrightarrow> float_free (canon a)"
proof (induction a)
  case (JDict d)
  then show ?case by (fastforce simp: list_all_iff)
qed (auto simp: list_all_iff)

subsection \<open>Numbers\<close>

lemma str_of_nat_digits: "list_all is_ascii_digit (str_of_nat n)"
proof (induction n rule: str_of_nat.induct)
  case (1 n)
  have "is_ascii_digit (char_of (48 + k))" if "k < 10" for k :: nat
    using that by (simp add: is_ascii_digit_def)
  with 1 show ?case by (subst str_of_nat.simps) simp
qed

definition digits_val :: "string \<Rightarrow> nat" where
  "digits_val s = foldl (\<lambda>a c. 10 * a + (of_char c - 48)) 0 s"

lemma digits_val_str_of_nat: "digits_val (str_of_nat n) = n"
proof (induction n rule: str_of_nat.induct)
  case (1 n)
  show ?case
  proof (cases "n < 10")
    case False
    then have "digits_val (str_of_nat n) = 10 * digits_val (str_of_nat (n div 10)) + n mod 10"
      by (subst str_of_nat.simps) (simp add: digits_val_def)
    with 1 False show ?thesis by simp
  qed (subst str_of_nat.simps, simp add: digits_val_def)
qed

lemma str_of_nat_nonempty [simp]: "str_of_nat n \<noteq> []"
  by (subst str_of_nat.simps) simp

definition ends_value :: "string \<Rightarrow> bool" where
  "ends_value x = (x = [] \<or> hd x \<in> {CHR '','', CHR '']'', CHR ''}''})"

lemma ends_value_not_digit: "ends_value (c # x) \<Longrightarrow> \<not> is_ascii_digit c"
  by (auto simp: ends_value_def is_ascii_digit_def)

lemma takeWhile_str_of_nat:
  assumes "ends_value x"
  shows "takeWhile is_ascii_digit (str_of_nat n @ x) = str_of_nat n"
proof -
  have "takeWhile is_ascii_digit x = []"
    using assms by (cases x) (auto dest: ends_value_not_digit)
  then show ?thesis using str_of_nat_digits [of n]
    by (simp add: list_all_iff)
qed

lemma str_of_nat_readable:
  assumes "str_of_nat m @ x = str_of_nat n @ y" "ends_value x" "ends_value y"
  shows "m = n \<and> x = y"
proof -
  have "str_of_nat m = str_of_nat n"
    using assms by (metis takeWhile_str_of_nat)
  then have "m = n" by (metis digits_val_str_of_nat)
  with assms(1) show ?thesis by simp
qed

lemma hd_str_of_nat_digit: "is_ascii_digit (hd (str_of_nat n))"
  using str_of_nat_digits [of n] by (cases "str_of_nat n") auto

lemma str_of_int_readable:
  assumes "str_of_int i @ x = str_of_int j @ y" "ends_value x" "ends_value y"
  shows "i = j \<and> x = y"
proof -
  have minus: "\<not> is_ascii_digit CHR ''-''" by (simp add: is_ascii_digit_def)
  have "str_of_nat n @ z \<noteq> CHR ''-'' # w" for n z w
    using minus hd_str_of_nat_digit [of n] by (metis hd_append2 list.sel(1) str_of_nat_nonempty)
  with assms(1) have sign: "i < 0 \<longleftrightarrow> j < 0"
    by (metis append_Cons str_of_int_def)
  show ?thesis
  proof (cases "i < 0")
    case True
    with sign assms have "nat (- i) = nat (- j) \<and> x = y"
      by (intro str_of_nat_readable) (auto simp: str_of_int_def)
    with True sign show ?thesis by auto
  next
    case False
    with sign assms have "nat i = nat j \<and> x = y"
      by (intro str_of_nat_readable) (auto simp: str_of_int_def)
    with False sign show ?thesis by auto
  qed
qed

subsection \<open>Strings\<close>

definition hex_val :: "char \<Rightarrow> nat" where
  "hex_val c = (let n = of_char c in if n < 58 then n - 48 else n - 87)"

lemma hex_val_hex_digit: "n < 16 \<Longrightarrow> hex_val (hex_digit n) = n"
  by (auto simp: hex_val_def hex_digit_def)

text \<open>A left inverse of \<open>dumps_char\<close>: decodes the first character and returns the rest.\<close>

fun undump :: "string \<Rightarrow> char \<times> string" where
  "undump (b # e # s) =
     (if b \<noteq> CHR 0x5C then (b, e # s)
      else if e = CHR ''n'' then (CHR 0x0A, s)
      else if e = CHR ''r'' then (CHR 0x0D, s)
      else if e = CHR ''t'' then (CHR 0x09, s)
      else if e = CHR ''f'' then (CHR 0x0C, s)
      else if e = CHR ''b'' then (CHR 0x08, s)
      else if e = CHR ''u'' then (char_of (16 * hex_val (s ! 2) + hex_val (s ! 3)), drop 4 s)
      else (e, s))"
| "undump s = (hd s, tl s)"

lemma char_of_eqI: "of_char c = n \<Longrightarrow> c = char_of (n :: nat)"
  by auto

lemma undump_plain: "b \<noteq> CHR 0x5C \<Longrightarrow> undump (b # s) = (b, s)"
  by (cases s) auto

lemma of_char_eq_char: "of_char c = (of_char d :: nat) \<Longrightarrow> c = d"
  by simp

lemma undump_dumps_char: "undump (dumps_char c @ x) = (c, x)"
proof -
  define n :: nat where "n = of_char c"
  have cs: "n = 34 \<Longrightarrow> c = CHR 0x22" "n = 92 \<Longrightarrow> c = CHR 0x5C" "n = 10 \<Longrightarrow> c = CHR 0x0A"
    "n = 13 \<Longrightarrow> c = CHR 0x0D" "n = 9 \<Longrightarrow> c = CHR 0x09" "n = 12 \<Longrightarrow> c = CHR 0x0C" "n = 8 \<Longrightarrow> c = CHR 0x08"
    unfolding n_def by (rule of_char_eq_char, simp)+
  consider "c \<in> {CHR 0x22, CHR 0x5C, CHR 0x0A, CHR 0x0D, CHR 0x09, CHR 0x0C, CHR 0x08}"
    | "n < 32" "n \<notin> {10, 13, 9, 12, 8}" | "n \<ge> 32" "n \<noteq> 34" "n \<noteq> 92"
    using cs by (metis insertCI insertE not_less singletonD)
  then show ?thesis
  proof cases
    case 1
    then show ?thesis by (elim insertE) (simp_all add: dumps_char_def)
  next
    case 2
    then have "dumps_char c = CHR 0x5C # ''u00'' @ hex2 n"
      by (simp add: dumps_char_def Let_def n_def [symmetric])
    moreover have "16 * (n div 16) + n mod 16 = n" by (rule mult_div_mod_eq)
    moreover have "c = char_of n" by (simp add: n_def)
    ultimately show ?thesis using 2(1)
      by (simp add: hex2_def hex_val_hex_digit numeral_2_eq_2 numeral_3_eq_3)
  next
    case 3
    then have "dumps_char c = [c]"
      by (simp add: dumps_char_def Let_def n_def [symmetric])
    moreover have "c \<noteq> CHR 0x5C" using 3 n_def by auto
    ultimately show ?thesis by (simp add: undump_plain)
  qed
qed

lemma dumps_char_readable:
  "dumps_char c @ x = dumps_char d @ y \<Longrightarrow> c = d \<and> x = y"
  by (metis Pair_inject undump_dumps_char)

lemma dumps_char_no_quote: "dumps_char c @ x \<noteq> CHR 0x22 # y"
proof
  assume a: "dumps_char c @ x = CHR 0x22 # y"
  have "(c, x) = undump (CHR 0x22 # y)"
    by (simp only: a [symmetric] undump_dumps_char)
  also have "\<dots> = (CHR 0x22, y)" by (rule undump_plain) simp
  finally have "c = CHR 0x22" by simp
  with a show False by (simp add: dumps_char_def)
qed

lemma dumps_str_readable:
  assumes "dumps_str s @ x = dumps_str t @ y"
  shows "s = t \<and> x = y"
proof -
  have key: "s = t \<and> x = y"
    if "concat (map dumps_char s) @ CHR 0x22 # x = concat (map dumps_char t) @ CHR 0x22 # y" for s t
    using that
  proof (induction s arbitrary: t)
    case Nil
    then show ?case
      by (cases t) (simp_all add: dumps_char_no_quote [symmetric])
  next
    case (Cons c s)
    show ?case
    proof (cases t)
      case Nil
      with Cons.prems show ?thesis by (simp add: dumps_char_no_quote)
    next
      case (Cons d t')
      with Cons.prems have "c = d \<and> concat (map dumps_char s) @ CHR 0x22 # x = concat (map dumps_char t') @ CHR 0x22 # y"
        by (intro dumps_char_readable) simp
      with Cons.IH Cons show ?thesis by simp
    qed
  qed
  show ?thesis by (rule key) (use assms in \<open>simp add: dumps_str_def\<close>)
qed

subsection \<open>Unique readability\<close>

definition starts_value :: "string \<Rightarrow> bool" where
  "starts_value s \<longleftrightarrow> s \<noteq> [] \<and> hd s \<notin> {CHR '','', CHR '']'', CHR ''}''}"

lemma str_of_int_hd: "hd (str_of_int i) = CHR ''-'' \<or> is_ascii_digit (hd (str_of_int i))"
  by (simp add: str_of_int_def hd_str_of_nat_digit)

lemma str_of_int_nonempty [simp]: "str_of_int i \<noteq> []"
  by (simp add: str_of_int_def)

fun kind :: "json \<Rightarrow> nat" where
  "kind JNull = 0" | "kind (JBool True) = 1" | "kind (JBool False) = 2" | "kind (JInt _) = 3"
| "kind (JStr _) = 4" | "kind (JList _) = 5" | "kind (JDict _) = 6" | "kind (JFloat _) = 7"

definition kind_of_char :: "char \<Rightarrow> nat" where
  "kind_of_char c = (if c = CHR ''n'' then 0 else if c = CHR ''t'' then 1 else if c = CHR ''f'' then 2
     else if c = CHR 0x22 then 4 else if c = CHR ''['' then 5 else if c = CHR ''{'' then 6 else 3)"

lemma json_print_hd:
  "float_free v \<Longrightarrow> json_print v \<noteq> [] \<and> kind_of_char (hd (json_print v)) = kind v \<and> starts_value (json_print v)"
proof (cases v)
  case (JInt i)
  have num: "kind_of_char c = 3 \<and> c \<notin> {CHR '','', CHR '']'', CHR ''}''}" if "c = CHR ''-'' \<or> is_ascii_digit c" for c
    using that
  proof
    assume "is_ascii_digit c"
    then have "c \<notin> {CHR ''n'', CHR ''t'', CHR ''f'', CHR 0x22, CHR ''['', CHR ''{'', CHR '','', CHR '']'', CHR ''}''}"
      by (auto simp: is_ascii_digit_def)
    then show ?thesis by (simp add: kind_of_char_def)
  qed (simp add: kind_of_char_def)
  show ?thesis using JInt num [OF str_of_int_hd [of i]] by (simp add: starts_value_def)
next
  case (JBool b)
  then show ?thesis by (cases b) (simp_all add: kind_of_char_def starts_value_def)
qed (simp_all add: kind_of_char_def dumps_str_def starts_value_def)

lemma json_print_kind:
  assumes "json_print a @ x = json_print b @ y" "float_free a" "float_free b"
  shows "kind a = kind b"
  using assms json_print_hd [of a] json_print_hd [of b] by (metis hd_append2)

text \<open>Items separated by commas and closed by a bracket, for any uniquely readable items.\<close>

lemma join_readable:
  assumes "join '','' (map f xs) @ c # u = join '','' (map f ys) @ c # v"
    and "c = CHR '']'' \<or> c = CHR ''}''"
    and "\<And>a. a \<in> set xs \<union> set ys \<Longrightarrow> starts_value (f a)"
    and "\<And>a b x y. a \<in> set xs \<Longrightarrow> b \<in> set ys \<Longrightarrow> f a @ x = f b @ y \<Longrightarrow> ends_value x \<Longrightarrow> ends_value y \<Longrightarrow> g a = g b \<and> x = y"
  shows "map g xs = map g ys \<and> u = v"
  using assms
proof (induction xs arbitrary: ys)
  case Nil
  have "ys = []"
  proof (rule ccontr)
    assume "ys \<noteq> []"
    then obtain b bs where ys: "ys = b # bs" by (cases ys) auto
    with Nil.prems(3) have "starts_value (f b)" by simp
    moreover have "\<exists>z. join '','' (map f ys) = f b @ z" using ys by (cases bs) auto
    ultimately have "hd (join '','' (map f ys) @ c # v) \<notin> {CHR '','', CHR '']'', CHR ''}''}"
      by (auto simp: starts_value_def)
    with Nil.prems(1,2) show False by (metis append_Nil insertCI join.simps(1) list.map(1) list.sel(1))
  qed
  with Nil.prems show ?case by simp
next
  case (Cons a xs)
  have tail: "join '','' (map f (z # zs)) @ c # w = f z @ (if zs = [] then c # w else CHR '','' # join '','' (map f zs) @ c # w)" for z zs w
    by (cases zs) auto
  have ev: "ends_value (if zs = [] then c # w else CHR '','' # join '','' (map f zs) @ c # w)" for zs w
    using Cons.prems(2) by (auto simp: ends_value_def)
  show ?case
  proof (cases ys)
    case Nil
    have "starts_value (f a)" using Cons.prems(3) by simp
    then have "hd (join '','' (map f (a # xs)) @ c # u) \<notin> {CHR '','', CHR '']'', CHR ''}''}"
      unfolding tail by (simp add: starts_value_def)
    with Nil Cons.prems(1,2) show ?thesis by auto
  next
    case ys: (Cons b bs)
    from Cons.prems(1) have eq: "f a @ (if xs = [] then c # u else CHR '','' # join '','' (map f xs) @ c # u)
        = f b @ (if bs = [] then c # v else CHR '','' # join '','' (map f bs) @ c # v)"
      unfolding ys tail .
    have e: "g a = g b \<and> (if xs = [] then c # u else CHR '','' # join '','' (map f xs) @ c # u)
        = (if bs = [] then c # v else CHR '','' # join '','' (map f bs) @ c # v)"
      by (rule Cons.prems(4) [OF _ _ eq ev ev]) (simp_all add: ys)
    show ?thesis
    proof (cases "xs = [] \<or> bs = []")
      case True
      with e Cons.prems(2) show ?thesis unfolding ys by (auto split: if_splits)
    next
      case False
      with e have "join '','' (map f xs) @ c # u = join '','' (map f bs) @ c # v" by simp
      then have "map g xs = map g bs \<and> u = v"
      proof (rule Cons.IH)
        show "starts_value (f a)" if "a \<in> set xs \<union> set bs" for a
          using that Cons.prems(3) ys by auto
        show "g a = g b \<and> x = y" if "a \<in> set xs" "b \<in> set bs" "f a @ x = f b @ y" "ends_value x" "ends_value y" for a b x y
          by (rule Cons.prems(4) [OF _ _ that(3-5)]) (use that ys in simp_all)
      qed (rule Cons.prems(2))
      with e show ?thesis unfolding ys by simp
    qed
  qed
qed

lemma json_print_readable:
  assumes "json_print a @ x = json_print b @ y" "float_free a" "float_free b"
    "ends_value x" "ends_value y"
  shows "a = b \<and> x = y"
  using assms
proof (induction a arbitrary: b x y)
  case JNull
  from json_print_kind [OF JNull.prems(1-3)] have "b = JNull"
    by (cases b rule: kind.cases) auto
  with JNull show ?case by simp
next
  case (JBool t)
  from json_print_kind [OF JBool.prems(1-3)] have "b = JBool t"
    by (cases t; cases b rule: kind.cases) auto
  with JBool show ?case by simp
next
  case (JInt i)
  from json_print_kind [OF JInt.prems(1-3)] obtain j where "b = JInt j"
    by (cases b rule: kind.cases) auto
  with JInt str_of_int_readable [of i x j y] show ?case by simp
next
  case (JStr s)
  from json_print_kind [OF JStr.prems(1-3)] obtain t where "b = JStr t"
    by (cases b rule: kind.cases) auto
  with JStr dumps_str_readable [of s x t y] show ?case by simp
next
  case (JList xs)
  from json_print_kind [OF JList.prems(1-3)] obtain ys where b: "b = JList ys"
    by (cases b rule: kind.cases) auto
  have "map id xs = map id ys \<and> x = y"
  proof (rule join_readable [where f = json_print and c = "CHR '']''"])
    show "join '','' (map json_print xs) @ CHR '']'' # x = join '','' (map json_print ys) @ CHR '']'' # y"
      using JList.prems(1) b by simp
    show "starts_value (json_print a)" if "a \<in> set xs \<union> set ys" for a
      using that JList.prems(2,3) b json_print_hd [of a] by (auto simp: list_all_iff)
    show "id a = id d \<and> u = v"
      if "a \<in> set xs" "d \<in> set ys" "json_print a @ u = json_print d @ v" "ends_value u" "ends_value v" for a d u v
      using JList.IH [OF that(1,3) _ _ that(4,5)] that(1,2) JList.prems(2,3) b by (simp add: list_all_iff)
  qed simp
  with b show ?case by simp
next
  case (JDict d)
  from json_print_kind [OF JDict.prems(1-3)] obtain e where b: "b = JDict e"
    by (cases b rule: kind.cases) auto
  let ?f = "\<lambda>(k, v). dumps_str k @ '':'' @ json_print v"
  have "map id d = map id e \<and> x = y"
  proof (rule join_readable [where f = ?f and c = "CHR ''}''"])
    show "join '','' (map ?f d) @ CHR ''}'' # x = join '','' (map ?f e) @ CHR ''}'' # y"
      using JDict.prems(1) b by simp
    show "starts_value (?f a)" for a
      by (cases a) (simp add: starts_value_def dumps_str_def)
    show "id a = id c \<and> u = v"
      if mem: "a \<in> set d" "c \<in> set e" and eq: "?f a @ u = ?f c @ v" and ev: "ends_value u" "ends_value v" for a c u v
    proof -
      obtain k w k' w' where a: "a = (k, w)" and c: "c = (k', w')" by (cases a; cases c)
      from eq have "dumps_str k @ CHR '':'' # json_print w @ u = dumps_str k' @ CHR '':'' # json_print w' @ v"
        by (simp add: a c)
      then have k: "k = k'" and w: "json_print w @ u = json_print w' @ v"
        using dumps_str_readable by blast+
      have "float_free w" "float_free w'"
        using mem a c b JDict.prems(2,3) by (auto simp: list_all_iff)
      then have "w = w' \<and> u = v"
        by (intro JDict.IH [OF mem(1) _ w _ _ ev]) (simp_all add: a)
      with k a c show ?thesis by simp
    qed
  qed simp
  with b show ?case by simp
qed simp

lemma json_dumps_eq_iff:
  assumes "float_free a" "float_free b"
  shows "json_dumps a = json_dumps b \<longleftrightarrow> canon a = canon b"
proof
  assume "json_dumps a = json_dumps b"
  then have "json_print (canon a) @ [] = json_print (canon b) @ []" by (simp add: json_dumps_canon)
  then show "canon a = canon b"
    using json_print_readable [of "canon a" "[]" "canon b" "[]"] assms
    by (simp add: float_free_canon ends_value_def)
qed (simp add: json_dumps_canon)


end
