(* ===== verification/Json_Contract.thy ===== *)
theory Json_Contract
  imports Py_Json
begin

text \<open>
  Model of \<^verbatim>\<open>scripts/agent/json_contract.py\<close>: strict JSON objects, the JSON pointer of a \<^verbatim>\<open>$ref\<close>,
  the fail-closed schema check \<open>ensure_supported_schema\<close> and the validator \<open>validate_instance\<close>.

  \<^item> \<open>py_error\<close> lists the exceptions these functions raise. \<open>TypeError\<close> is what CPython raises when
    a keyword whose value is \<^verbatim>\<open>null\<close> is iterated or an unhashable value is looked up in a set.
  \<^item> The validator recurses through \<^verbatim>\<open>$ref\<close>, so a cyclic schema never returns in Python but ends in
    \<^verbatim>\<open>RecursionError\<close>. The model takes the number of stack frames left as its first number argument
    and returns \<open>RecursionError\<close> when it reaches 0. \<open>validate_instance_mono\<close> shows that more frames
    never change a result, \<open>validate_instance_terminates\<close> that a well-founded schema has enough frames,
    \<open>ref_free_terminates\<close> that \<open>size schema + 1\<close> frames are enough for a schema without \<^verbatim>\<open>$ref\<close>.
  \<^item> Patterns are data of a schema; what \<^verbatim>\<open>re.compile\<close> and \<^verbatim>\<open>re.search\<close> say of them is the parameter
    \<open>re_env\<close>.
\<close>

section \<open>Exceptions, strict objects, pointers\<close>

datatype py_error =
    DuplicateKeyError string
  | JSONDecodeError string
  | UnsupportedSchemaError string
  | TypeError
  | AttributeError
  | KeyError string
  | RecursionError
  | OSError string
  | ValueError string
  | RuntimeError string

definition ANNOTATION_KEYS :: "string list" where
  "ANNOTATION_KEYS = [''$schema'', ''$id'', ''title'', ''description'', ''default'', ''examples'']"

definition ASSERTION_KEYS :: "string list" where
  "ASSERTION_KEYS = [''$ref'', ''allOf'', ''type'', ''required'', ''additionalProperties'',
     ''properties'', ''definitions'', ''enum'', ''minLength'', ''maxLength'', ''pattern'',
     ''minItems'', ''maxItems'', ''uniqueItems'', ''items'', ''additionalItems'']"

definition SUPPORTED_KEYS :: "string list" where
  "SUPPORTED_KEYS = ANNOTATION_KEYS @ ASSERTION_KEYS"

definition SUPPORTED_TYPES :: "string list" where
  "SUPPORTED_TYPES = [''object'', ''array'', ''string'', ''boolean'', ''null'']"

definition strict_object :: "(string \<times> json) list \<Rightarrow> py_error + jobject" where
  "strict_object pairs =
     foldE (\<lambda>result (key, value).
        if key \<in> set (keys_of result) then Inl (DuplicateKeyError (''duplicate JSON key: '' @ key))
        else Inr (dict_set key value result)) [] pairs"

definition reject_constant :: "string \<Rightarrow> py_error + json" where
  "reject_constant value = Inl (JSONDecodeError (''non-standard JSON constant: '' @ value))"

text \<open>\<^verbatim>\<open>json.loads\<close> with its hooks is the parameter \<open>json_loads\<close>.\<close>

definition loads_json_strict ::
  "(((string \<times> json) list \<Rightarrow> py_error + jobject) \<Rightarrow> (string \<Rightarrow> py_error + json) \<Rightarrow> string \<Rightarrow> py_error + json)
     \<Rightarrow> string \<Rightarrow> py_error + json" where
  "loads_json_strict json_loads raw = json_loads strict_object reject_constant raw"

text \<open>\<^verbatim>\<open>d.get(key)\<close>.\<close>

definition sget :: "jobject \<Rightarrow> string \<Rightarrow> json" where
  "sget d k = (case map_of d k of None \<Rightarrow> JNull | Some v \<Rightarrow> v)"

definition unescape_token :: "string \<Rightarrow> string" where
  "unescape_token token = replace_str ''~0'' ''~'' (replace_str ''~1'' ''/'' token)"

definition schema_pointer :: "jobject \<Rightarrow> string \<Rightarrow> py_error + jobject" where
  "schema_pointer doc_root ref =
     (if \<not> startswith ref ''#/'' then
        Inl (UnsupportedSchemaError (''only local JSON pointers are supported: '' @ ref))
      else bindE (foldE (\<lambda>current token.
             case current of
               JDict d \<Rightarrow> (case map_of d (unescape_token token) of
                   None \<Rightarrow> Inl (UnsupportedSchemaError (''unresolvable schema reference: '' @ ref))
                 | Some v \<Rightarrow> Inr v)
             | _ \<Rightarrow> Inl (UnsupportedSchemaError (''unresolvable schema reference: '' @ ref)))
           (JDict doc_root) (split_char CHR ''/'' (drop 2 ref)))
        (\<lambda>current. case current of
             JDict d \<Rightarrow> Inr d
           | _ \<Rightarrow> Inl (UnsupportedSchemaError (''schema reference does not resolve to an object: '' @ ref))))"

section \<open>The fail-closed schema check\<close>

record re_env =
  re_error :: "string \<Rightarrow> string option"
  re_found :: "string \<Rightarrow> string \<Rightarrow> bool"

fun nonneg_int :: "json \<Rightarrow> bool" where
  "nonneg_int (JInt i) = (0 \<le> i)"
| "nonneg_int _ = False"

definition ensure_type :: "string \<Rightarrow> json \<Rightarrow> py_error + unit" where
  "ensure_type path expected_type =
     (case expected_type of
        JNull \<Rightarrow> Inr ()
      | JList _ \<Rightarrow> Inl TypeError
      | JDict _ \<Rightarrow> Inl TypeError
      | JStr s \<Rightarrow> raise_when (s \<notin> set SUPPORTED_TYPES)
                  (UnsupportedSchemaError (path @ ''.type is unsupported: '' @ s))
      | v \<Rightarrow> Inl (UnsupportedSchemaError (path @ ''.type is unsupported: '' @ py_str v)))"

definition ensure_required :: "string \<Rightarrow> json \<Rightarrow> py_error + unit" where
  "ensure_required path required =
     (case required of
        JNull \<Rightarrow> Inr ()
      | JList items \<Rightarrow> raise_when (list_ex (\<lambda>item. \<not> is_str item) items)
                  (UnsupportedSchemaError (path @ ''.required must be an array of strings''))
      | _ \<Rightarrow> Inl (UnsupportedSchemaError (path @ ''.required must be an array of strings'')))"

definition ensure_sizes :: "string \<Rightarrow> jobject \<Rightarrow> py_error + unit" where
  "ensure_sizes path d =
     forE (\<lambda>keyword. raise_when (sget d keyword \<noteq> JNull \<and> \<not> nonneg_int (sget d keyword))
             (UnsupportedSchemaError (path @ ''.'' @ keyword @ '' must be a non-negative integer'')))
       [''minLength'', ''maxLength'', ''minItems'', ''maxItems'']"

definition ensure_pattern :: "re_env \<Rightarrow> string \<Rightarrow> json \<Rightarrow> py_error + unit" where
  "ensure_pattern env path pattern =
     (case pattern of
        JNull \<Rightarrow> Inr ()
      | JStr p \<Rightarrow> (case re_error env p of
            None \<Rightarrow> Inr ()
          | Some exc \<Rightarrow> Inl (UnsupportedSchemaError (path @ ''.pattern is invalid: '' @ exc)))
      | _ \<Rightarrow> Inl (UnsupportedSchemaError (path @ ''.pattern must be a string'')))"

text \<open>The checks of one schema node that do not descend, in the order of the source.\<close>

definition ensure_keywords :: "re_env \<Rightarrow> string \<Rightarrow> jobject \<Rightarrow> py_error + unit" where
  "ensure_keywords env path d =
     (let unknown = sort (list_diff (keys_of d) SUPPORTED_KEYS) in
      bindE (raise_when (unknown \<noteq> [])
               (UnsupportedSchemaError (path @ '': unsupported schema keyword(s): '' @ join '', '' unknown))) (\<lambda>_.
      bindE (raise_when (sget d ''$ref'' \<noteq> JNull \<and> \<not> is_str (sget d ''$ref''))
               (UnsupportedSchemaError (path @ ''.$ref must be a string''))) (\<lambda>_.
      bindE (ensure_type path (sget d ''type'')) (\<lambda>_.
      bindE (ensure_required path (sget d ''required'')) (\<lambda>_.
      bindE (raise_when (sget d ''additionalProperties'' \<noteq> JNull \<and> \<not> is_bool (sget d ''additionalProperties''))
               (UnsupportedSchemaError (path @ ''.additionalProperties must be boolean''))) (\<lambda>_.
      bindE (raise_when (sget d ''enum'' \<noteq> JNull \<and> \<not> is_list (sget d ''enum''))
               (UnsupportedSchemaError (path @ ''.enum must be an array''))) (\<lambda>_.
      bindE (ensure_sizes path d) (\<lambda>_.
      bindE (ensure_pattern env path (sget d ''pattern'')) (\<lambda>_.
      raise_when (sget d ''uniqueItems'' \<noteq> JNull \<and> \<not> is_bool (sget d ''uniqueItems''))
               (UnsupportedSchemaError (path @ ''.uniqueItems must be boolean'')))))))))))"

definition index_path :: "string \<Rightarrow> nat \<Rightarrow> string" where
  "index_path path i = path @ ''['' @ str_of_nat i @ '']''"

lemma size_json_child [simp]: "(k, v) \<in> set d \<Longrightarrow> size v < size (JDict d)"
proof -
  assume "(k, v) \<in> set d"
  then have "size_prod (\<lambda>_. 0) size (k, v) \<le> size_list (size_prod (\<lambda>_. 0) size) d"
    by (rule size_list_estimation') simp
  then show ?thesis by simp
qed

lemma size_json_item [simp]: "x \<in> set xs \<Longrightarrow> size x < size (JList xs)"
  using size_list_estimation' [of x xs "size x" size] by simp

lemma size_sget: "sget d k \<noteq> JNull \<Longrightarrow> size (sget d k) < size (JDict d)"
  by (auto simp del: json.size simp: sget_def split: option.splits dest!: map_of_SomeD)

lemma size_sget_item: "sget d k = JList xs \<Longrightarrow> x \<in> set xs \<Longrightarrow> size x < size (JDict d)"
  using size_sget [of d k] size_list_estimation' [of x xs "size x" size] by simp

lemma size_sget_child: "sget d k = JDict e \<Longrightarrow> (n, x) \<in> set e \<Longrightarrow> size x < size (JDict d)"
  using size_sget [of d k] size_json_child [of n x e] by simp

lemma size_sget_dict: "sget d k = JDict e \<Longrightarrow> size (JDict e) < size (JDict d)"
  using size_sget [of d k] by simp

function ensure_supported_schema :: "re_env \<Rightarrow> string \<Rightarrow> json \<Rightarrow> py_error + unit" where
  "ensure_supported_schema env path schema =
     (case schema of
        JDict d \<Rightarrow>
          bindE (ensure_keywords env path d) (\<lambda>_.
          bindE (case sget d ''properties'' of
                   JNull \<Rightarrow> Inr ()
                 | JDict properties \<Rightarrow> forE (\<lambda>(name, child).
                     ensure_supported_schema env (path @ ''.properties.'' @ name) child) properties
                 | _ \<Rightarrow> Inl (UnsupportedSchemaError (path @ ''.properties must be an object''))) (\<lambda>_.
          bindE (case sget d ''definitions'' of
                   JNull \<Rightarrow> Inr ()
                 | JDict definitions \<Rightarrow> forE (\<lambda>(name, child).
                     ensure_supported_schema env (path @ ''.definitions.'' @ name) child) definitions
                 | _ \<Rightarrow> Inl (UnsupportedSchemaError (path @ ''.definitions must be an object''))) (\<lambda>_.
          bindE (case sget d ''items'' of
                   JNull \<Rightarrow> Inr ()
                 | JDict items \<Rightarrow> ensure_supported_schema env (path @ ''.items'') (JDict items)
                 | JList items \<Rightarrow> forE (\<lambda>(index, child).
                     ensure_supported_schema env (index_path (path @ ''.items'') index) child) (enumerate 0 items)
                 | _ \<Rightarrow> Inl (UnsupportedSchemaError
                          (path @ ''.items must be an object or an array of schema objects''))) (\<lambda>_.
          bindE (raise_when (sget d ''additionalItems'' \<noteq> JNull \<and> \<not> is_bool (sget d ''additionalItems''))
                   (UnsupportedSchemaError (path @ ''.additionalItems must be boolean''))) (\<lambda>_.
          (case sget d ''allOf'' of
             JNull \<Rightarrow> Inr ()
           | JList all_of \<Rightarrow> forE (\<lambda>(index, child).
               ensure_supported_schema env (index_path (path @ ''.allOf'') index) child) (enumerate 0 all_of)
           | _ \<Rightarrow> Inl (UnsupportedSchemaError (path @ ''.allOf must be an array''))))))))
      | _ \<Rightarrow> Inl (UnsupportedSchemaError (path @ '': schema node must be an object'')))"
  by pat_completeness auto
termination
  by (relation "measure (\<lambda>(env, path, schema). size schema)")
     (auto simp del: json.size dest: size_sget_child size_sget_dict
        intro: size_sget_item [OF _ nth_mem] simp: in_set_enumerate_eq)

declare ensure_supported_schema.simps [simp del]

section \<open>The validator\<close>

record violation =
  v_path :: string
  v_message :: string

definition violation_key :: "violation \<Rightarrow> string \<times> string" where
  "violation_key v = (v_path v, v_message v)"

definition mk_violation :: "string \<Rightarrow> string \<Rightarrow> violation" where
  "mk_violation path message = \<lparr>v_path = path, v_message = message\<rparr>"

definition type_matches :: "json \<Rightarrow> string \<Rightarrow> py_error + bool" where
  "type_matches inst expected =
     (if expected = ''object'' then Inr (is_dict inst)
      else if expected = ''array'' then Inr (is_list inst)
      else if expected = ''string'' then Inr (is_str inst)
      else if expected = ''boolean'' then Inr (is_bool inst)
      else if expected = ''null'' then Inr (inst = JNull)
      else Inl (UnsupportedSchemaError (''unsupported schema type: '' @ expected)))"

definition canonical_item :: "json \<Rightarrow> string" where
  "canonical_item v = json_dumps v"

definition findings_enum :: "json \<Rightarrow> jobject \<Rightarrow> string \<Rightarrow> violation list" where
  "findings_enum inst d path =
     (case sget d ''enum'' of
        JList enum \<Rightarrow> if py_in inst enum then []
                     else [mk_violation path (''value must be one of '' @ py_repr (JList enum))]
      | _ \<Rightarrow> [])"

text \<open>\<^verbatim>\<open>sorted(schema.get("required", []))\<close> and the missing fields; \<^verbatim>\<open>sorted(None)\<close> raises.\<close>

fun str_val :: "json \<Rightarrow> string" where
  "str_val (JStr s) = s"
| "str_val v = py_str v"

definition findings_required :: "jobject \<Rightarrow> jobject \<Rightarrow> string \<Rightarrow> py_error + violation list" where
  "findings_required obj d path =
     (case map_of d ''required'' of
        None \<Rightarrow> Inr []
      | Some (JList required) \<Rightarrow>
          Inr (map (\<lambda>field. mk_violation (path @ ''.'' @ field) ''required field is missing'')
             (filter (\<lambda>field. field \<notin> set (keys_of obj)) (sort (map str_val required))))
      | Some _ \<Rightarrow> Inl TypeError)"

text \<open>The size and uniqueness checks of an array.\<close>

fun duplicate_findings :: "string \<Rightarrow> nat \<Rightarrow> string list \<Rightarrow> string list \<Rightarrow> violation list" where
  "duplicate_findings path i seen [] = []"
| "duplicate_findings path i seen (c # cs) =
     (if c \<in> set seen then [mk_violation (index_path path i) ''duplicate array item''] else [])
     @ duplicate_findings path (Suc i) (c # seen) cs"

definition findings_list :: "json list \<Rightarrow> jobject \<Rightarrow> string \<Rightarrow> violation list" where
  "findings_list xs d path =
     (case sget d ''minItems'' of
        JInt m \<Rightarrow> if int (length xs) < m
                  then [mk_violation path (''must contain at least '' @ str_of_int m @ '' item(s)'')] else []
      | _ \<Rightarrow> []) @
     (case sget d ''maxItems'' of
        JInt m \<Rightarrow> if int (length xs) > m
                  then [mk_violation path (''must contain at most '' @ str_of_int m @ '' item(s)'')] else []
      | _ \<Rightarrow> []) @
     (if sget d ''uniqueItems'' = JBool True
      then duplicate_findings path 0 [] (map canonical_item xs) else [])"

definition findings_str :: "re_env \<Rightarrow> string \<Rightarrow> jobject \<Rightarrow> string \<Rightarrow> violation list" where
  "findings_str env s d path =
     (case sget d ''minLength'' of
        JInt m \<Rightarrow> if int (length s) < m
                  then [mk_violation path (''length must be at least '' @ str_of_int m)] else []
      | _ \<Rightarrow> []) @
     (case sget d ''maxLength'' of
        JInt m \<Rightarrow> if int (length s) > m
                  then [mk_violation path (''length must be at most '' @ str_of_int m)] else []
      | _ \<Rightarrow> []) @
     (case sget d ''pattern'' of
        JStr p \<Rightarrow> if re_found env p s then []
                  else [mk_violation path (''value does not match pattern '' @ p)]
      | _ \<Rightarrow> [])"

text \<open>
  The parts of the validator, over the recursive call \<open>rec instance schema path\<close>: the target of
  \<^verbatim>\<open>$ref\<close>, the children of \<^verbatim>\<open>allOf\<close>, the members of an object, the items of an array.
\<close>

type_synonym recursor = "json \<Rightarrow> json \<Rightarrow> string \<Rightarrow> py_error + violation list"

definition findings_ref :: "recursor \<Rightarrow> jobject \<Rightarrow> json \<Rightarrow> jobject \<Rightarrow> string \<Rightarrow> py_error + violation list" where
  "findings_ref rec doc_root inst d path =
     (case sget d ''$ref'' of
        JNull \<Rightarrow> Inr []
      | JStr ref \<Rightarrow> bindE (schema_pointer doc_root ref) (\<lambda>target. rec inst (JDict target) path)
      | _ \<Rightarrow> Inl AttributeError)"

definition findings_all_of :: "recursor \<Rightarrow> json \<Rightarrow> jobject \<Rightarrow> string \<Rightarrow> py_error + violation list" where
  "findings_all_of rec inst d path =
     (case map_of d ''allOf'' of
        None \<Rightarrow> Inr []
      | Some (JList children) \<Rightarrow> concatE (\<lambda>child. rec inst child path) children
      | Some _ \<Rightarrow> Inl TypeError)"

definition type_ok :: "json \<Rightarrow> jobject \<Rightarrow> py_error + bool" where
  "type_ok inst d = (case sget d ''type'' of JStr expected \<Rightarrow> type_matches inst expected | _ \<Rightarrow> Inr True)"

text \<open>\<^verbatim>\<open>key in properties\<close> with its schema, and \<^verbatim>\<open>schema.get("additionalProperties", True)\<close>.\<close>

definition property_schema :: "jobject \<Rightarrow> string \<Rightarrow> py_error + json option" where
  "property_schema d key =
     (case map_of d ''properties'' of
        None \<Rightarrow> Inr None
      | Some (JDict properties) \<Rightarrow> Inr (map_of properties key)
      | Some _ \<Rightarrow> Inl TypeError)"

definition additional_allowed :: "jobject \<Rightarrow> bool" where
  "additional_allowed d =
     truthy (case map_of d ''additionalProperties'' of None \<Rightarrow> JBool True | Some a \<Rightarrow> a)"

definition findings_member :: "recursor \<Rightarrow> jobject \<Rightarrow> jobject \<Rightarrow> string \<Rightarrow> string \<Rightarrow> py_error + violation list" where
  "findings_member rec obj d path key =
     bindE (property_schema d key) (\<lambda>child.
       case child of
         Some c \<Rightarrow> rec (sget obj key) c (path @ ''.'' @ key)
       | None \<Rightarrow> if additional_allowed d then Inr []
                 else Inr [mk_violation (path @ ''.'' @ key) ''unexpected field''])"

definition findings_object :: "recursor \<Rightarrow> jobject \<Rightarrow> jobject \<Rightarrow> string \<Rightarrow> py_error + violation list" where
  "findings_object rec obj d path =
     bindE (findings_required obj d path) (\<lambda>missing.
     bindE (concatE (findings_member rec obj d path) (sort (keys_of obj))) (\<lambda>members.
     Inr (missing @ members)))"

definition findings_items :: "recursor \<Rightarrow> json list \<Rightarrow> jobject \<Rightarrow> string \<Rightarrow> py_error + violation list" where
  "findings_items rec xs d path =
     (case sget d ''items'' of
        JDict items \<Rightarrow> concatE (\<lambda>(index, value). rec value (JDict items) (index_path path index)) (enumerate 0 xs)
      | JList items \<Rightarrow>
          bindE (concatE (\<lambda>(index, child, value). rec value child (index_path path index))
                   (enumerate 0 (zip items xs))) (\<lambda>fs.
          Inr (fs @ (if length xs > length items \<and> sget d ''additionalItems'' = JBool False
                     then [mk_violation (index_path path (length items)) ''additional array item is not allowed'']
                     else [])))
      | _ \<Rightarrow> Inr [])"

definition findings_array :: "recursor \<Rightarrow> json list \<Rightarrow> jobject \<Rightarrow> string \<Rightarrow> py_error + violation list" where
  "findings_array rec xs d path =
     bindE (findings_items rec xs d path) (\<lambda>item_findings. Inr (findings_list xs d path @ item_findings))"

definition validate_node :: "re_env \<Rightarrow> recursor \<Rightarrow> jobject \<Rightarrow> json \<Rightarrow> jobject \<Rightarrow> string \<Rightarrow> py_error + violation list" where
  "validate_node env rec doc_root inst d path =
     bindE (findings_ref rec doc_root inst d path) (\<lambda>ref_findings.
     bindE (findings_all_of rec inst d path) (\<lambda>all_findings.
     bindE (type_ok inst d) (\<lambda>matches.
     if \<not> matches then Inr [mk_violation path (''expected '' @ py_str (sget d ''type''))]
     else
       bindE (case inst of JDict obj \<Rightarrow> findings_object rec obj d path | _ \<Rightarrow> Inr []) (\<lambda>object_findings.
       bindE (case inst of JList xs \<Rightarrow> findings_array rec xs d path | _ \<Rightarrow> Inr []) (\<lambda>array_findings.
       Inr (sorted_unique violation_key
             (ref_findings @ all_findings @ findings_enum inst d path @ object_findings @ array_findings
              @ (case inst of JStr s \<Rightarrow> findings_str env s d path | _ \<Rightarrow> []))))))))"

text \<open>\<open>root_schema\<close> is \<^verbatim>\<open>root_schema or {}\<close>; the first number is the stack depth left.\<close>

fun validate_instance ::
  "re_env \<Rightarrow> nat \<Rightarrow> json \<Rightarrow> json \<Rightarrow> jobject \<Rightarrow> string \<Rightarrow> py_error + violation list" where
  "validate_instance env 0 inst schema root_schema path = Inl RecursionError"
| "validate_instance env (Suc n) inst schema root_schema path =
     bindE (ensure_supported_schema env path schema) (\<lambda>_.
       case schema of
         JDict d \<Rightarrow>
           (let doc_root = (if root_schema = [] then d else root_schema) in
            validate_node env (\<lambda>inst' schema' path'. validate_instance env n inst' schema' doc_root path')
              doc_root inst d path)
       | _ \<Rightarrow> Inl TypeError)"

section \<open>Strict objects\<close>

lemma update_fresh: "k \<notin> fst ` set d \<Longrightarrow> dict_set k v d = d @ [(k, v)]"
  by (induction d) auto

lemma strict_object_fold:
  "foldE (\<lambda>result (key, value).
        if key \<in> set (keys_of result) then Inl (DuplicateKeyError (''duplicate JSON key: '' @ key))
        else Inr (dict_set key value result)) acc pairs = Inr d \<longleftrightarrow>
     distinct (map fst pairs) \<and> fst ` set acc \<inter> fst ` set pairs = {} \<and> d = acc @ pairs"
proof (induction pairs arbitrary: acc)
  case (Cons p pairs)
  then show ?case
    by (cases p) (auto simp: bindE_eq_Inr update_fresh split: if_splits)
qed auto

text \<open>
  The object hook of the strict loader accepts a list of pairs exactly when no key occurs twice,
  and then the object is that list of pairs, in order and with nothing dropped.
\<close>

lemma strict_object_iff: "strict_object pairs = Inr d \<longleftrightarrow> distinct (map fst pairs) \<and> d = pairs"
  unfolding strict_object_def strict_object_fold by auto

section \<open>Shape of the result\<close>

lemma inj_violation_key: "inj violation_key"
  by (rule injI) (simp add: violation_key_def)

lemma validate_node_sorted:
  assumes "validate_node env rec r inst d path = Inr fs"
  shows "sorted (map violation_key fs) \<and> distinct fs"
proof -
  have "sorted (map violation_key (sorted_unique violation_key xs)) \<and> distinct (sorted_unique violation_key xs)" for xs
    using sorted_unique_sorted sorted_unique_distinct by (metis distinct_map)
  with assms show ?thesis
    by (auto simp: validate_node_def bindE_eq_Inr split: if_splits)
qed

section \<open>Stack depth\<close>

definition rle :: "py_error + 'a \<Rightarrow> py_error + 'a \<Rightarrow> bool" where
  "rle m m' \<longleftrightarrow> m = Inl RecursionError \<or> m = m'"

lemma rle_refl [simp, intro]: "rle m m"
  by (simp add: rle_def)

lemma rle_bindE: "rle m m' \<Longrightarrow> (\<And>a. rle (f a) (g a)) \<Longrightarrow> rle (bindE m f) (bindE m' g)"
  unfolding rle_def by (cases m'; cases m) auto

lemma rle_concatE: "(\<And>x. rle (f x) (g x)) \<Longrightarrow> rle (concatE f xs) (concatE g xs)"
  by (induction xs) (auto intro!: rle_bindE)

lemma rle_validate_node:
  assumes "\<And>i s p. rle (f i s p) (g i s p)"
  shows "rle (validate_node env f r inst d path) (validate_node env g r inst d path)"
proof -
  have ref: "rle (findings_ref f r inst d path) (findings_ref g r inst d path)"
    unfolding findings_ref_def by (auto intro!: rle_bindE assms split: json.splits)
  have all: "rle (findings_all_of f inst d path) (findings_all_of g inst d path)"
    unfolding findings_all_of_def by (auto intro!: rle_concatE assms split: option.splits json.splits)
  have mem: "rle (findings_member f obj d path k) (findings_member g obj d path k)" for obj k
    unfolding findings_member_def by (auto intro!: rle_bindE assms split: option.splits)
  have obj: "rle (findings_object f obj d path) (findings_object g obj d path)" for obj
    unfolding findings_object_def by (auto intro!: rle_bindE rle_concatE mem)
  have arr: "rle (findings_array f xs d path) (findings_array g xs d path)" for xs
    unfolding findings_array_def findings_items_def
    by (auto intro!: rle_bindE rle_concatE assms split: json.splits prod.splits)
  show ?thesis
    unfolding validate_node_def
    by (intro rle_bindE ref all) (auto intro!: rle_bindE obj arr split: json.splits)
qed

lemma validate_instance_mono_Suc:
  "rle (validate_instance env n inst schema r path) (validate_instance env (Suc n) inst schema r path)"
proof (induction n arbitrary: inst schema r path)
  case 0
  then show ?case by (simp add: rle_def)
next
  case (Suc n)
  show ?case
    unfolding validate_instance.simps(2) [of env n inst] validate_instance.simps(2) [of env "Suc n" inst]
    by (intro rle_bindE rle_refl)
       (auto simp: Let_def simp del: validate_instance.simps intro!: rle_validate_node Suc.IH split: json.splits)
qed

lemma validate_instance_mono:
  assumes "n \<le> m" and "validate_instance env n inst schema r path \<noteq> Inl RecursionError"
  shows "validate_instance env m inst schema r path = validate_instance env n inst schema r path"
  using assms
proof (induction rule: dec_induct)
  case (step m)
  then show ?case using validate_instance_mono_Suc [of env m inst schema r path] by (auto simp: rle_def)
qed simp

text \<open>
  \<open>depth_ok n root schema\<close>: following properties, items, \<^verbatim>\<open>allOf\<close> and \<^verbatim>\<open>$ref\<close> from the schema ends
  within \<open>n\<close> levels.
\<close>

definition schema_children :: "jobject \<Rightarrow> jobject \<Rightarrow> json list" where
  "schema_children doc_root d =
     (case sget d ''$ref'' of
        JStr ref \<Rightarrow> (case schema_pointer doc_root ref of Inr t \<Rightarrow> [JDict t] | Inl _ \<Rightarrow> [])
      | _ \<Rightarrow> []) @
     (case sget d ''allOf'' of JList cs \<Rightarrow> cs | _ \<Rightarrow> []) @
     (case sget d ''properties'' of JDict ps \<Rightarrow> map snd ps | _ \<Rightarrow> []) @
     (case sget d ''items'' of JDict i \<Rightarrow> [JDict i] | JList cs \<Rightarrow> cs | _ \<Rightarrow> [])"

fun depth_ok :: "nat \<Rightarrow> jobject \<Rightarrow> json \<Rightarrow> bool" where
  "depth_ok 0 doc_root schema = False"
| "depth_ok (Suc n) doc_root schema =
     (case schema of JDict d \<Rightarrow> list_all (depth_ok n doc_root) (schema_children doc_root d) | _ \<Rightarrow> True)"

lemma ensure_keywords_error: "ensure_keywords env path d \<noteq> Inl RecursionError"
  by (auto simp: ensure_keywords_def Let_def bindE_eq_Inl ensure_type_def ensure_required_def
      ensure_sizes_def ensure_pattern_def dest!: forE_Inl_D split: json.splits option.splits)

lemma bindE_not_Inl: "m \<noteq> Inl e \<Longrightarrow> (\<And>a. f a \<noteq> Inl e) \<Longrightarrow> bindE m f \<noteq> Inl e"
  by (auto simp: bindE_eq_Inl)

lemma ensure_supported_schema_error: "ensure_supported_schema env path schema \<noteq> Inl RecursionError"
proof (induction schema arbitrary: path rule: measure_induct_rule [of size])
  case (less schema)
  show ?case
  proof (cases schema)
    case (JDict d)
    have IH: "ensure_supported_schema env p c \<noteq> Inl RecursionError" if "size c < size (JDict d)" for p c
      using less that JDict by simp
    have members: "forE (\<lambda>(n, c). ensure_supported_schema env (f n) c) ps \<noteq> Inl RecursionError"
      if "sget d k = JDict ps" for f k ps
      using IH [OF size_sget_child [OF that]] by (auto dest!: forE_Inl_D)
    have elems: "forE (\<lambda>(n, c). ensure_supported_schema env (f n) c) (enumerate 0 cs) \<noteq> Inl RecursionError"
      if "sget d k = JList cs" for f k cs
      using IH [OF size_sget_item [OF that]] by (auto dest!: forE_Inl_D simp: in_set_enumerate_eq)
    have dict: "ensure_supported_schema env p (JDict e) \<noteq> Inl RecursionError" if "sget d k = JDict e" for k e p
      by (rule IH [OF size_sget_dict [OF that]])
    show ?thesis
      unfolding JDict ensure_supported_schema.simps [of env _ "JDict d"] json.case
      apply (intro bindE_not_Inl)
      subgoal by (rule ensure_keywords_error)
      subgoal using members by (cases "sget d ''properties''") simp_all
      subgoal using members by (cases "sget d ''definitions''") simp_all
      subgoal using elems dict by (cases "sget d ''items''") simp_all
      subgoal by simp
      subgoal using elems by (cases "sget d ''allOf''") simp_all
      done
  qed (simp_all add: ensure_supported_schema.simps)
qed

lemma foldE_Inl_D: "foldE f s xs = Inl e \<Longrightarrow> \<exists>s x. x \<in> set xs \<and> f s x = Inl e"
proof (induction xs arbitrary: s)
  case (Cons x xs)
  from Cons.prems consider "f s x = Inl e" | s' where "foldE f s' xs = Inl e"
    by (auto simp: bindE_eq_Inl)
  then show ?case
    using Cons.IH by cases (auto, blast)
qed simp

lemma schema_pointer_error:
  assumes "schema_pointer r ref = Inl e" shows "\<exists>m. e = UnsupportedSchemaError m"
proof (cases "startswith ref ''#/''")
  case True
  with assms show ?thesis
    by (simp add: schema_pointer_def bindE_eq_Inl del: append.simps)
       (elim disjE exE conjE; (drule foldE_Inl_D)?; (elim exE conjE)?; auto split: json.split_asm option.split_asm)
qed (use assms in \<open>auto simp: schema_pointer_def\<close>)

lemma type_ok_error: "type_ok inst d = Inl e \<Longrightarrow> \<exists>m. e = UnsupportedSchemaError m"
  by (auto simp: type_ok_def type_matches_def split: json.splits if_splits)

text \<open>An exception of a node is one of its own or comes from a call on one of its children.\<close>

lemma set_schema_children:
  "s \<in> set (schema_children r d) \<longleftrightarrow>
     (\<exists>ref t. sget d ''$ref'' = JStr ref \<and> schema_pointer r ref = Inr t \<and> s = JDict t) \<or>
     (\<exists>cs. sget d ''allOf'' = JList cs \<and> s \<in> set cs) \<or>
     (\<exists>ps n. sget d ''properties'' = JDict ps \<and> (n, s) \<in> set ps) \<or>
     (\<exists>i. sget d ''items'' = JDict i \<and> s = JDict i) \<or>
     (\<exists>cs. sget d ''items'' = JList cs \<and> s \<in> set cs)"
proof -
  have "s \<in> set (case v of JStr ref \<Rightarrow> (case schema_pointer r ref of Inr t \<Rightarrow> [JDict t] | Inl _ \<Rightarrow> []) | _ \<Rightarrow> []) \<longleftrightarrow>
      (\<exists>ref t. v = JStr ref \<and> schema_pointer r ref = Inr t \<and> s = JDict t)" for v
    by (cases v) (auto split: sum.splits)
  moreover have "s \<in> set (case v of JList cs \<Rightarrow> cs | _ \<Rightarrow> []) \<longleftrightarrow> (\<exists>cs. v = JList cs \<and> s \<in> set cs)" for v
    by (cases v) auto
  moreover have "s \<in> set (case v of JDict ps \<Rightarrow> map snd ps | _ \<Rightarrow> []) \<longleftrightarrow> (\<exists>ps n. v = JDict ps \<and> (n, s) \<in> set ps)" for v
    by (cases v) force+
  moreover have "s \<in> set (case v of JDict i \<Rightarrow> [JDict i] | JList cs \<Rightarrow> cs | _ \<Rightarrow> []) \<longleftrightarrow>
      (\<exists>i. v = JDict i \<and> s = JDict i) \<or> (\<exists>cs. v = JList cs \<and> s \<in> set cs)" for v
    by (cases v) auto
  ultimately show ?thesis unfolding schema_children_def set_append Un_iff by simp
qed

lemma children_properties:
  "map_of d ''properties'' = Some (JDict ps) \<Longrightarrow> map_of ps k = Some c \<Longrightarrow> c \<in> set (schema_children r d)"
  using map_of_SomeD [of ps k c] by (force simp: schema_children_def sget_def)

lemma children_ref:
  "sget d ''$ref'' = JStr ref \<Longrightarrow> schema_pointer r ref = Inr t \<Longrightarrow> JDict t \<in> set (schema_children r d)"
  by (simp add: schema_children_def)

lemma children_all_of:
  "map_of d ''allOf'' = Some (JList cs) \<Longrightarrow> c \<in> set cs \<Longrightarrow> c \<in> set (schema_children r d)"
  by (simp add: schema_children_def sget_def)

lemma property_schema_Inr:
  "property_schema d key = Inr (Some c) \<Longrightarrow> c \<in> set (schema_children r d)"
  by (auto simp: property_schema_def children_properties split: option.splits json.splits)

lemma property_schema_Inl: "property_schema d key = Inl e \<Longrightarrow> e = TypeError"
  by (auto simp: property_schema_def split: option.splits json.splits)

lemma findings_member_error:
  assumes "findings_member rec obj d path key = Inl e"
  shows "e = TypeError \<or> (\<exists>s i p. s \<in> set (schema_children r d) \<and> rec i s p = Inl e)"
  using assms property_schema_Inr [of d key _ r] property_schema_Inl [of d key e]
  unfolding findings_member_def bindE_eq_Inl by (fastforce split: option.splits if_splits)

lemma findings_array_error:
  "findings_array rec xs d path = Inl e \<Longrightarrow> \<exists>s i p. s \<in> set (schema_children r d) \<and> rec i s p = Inl e"
  by (auto simp: findings_array_def findings_items_def bindE_eq_Inl schema_children_def in_set_enumerate_eq
      split: json.splits dest!: concatE_Inl_D) (metis nth_mem set_zip_leftD | metis nth_mem)+

lemma validate_node_error:
  assumes "validate_node env rec r inst d path = Inl e"
  shows "(\<exists>m. e = UnsupportedSchemaError m) \<or> e \<in> {TypeError, AttributeError} \<or>
     (\<exists>s i p. s \<in> set (schema_children r d) \<and> rec i s p = Inl e)" (is "?P e")
proof -
  have ref: "findings_ref rec r inst d path = Inl e \<Longrightarrow> ?P e"
    unfolding findings_ref_def
    by (cases "sget d ''$ref''") (auto simp: bindE_eq_Inl dest: schema_pointer_error children_ref)
  have all: "findings_all_of rec inst d path = Inl e \<Longrightarrow> ?P e"
    unfolding findings_all_of_def
    using children_all_of by (fastforce dest!: concatE_Inl_D split: json.splits option.splits)
  have obj: "findings_object rec obj d path = Inl e \<Longrightarrow> ?P e" for obj
    by (auto simp: findings_object_def findings_required_def bindE_eq_Inl
       split: option.splits json.splits dest!: concatE_Inl_D findings_member_error [where r = r])
  have arr: "findings_array rec xs d path = Inl e \<Longrightarrow> ?P e" for xs
    using findings_array_error [of rec xs d path e r] by blast
  show ?thesis
    using assms unfolding validate_node_def bindE_eq_Inl
    by (elim disjE exE conjE)
       (auto simp: bindE_eq_Inl dest: ref all type_ok_error obj arr split: if_splits json.splits)
qed

lemma validate_instance_not_recursion:
  assumes "depth_ok n (if r = [] then (case schema of JDict d \<Rightarrow> d | _ \<Rightarrow> []) else r) schema"
  shows "validate_instance env n inst schema r path \<noteq> Inl RecursionError"
  using assms
proof (induction n arbitrary: inst schema r path)
  case (Suc n)
  show ?case
  proof (cases schema)
    case (JDict d)
    define doc_root where "doc_root = (if r = [] then d else r)"
    have "depth_ok n doc_root s" if "s \<in> set (schema_children doc_root d)" for s
      using that Suc.prems JDict by (auto simp: doc_root_def list_all_iff split: if_splits)
    moreover have "doc_root \<noteq> [] \<or> schema_children doc_root d = []"
      by (auto simp: doc_root_def schema_children_def sget_def)
    ultimately have "validate_instance env n i s doc_root p \<noteq> Inl RecursionError"
      if "s \<in> set (schema_children doc_root d)" for i s p
      using that Suc.IH [of doc_root s i p] by (cases "doc_root = []") auto
    then have "validate_node env (\<lambda>inst' schema'. validate_instance env n inst' schema' doc_root) doc_root inst d path \<noteq> Inl RecursionError"
      using validate_node_error by fastforce
    then show ?thesis
      using ensure_supported_schema_error [of env path schema] JDict
      by (auto simp: bindE_eq_Inl doc_root_def Let_def)
  qed (auto simp: bindE_eq_Inl ensure_supported_schema_error)
qed simp

fun ref_free :: "json \<Rightarrow> bool" where
  "ref_free (JList xs) = list_all ref_free xs"
| "ref_free (JDict d) = (''$ref'' \<notin> set (keys_of d) \<and> list_all (\<lambda>(k, v). ref_free v) d)"
| "ref_free v = True"

lemma ref_free_sget: "ref_free (JDict d) \<Longrightarrow> ref_free (sget d k)"
  by (auto simp: sget_def list_all_iff split: option.splits dest!: map_of_SomeD)

lemma ref_free_children:
  assumes "ref_free (JDict d)" "s \<in> set (schema_children r d)"
  shows "ref_free s \<and> size s < size (JDict d)"
proof -
  have "sget d ''$ref'' = JNull"
    using assms(1) by (force simp: sget_def split: option.splits dest: map_of_SomeD)
  with assms(2) consider
      cs where "sget d ''allOf'' = JList cs" "s \<in> set cs"
    | ps n where "sget d ''properties'' = JDict ps" "(n, s) \<in> set ps"
    | i where "sget d ''items'' = JDict i" "s = JDict i"
    | cs where "sget d ''items'' = JList cs" "s \<in> set cs"
    unfolding set_schema_children by auto
  then show ?thesis
    using ref_free_sget [OF assms(1), of "''allOf''"] ref_free_sget [OF assms(1), of "''properties''"]
      ref_free_sget [OF assms(1), of "''items''"]
    by cases (auto simp del: json.size simp: list_all_iff size_sget_item size_sget_child size_sget_dict)
qed

lemma ref_free_depth_ok: "ref_free schema \<Longrightarrow> size schema < n \<Longrightarrow> depth_ok n r schema"
proof (induction n arbitrary: schema)
  case (Suc n)
  show ?case
  proof (cases schema)
    case (JDict d)
    have "depth_ok n r s" if "s \<in> set (schema_children r d)" for s
      using Suc ref_free_children [of d s r] that JDict by auto
    then show ?thesis using JDict by (simp add: list_all_iff)
  qed auto
qed simp


section \<open>Termination, determinism, errors\<close>

text \<open>
  C16: a call whose schema is well-founded (properties, items, \<^verbatim>\<open>allOf\<close> and \<^verbatim>\<open>$ref\<close> followed from it
  end within \<open>n\<close> levels) never exhausts \<open>n\<close> stack frames, and any larger stack gives the same result.
\<close>

theorem validate_instance_terminates:
  assumes "depth_ok n d (JDict d)" "n \<le> m"
  shows "validate_instance env m inst (JDict d) [] path = validate_instance env n inst (JDict d) [] path \<and>
     validate_instance env m inst (JDict d) [] path \<noteq> Inl RecursionError"
proof -
  have "validate_instance env n inst (JDict d) [] path \<noteq> Inl RecursionError"
    using assms(1) by (intro validate_instance_not_recursion) simp
  with validate_instance_mono [OF assms(2) this] show ?thesis by simp
qed

definition null_env :: re_env where
  "null_env = \<lparr>re_error = (\<lambda>_. None), re_found = (\<lambda>_ _. True)\<rparr>"

theorem validate_instance_terminates_witness:
  "validate_instance null_env 9 (JDict [(''next'', JStr ''x'')])
     (JDict [(''definitions'', JDict [(''s'', JDict [(''type'', JStr ''string'')])]),
             (''properties'', JDict [(''next'', JDict [(''$ref'', JStr ''#/definitions/s'')])])]) [] ''$''
   \<noteq> Inl RecursionError"
proof -
  have "depth_ok 3 [(''definitions'', JDict [(''s'', JDict [(''type'', JStr ''string'')])]),
             (''properties'', JDict [(''next'', JDict [(''$ref'', JStr ''#/definitions/s'')])])]
          (JDict [(''definitions'', JDict [(''s'', JDict [(''type'', JStr ''string'')])]),
             (''properties'', JDict [(''next'', JDict [(''$ref'', JStr ''#/definitions/s'')])])])"
    by code_simp
  then show ?thesis
    by (rule validate_instance_terminates [THEN conjunct2]) simp
qed

text \<open>
  A schema without \<^verbatim>\<open>$ref\<close> is well-founded: as many frames as the size of the schema are enough,
  whatever the instance.
\<close>

lemma ref_free_terminates:
  assumes "ref_free schema" "size schema < n"
  shows "validate_instance env n inst schema [] path \<noteq> Inl RecursionError"
  by (rule validate_instance_not_recursion) (rule ref_free_depth_ok [OF assms])

definition cyclic_schema :: jobject where
  "cyclic_schema = [(''definitions'', JDict [(''a'', JDict [(''$ref'', JStr ''#/definitions/a'')])]),
     (''$ref'', JStr ''#/definitions/a'')]"

lemma cyclic_pointer: "schema_pointer cyclic_schema ''#/definitions/a'' = Inr [(''$ref'', JStr ''#/definitions/a'')]"
  by code_simp

lemma ensure_ref_schema: "ensure_supported_schema env path (JDict [(''$ref'', JStr ref)]) = Inr ()"
  by (subst ensure_supported_schema.simps)
     (simp add: ensure_keywords_def sget_def ensure_type_def ensure_required_def ensure_sizes_def
        ensure_pattern_def list_diff_def SUPPORTED_KEYS_def ANNOTATION_KEYS_def ASSERTION_KEYS_def)

lemma ensure_cyclic_schema: "ensure_supported_schema env path (JDict cyclic_schema) = Inr ()"
  by (subst ensure_supported_schema.simps)
     (simp add: ensure_keywords_def sget_def ensure_type_def ensure_required_def ensure_sizes_def
        ensure_pattern_def list_diff_def SUPPORTED_KEYS_def ANNOTATION_KEYS_def ASSERTION_KEYS_def
        cyclic_schema_def ensure_ref_schema)

lemma cyclic_target_recursion:
  "validate_instance env n inst (JDict [(''$ref'', JStr ''#/definitions/a'')]) cyclic_schema path = Inl RecursionError"
proof (induction n)
  case (Suc n)
  have "cyclic_schema \<noteq> []" by (simp add: cyclic_schema_def)
  with Suc show ?case
    by (simp add: ensure_ref_schema validate_node_def findings_ref_def sget_def cyclic_pointer)
qed simp

text \<open>
  A schema that refers to itself exhausts every stack, although \<open>ensure_supported_schema\<close> accepts it.
\<close>

lemma cyclic_ref_recursion:
  "validate_instance env n inst (JDict cyclic_schema) [] path = Inl RecursionError \<and>
   ensure_supported_schema env path (JDict cyclic_schema) = Inr ()"
proof -
  have ref: "sget cyclic_schema ''$ref'' = JStr ''#/definitions/a''" by code_simp
  show ?thesis
    by (cases n) (simp_all add: ensure_cyclic_schema validate_node_def findings_ref_def ref cyclic_pointer
        cyclic_target_recursion)
qed

text \<open>
  The findings of a validation are strictly ordered by path and message, so the output is
  deterministic and has no duplicates.
\<close>

lemma validate_instance_sorted:
  assumes "validate_instance env n inst schema r path = Inr fs"
  shows "sorted (map violation_key fs) \<and> distinct (map violation_key fs)"
  using assms validate_node_sorted [where fs = fs] inj_violation_key
  by (cases n; cases schema) (auto simp: bindE_eq_Inr Let_def distinct_map inj_on_def inj_def)

lemma ensure_all_of_null: "ensure_supported_schema env path (JDict [(''allOf'', JNull)]) = Inr ()"
  by (subst ensure_supported_schema.simps)
     (simp add: ensure_keywords_def sget_def ensure_type_def ensure_required_def ensure_sizes_def
        ensure_pattern_def list_diff_def SUPPORTED_KEYS_def ANNOTATION_KEYS_def ASSERTION_KEYS_def)


end
