(* ===== verification/Repo_Fs.thy ===== *)
theory Repo_Fs
  imports Json_Contract
begin

text \<open>
  Paths and the file system as the agent scripts see them.

  A \<^verbatim>\<open>pathlib.Path\<close> is the list of its parts: \<open>path_parts\<close> drops empty parts and \<^verbatim>\<open>.\<close>, as
  \<^verbatim>\<open>PurePosixPath\<close> does; an absolute path is the list of the parts below \<^verbatim>\<open>/\<close>. The file system is the
  parameter \<open>repo_fs\<close>: where symbolic links lead (\<^verbatim>\<open>Path.resolve\<close>, which may raise), which files exist
  and what they contain. \<open>inside\<close> is \<^verbatim>\<open>Path.relative_to\<close> not raising.
\<close>

type_synonym path = "string list"

record repo_fs =
  fs_root :: path
  fs_resolve :: "path \<Rightarrow> py_error + path"
  fs_exists :: "path \<Rightarrow> bool"
  fs_is_file :: "path \<Rightarrow> bool"
  fs_read_text :: "path \<Rightarrow> py_error + string"
  fs_read_bytes :: "path \<Rightarrow> py_error + string"

definition path_parts :: "string \<Rightarrow> path" where
  "path_parts s = filter (\<lambda>p. p \<noteq> '''' \<and> p \<noteq> ''.'') (split_char CHR ''/'' s)"

definition is_absolute :: "string \<Rightarrow> bool" where
  "is_absolute s = startswith s ''/''"

definition inside :: "path \<Rightarrow> path \<Rightarrow> bool" where
  "inside doc_root p = (take (length doc_root) p = doc_root)"

definition path_str :: "path \<Rightarrow> string" where
  "path_str p = ''/'' @ join ''/'' p"

text \<open>
  \<^verbatim>\<open>(root / raw).resolve()\<close>, with \<^verbatim>\<open>root = repo_root.resolve()\<close>: the root and the resolved path.
\<close>

definition resolve_below :: "repo_fs \<Rightarrow> string \<Rightarrow> py_error + path \<times> path" where
  "resolve_below fs raw =
     bindE (fs_resolve fs (fs_root fs)) (\<lambda>doc_root.
     bindE (fs_resolve fs (doc_root @ path_parts raw)) (\<lambda>resolved.
     Inr (doc_root, resolved)))"

lemma inside_iff: "inside doc_root p \<longleftrightarrow> (\<exists>q. p = doc_root @ q)"
  unfolding inside_def by (metis append_eq_conv_conj)

lemma path_parts_parts: "p \<in> set (path_parts s) \<Longrightarrow> p \<noteq> '''' \<and> p \<noteq> ''.'' \<and> CHR ''/'' \<notin> set p"
  by (auto simp: path_parts_def dest: split_char_free)

text \<open>A file system without symbolic links, for concrete runs: \<^verbatim>\<open>..\<close> removes the last part.\<close>

fun collapse :: "path \<Rightarrow> path \<Rightarrow> path" where
  "collapse acc [] = rev acc"
| "collapse acc (p # ps) = collapse (if p = ''..'' then drop 1 acc else p # acc) ps"

definition plain_fs :: "path \<Rightarrow> (path \<times> string) list \<Rightarrow> repo_fs" where
  "plain_fs doc_root files =
     \<lparr>fs_root = doc_root, fs_resolve = (\<lambda>p. Inr (collapse [] p)),
      fs_exists = (\<lambda>p. \<exists>f\<in>set files. take (length p) (fst f) = p),
      fs_is_file = (\<lambda>p. p \<in> set (map fst files)),
      fs_read_text = (\<lambda>p. case map_of files p of None \<Rightarrow> Inl (OSError (path_str p)) | Some c \<Rightarrow> Inr c),
      fs_read_bytes = (\<lambda>p. case map_of files p of None \<Rightarrow> Inl (OSError (path_str p)) | Some c \<Rightarrow> Inr c)\<rparr>"

end
