(* ===== verification/Py_Regex.thy ===== *)
theory Py_Regex
  imports Py_Prelude
begin

text \<open>
  The part of Python's \<^verbatim>\<open>re\<close> module the sources rely on: a backtracking matcher over a syntax of
  regular expressions with greedy and lazy stars, capture groups, the anchors \<^verbatim>\<open>^\<close> and \<^verbatim>\<open>$\<close>, word
  boundaries and one-character lookaround. Every pattern constant of the sources is written as a
  term of this syntax.

  \<^item> A matcher state holds what was consumed (reversed), what is left, and the captured groups.
    \<open>re_run r st\<close> lists the states the engine reaches after \<open>r\<close>, in the order in which backtracking
    tries them. The iteration of a star must consume something, which is how CPython ends a star
    whose body can match the empty string.
  \<^item> \<open>re_match\<close>, \<open>re_fullmatch\<close>, \<open>re_search\<close> are \<^verbatim>\<open>Pattern.match\<close>, \<^verbatim>\<open>.fullmatch\<close> and \<^verbatim>\<open>.search\<close>:
    the first state the engine reaches (that is at the end, for \<^verbatim>\<open>fullmatch\<close>; at the first start
    position that has one, for \<^verbatim>\<open>search\<close>).
  \<^item> \<open>$\<close> holds at the end of the text and before a final line feed, as in Python: a pattern that
    ends in \<^verbatim>\<open>$\<close> accepts a trailing newline under \<^verbatim>\<open>match\<close> and \<^verbatim>\<open>search\<close>, never under \<^verbatim>\<open>fullmatch\<close>.

  The relation \<open>re_steps\<close> is the specification (one rule per construct); the matcher is proved sound
  and complete for it (\<open>re_run_iff\<close>). \<open>lang\<close> gives each pattern its meaning as a set of strings.
\<close>

section \<open>Syntax and the backtracking engine\<close>

datatype re =
    Eps
  | Chr "char \<Rightarrow> bool"
  | Seq re re
  | Alt re re
  | Star re
  | LStar re
  | Grp nat re
  | Bol
  | Eol
  | WordB
  | NotBehind "char \<Rightarrow> bool"
  | NotAhead "char \<Rightarrow> bool"

type_synonym groups = "(nat, string) dict"

type_synonym re_state = "string \<times> string \<times> groups"

abbreviation rest_of :: "re_state \<Rightarrow> string" where
  "rest_of st \<equiv> fst (snd st)"

definition is_word_char :: "char \<Rightarrow> bool" where
  "is_word_char c = (let n = (of_char c :: nat) in
     (48 \<le> n \<and> n \<le> 57) \<or> (65 \<le> n \<and> n \<le> 90) \<or> (97 \<le> n \<and> n \<le> 122) \<or> n = 95
     \<or> n \<in> {170, 178, 179, 181, 185, 186, 188, 189, 190} \<or> (192 \<le> n \<and> n \<noteq> 215 \<and> n \<noteq> 247))"

definition at_word_boundary :: "string \<Rightarrow> string \<Rightarrow> bool" where
  "at_word_boundary pre rest =
     ((pre \<noteq> [] \<and> is_word_char (hd pre)) \<noteq> (rest \<noteq> [] \<and> is_word_char (hd rest)))"

function re_run :: "re \<Rightarrow> re_state \<Rightarrow> re_state list" where
  "re_run Eps st = [st]"
| "re_run (Chr p) (pre, rest, g) =
     (case rest of [] \<Rightarrow> [] | c # cs \<Rightarrow> if p c then [(c # pre, cs, g)] else [])"
| "re_run (Seq a b) st = concat (map (re_run b) (re_run a st))"
| "re_run (Alt a b) st = re_run a st @ re_run b st"
| "re_run (Star a) st =
     concat (map (re_run (Star a))
       (filter (\<lambda>t. length (rest_of t) < length (rest_of st)) (re_run a st))) @ [st]"
| "re_run (LStar a) st =
     st # concat (map (re_run (LStar a))
       (filter (\<lambda>t. length (rest_of t) < length (rest_of st)) (re_run a st)))"
| "re_run (Grp n a) st =
     map (\<lambda>(pre, rest, g). (pre, rest, dict_set n
            (take (length (rest_of st) - length rest) (rest_of st)) g)) (re_run a st)"
| "re_run Bol (pre, rest, g) = (if pre = [] then [(pre, rest, g)] else [])"
| "re_run Eol (pre, rest, g) = (if rest = [] \<or> rest = [CHR 0x0A] then [(pre, rest, g)] else [])"
| "re_run WordB (pre, rest, g) = (if at_word_boundary pre rest then [(pre, rest, g)] else [])"
| "re_run (NotBehind p) (pre, rest, g) =
     (if pre \<noteq> [] \<and> p (hd pre) then [] else [(pre, rest, g)])"
| "re_run (NotAhead p) (pre, rest, g) =
     (if rest \<noteq> [] \<and> p (hd rest) then [] else [(pre, rest, g)])"
  by pat_completeness auto
termination
  by (relation "measures [\<lambda>(r, st). size r, \<lambda>(r, st). length (rest_of st)]") auto

declare re_run.simps(5,6) [simp del]

definition re_start :: "string \<Rightarrow> re_state" where
  "re_start s = ([], s, [])"

definition re_match :: "re \<Rightarrow> string \<Rightarrow> re_state option" where
  "re_match r s = (case re_run r (re_start s) of [] \<Rightarrow> None | st # _ \<Rightarrow> Some st)"

definition re_fullmatch :: "re \<Rightarrow> string \<Rightarrow> re_state option" where
  "re_fullmatch r s = find (\<lambda>st. rest_of st = []) (re_run r (re_start s))"

fun re_search_from :: "re \<Rightarrow> string \<Rightarrow> string \<Rightarrow> re_state option" where
  "re_search_from r pre rest =
     (case re_run r (pre, rest, []) of
        st # _ \<Rightarrow> Some st
      | [] \<Rightarrow> (case rest of [] \<Rightarrow> None | c # cs \<Rightarrow> re_search_from r (c # pre) cs))"

declare re_search_from.simps [simp del]

definition re_search :: "re \<Rightarrow> string \<Rightarrow> re_state option" where
  "re_search r s = re_search_from r [] s"

text \<open>
  \<^verbatim>\<open>Pattern.finditer\<close>, for patterns that match at least one character: every match with what precedes it,
  reversed (\<^verbatim>\<open>text[:match.start()]\<close>), and its final state.
\<close>

fun re_find_at :: "re \<Rightarrow> string \<Rightarrow> string \<Rightarrow> (string \<times> re_state) option" where
  "re_find_at r pre rest =
     (case re_run r (pre, rest, []) of
        st # _ \<Rightarrow> Some (pre, st)
      | [] \<Rightarrow> (case rest of [] \<Rightarrow> None | c # cs \<Rightarrow> re_find_at r (c # pre) cs))"

declare re_find_at.simps [simp del]

function re_finditer_from :: "re \<Rightarrow> string \<Rightarrow> string \<Rightarrow> (string \<times> re_state) list" where
  "re_finditer_from r pre rest =
     (case re_find_at r pre rest of
        None \<Rightarrow> []
      | Some (start, st) \<Rightarrow>
          (start, st) # (if length (rest_of st) < length rest then re_finditer_from r (fst st) (rest_of st) else []))"
  by pat_completeness auto
termination by (relation "measure (\<lambda>(r, pre, rest). length rest)") auto

declare re_finditer_from.simps [simp del]

definition re_finditer :: "re \<Rightarrow> string \<Rightarrow> (string \<times> re_state) list" where
  "re_finditer r s = re_finditer_from r [] s"

definition re_group :: "nat \<Rightarrow> re_state \<Rightarrow> string option" where
  "re_group n st = dict_get (snd (snd st)) n"

section \<open>Derived constructs\<close>

definition Opt :: "re \<Rightarrow> re" where
  "Opt a = Alt a Eps"

definition Plus :: "re \<Rightarrow> re" where
  "Plus a = Seq a (Star a)"

definition LPlus :: "re \<Rightarrow> re" where
  "LPlus a = Seq a (LStar a)"

fun Rep :: "nat \<Rightarrow> re \<Rightarrow> re" where
  "Rep 0 a = Eps"
| "Rep (Suc n) a = Seq a (Rep n a)"

fun RepUpTo :: "nat \<Rightarrow> re \<Rightarrow> re" where
  "RepUpTo 0 a = Eps"
| "RepUpTo (Suc n) a = Opt (Seq a (RepUpTo n a))"

text \<open>\<^verbatim>\<open>a{m,n}\<close> for \<open>m \<le> n\<close>.\<close>

definition RepBetween :: "nat \<Rightarrow> nat \<Rightarrow> re \<Rightarrow> re" where
  "RepBetween m n a = Seq (Rep m a) (RepUpTo (n - m) a)"

definition Lit :: "string \<Rightarrow> re" where
  "Lit s = foldr (\<lambda>c r. Seq (Chr (\<lambda>x. x = c)) r) s Eps"

text \<open>A literal under \<^verbatim>\<open>re.IGNORECASE\<close>.\<close>

definition LitI :: "string \<Rightarrow> re" where
  "LitI s = foldr (\<lambda>c r. Seq (Chr (\<lambda>x. lower_char x = lower_char c)) r) s Eps"

definition seqs :: "re list \<Rightarrow> re" where
  "seqs rs = foldr Seq rs Eps"

fun alts :: "re list \<Rightarrow> re" where
  "alts [] = Chr (\<lambda>_. False)"
| "alts [r] = r"
| "alts (r # rs) = Alt r (alts rs)"

subsection \<open>Character classes of the sources\<close>

definition in_range :: "char \<Rightarrow> char \<Rightarrow> char \<Rightarrow> bool" where
  "in_range a b c = (a \<le> c \<and> c \<le> b)"

definition is_lower_hex :: "char \<Rightarrow> bool" where
  "is_lower_hex c = (in_range CHR ''0'' CHR ''9'' c \<or> in_range CHR ''a'' CHR ''f'' c)"

definition is_upper :: "char \<Rightarrow> bool" where
  "is_upper c = in_range CHR ''A'' CHR ''Z'' c"

definition is_lower :: "char \<Rightarrow> bool" where
  "is_lower c = in_range CHR ''a'' CHR ''z'' c"

definition is_alpha :: "char \<Rightarrow> bool" where
  "is_alpha c = (is_upper c \<or> is_lower c)"

definition is_digit :: "char \<Rightarrow> bool" where
  "is_digit c = in_range CHR ''0'' CHR ''9'' c"

definition is_ident_start :: "char \<Rightarrow> bool" where
  "is_ident_start c = (is_alpha c \<or> c = CHR ''_'')"

definition is_ident_char :: "char \<Rightarrow> bool" where
  "is_ident_char c = (is_alpha c \<or> is_digit c \<or> c = CHR ''_'')"

section \<open>Specification of the engine\<close>

inductive re_steps :: "re \<Rightarrow> re_state \<Rightarrow> re_state \<Rightarrow> bool" where
  eps: "re_steps Eps st st"
| chr: "p c \<Longrightarrow> re_steps (Chr p) (pre, c # cs, g) (c # pre, cs, g)"
| seq: "re_steps a st t \<Longrightarrow> re_steps b t u \<Longrightarrow> re_steps (Seq a b) st u"
| alt1: "re_steps a st t \<Longrightarrow> re_steps (Alt a b) st t"
| alt2: "re_steps b st t \<Longrightarrow> re_steps (Alt a b) st t"
| star_end: "re_steps (Star a) st st"
| star_step: "re_steps a st t \<Longrightarrow> length (rest_of t) < length (rest_of st) \<Longrightarrow>
     re_steps (Star a) t u \<Longrightarrow> re_steps (Star a) st u"
| lstar_end: "re_steps (LStar a) st st"
| lstar_step: "re_steps a st t \<Longrightarrow> length (rest_of t) < length (rest_of st) \<Longrightarrow>
     re_steps (LStar a) t u \<Longrightarrow> re_steps (LStar a) st u"
| grp: "re_steps a st (pre, rest, g) \<Longrightarrow> re_steps (Grp n a) st
     (pre, rest, dict_set n (take (length (rest_of st) - length rest) (rest_of st)) g)"
| bol: "re_steps Bol ([], rest, g) ([], rest, g)"
| eol: "rest = [] \<or> rest = [CHR 0x0A] \<Longrightarrow> re_steps Eol (pre, rest, g) (pre, rest, g)"
| wordb: "at_word_boundary pre rest \<Longrightarrow> re_steps WordB (pre, rest, g) (pre, rest, g)"
| not_behind: "\<not> (pre \<noteq> [] \<and> p (hd pre)) \<Longrightarrow> re_steps (NotBehind p) (pre, rest, g) (pre, rest, g)"
| not_ahead: "\<not> (rest \<noteq> [] \<and> p (hd rest)) \<Longrightarrow> re_steps (NotAhead p) (pre, rest, g) (pre, rest, g)"

lemma re_run_seq_mem:
  "t \<in> set (re_run (Seq a b) st) \<longleftrightarrow> (\<exists>u. u \<in> set (re_run a st) \<and> t \<in> set (re_run b u))"
  by (simp only: re_run.simps(3) set_concat set_map) blast

lemma re_run_star_mem:
  "t \<in> set (re_run (Star a) st) \<longleftrightarrow> t = st \<or>
     (\<exists>u. u \<in> set (re_run a st) \<and> length (rest_of u) < length (rest_of st) \<and> t \<in> set (re_run (Star a) u))"
  by (subst re_run.simps(5)) (simp only: set_append set_concat set_map set_filter list.set, blast)

lemma re_run_lstar_mem:
  "t \<in> set (re_run (LStar a) st) \<longleftrightarrow> t = st \<or>
     (\<exists>u. u \<in> set (re_run a st) \<and> length (rest_of u) < length (rest_of st) \<and> t \<in> set (re_run (LStar a) u))"
  by (subst re_run.simps(6)) (simp only: set_append set_concat set_map set_filter list.set, blast)

lemma re_run_sound: "t \<in> set (re_run r st) \<Longrightarrow> re_steps r st t"
proof (induction r st arbitrary: t rule: re_run.induct)
  case (3 a b st)
  then show ?case unfolding re_run_seq_mem by (blast intro: re_steps.seq)
next
  case (5 a st)
  from "5.prems" consider "t = st"
    | u where "u \<in> set (re_run a st)" "length (rest_of u) < length (rest_of st)" "t \<in> set (re_run (Star a) u)"
    unfolding re_run_star_mem [of t a st] by blast
  then show ?case
  proof cases
    case 2
    then have "re_steps (Star a) u t" by (intro "5.IH"(2)) simp_all
    with 2 "5.IH"(1) show ?thesis by (blast intro: re_steps.star_step)
  qed (simp add: re_steps.star_end)
next
  case (6 a st)
  from "6.prems" consider "t = st"
    | u where "u \<in> set (re_run a st)" "length (rest_of u) < length (rest_of st)" "t \<in> set (re_run (LStar a) u)"
    unfolding re_run_lstar_mem [of t a st] by blast
  then show ?case
  proof cases
    case 2
    then have "re_steps (LStar a) u t" by (intro "6.IH"(2)) simp_all
    with 2 "6.IH"(1) show ?thesis by (blast intro: re_steps.lstar_step)
  qed (simp add: re_steps.lstar_end)
qed (auto intro: re_steps.intros split: list.splits if_splits)

lemma re_run_complete: "re_steps r st t \<Longrightarrow> t \<in> set (re_run r st)"
proof (induction rule: re_steps.induct)
  case (seq a st t b u)
  then show ?case unfolding re_run_seq_mem by blast
next
  case (star_step a st t u)
  then show ?case unfolding re_run_star_mem [of u a st] by blast
next
  case (lstar_step a st t u)
  then show ?case unfolding re_run_lstar_mem [of u a st] by blast
next
  case (star_end a st)
  then show ?case unfolding re_run_star_mem [of st a st] by blast
next
  case (lstar_end a st)
  then show ?case unfolding re_run_lstar_mem [of st a st] by blast
next
  case (grp a st pre rest g n)
  then show ?case by (force simp: image_iff)
qed auto

lemma re_run_iff: "t \<in> set (re_run r st) \<longleftrightarrow> re_steps r st t"
  using re_run_sound re_run_complete by blast

text \<open>The engine only moves forward: consumed and remaining text always make up the input.\<close>

lemma re_steps_split:
  "re_steps r st t \<Longrightarrow> rev (fst t) @ rest_of t = rev (fst st) @ rest_of st"
  by (induction rule: re_steps.induct) auto

lemma re_steps_rest_suffix:
  "re_steps r st t \<Longrightarrow> \<exists>w. rest_of st = w @ rest_of t \<and> fst t = rev w @ fst st"
  by (induction rule: re_steps.induct) auto

section \<open>Runs of a character class\<close>

lemma re_run_class_rep:
  "re_run (Rep n (Chr p)) (pre, s, g) =
     (if n \<le> length s \<and> list_all p (take n s) then [(rev (take n s) @ pre, drop n s, g)] else [])"
proof (induction n arbitrary: pre s)
  case 0
  then show ?case by simp
next
  case (Suc n)
  then show ?case by (cases s) auto
qed

lemma re_run_lit:
  "re_run (Lit w) (pre, s, g) =
     (if startswith s w then [(rev w @ pre, drop (length w) s, g)] else [])"
proof (induction w arbitrary: pre s)
  case Nil
  then show ?case by (simp add: Lit_def)
next
  case (Cons c w)
  then show ?case by (cases s) (auto simp: Lit_def)
qed

lemma re_steps_star_class:
  assumes "re_steps r st t" and "r = Star (Chr p)"
  shows "\<exists>w. rest_of st = w @ rest_of t \<and> list_all p w \<and> fst t = rev w @ fst st \<and> snd (snd t) = snd (snd st)"
  using assms
proof (induction rule: re_steps.induct)
  case (star_step a st t u)
  from star_step.hyps(1) star_step.prems
  obtain pre c cs g where "st = (pre, c # cs, g)" and "t = (c # pre, cs, g)" and "p c"
    by (auto elim: re_steps.cases)
  moreover from star_step obtain w where "rest_of t = w @ rest_of u" "list_all p w"
    "fst u = rev w @ fst t" "snd (snd u) = snd (snd t)" by auto
  ultimately show ?case by (intro exI [of _ "c # w"]) auto
qed (auto intro: exI [of _ "[]"])

lemma re_steps_star_class_intro:
  "list_all p w \<Longrightarrow> re_steps (Star (Chr p)) (pre, w @ s, g) (rev w @ pre, s, g)"
proof (induction w arbitrary: pre)
  case Nil
  then show ?case by (auto intro: re_steps.star_end)
next
  case (Cons c w)
  from Cons.prems have "re_steps (Chr p) (pre, c # w @ s, g) (c # pre, w @ s, g)"
    by (auto intro: re_steps.chr)
  moreover from Cons have "re_steps (Star (Chr p)) (c # pre, w @ s, g) (rev w @ c # pre, s, g)"
    by auto
  ultimately show ?case
    by (auto intro: re_steps.star_step)
qed

lemma re_steps_star_class_iff:
  "re_steps (Star (Chr p)) (pre, s, g) t \<longleftrightarrow>
     (\<exists>w v. s = w @ v \<and> list_all p w \<and> t = (rev w @ pre, v, g))"
  using re_steps_star_class [of "Star (Chr p)" "(pre, s, g)" t p]
  by (cases t) (auto intro: re_steps_star_class_intro)

inductive_simps re_steps_simps:
  "re_steps Eps st t"
  "re_steps (Chr p) (pre, rest, g) t"
  "re_steps (Seq a b) st t"
  "re_steps (Alt a b) st t"
  "re_steps (Grp n a) st t"
  "re_steps Bol (pre, rest, g) t"
  "re_steps Eol (pre, rest, g) t"

subsection \<open>Full matches\<close>

lemma re_fullmatch_ok_iff:
  "re_fullmatch r s \<noteq> None \<longleftrightarrow> (\<exists>pre g. re_steps r ([], s, []) (pre, [], g))"
  by (auto simp: re_fullmatch_def re_start_def find_None_iff re_run_iff)

lemma re_match_ok_iff: "re_match r s \<noteq> None \<longleftrightarrow> (\<exists>t. re_steps r ([], s, []) t)"
  by (auto simp: re_match_def re_start_def re_run_iff [symmetric] split: list.splits)

lemma append_eq_Cons_ex:
  "(\<exists>w v. c # cs = w @ v \<and> P w v) \<longleftrightarrow> P [] (c # cs) \<or> (\<exists>w v. cs = w @ v \<and> P (c # w) v)"
  by (metis Cons_eq_append_conv append_Cons append_Nil)

lemma re_search_from_ok_iff:
  "re_search_from r pre s \<noteq> None \<longleftrightarrow>
     (\<exists>w v. s = w @ v \<and> (\<exists>t. re_steps r (rev w @ pre, v, []) t))"
proof (induction s arbitrary: pre)
  case Nil
  show ?case
    by (subst re_search_from.simps) (auto simp: re_run_iff [symmetric] split: list.splits)
next
  case (Cons c cs)
  have split: "(\<exists>w v. c # cs = w @ v \<and> (\<exists>t. re_steps r (rev w @ pre, v, []) t)) \<longleftrightarrow>
      (\<exists>t. re_steps r (pre, c # cs, []) t) \<or> (\<exists>w v. cs = w @ v \<and> (\<exists>t. re_steps r (rev w @ c # pre, v, []) t))"
    using append_eq_Cons_ex [of c cs "\<lambda>w v. \<exists>t. re_steps r (rev w @ pre, v, []) t"] by simp
  show ?case
  proof (cases "re_run r (pre, c # cs, [])")
    case Nil
    then have "\<not> (\<exists>t. re_steps r (pre, c # cs, []) t)"
      by (simp add: re_run_iff [symmetric])
    moreover have "re_search_from r pre (c # cs) = re_search_from r (c # pre) cs"
      using Nil by (subst re_search_from.simps) simp
    ultimately show ?thesis unfolding split by (simp only: Cons.IH [of "c # pre"] simp_thms)
  next
    case (Cons st sts)
    then have "re_steps r (pre, c # cs, []) st"
      by (simp add: re_run_iff [symmetric])
    moreover have "re_search_from r pre (c # cs) = Some st"
      using Cons by (subst re_search_from.simps) simp
    ultimately show ?thesis unfolding split by (metis option.distinct(1))
  qed
qed

lemma re_search_ok_iff:
  "re_search r s \<noteq> None \<longleftrightarrow> (\<exists>w v. s = w @ v \<and> (\<exists>t. re_steps r (rev w, v, []) t))"
  unfolding re_search_def re_search_from_ok_iff by simp

text \<open>\<^verbatim>\<open>^[...]{n}$\<close> under \<^verbatim>\<open>fullmatch\<close>: exactly \<open>n\<close> characters of the class.\<close>

definition class_block :: "nat \<Rightarrow> (char \<Rightarrow> bool) \<Rightarrow> re" where
  "class_block n p = seqs [Bol, Rep n (Chr p), Eol]"

lemma class_block_fullmatch:
  "re_fullmatch (class_block n p) s \<noteq> None \<longleftrightarrow> length s = n \<and> list_all p s"
proof -
  have "re_run (class_block n p) ([], s, []) =
      (if n \<le> length s \<and> list_all p (take n s) \<and> (drop n s = [] \<or> drop n s = [CHR 0x0A])
       then [(rev (take n s), drop n s, [])] else [])"
    by (auto simp: class_block_def seqs_def re_run_class_rep)
  then show ?thesis by (auto simp: re_fullmatch_def re_start_def)
qed

text \<open>The same pattern under \<^verbatim>\<open>match\<close> also accepts one trailing newline.\<close>

lemma class_block_match:
  "re_match (class_block n p) s \<noteq> None \<longleftrightarrow>
     (\<exists>w. (s = w \<or> s = w @ [CHR 0x0A]) \<and> length w = n \<and> list_all p w)"
proof -
  have "re_run (class_block n p) ([], s, []) =
      (if n \<le> length s \<and> list_all p (take n s) \<and> (drop n s = [] \<or> drop n s = [CHR 0x0A])
       then [(rev (take n s), drop n s, [])] else [])"
    by (auto simp: class_block_def seqs_def re_run_class_rep)
  then have "re_match (class_block n p) s \<noteq> None \<longleftrightarrow>
      n \<le> length s \<and> list_all p (take n s) \<and> (drop n s = [] \<or> drop n s = [CHR 0x0A])"
    by (auto simp: re_match_def re_start_def)
  also have "\<dots> \<longleftrightarrow> (\<exists>w. (s = w \<or> s = w @ [CHR 0x0A]) \<and> length w = n \<and> list_all p w)"
  proof
    assume a: "n \<le> length s \<and> list_all p (take n s) \<and> (drop n s = [] \<or> drop n s = [CHR 0x0A])"
    then have "s = take n s \<or> s = take n s @ [CHR 0x0A]"
      by (metis append_Nil2 append_take_drop_id)
    with a show "\<exists>w. (s = w \<or> s = w @ [CHR 0x0A]) \<and> length w = n \<and> list_all p w"
      by (intro exI [of _ "take n s"]) auto
  qed auto
  finally show ?thesis .
qed

section \<open>Languages\<close>

text \<open>
  The language of an expression without groups, anchors and lookaround. On such expressions the
  engine can consume exactly the words of the language (\<open>re_steps_lang\<close>); the patterns of the sources
  are sequences of them between anchors (\<open>match_anchored\<close>, \<open>fullmatch_anchored\<close>).
\<close>

fun regular :: "re \<Rightarrow> bool" where
  "regular Eps = True"
| "regular (Chr p) = True"
| "regular (Seq a b) = (regular a \<and> regular b)"
| "regular (Alt a b) = (regular a \<and> regular b)"
| "regular (Star a) = regular a"
| "regular (LStar a) = regular a"
| "regular _ = False"

fun lang :: "re \<Rightarrow> string set" where
  "lang Eps = {[]}"
| "lang (Chr p) = {[c] |c. p c}"
| "lang (Seq a b) = {u @ v |u v. u \<in> lang a \<and> v \<in> lang b}"
| "lang (Alt a b) = lang a \<union> lang b"
| "lang (Star a) = {concat ws |ws. set ws \<subseteq> lang a}"
| "lang (LStar a) = {concat ws |ws. set ws \<subseteq> lang a}"
| "lang _ = {}"

lemma concat_nonempty: "concat (filter (\<lambda>w. w \<noteq> []) ws) = concat ws"
  by (induction ws) auto

lemma star_steps_intro:
  assumes "\<And>pre s g w. w \<in> L \<Longrightarrow> re_steps a (pre, w @ s, g) (rev w @ pre, s, g)" "set ws \<subseteq> L" "[] \<notin> set ws"
  shows "re_steps (Star a) (pre, concat ws @ s, g) (rev (concat ws) @ pre, s, g) \<and>
         re_steps (LStar a) (pre, concat ws @ s, g) (rev (concat ws) @ pre, s, g)"
  using assms(2,3)
proof (induction ws arbitrary: pre)
  case (Cons w ws)
  then have w: "re_steps a (pre, w @ (concat ws @ s), g) (rev w @ pre, concat ws @ s, g)" "w \<noteq> []"
    using assms(1) by auto
  have ih: "re_steps (Star a) (rev w @ pre, concat ws @ s, g) (rev (concat ws) @ rev w @ pre, s, g)"
    "re_steps (LStar a) (rev w @ pre, concat ws @ s, g) (rev (concat ws) @ rev w @ pre, s, g)"
    using Cons by auto
  from re_steps.star_step [OF w(1) _ ih(1)] re_steps.lstar_step [OF w(1) _ ih(2)] w(2)
  show ?case by simp
qed (auto intro: re_steps.intros)

lemma star_steps_dest:
  assumes "re_steps r st t" "r = Star a \<or> r = LStar a"
    and "\<And>pre s g t. re_steps a (pre, s, g) t \<Longrightarrow> \<exists>w v. s = w @ v \<and> w \<in> L \<and> t = (rev w @ pre, v, g)"
  shows "\<exists>ws v. rest_of st = concat ws @ v \<and> set ws \<subseteq> L \<and> t = (rev (concat ws) @ fst st, v, snd (snd st))"
  using assms(1,2)
proof (induction rule: re_steps.induct)
  case (star_step b st t u)
  then have ba: "b = a" by simp
  obtain pre s g where st: "st = (pre, s, g)" by (cases st)
  with assms(3) [of pre s g t] star_step.hyps(1) ba obtain w v
    where w: "s = w @ v" "w \<in> L" "t = (rev w @ pre, v, g)" by blast
  from star_step.IH(2) star_step.prems obtain ws x
    where "rest_of t = concat ws @ x" "set ws \<subseteq> L" "u = (rev (concat ws) @ fst t, x, snd (snd t))" by blast
  with st w show ?case by (intro exI [of _ "w # ws"] exI [of _ x]) simp
next
  case (lstar_step b st t u)
  then have ba: "b = a" by simp
  obtain pre s g where st: "st = (pre, s, g)" by (cases st)
  with assms(3) [of pre s g t] lstar_step.hyps(1) ba obtain w v
    where w: "s = w @ v" "w \<in> L" "t = (rev w @ pre, v, g)" by blast
  from lstar_step.IH(2) lstar_step.prems obtain ws x
    where "rest_of t = concat ws @ x" "set ws \<subseteq> L" "u = (rev (concat ws) @ fst t, x, snd (snd t))" by blast
  with st w show ?case by (intro exI [of _ "w # ws"] exI [of _ x]) simp
next
  case (star_end b st)
  show ?case by (cases st) (auto intro: exI [of _ "[]"])
next
  case (lstar_end b st)
  show ?case by (cases st) (auto intro: exI [of _ "[]"])
qed simp_all

lemma re_steps_lang_intro:
  "regular r \<Longrightarrow> w \<in> lang r \<Longrightarrow> re_steps r (pre, w @ s, g) (rev w @ pre, s, g)"
proof (induction r arbitrary: pre w s g)
  case (Seq a b)
  then obtain u v where "w = u @ v" "u \<in> lang a" "v \<in> lang b" by auto
  with Seq show ?case
    using re_steps.seq [of a "(pre, u @ v @ s, g)" "(rev u @ pre, v @ s, g)" b "(rev v @ rev u @ pre, s, g)"] by simp
next
  case (Star a)
  then obtain ws where ws: "w = concat ws" "set ws \<subseteq> lang a" by auto
  have "re_steps (Star a) (pre, concat (filter (\<lambda>w. w \<noteq> []) ws) @ s, g)
      (rev (concat (filter (\<lambda>w. w \<noteq> []) ws)) @ pre, s, g)"
    using star_steps_intro [of "lang a" a "filter (\<lambda>w. w \<noteq> []) ws" pre s g] Star.IH Star.prems(1) ws(2)
    by (auto simp: subset_iff)
  with ws show ?case by (simp add: concat_nonempty)
next
  case (LStar a)
  then obtain ws where ws: "w = concat ws" "set ws \<subseteq> lang a" by auto
  have "re_steps (LStar a) (pre, concat (filter (\<lambda>w. w \<noteq> []) ws) @ s, g)
      (rev (concat (filter (\<lambda>w. w \<noteq> []) ws)) @ pre, s, g)"
    using star_steps_intro [of "lang a" a "filter (\<lambda>w. w \<noteq> []) ws" pre s g] LStar.IH LStar.prems(1) ws(2)
    by (auto simp: subset_iff)
  with ws show ?case by (simp add: concat_nonempty)
qed (auto intro: re_steps.intros)

lemma re_steps_lang_dest:
  "regular r \<Longrightarrow> re_steps r (pre, s, g) t \<Longrightarrow> \<exists>w v. s = w @ v \<and> w \<in> lang r \<and> t = (rev w @ pre, v, g)"
proof (induction r arbitrary: pre s g t)
  case (Seq a b)
  then obtain u where u: "re_steps a (pre, s, g) u" "re_steps b u t" by (auto simp: re_steps_simps)
  from Seq.IH(1) [OF _ u(1)] Seq.prems obtain w v where w: "s = w @ v" "w \<in> lang a" "u = (rev w @ pre, v, g)" by auto
  with Seq.IH(2) [of "rev w @ pre" v g t] Seq.prems u(2) obtain w' v'
    where "v = w' @ v'" "w' \<in> lang b" "t = (rev w' @ rev w @ pre, v', g)" by auto
  with w show ?case by (intro exI [of _ "w @ w'"] exI [of _ v']) auto
next
  case (Star a)
  then have "\<exists>ws v. rest_of (pre, s, g) = concat ws @ v \<and> set ws \<subseteq> lang a \<and>
      t = (rev (concat ws) @ fst (pre, s, g), v, snd (snd (pre, s, g)))"
    by (intro star_steps_dest [where r = "Star a"]) auto
  then show ?case by auto
next
  case (LStar a)
  then have "\<exists>ws v. rest_of (pre, s, g) = concat ws @ v \<and> set ws \<subseteq> lang a \<and>
      t = (rev (concat ws) @ fst (pre, s, g), v, snd (snd (pre, s, g)))"
    by (intro star_steps_dest [where r = "LStar a"]) auto
  then show ?case by auto
next
  case (Alt a b)
  from Alt.prems consider "re_steps a (pre, s, g) t" | "re_steps b (pre, s, g) t"
    by (auto simp: re_steps_simps)
  then show ?case
    using Alt.IH(1) [of pre s g t] Alt.IH(2) [of pre s g t] Alt.prems(1) by cases auto
qed (auto simp: re_steps_simps)

lemma re_steps_lang:
  assumes "regular r"
  shows "re_steps r (pre, s, g) t \<longleftrightarrow> (\<exists>w v. s = w @ v \<and> w \<in> lang r \<and> t = (rev w @ pre, v, g))"
proof
  assume "\<exists>w v. s = w @ v \<and> w \<in> lang r \<and> t = (rev w @ pre, v, g)"
  then show "re_steps r (pre, s, g) t" using re_steps_lang_intro [OF assms] by auto
qed (rule re_steps_lang_dest [OF assms])

lemma re_steps_to_Eol:
  "list_all regular rs \<Longrightarrow> re_steps (seqs (rs @ [Eol])) (pre, s, g) t \<longleftrightarrow>
     (\<exists>w v. s = w @ v \<and> w \<in> lang (seqs rs) \<and> (v = [] \<or> v = [CHR 0x0A]) \<and> t = (rev w @ pre, v, g))"
proof (induction rs arbitrary: pre s)
  case Nil
  then show ?case by (auto simp: seqs_def re_steps_simps)
next
  case (Cons r rs)
  have "re_steps (seqs ((r # rs) @ [Eol])) (pre, s, g) t \<longleftrightarrow>
      (\<exists>u. re_steps r (pre, s, g) u \<and> re_steps (seqs (rs @ [Eol])) u t)"
    by (simp add: seqs_def re_steps_simps)
  also have "\<dots> \<longleftrightarrow> (\<exists>w v. s = w @ v \<and> w \<in> lang r \<and> re_steps (seqs (rs @ [Eol])) (rev w @ pre, v, g) t)"
    using Cons.prems re_steps_lang [of r pre s g] by auto
  also have "\<dots> \<longleftrightarrow> (\<exists>w v. s = w @ v \<and> w \<in> lang (seqs (r # rs)) \<and> (v = [] \<or> v = [CHR 0x0A]) \<and> t = (rev w @ pre, v, g))"
    using Cons by (auto simp: seqs_def) (metis append_assoc rev_append)+
  finally show ?case .
qed

lemma match_anchored:
  assumes "list_all regular rs"
  shows "re_match (seqs (Bol # rs @ [Eol])) s \<noteq> None \<longleftrightarrow>
     (\<exists>w. (s = w \<or> s = w @ [CHR 0x0A]) \<and> w \<in> lang (seqs rs))"
proof -
  have "re_match (seqs (Bol # rs @ [Eol])) s \<noteq> None \<longleftrightarrow> (\<exists>t. re_steps (seqs (rs @ [Eol])) ([], s, []) t)"
    unfolding re_match_ok_iff by (auto simp: seqs_def re_steps_simps)
  then show ?thesis
    unfolding re_steps_to_Eol [OF assms] by auto
qed

lemma fullmatch_anchored:
  assumes "list_all regular rs"
  shows "re_fullmatch (seqs (Bol # rs @ [Eol])) s \<noteq> None \<longleftrightarrow> s \<in> lang (seqs rs)"
proof -
  have "re_fullmatch (seqs (Bol # rs @ [Eol])) s \<noteq> None \<longleftrightarrow> (\<exists>pre g. re_steps (seqs (rs @ [Eol])) ([], s, []) (pre, [], g))"
    unfolding re_fullmatch_ok_iff by (auto simp: seqs_def re_steps_simps)
  then show ?thesis
    unfolding re_steps_to_Eol [OF assms] by auto
qed

lemma fullmatch_lang:
  assumes "regular r" shows "re_fullmatch r s \<noteq> None \<longleftrightarrow> s \<in> lang r"
  unfolding re_fullmatch_ok_iff re_steps_lang [OF assms] by auto

lemma regular_derived [simp]:
  "regular (Lit w)" "regular (Plus a) = regular a" "regular (Opt a) = regular a"
  "regular (seqs rs) = list_all regular rs"
  by (induction w; simp add: Lit_def) (simp_all add: Plus_def Opt_def, induction rs, auto simp: seqs_def)

lemma regular_Rep [simp]: "regular a \<Longrightarrow> regular (Rep n a)" "regular a \<Longrightarrow> regular (RepUpTo n a)"
  by (induction n) (auto simp: Opt_def)

lemma lang_Lit [simp]: "lang (Lit w) = {w}"
  by (induction w) (auto simp: Lit_def)

lemma lang_seqs_Nil [simp]: "lang (seqs []) = {[]}"
  by (simp add: seqs_def)

lemma lang_seqs_Cons: "lang (seqs (r # rs)) = {u @ v |u v. u \<in> lang r \<and> v \<in> lang (seqs rs)}"
  by (simp add: seqs_def)

lemma lang_seqs_ConsI: "u \<in> lang r \<Longrightarrow> v \<in> lang (seqs rs) \<Longrightarrow> u @ v \<in> lang (seqs (r # rs))"
  unfolding lang_seqs_Cons by blast

lemma lang_Opt [simp]: "lang (Opt a) = insert [] (lang a)"
  by (auto simp: Opt_def)

lemma lang_Star_Chr [simp]: "lang (Star (Chr p)) = {w. list_all p w}"
proof -
  have "\<exists>ws. w = concat ws \<and> set ws \<subseteq> {[c] |c. p c}" if "list_all p w" for w
    using that by (intro exI [of _ "map (\<lambda>c. [c]) w"]) (auto simp: list_all_iff)
  moreover have "list_all p (concat ws)" if "set ws \<subseteq> {[c] |c. p c}" for ws
    using that by (induction ws) auto
  ultimately show ?thesis by auto
qed

lemma lang_Seq_Chr: "lang (Seq (Chr p) r) = {c # v |c v. p c \<and> v \<in> lang r}"
proof -
  have "(\<exists>u v. w = u @ v \<and> (\<exists>c. u = [c] \<and> p c) \<and> v \<in> lang r) \<longleftrightarrow> (\<exists>c v. w = c # v \<and> p c \<and> v \<in> lang r)" for w
    by (metis append_Cons append_Nil)
  then show ?thesis by simp
qed

lemma lang_Plus_Chr [simp]: "lang (Plus (Chr p)) = {w. w \<noteq> [] \<and> list_all p w}"
proof -
  have "w \<noteq> [] \<and> list_all p w \<longleftrightarrow> (\<exists>c v. w = c # v \<and> p c \<and> list_all p v)" for w
    by (cases w) auto
  then show ?thesis unfolding Plus_def lang_Seq_Chr lang_Star_Chr by blast
qed

lemma lang_Rep_Chr [simp]: "lang (Rep n (Chr p)) = {w. length w = n \<and> list_all p w}"
proof (induction n)
  case (Suc n)
  have "length w = Suc n \<and> list_all p w \<longleftrightarrow> (\<exists>c v. w = c # v \<and> p c \<and> length v = n \<and> list_all p v)" for w
    by (cases w) auto
  with Suc show ?case unfolding Rep.simps lang_Seq_Chr by blast
qed auto

lemma is_digit_char: "k < 10 \<Longrightarrow> is_digit (char_of (48 + k))"
  for k :: nat
  by (simp add: is_digit_def in_range_def less_eq_char_def)

section \<open>Numbers\<close>

text \<open>
  \<^verbatim>\<open>int(raw)\<close> of a byte string: surrounding white space, a sign, digits with single underscores between them.
\<close>

definition is_c_space :: "char \<Rightarrow> bool" where
  "is_c_space c = (let n = (of_char c :: nat) in (9 \<le> n \<and> n \<le> 13) \<or> n = 32)"

fun digits_value :: "nat \<Rightarrow> string \<Rightarrow> nat option" where
  "digits_value acc [] = Some acc"
| "digits_value acc (c # cs) =
     (if is_digit c then digits_value (10 * acc + (of_char c - 48)) cs
      else if c = CHR ''_'' \<and> cs \<noteq> [] \<and> is_digit (hd cs) then digits_value acc cs
      else None)"

definition unsigned_value :: "string \<Rightarrow> nat option" where
  "unsigned_value s = (if s \<noteq> [] \<and> is_digit (hd s) then digits_value 0 s else None)"

definition int_of_bytes :: "string \<Rightarrow> int option" where
  "int_of_bytes raw =
     (case strip_by is_c_space raw of
        [] \<Rightarrow> None
      | c # cs \<Rightarrow>
          if c = CHR ''-'' then map_option (\<lambda>n. - int n) (unsigned_value cs)
          else if c = CHR ''+'' then map_option int (unsigned_value cs)
          else map_option int (unsigned_value (c # cs)))"

end
