(* ===== verification/Claim_Registry.thy ===== *)
theory Claim_Registry
  imports Repo_Fs Py_Regex
begin

text \<open>
  Model of \<^verbatim>\<open>scripts/docmeta/validate_claim_registry.py\<close>: reading the claim registry and validating its
  entries. \<^verbatim>\<open>json.loads\<close> is the parameter \<open>json_loads\<close>; \<^verbatim>\<open>lstrip("\ufeff")\<close> is the identity on the
  alphabet of the model, which has no code point above 255.

  \<open>registry_ok\<close> is the specification of a valid registry; \<open>validate_registry_data_iff\<close> shows that the
  validator reports nothing exactly for those, and \<open>claim_id_language\<close> which identifiers the pattern of
  the source matches.
\<close>

section \<open>Constants and findings\<close>

definition VALID_STATUSES :: "string list" where
  "VALID_STATUSES = [''proposed'', ''established'', ''superseded'', ''rejected'']"

definition is_claim_char :: "char \<Rightarrow> bool" where
  "is_claim_char c = (is_upper c \<or> is_digit c)"

definition CLAIM_ID_PATTERN :: re where
  "CLAIM_ID_PATTERN =
     seqs [Bol, Lit ''CLAIM-'', Plus (Chr is_claim_char),
           Star (seqs [Lit ''-'', Plus (Chr is_claim_char)]),
           Lit ''-'', Rep 3 (Chr is_digit), Eol]"

definition REQUIRED_CLAIM_FIELDS :: "string list" where
  "REQUIRED_CLAIM_FIELDS =
     [''id'', ''status'', ''subject'', ''statement'', ''evidence'', ''validation'', ''updated'']"

definition REQUIRED_STRING_CLAIM_FIELDS :: "string list" where
  "REQUIRED_STRING_CLAIM_FIELDS = [''id'', ''status'', ''subject'', ''statement'', ''updated'']"

record registry_finding =
  rf_code :: string
  rf_claim_id :: string
  rf_message :: string
  rf_path :: "string option"
  rf_field :: "string option"

definition mk_registry_finding ::
  "string \<Rightarrow> string option \<Rightarrow> string \<Rightarrow> string option \<Rightarrow> string option \<Rightarrow> registry_finding" where
  "mk_registry_finding code claim_id message path field =
     \<lparr>rf_code = code,
      rf_claim_id = (case claim_id of None \<Rightarrow> ''-'' | Some c \<Rightarrow> if c = '''' then ''-'' else c),
      rf_message = message, rf_path = path, rf_field = field\<rparr>"

section \<open>Evidence paths\<close>

definition resolve_repo_relative_path :: "repo_fs \<Rightarrow> string \<Rightarrow> py_error + (path option \<times> string option)" where
  "resolve_repo_relative_path fs p =
     (if is_absolute p then Inr (None, Some ''Evidence path must be relative to repository root'')
      else bindE (resolve_below fs p) (\<lambda>(doc_root, resolved).
        if inside doc_root resolved then Inr (Some resolved, None)
        else Inr (None, Some ''Evidence path resolves outside repository root'')))"

section \<open>Loading\<close>

definition normalize_registry_text :: "string \<Rightarrow> string" where
  "normalize_registry_text raw =
     (let n0 = strip raw;
          n1 = (if startswith n0 ''---'' then strip (join [CHR 0x0A] (drop 1 (splitlines n0))) else n0)
      in if endswith n1 ''...'' then strip (take (length n1 - 3) n1) else n1)"

definition load_registry ::
  "(string \<Rightarrow> py_error + json) \<Rightarrow> repo_fs \<Rightarrow> path \<Rightarrow> py_error + (json option \<times> registry_finding list \<times> int)" where
  "load_registry json_loads fs p =
     (if \<not> fs_exists fs p then
        Inr (None, [mk_registry_finding ''REGISTRY_MISSING'' None ''Registry file does not exist'' (Some (path_str p)) None], 2)
      else (case fs_read_text fs p of
        Inl (OSError exc) \<Rightarrow>
          Inr (None, [mk_registry_finding ''REGISTRY_PARSE_ERROR'' None (''Registry is not readable: '' @ exc) (Some (path_str p)) None], 2)
      | Inl e \<Rightarrow> Inl e
      | Inr raw \<Rightarrow> (case json_loads (normalize_registry_text raw) of
            Inl (JSONDecodeError msg) \<Rightarrow>
              Inr (None, [mk_registry_finding ''REGISTRY_PARSE_ERROR'' None (''Registry parse error: '' @ msg) (Some (path_str p)) None], 2)
          | Inl e \<Rightarrow> Inl e
          | Inr data \<Rightarrow> Inr (Some data, [], 0))))"

section \<open>Validation of one claim\<close>

definition claim_id_of :: "jobject \<Rightarrow> string option" where
  "claim_id_of claim = (case sget claim ''id'' of JStr i \<Rightarrow> Some i | _ \<Rightarrow> None)"

definition required_message :: "string \<Rightarrow> string" where
  "required_message field = ''Claim field '' @ [CHR 0x27] @ field @ [CHR 0x27] @ '' is required''"

definition missing_fields :: "jobject \<Rightarrow> registry_finding list" where
  "missing_fields claim =
     map (\<lambda>field. mk_registry_finding ''CLAIM_MISSING_FIELD'' (claim_id_of claim) (required_message field) None (Some field))
       (filter (\<lambda>field. field \<notin> set (keys_of claim)) REQUIRED_CLAIM_FIELDS)"

definition string_field :: "jobject \<Rightarrow> string \<Rightarrow> registry_finding list" where
  "string_field claim field =
     (case map_of claim field of
        None \<Rightarrow> []
      | Some (JStr value) \<Rightarrow>
          if strip value = ''''
          then [mk_registry_finding ''CLAIM_MISSING_FIELD'' (claim_id_of claim) (required_message field) None (Some field)]
          else []
      | Some _ \<Rightarrow>
          [mk_registry_finding ''CLAIM_FIELD_NOT_STRING'' (claim_id_of claim)
             (''Claim field '' @ [CHR 0x27] @ field @ [CHR 0x27] @ '' must be a string'') None (Some field)])"

definition id_findings :: "string list \<Rightarrow> jobject \<Rightarrow> registry_finding list" where
  "id_findings seen_ids claim =
     (case claim_id_of claim of
        None \<Rightarrow> []
      | Some claim_id \<Rightarrow>
          (if re_match CLAIM_ID_PATTERN claim_id = None
           then [mk_registry_finding ''CLAIM_INVALID_ID'' (Some claim_id) ''Claim ID format is invalid'' None (Some ''id'')] else []) @
          (if claim_id \<in> set seen_ids
           then [mk_registry_finding ''CLAIM_DUPLICATE_ID'' (Some claim_id) ''Duplicate claim ID'' None (Some ''id'')] else []))"

definition valid_status :: "json \<Rightarrow> bool" where
  "valid_status status = (case status of JStr s \<Rightarrow> s \<in> set VALID_STATUSES | _ \<Rightarrow> False)"

definition status_findings :: "jobject \<Rightarrow> registry_finding list" where
  "status_findings claim =
     (if valid_status (sget claim ''status'') then []
      else [mk_registry_finding ''CLAIM_INVALID_STATUS'' (claim_id_of claim)
              ''Claim status must be one of: proposed, established, superseded, rejected'' None (Some ''status'')])"

definition nonblank :: "json \<Rightarrow> bool" where
  "nonblank v = (case v of JStr s \<Rightarrow> strip s \<noteq> '''' | _ \<Rightarrow> False)"

definition evidence_item_findings :: "repo_fs \<Rightarrow> jobject \<Rightarrow> jobject \<Rightarrow> py_error + registry_finding list" where
  "evidence_item_findings fs claim item =
     (let claim_id = claim_id_of claim in
      case sget item ''path'' of
        JStr p \<Rightarrow>
          if strip p = '''' then
            Inr [mk_registry_finding ''EVIDENCE_MISSING_FIELD'' claim_id
                   (''Evidence field '' @ [CHR 0x27] @ ''path'' @ [CHR 0x27] @ '' is required'') None (Some ''path'')]
          else bindE (resolve_repo_relative_path fs p) (\<lambda>(resolved_path, path_error).
            Inr ((if nonblank (sget item ''kind'') then []
                  else [mk_registry_finding ''EVIDENCE_MISSING_FIELD'' claim_id
                          (''Evidence field '' @ [CHR 0x27] @ ''kind'' @ [CHR 0x27] @ '' is required'') (Some p) (Some ''kind'')]) @
                 (case path_error of
                    Some msg \<Rightarrow> [mk_registry_finding ''EVIDENCE_PATH_OUTSIDE_REPO'' claim_id msg (Some p) None]
                  | None \<Rightarrow>
                      if sget claim ''status'' = JStr ''established'' \<and>
                         (case resolved_path of Some r \<Rightarrow> \<not> fs_exists fs r | None \<Rightarrow> False)
                      then [mk_registry_finding ''EVIDENCE_PATH_MISSING'' claim_id ''Evidence path does not exist'' (Some p) None]
                      else [])))
      | _ \<Rightarrow> Inr [mk_registry_finding ''EVIDENCE_MISSING_FIELD'' claim_id
                   (''Evidence field '' @ [CHR 0x27] @ ''path'' @ [CHR 0x27] @ '' is required'') None (Some ''path'')])"

fun evidence_dicts :: "json list \<Rightarrow> jobject list" where
  "evidence_dicts [] = []"
| "evidence_dicts (JDict d # xs) = d # evidence_dicts xs"
| "evidence_dicts (x # xs) = evidence_dicts xs"

definition evidence_findings :: "repo_fs \<Rightarrow> jobject \<Rightarrow> py_error + registry_finding list" where
  "evidence_findings fs claim =
     (let missing = [mk_registry_finding ''CLAIM_MISSING_EVIDENCE'' (claim_id_of claim)
                       ''Claim evidence must be a non-empty array'' None None] in
      case sget claim ''evidence'' of
        JList evidence \<Rightarrow>
          if evidence = [] then Inr missing
          else bindE (concatE (evidence_item_findings fs claim) (evidence_dicts evidence)) (\<lambda>item_findings.
            Inr ((if length (evidence_dicts evidence) \<noteq> length evidence
                  then [mk_registry_finding ''EVIDENCE_MISSING_FIELD'' (claim_id_of claim)
                          ''Each evidence entry must be an object'' None None] else [])
                 @ item_findings))
      | _ \<Rightarrow> Inr missing)"

definition validation_findings :: "jobject \<Rightarrow> registry_finding list" where
  "validation_findings claim =
     (case sget claim ''validation'' of
        JList (_ # _) \<Rightarrow> []
      | _ \<Rightarrow> [mk_registry_finding ''CLAIM_MISSING_VALIDATION'' (claim_id_of claim)
               ''Validation commands must be a non-empty array'' None (Some ''validation'')])"

definition claim_findings :: "repo_fs \<Rightarrow> string list \<Rightarrow> jobject \<Rightarrow> py_error + registry_finding list" where
  "claim_findings fs seen_ids claim =
     bindE (evidence_findings fs claim) (\<lambda>evidence.
     Inr (missing_fields claim
          @ concat (map (string_field claim) REQUIRED_STRING_CLAIM_FIELDS)
          @ id_findings seen_ids claim
          @ status_findings claim
          @ evidence
          @ validation_findings claim))"

section \<open>Validation of the registry\<close>

text \<open>The loop over the claims; \<open>seen_ids\<close> is the set the source threads through it.\<close>

fun claims_loop :: "repo_fs \<Rightarrow> string list \<Rightarrow> json list \<Rightarrow> py_error + registry_finding list" where
  "claims_loop fs seen_ids [] = Inr []"
| "claims_loop fs seen_ids (claim # claims) =
     (case claim of
        JDict d \<Rightarrow>
          bindE (claim_findings fs seen_ids d) (\<lambda>here.
          bindE (claims_loop fs (case claim_id_of d of Some i \<Rightarrow> i # seen_ids | None \<Rightarrow> seen_ids) claims) (\<lambda>rest.
          Inr (here @ rest)))
      | _ \<Rightarrow>
          bindE (claims_loop fs seen_ids claims) (\<lambda>rest.
          Inr (mk_registry_finding ''CLAIM_MISSING_FIELD'' None ''Claim entry must be an object'' None None # rest)))"

definition validate_registry_data :: "repo_fs \<Rightarrow> json \<Rightarrow> py_error + registry_finding list" where
  "validate_registry_data fs data =
     (case data of
        JDict d \<Rightarrow>
          (let version = (if ''version'' \<in> set (keys_of d) then []
                 else [mk_registry_finding ''MISSING_VERSION'' None
                         (''Top-level field '' @ [CHR 0x27] @ ''version'' @ [CHR 0x27] @ '' is required'') None None]);
               no_claims = [mk_registry_finding ''MISSING_CLAIMS'' None
                         (''Top-level field '' @ [CHR 0x27] @ ''claims'' @ [CHR 0x27] @ '' must be a non-empty array'') None None]
           in case sget d ''claims'' of
                JList claims \<Rightarrow>
                  if claims = [] then Inr (version @ no_claims)
                  else bindE (claims_loop fs [] claims) (\<lambda>rest. Inr (version @ rest))
              | _ \<Rightarrow> Inr (version @ no_claims))
      | _ \<Rightarrow> Inr [mk_registry_finding ''INVALID_TOP_LEVEL'' None ''Top-level registry must be an object'' None None])"

record registry_report =
  rr_registry :: string
  rr_claims_count :: nat
  rr_findings_count :: nat
  rr_findings :: "registry_finding list"

definition mk_registry_report :: "string \<Rightarrow> nat \<Rightarrow> registry_finding list \<Rightarrow> registry_report" where
  "mk_registry_report registry n findings =
     \<lparr>rr_registry = registry, rr_claims_count = n, rr_findings_count = length findings, rr_findings = findings\<rparr>"

definition registry_path :: "repo_fs \<Rightarrow> string \<Rightarrow> path" where
  "registry_path fs registry = (if is_absolute registry then [] else fs_root fs) @ path_parts registry"

definition run_validation ::
  "(string \<Rightarrow> py_error + json) \<Rightarrow> repo_fs \<Rightarrow> string \<Rightarrow> py_error + (registry_report \<times> int)" where
  "run_validation json_loads fs registry =
     bindE (load_registry json_loads fs (registry_path fs registry)) (\<lambda>(data, parser_findings, parser_exit).
       if parser_exit \<noteq> 0 then Inr (mk_registry_report registry 0 parser_findings, parser_exit)
       else (case data of
         None \<Rightarrow> Inr (mk_registry_report registry 0
             [mk_registry_finding ''REGISTRY_PARSE_ERROR'' None ''Unknown parser failure''
                (Some (path_str (registry_path fs registry))) None], 2)
       | Some JNull \<Rightarrow> Inr (mk_registry_report registry 0
             [mk_registry_finding ''REGISTRY_PARSE_ERROR'' None ''Unknown parser failure''
                (Some (path_str (registry_path fs registry))) None], 2)
       | Some v \<Rightarrow>
           bindE (validate_registry_data fs v) (\<lambda>findings.
           Inr (mk_registry_report registry
                  (case v of JDict d \<Rightarrow> (case sget d ''claims'' of JList cs \<Rightarrow> length cs | _ \<Rightarrow> 0) | _ \<Rightarrow> 0)
                  findings,
                if findings = [] then 0 else 1))))"

section \<open>The claim identifiers\<close>

lemma star_dash_lang:
  "lang (Star (seqs [Lit ''-'', Plus (Chr is_claim_char)])) =
     {concat (map (\<lambda>w. CHR ''-'' # w) ws) |ws. \<forall>w\<in>set ws. w \<noteq> [] \<and> list_all is_claim_char w}"
proof -
  have blocks: "set us \<subseteq> {CHR ''-'' # w |w. w \<noteq> [] \<and> list_all is_claim_char w} \<longleftrightarrow>
      (\<exists>ws. us = map (\<lambda>w. CHR ''-'' # w) ws \<and> (\<forall>w\<in>set ws. w \<noteq> [] \<and> list_all is_claim_char w))" for us
  proof (induction us)
    case (Cons u us)
    show ?case
    proof
      assume a: "set (u # us) \<subseteq> {CHR ''-'' # w |w. w \<noteq> [] \<and> list_all is_claim_char w}"
      with Cons obtain ws where "us = map (\<lambda>w. CHR ''-'' # w) ws" "\<forall>w\<in>set ws. w \<noteq> [] \<and> list_all is_claim_char w" by auto
      moreover from a obtain w where "u = CHR ''-'' # w" "w \<noteq> []" "list_all is_claim_char w" by auto
      ultimately show "\<exists>ws. u # us = map (\<lambda>w. CHR ''-'' # w) ws \<and> (\<forall>w\<in>set ws. w \<noteq> [] \<and> list_all is_claim_char w)"
        by (intro exI [of _ "w # ws"]) auto
    qed auto
  qed auto
  have "lang (seqs [Lit ''-'', Plus (Chr is_claim_char)]) = {CHR ''-'' # w |w. w \<noteq> [] \<and> list_all is_claim_char w}"
    by (auto simp: lang_seqs_Cons)
  then show ?thesis
    unfolding lang.simps by (simp add: blocks) blast
qed

lemma join_dash: "ws \<noteq> [] \<Longrightarrow> join ''-'' ws = hd ws @ concat (map (\<lambda>w. CHR ''-'' # w) (tl ws))"
  by (induction "''-''" ws rule: join.induct) auto

text \<open>
  \<^verbatim>\<open>CLAIM_ID_PATTERN.match\<close> accepts exactly \<^verbatim>\<open>CLAIM-\<close>, one or more blocks of upper-case letters and
  digits joined by dashes, a dash and three digits, and also such a text followed by one newline.
\<close>

lemma claim_id_language:
  "re_match CLAIM_ID_PATTERN s \<noteq> None \<longleftrightarrow>
     (\<exists>w blocks ddd. (s = w \<or> s = w @ [CHR 0x0A]) \<and>
        w = ''CLAIM-'' @ join ''-'' blocks @ ''-'' @ ddd \<and>
        blocks \<noteq> [] \<and> list_all (\<lambda>b. b \<noteq> [] \<and> list_all is_claim_char b) blocks \<and>
        length ddd = 3 \<and> list_all is_digit ddd)"
proof -
  let ?rs = "[Lit ''CLAIM-'', Plus (Chr is_claim_char), Star (seqs [Lit ''-'', Plus (Chr is_claim_char)]),
    Lit ''-'', Rep 3 (Chr is_digit)]"
  have "w \<in> lang (seqs ?rs) \<longleftrightarrow>
      (\<exists>blocks ddd. w = ''CLAIM-'' @ join ''-'' blocks @ ''-'' @ ddd \<and>
        blocks \<noteq> [] \<and> (\<forall>b\<in>set blocks. b \<noteq> [] \<and> list_all is_claim_char b) \<and> length ddd = 3 \<and> list_all is_digit ddd)"
    (is "?L w \<longleftrightarrow> ?R w") for w
  proof
    assume "?L w"
    then obtain b ws ddd where "w = ''CLAIM-'' @ b @ concat (map (\<lambda>w. CHR ''-'' # w) ws) @ ''-'' @ ddd"
        "b \<noteq> []" "list_all is_claim_char b" "\<forall>w\<in>set ws. w \<noteq> [] \<and> list_all is_claim_char w"
        "length ddd = 3" "list_all is_digit ddd"
      unfolding lang_seqs_Cons star_dash_lang lang_Lit lang_Plus_Chr lang_Rep_Chr lang_seqs_Nil by auto
    then show "?R w" by (intro exI [of _ "b # ws"] exI [of _ ddd]) (simp add: join_dash)
  next
    assume "?R w"
    then obtain blocks ddd where R: "w = ''CLAIM-'' @ join ''-'' blocks @ ''-'' @ ddd" "blocks \<noteq> []"
        "\<forall>b\<in>set blocks. b \<noteq> [] \<and> list_all is_claim_char b" "length ddd = 3" "list_all is_digit ddd"
      by blast
    moreover obtain b ws where "blocks = b # ws" using R(2) by (cases blocks) auto
    ultimately have w: "w = ''CLAIM-'' @ b @ concat (map (\<lambda>w. CHR ''-'' # w) ws) @ ''-'' @ ddd"
      and parts: "b \<noteq> []" "list_all is_claim_char b" "\<forall>w\<in>set ws. w \<noteq> [] \<and> list_all is_claim_char w"
        "length ddd = 3" "list_all is_digit ddd"
      by (simp_all add: join_dash)
    from parts have "concat (map (\<lambda>w. CHR ''-'' # w) ws) \<in> lang (Star (seqs [Lit ''-'', Plus (Chr is_claim_char)]))"
      unfolding star_dash_lang by blast
    with parts have "''CLAIM-'' @ b @ concat (map (\<lambda>w. CHR ''-'' # w) ws) @ ''-'' @ ddd @ [] \<in> lang (seqs ?rs)"
      by (intro lang_seqs_ConsI) (simp_all del: append_Cons)
    with w show "?L w" by simp
  qed
  moreover have "CLAIM_ID_PATTERN = seqs (Bol # ?rs @ [Eol])" by (simp add: CLAIM_ID_PATTERN_def)
  moreover have "list_all regular ?rs" by simp
  ultimately show ?thesis
    using match_anchored [of ?rs s] by (auto simp: list_all_iff [of _ "_ :: string list"])
qed

section \<open>What a valid registry is\<close>

definition evidence_ok :: "repo_fs \<Rightarrow> jobject \<Rightarrow> jobject \<Rightarrow> bool" where
  "evidence_ok fs claim item \<longleftrightarrow>
     nonblank (sget item ''path'') \<and> nonblank (sget item ''kind'') \<and>
     (\<exists>p doc_root r. sget item ''path'' = JStr p \<and> \<not> is_absolute p \<and> resolve_below fs p = Inr (doc_root, r) \<and>
        inside doc_root r \<and> (sget claim ''status'' = JStr ''established'' \<longrightarrow> fs_exists fs r))"

definition claim_ok :: "repo_fs \<Rightarrow> jobject \<Rightarrow> bool" where
  "claim_ok fs claim \<longleftrightarrow>
     set REQUIRED_CLAIM_FIELDS \<subseteq> set (keys_of claim) \<and>
     (\<forall>f\<in>set REQUIRED_STRING_CLAIM_FIELDS. nonblank (sget claim f)) \<and>
     (\<exists>i. sget claim ''id'' = JStr i \<and> re_match CLAIM_ID_PATTERN i \<noteq> None) \<and>
     valid_status (sget claim ''status'') \<and>
     (\<exists>ev. sget claim ''evidence'' = JList (map JDict ev) \<and> ev \<noteq> [] \<and> (\<forall>e\<in>set ev. evidence_ok fs claim e)) \<and>
     (\<exists>v vs. sget claim ''validation'' = JList (v # vs))"

definition registry_ok :: "repo_fs \<Rightarrow> json \<Rightarrow> bool" where
  "registry_ok fs data \<longleftrightarrow>
     (\<exists>d claims. data = JDict d \<and> ''version'' \<in> set (keys_of d) \<and> sget d ''claims'' = JList (map JDict claims) \<and>
        claims \<noteq> [] \<and> (\<forall>c\<in>set claims. claim_ok fs c) \<and> distinct (map claim_id_of claims))"

lemma missing_fields_Nil: "missing_fields claim = [] \<longleftrightarrow> set REQUIRED_CLAIM_FIELDS \<subseteq> set (keys_of claim)"
  by (auto simp: missing_fields_def filter_empty_conv)

lemma string_field_Nil:
  "f \<in> set (keys_of claim) \<Longrightarrow> string_field claim f = [] \<longleftrightarrow> nonblank (sget claim f)"
  by (auto simp: string_field_def nonblank_def sget_def weak_map_of_SomeI split: option.splits json.splits
      dest!: map_of_eq_None_iff [THEN iffD1])

lemma status_findings_Nil: "status_findings claim = [] \<longleftrightarrow> valid_status (sget claim ''status'')"
  by (simp add: status_findings_def)

lemma id_findings_Nil:
  "sget claim ''id'' = JStr i \<Longrightarrow>
     id_findings seen claim = [] \<longleftrightarrow> re_match CLAIM_ID_PATTERN i \<noteq> None \<and> i \<notin> set seen"
  by (simp add: id_findings_def claim_id_of_def)

lemma validation_findings_Nil: "validation_findings claim = [] \<longleftrightarrow> (\<exists>v vs. sget claim ''validation'' = JList (v # vs))"
  by (auto simp: validation_findings_def split: json.splits list.splits)

lemma evidence_item_Nil: "evidence_item_findings fs claim item = Inr [] \<longleftrightarrow> evidence_ok fs claim item"
  unfolding evidence_item_findings_def evidence_ok_def resolve_repo_relative_path_def nonblank_def
  by (cases "sget item ''path''"; cases "sget item ''kind''")
     (auto simp: Let_def bindE_eq_Inr split: prod.splits option.splits if_splits)

lemma evidence_dicts_length: "length (evidence_dicts xs) \<le> length xs"
  by (induction xs rule: evidence_dicts.induct) auto

lemma evidence_dicts_short: "length (evidence_dicts xs) \<noteq> Suc (length xs)"
  using evidence_dicts_length [of xs] by simp

lemma evidence_dicts_all:
  "length (evidence_dicts xs) = length xs \<longleftrightarrow> (\<exists>ds. xs = map JDict ds)"
proof (induction xs rule: evidence_dicts.induct)
  case (2 d xs)
  then show ?case by (auto simp: Cons_eq_map_conv)
qed (auto simp: evidence_dicts_short Cons_eq_map_conv)

lemma evidence_dicts_map [simp]: "evidence_dicts (map JDict ds) = ds"
  by (induction ds) auto

lemma evidence_findings_Nil:
  "evidence_findings fs claim = Inr [] \<longleftrightarrow>
     (\<exists>ev. sget claim ''evidence'' = JList (map JDict ev) \<and> ev \<noteq> [] \<and> (\<forall>e\<in>set ev. evidence_ok fs claim e))"
proof (cases "sget claim ''evidence''")
  case (JList xs)
  have "evidence_findings fs claim = Inr [] \<longleftrightarrow> xs \<noteq> [] \<and> (\<exists>ev. xs = map JDict ev) \<and>
      (\<forall>e\<in>set (evidence_dicts xs). evidence_ok fs claim e)"
    using JList unfolding evidence_findings_def evidence_item_Nil [symmetric] concatE_Nil_iff [symmetric]
    by (simp add: bindE_eq_Inr evidence_dicts_all [symmetric])
  then show ?thesis using JList by auto
qed (auto simp: evidence_findings_def)

lemma claim_findings_Nil:
  "claim_findings fs seen claim = Inr [] \<longleftrightarrow> claim_ok fs claim \<and> claim_id_of claim \<notin> Some ` set seen"
proof (cases "set REQUIRED_CLAIM_FIELDS \<subseteq> set (keys_of claim)")
  case True
  then have "string_field claim f = [] \<longleftrightarrow> nonblank (sget claim f)" if "f \<in> set REQUIRED_STRING_CLAIM_FIELDS" for f
    using that by (intro string_field_Nil) (auto simp: REQUIRED_CLAIM_FIELDS_def REQUIRED_STRING_CLAIM_FIELDS_def)
  then have strings: "concat (map (string_field claim) REQUIRED_STRING_CLAIM_FIELDS) = [] \<longleftrightarrow>
      (\<forall>f\<in>set REQUIRED_STRING_CLAIM_FIELDS. nonblank (sget claim f))"
    by (simp add: concat_eq_Nil_conv)
  have "claim_findings fs seen claim = Inr [] \<longleftrightarrow>
      missing_fields claim = [] \<and> concat (map (string_field claim) REQUIRED_STRING_CLAIM_FIELDS) = [] \<and>
      id_findings seen claim = [] \<and> status_findings claim = [] \<and>
      evidence_findings fs claim = Inr [] \<and> validation_findings claim = []"
    by (auto simp: claim_findings_def bindE_eq_Inr simp del: concat_eq_Nil_conv)
  moreover have "\<exists>i. sget claim ''id'' = JStr i"
    if "\<forall>f\<in>set REQUIRED_STRING_CLAIM_FIELDS. nonblank (sget claim f)"
  proof -
    from that have "nonblank (sget claim ''id'')" by (simp add: REQUIRED_STRING_CLAIM_FIELDS_def)
    then show ?thesis by (auto simp: nonblank_def split: json.splits)
  qed
  moreover have "id_findings seen claim = [] \<longleftrightarrow>
      (\<exists>i. sget claim ''id'' = JStr i \<and> re_match CLAIM_ID_PATTERN i \<noteq> None) \<and> claim_id_of claim \<notin> Some ` set seen"
    if "sget claim ''id'' = JStr i" for i
    using that id_findings_Nil [OF that] by (auto simp: claim_id_of_def)
  ultimately show ?thesis
    unfolding claim_ok_def strings evidence_findings_Nil missing_fields_Nil status_findings_Nil validation_findings_Nil
    by blast
qed (auto simp: claim_findings_def claim_ok_def bindE_eq_Inr missing_fields_Nil)

lemma claims_loop_Nil:
  "claims_loop fs seen cs = Inr [] \<longleftrightarrow>
     (\<exists>claims. cs = map JDict claims \<and> (\<forall>c\<in>set claims. claim_ok fs c) \<and> distinct (map claim_id_of claims) \<and>
        set (map claim_id_of claims) \<inter> Some ` set seen = {})"
proof (induction cs arbitrary: seen)
  case (Cons c cs)
  show ?case
  proof (cases c)
    case (JDict d)
    have id: "\<exists>i. claim_id_of d = Some i" if "claim_ok fs d"
      using that by (auto simp: claim_ok_def claim_id_of_def)
    have "claims_loop fs seen (c # cs) = Inr [] \<longleftrightarrow> claim_findings fs seen d = Inr [] \<and>
        claims_loop fs (case claim_id_of d of Some i \<Rightarrow> i # seen | None \<Rightarrow> seen) cs = Inr []"
      using JDict by (auto simp: bindE_eq_Inr)
    also have "\<dots> \<longleftrightarrow> (\<exists>i. claim_id_of d = Some i \<and> claim_ok fs d \<and> i \<notin> set seen \<and>
        claims_loop fs (i # seen) cs = Inr [])"
      using id by (auto simp: claim_findings_Nil)
    also have "\<dots> \<longleftrightarrow> (\<exists>claims. c # cs = map JDict claims \<and> (\<forall>c\<in>set claims. claim_ok fs c) \<and>
        distinct (map claim_id_of claims) \<and> set (map claim_id_of claims) \<inter> Some ` set seen = {})"
      unfolding Cons.IH using JDict id
      apply (auto simp: Cons_eq_map_conv)
      subgoal for i claims by (rule exI [of _ "d # claims"]) auto
      subgoal for zs i by (rule exI [of _ zs]) auto
      done
    finally show ?thesis .
  qed (auto simp: bindE_eq_Inr Cons_eq_map_conv)
qed simp

text \<open>
  C12: the validator reports nothing exactly for a valid registry: it has a version and claims, every
  claim has its fields, a well-formed identifier of its own, a known status, evidence that lies inside
  the repository and, for an established claim, exists, and validation commands.
\<close>

theorem validate_registry_data_iff: "validate_registry_data fs data = Inr [] \<longleftrightarrow> registry_ok fs data"
proof (cases data)
  case (JDict d)
  show ?thesis
  proof (cases "sget d ''claims''")
    case (JList cs)
    have "validate_registry_data fs data = Inr [] \<longleftrightarrow>
        ''version'' \<in> set (keys_of d) \<and> cs \<noteq> [] \<and> claims_loop fs [] cs = Inr []"
      using JDict JList by (auto simp: validate_registry_data_def Let_def bindE_eq_Inr)
    then show ?thesis
      unfolding claims_loop_Nil registry_ok_def using JDict JList by auto
  qed (auto simp: validate_registry_data_def registry_ok_def JDict)
qed (auto simp: validate_registry_data_def registry_ok_def)

text \<open>
  The exit code of the registry check: 0 with no finding, 1 with findings of a registry that was
  read, 2 when it could not be read or parsed; the report always carries its findings.
\<close>

lemma run_validation_exit:
  assumes "run_validation json_loads fs registry = Inr (report, code)"
  shows "code \<in> {0, 1, 2} \<and> (code = 0 \<longleftrightarrow> rr_findings report = []) \<and>
     rr_findings_count report = length (rr_findings report)"
proof -
  obtain data fs' c where load: "load_registry json_loads fs (registry_path fs registry) = Inr (data, fs', c)"
    using assms by (auto simp: run_validation_def bindE_eq_Inr)
  have parser: "c \<noteq> 0 \<Longrightarrow> c = 2 \<and> fs' \<noteq> []"
    using load by (auto simp: load_registry_def split: if_splits sum.splits py_error.splits)
  show ?thesis
  proof (cases "c = 0")
    case False
    with assms load parser show ?thesis by (auto simp: run_validation_def mk_registry_report_def)
  next
    case True
    with assms load show ?thesis
      by (cases data; cases "the data") (auto simp: run_validation_def mk_registry_report_def bindE_eq_Inr split: if_splits)
  qed
qed

end
