(* ===== verification/Non_Ideal_Task.thy ===== *)
theory Non_Ideal_Task
  imports Claim_Registry
begin

text \<open>
  Model of \<^verbatim>\<open>scripts/agent/check_non_ideal_task.py\<close>: the guard that rejects agent task contracts with a
  scope that is too broad, blocked by a forbidden path, final in its status or unbacked by the claim
  registry, and its command line.

  \<open>agent_env\<close> collects what the agent scripts get from outside: the file system, \<^verbatim>\<open>re\<close> on the patterns
  of a schema, \<^verbatim>\<open>json.loads\<close> with its two hooks, the stack depth available to the validator and
  \<^verbatim>\<open>hashlib.sha256(..).hexdigest()\<close>.
  \<^verbatim>\<open>_finding\<close> is the record \<open>finding\<close>; an absent \<^verbatim>\<open>field\<close> is \<open>None\<close>.

  \<open>forbidden_blocks_allowed_iff\<close> reads the path rule as a prefix of path components,
  \<open>find_status_done_iff\<close> the recursive search as an occurrence, and \<open>guard_clean_iff\<close> the whole guard as
  the specification \<open>task_ok\<close>.
\<close>

section \<open>Constants, findings, environment\<close>

definition DISALLOWED_SCOPE_MARKERS :: "string list" where
  "DISALLOWED_SCOPE_MARKERS = ['''', ''.'', ''/'', ''*'', ''**'', ''repo'', ''all'', ''root'']"

definition CONTRADICTORY_CLAIM_STATUSES :: "string list" where
  "CONTRADICTORY_CLAIM_STATUSES = [''rejected'', ''contradicted'', ''superseded'', ''obsolete'']"

record finding =
  f_code :: string
  f_message :: string
  f_field :: "string option"

definition mk_finding :: "string \<Rightarrow> string \<Rightarrow> string option \<Rightarrow> finding" where
  "mk_finding code message field = \<lparr>f_code = code, f_message = message, f_field = field\<rparr>"

definition field_text :: "finding \<Rightarrow> string" where
  "field_text f = (case f_field f of None \<Rightarrow> '''' | Some x \<Rightarrow> x)"

record agent_env =
  ae_fs :: repo_fs
  ae_re :: re_env
  ae_json_loads :: "((string \<times> json) list \<Rightarrow> py_error + jobject) \<Rightarrow> (string \<Rightarrow> py_error + json) \<Rightarrow> string \<Rightarrow> py_error + json"
  ae_stack :: nat
  ae_sha256 :: "string \<Rightarrow> string"

text \<open>\<^verbatim>\<open>json.loads\<close> without hooks: a repeated key keeps its last value, the constants are numbers.\<close>

definition plain_loads :: "agent_env \<Rightarrow> string \<Rightarrow> py_error + json" where
  "plain_loads env raw =
     ae_json_loads env (\<lambda>pairs. Inr (fold (\<lambda>(k, v) d. dict_set k v d) pairs []))
       (\<lambda>c. Inr (JFloat (if c = ''NaN'' then NaN else if c = ''Infinity'' then PosInf else NegInf))) raw"

definition load_json_strict :: "agent_env \<Rightarrow> path \<Rightarrow> py_error + json" where
  "load_json_strict env p =
     bindE (fs_read_text (ae_fs env) p) (loads_json_strict (ae_json_loads env))"

section \<open>Paths\<close>

definition normalize_path :: "string \<Rightarrow> string" where
  "normalize_path p = strip (replace_str [CHR 0x5C] ''/'' p)"

definition trim_trailing :: "string \<Rightarrow> string" where
  "trim_trailing p = rstrip_by (\<lambda>c. c = CHR ''/'') (normalize_path p)"

definition forbidden_blocks_allowed :: "string \<Rightarrow> string \<Rightarrow> bool" where
  "forbidden_blocks_allowed allowed forbidden =
     (let normalized_allowed = trim_trailing allowed; normalized_forbidden = trim_trailing forbidden in
      if normalized_allowed = '''' \<or> normalized_forbidden = '''' then False
      else if normalized_allowed = normalized_forbidden then True
      else startswith normalized_allowed (normalized_forbidden @ ''/''))"

definition is_generated_path :: "string \<Rightarrow> bool" where
  "is_generated_path p =
     (let normalized = strip_by (\<lambda>c. c = CHR ''/'') (normalize_path p) in
      normalized = ''docs/_generated'' \<or> startswith normalized ''docs/_generated/'')"

text \<open>A method call on a value that has to be a string.\<close>

definition as_str :: "json \<Rightarrow> py_error + string" where
  "as_str v = (case v of JStr s \<Rightarrow> Inr s | _ \<Rightarrow> Inl AttributeError)"

section \<open>The checks\<close>

definition violation_finding :: "string \<Rightarrow> violation \<Rightarrow> finding" where
  "violation_finding code v =
     (let field = removeprefix (v_path v) ''$.'' in
      mk_finding code (v_message v) (if field \<noteq> ''$'' then Some field else None))"

definition load_task_schema :: "agent_env \<Rightarrow> py_error + jobject" where
  "load_task_schema env =
     bindE (load_json_strict env (fs_root (ae_fs env) @ [''contracts'', ''agent'', ''task.schema.json''])) (\<lambda>schema.
     case schema of JDict d \<Rightarrow> Inr d
     | _ \<Rightarrow> Inl (UnsupportedSchemaError ''task schema must be a JSON object''))"

definition validate_task_schema :: "agent_env \<Rightarrow> json \<Rightarrow> jobject \<Rightarrow> py_error + finding list" where
  "validate_task_schema env task task_schema =
     bindE (if task_schema = [] then load_task_schema env else Inr task_schema) (\<lambda>schema.
     bindE (validate_instance (ae_re env) (ae_stack env) task (JDict schema) [] ''$'') (\<lambda>violations.
     Inr (map (violation_finding ''TASK_SCHEMA_INVALID'') violations)))"

definition done_here :: "string \<Rightarrow> json \<Rightarrow> string \<Rightarrow> finding list" where
  "done_here key value current_path =
     (case value of
        JStr s \<Rightarrow>
          (if key \<in> {''status'', ''repo_status''} \<and> lower (strip s) = ''done''
           then [mk_finding ''STATUS_DONE_BY_AGENT'' ''Final status field is forbidden for agent tasks'' (Some current_path)]
           else []) @
          (if key = ''decision'' \<and> lower (strip s) = ''pass''
           then [mk_finding ''STATUS_DONE_BY_AGENT''
                   (''Final decision '' @ [CHR 0x27] @ ''pass'' @ [CHR 0x27] @ '' is forbidden for agent tasks'') (Some current_path)]
           else [])
      | _ \<Rightarrow> [])"

function find_status_done :: "json \<Rightarrow> string \<Rightarrow> finding list" where
  "find_status_done task p =
     (case task of
        JDict d \<Rightarrow>
          concat (map (\<lambda>(key, value).
            let current_path = (if p \<noteq> '''' then p @ ''.'' @ key else key) in
            done_here key value current_path @ find_status_done value current_path) d)
      | JList xs \<Rightarrow>
          concat (map (\<lambda>(index, item). find_status_done item (index_path p index)) (enumerate 0 xs))
      | _ \<Rightarrow> [])"
  by pat_completeness auto
termination
  by (relation "measure (\<lambda>(task, p). size task)")
     (auto simp del: json.size simp: in_set_enumerate_eq)

declare find_status_done.simps [simp del]

fun has_generator_command :: "json list \<Rightarrow> py_error + bool" where
  "has_generator_command [] = Inr False"
| "has_generator_command (command # commands) =
     bindE (as_str command) (\<lambda>c.
       if contains ''scripts/docmeta/generate_'' (lower c) then Inr True else has_generator_command commands)"

definition scope_marker_findings :: "string list \<Rightarrow> finding list" where
  "scope_marker_findings allowed_paths =
     map (\<lambda>p. mk_finding ''SCOPE_TOO_BROAD''
            (''allowed_paths entry '' @ [CHR 0x27] @ p @ [CHR 0x27] @ '' ist zu breit'') (Some ''allowed_paths''))
       (filter (\<lambda>p. lower (trim_trailing p) \<in> set DISALLOWED_SCOPE_MARKERS) allowed_paths)"

definition blocked_findings :: "string list \<Rightarrow> string list \<Rightarrow> finding list" where
  "blocked_findings allowed_paths forbidden_paths =
     concat (map (\<lambda>allowed. map (\<lambda>forbidden. mk_finding ''FORBIDDEN_PATH''
            (''allowed_paths '' @ [CHR 0x27] @ allowed @ [CHR 0x27] @ '' wird durch forbidden_paths ''
             @ [CHR 0x27] @ forbidden @ [CHR 0x27] @ '' blockiert'') (Some ''forbidden_paths''))
         (filter (forbidden_blocks_allowed allowed) forbidden_paths)) allowed_paths)"

definition generated_findings :: "jobject \<Rightarrow> string list \<Rightarrow> py_error + finding list" where
  "generated_findings task allowed_paths =
     (if \<not> list_ex is_generated_path allowed_paths then Inr []
      else bindE (case sget task ''validation_commands'' of JList commands \<Rightarrow> has_generator_command commands
                  | _ \<Rightarrow> Inr False) (\<lambda>has_generator.
        Inr (if sget task ''task_type'' \<noteq> JStr ''generated_refresh'' \<or> \<not> has_generator
             then [mk_finding ''FORBIDDEN_PATH''
                     ''docs/_generated/ darf nur in generated_refresh tasks mit Generator-Command erlaubt werden''
                     (Some ''allowed_paths'')]
             else [])))"

definition validate_scope_rules :: "jobject \<Rightarrow> py_error + finding list" where
  "validate_scope_rules task =
     (let none = [mk_finding ''NO_ALLOWED_PATHS'' ''allowed_paths fehlt oder ist leer'' (Some ''allowed_paths'')] in
      case sget task ''allowed_paths'' of
        JList allowed \<Rightarrow>
          if allowed = [] then Inr none
          else
            bindE (mapE as_str allowed) (\<lambda>allowed_paths.
            bindE (case sget task ''forbidden_paths'' of JList fs \<Rightarrow> mapE as_str fs | _ \<Rightarrow> Inr []) (\<lambda>forbidden_paths.
            bindE (generated_findings task allowed_paths) (\<lambda>generated.
            Inr (scope_marker_findings allowed_paths @ blocked_findings allowed_paths forbidden_paths @ generated))))
      | _ \<Rightarrow> Inr none)"

definition nonempty_list :: "json \<Rightarrow> bool" where
  "nonempty_list v = (case v of JList (_ # _) \<Rightarrow> True | _ \<Rightarrow> False)"

definition validate_task_requirements :: "jobject \<Rightarrow> finding list" where
  "validate_task_requirements task =
     (if nonempty_list (sget task ''validation_commands'') then []
      else [mk_finding ''NO_VALIDATION_COMMAND'' ''validation_commands fehlt oder ist leer'' (Some ''validation_commands'')]) @
     (if nonempty_list (sget task ''expected_evidence'') then []
      else [mk_finding ''NO_EXPECTED_EVIDENCE'' ''expected_evidence fehlt oder ist leer'' (Some ''expected_evidence'')])"

section \<open>Claims\<close>

definition load_claim_registry :: "agent_env \<Rightarrow> path \<Rightarrow> py_error + (jobject option \<times> finding option)" where
  "load_claim_registry env p =
     bindE (load_registry (plain_loads env) (ae_fs env) p) (\<lambda>(data, parser_findings, parser_exit).
       if parser_exit \<noteq> 0 \<or> data = None \<or> data = Some JNull then
         Inr (None, Some (
           if parser_findings \<noteq> [] \<and> rf_code (hd parser_findings) \<noteq> ''REGISTRY_MISSING''
           then mk_finding ''CLAIM_REGISTRY_INVALID'' ''Claim-Registry ist nicht parsebar'' None
           else mk_finding ''CLAIM_REGISTRY_NOT_FOUND'' ''Claim-Registry nicht gefunden'' None))
       else
         bindE (validate_registry_data (ae_fs env) (the data)) (\<lambda>registry_findings.
         if registry_findings \<noteq> [] then
           Inr (None, Some (mk_finding ''CLAIM_REGISTRY_INVALID'' ''Claim-Registry ist nicht valide'' None))
         else (case the data of
             JDict d \<Rightarrow> Inr (Some d, None)
           | _ \<Rightarrow> Inr (None, Some (mk_finding ''CLAIM_REGISTRY_INVALID'' ''Claim-Registry Top-Level ist ungueltig'' None)))))"

definition claims_map :: "jobject \<Rightarrow> (string, string) dict" where
  "claims_map registry =
     (case map_of registry ''claims'' of
        Some (JList claims) \<Rightarrow>
          fold (\<lambda>claim m.
            case claim of
              JDict d \<Rightarrow> (case (sget d ''id'', sget d ''status'') of
                  (JStr claim_id, JStr status) \<Rightarrow> dict_set claim_id (lower status) m
                | _ \<Rightarrow> m)
            | _ \<Rightarrow> m) claims []
      | _ \<Rightarrow> [])"

definition claim_finding :: "(string, string) dict \<Rightarrow> json \<Rightarrow> finding list" where
  "claim_finding m claim =
     (case claim of
        JStr claim_id \<Rightarrow>
          (case dict_get m claim_id of
             None \<Rightarrow> [mk_finding ''CLAIM_WITHOUT_REGISTRY_ENTRY''
                 (''Claim '' @ [CHR 0x27] @ claim_id @ [CHR 0x27] @ '' fehlt in docs/claims/registry.yml'') (Some ''claims'')]
           | Some status \<Rightarrow>
               if status \<in> set CONTRADICTORY_CLAIM_STATUSES
               then [mk_finding ''CONTRADICTION_FOUND''
                  (''Claim '' @ [CHR 0x27] @ claim_id @ [CHR 0x27] @ '' hat widerspruechlichen Status ''
                   @ [CHR 0x27] @ status @ [CHR 0x27]) (Some ''claims'')]
               else [])
      | _ \<Rightarrow> [])"

definition validate_claims :: "jobject \<Rightarrow> jobject \<Rightarrow> finding list" where
  "validate_claims task registry =
     (case sget task ''claims'' of
        JList task_claims \<Rightarrow> concat (map (claim_finding (claims_map registry)) task_claims)
      | _ \<Rightarrow> [])"

section \<open>The guard\<close>

definition guard_key :: "finding \<Rightarrow> string \<times> string \<times> string" where
  "guard_key f = (f_code f, f_message f, field_text f)"

fun dedupe :: "(string \<times> string \<times> string) list \<Rightarrow> finding list \<Rightarrow> finding list" where
  "dedupe seen [] = []"
| "dedupe seen (f # fs) =
     (if guard_key f \<in> set seen then dedupe seen fs else f # dedupe (guard_key f # seen) fs)"

definition run_non_ideal_guard :: "agent_env \<Rightarrow> json \<Rightarrow> jobject \<Rightarrow> jobject \<Rightarrow> py_error + finding list" where
  "run_non_ideal_guard env task registry task_schema =
     bindE (validate_task_schema env task task_schema) (\<lambda>schema_findings.
     bindE (case task of
         JDict d \<Rightarrow> bindE (validate_scope_rules d) (\<lambda>scope.
           Inr (scope @ validate_task_requirements d @ find_status_done task '''' @ validate_claims d registry))
       | _ \<Rightarrow> Inr []) (\<lambda>task_findings.
     Inr (dedupe [] (schema_findings @ task_findings))))"

section \<open>The command line\<close>

record guard_args =
  ga_task_file :: string
  ga_claim_registry :: string
  ga_mode :: string

datatype guard_output =
    GuardError string string
  | GuardReport string string "finding list"

definition resolve_repo_relative :: "repo_fs \<Rightarrow> string \<Rightarrow> py_error + path" where
  "resolve_repo_relative fs value =
     (if is_absolute value then Inl (ValueError (''Path must be repository-relative: '' @ value))
      else bindE (resolve_below fs value) (\<lambda>(doc_root, resolved).
        if inside doc_root resolved then Inr resolved
        else Inl (ValueError (''Path escapes repository root: '' @ value))))"

definition load_json :: "agent_env \<Rightarrow> path \<Rightarrow> py_error + (json option \<times> string option)" where
  "load_json env p =
     (case fs_read_text (ae_fs env) p of
        Inl (OSError exc) \<Rightarrow> Inr (None, Some (''Datei kann nicht gelesen werden: '' @ exc))
      | Inl e \<Rightarrow> Inl e
      | Inr raw \<Rightarrow> (case loads_json_strict (ae_json_loads env) raw of
            Inl (DuplicateKeyError msg) \<Rightarrow> Inr (None, Some msg)
          | Inl (JSONDecodeError msg) \<Rightarrow> Inr (None, Some (''JSON parse error: '' @ msg))
          | Inl e \<Rightarrow> Inl e
          | Inr task \<Rightarrow> Inr (Some task, None)))"

definition guard_check :: "agent_env \<Rightarrow> guard_args \<Rightarrow> path \<Rightarrow> path \<Rightarrow> py_error + (guard_output \<times> int)" where
  "guard_check env args task_file claim_registry_file =
     bindE (load_json env task_file) (\<lambda>(task, task_error).
       case task_error of
         Some msg \<Rightarrow> Inr (GuardReport (ga_mode args) (ga_task_file args) [mk_finding ''TASK_SCHEMA_INVALID'' msg None],
                         if ga_mode args = ''warn'' then 1 else 0)
       | None \<Rightarrow>
           bindE (load_claim_registry env claim_registry_file) (\<lambda>(registry_data, registry_error).
           case (registry_data, registry_error) of
             (Some registry, None) \<Rightarrow>
               (case run_non_ideal_guard env (the task) registry [] of
                  Inr findings \<Rightarrow> Inr (GuardReport (ga_mode args) (ga_task_file args) findings,
                      if ga_mode args = ''warn'' \<and> findings \<noteq> [] then 1 else 0)
                | Inl (OSError msg) \<Rightarrow> Inr (GuardError ''CONTRACT_SCHEMA_INVALID'' msg, 2)
                | Inl (JSONDecodeError msg) \<Rightarrow> Inr (GuardError ''CONTRACT_SCHEMA_INVALID'' msg, 2)
                | Inl (DuplicateKeyError msg) \<Rightarrow> Inr (GuardError ''CONTRACT_SCHEMA_INVALID'' msg, 2)
                | Inl (UnsupportedSchemaError msg) \<Rightarrow> Inr (GuardError ''CONTRACT_SCHEMA_INVALID'' msg, 2)
                | Inl e \<Rightarrow> Inl e)
           | (_, Some err) \<Rightarrow> Inr (GuardError (f_code err) (f_message err), 2)
           | (None, None) \<Rightarrow> Inr (GuardError '''' ''null'', 2)))"

definition guard_main :: "agent_env \<Rightarrow> guard_args \<Rightarrow> py_error + (guard_output \<times> int)" where
  "guard_main env args =
     (let fs = ae_fs env in
      case bindE (resolve_repo_relative fs (ga_task_file args)) (\<lambda>t.
             bindE (resolve_repo_relative fs (ga_claim_registry args)) (\<lambda>c. Inr (t, c))) of
        Inl (ValueError msg) \<Rightarrow> Inr (GuardError ''PATH_OUT_OF_REPO'' msg, 2)
      | Inl e \<Rightarrow> Inl e
      | Inr (task_file, claim_registry_file) \<Rightarrow>
          if \<not> fs_is_file fs task_file then
            Inr (GuardError ''TASK_FILE_NOT_FOUND'' (''Task-Datei nicht gefunden: '' @ ga_task_file args), 2)
          else if \<not> fs_is_file fs claim_registry_file then
            Inr (GuardError ''CLAIM_REGISTRY_NOT_FOUND'' (''Claim-Registry nicht gefunden: '' @ ga_claim_registry args), 2)
          else guard_check env args task_file claim_registry_file)"

section \<open>The path rule\<close>

text \<open>
  A forbidden path blocks an allowed path exactly when, after normalisation, both are non-empty and
  the components of the forbidden path are a prefix of the components of the allowed one. A sibling
  that only shares leading characters is not blocked.
\<close>

lemma forbidden_blocks_allowed_iff:
  "forbidden_blocks_allowed allowed forbidden \<longleftrightarrow>
     trim_trailing allowed \<noteq> '''' \<and> trim_trailing forbidden \<noteq> '''' \<and>
     (\<exists>rest. split_char CHR ''/'' (trim_trailing allowed) = split_char CHR ''/'' (trim_trailing forbidden) @ rest)"
  unfolding prefix_parts_iff [symmetric] forbidden_blocks_allowed_def by (auto simp: Let_def)

section \<open>The status search\<close>

text \<open>\<open>final_mark key value\<close>: an entry that claims completion; \<open>has_final\<close>: it occurs at some depth.\<close>

definition final_mark :: "string \<Rightarrow> json \<Rightarrow> bool" where
  "final_mark key value \<longleftrightarrow>
     (\<exists>s. value = JStr s \<and>
        (key \<in> {''status'', ''repo_status''} \<and> lower (strip s) = ''done'' \<or>
         key = ''decision'' \<and> lower (strip s) = ''pass''))"

inductive has_final :: "json \<Rightarrow> bool" where
  here: "(key, value) \<in> set d \<Longrightarrow> final_mark key value \<Longrightarrow> has_final (JDict d)"
| member: "(key, value) \<in> set d \<Longrightarrow> has_final value \<Longrightarrow> has_final (JDict d)"
| item: "x \<in> set xs \<Longrightarrow> has_final x \<Longrightarrow> has_final (JList xs)"

inductive_simps has_final_simps:
  "has_final JNull" "has_final (JBool b)" "has_final (JInt i)" "has_final (JFloat f)" "has_final (JStr s)"
  "has_final (JList xs)" "has_final (JDict d)"

lemma done_here_Nil: "done_here key value p = [] \<longleftrightarrow> \<not> final_mark key value"
  by (auto simp: done_here_def final_mark_def split: json.splits)

lemma find_status_done_Nil: "find_status_done task p = [] \<longleftrightarrow> \<not> has_final task"
proof (induction task arbitrary: p rule: measure_induct_rule [of size])
  case (less task)
  show ?case
  proof (cases task)
    case (JDict d)
    have "find_status_done v q = [] \<longleftrightarrow> \<not> has_final v" if "(k, v) \<in> set d" for k v q
      using less JDict size_json_child [OF that] by blast
    then show ?thesis
      by (subst find_status_done.simps)
         (fastforce simp: JDict has_final_simps Let_def done_here_Nil split: prod.splits)
  next
    case (JList xs)
    have IH: "find_status_done v q = [] \<longleftrightarrow> \<not> has_final v" if "v \<in> set xs" for v q
      using less JList size_json_item [OF that] by blast
    have "find_status_done (JList xs) p = [] \<longleftrightarrow> (\<forall>i x. (i, x) \<in> set (enumerate 0 xs) \<longrightarrow> find_status_done x (index_path p i) = [])"
      by (subst find_status_done.simps) auto
    also have "\<dots> \<longleftrightarrow> (\<forall>x\<in>set xs. \<not> has_final x)"
      using IH enumerate_snd [of _ 0 xs] by metis
    finally show ?thesis using JList by (auto simp: has_final_simps)
  qed (subst find_status_done.simps, simp add: has_final_simps)+
qed

text \<open>
  The search for a final status reports something exactly when, at some depth of dictionaries and
  lists, a \<^verbatim>\<open>status\<close> or \<^verbatim>\<open>repo_status\<close> says \<^verbatim>\<open>done\<close> or a \<^verbatim>\<open>decision\<close> says \<^verbatim>\<open>pass\<close>, up to case and
  surrounding blanks.
\<close>

lemma find_status_done_iff: "find_status_done task p \<noteq> [] \<longleftrightarrow> has_final task"
  by (simp add: find_status_done_Nil)

section \<open>Deduplication\<close>

lemma dedupe_keys: "guard_key ` set (dedupe seen fs) = guard_key ` set fs - set seen"
  by (induction seen fs rule: dedupe.induct) auto

lemma dedupe_subset: "set (dedupe seen fs) \<subseteq> set fs"
  by (induction seen fs rule: dedupe.induct) auto

lemma dedupe_distinct: "distinct (map guard_key (dedupe seen fs)) \<and> guard_key ` set (dedupe seen fs) \<inter> set seen = {}"
proof (induction seen fs rule: dedupe.induct)
  case (2 seen f fs)
  then show ?case by (auto split: if_splits)
qed simp

lemma dedupe_Nil [simp]: "dedupe [] fs = [] \<longleftrightarrow> fs = []"
  by (cases fs) auto

section \<open>The guard against its specification\<close>

text \<open>The claims of the registry: the last entry with a textual identifier and status counts.\<close>

fun last_status :: "json list \<Rightarrow> string \<Rightarrow> string option" where
  "last_status [] i = None"
| "last_status (c # cs) i =
     (case last_status cs i of
        Some s \<Rightarrow> Some s
      | None \<Rightarrow> (case c of
           JDict d \<Rightarrow> (case sget d ''status'' of
               JStr st \<Rightarrow> if sget d ''id'' = JStr i then Some (lower st) else None
             | _ \<Rightarrow> None)
         | _ \<Rightarrow> None))"

definition registry_status :: "jobject \<Rightarrow> string \<Rightarrow> string option" where
  "registry_status registry i =
     (case map_of registry ''claims'' of Some (JList cs) \<Rightarrow> last_status cs i | _ \<Rightarrow> None)"

definition strings_of :: "json \<Rightarrow> string list" where
  "strings_of v = (case v of JList xs \<Rightarrow> concat (map (\<lambda>x. case x of JStr s \<Rightarrow> [s] | _ \<Rightarrow> []) xs) | _ \<Rightarrow> [])"

definition all_strings :: "json \<Rightarrow> bool" where
  "all_strings v = (case v of JList xs \<Rightarrow> list_all is_str xs | _ \<Rightarrow> True)"

definition scope_ok :: "jobject \<Rightarrow> bool" where
  "scope_ok d \<longleftrightarrow>
     nonempty_list (sget d ''allowed_paths'') \<and> all_strings (sget d ''allowed_paths'') \<and>
     all_strings (sget d ''forbidden_paths'') \<and>
     (\<forall>a\<in>set (strings_of (sget d ''allowed_paths'')).
        lower (trim_trailing a) \<notin> set DISALLOWED_SCOPE_MARKERS \<and>
        (\<forall>f\<in>set (strings_of (sget d ''forbidden_paths'')). \<not> forbidden_blocks_allowed a f) \<and>
        (is_generated_path a \<longrightarrow> sget d ''task_type'' = JStr ''generated_refresh'' \<and>
           (\<exists>cs. sget d ''validation_commands'' = JList cs \<and> has_generator_command cs = Inr True)))"

definition task_ok :: "jobject \<Rightarrow> jobject \<Rightarrow> bool" where
  "task_ok d registry \<longleftrightarrow>
     scope_ok d \<and> nonempty_list (sget d ''validation_commands'') \<and> nonempty_list (sget d ''expected_evidence'') \<and>
     \<not> has_final (JDict d) \<and>
     (\<forall>c\<in>set (strings_of (sget d ''claims'')).
        \<exists>s. registry_status registry c = Some s \<and> s \<notin> set CONTRADICTORY_CLAIM_STATUSES)"

lemma mapE_as_str: "mapE as_str xs = Inr ys \<longleftrightarrow> list_all is_str xs \<and> ys = strings_of (JList xs)"
proof (induction xs arbitrary: ys)
  case (Cons x xs)
  then show ?case
    by (cases x) (auto simp: as_str_def strings_of_def bindE_eq_Inr)
qed (auto simp: strings_of_def)

lemma generated_findings_Nil:
  "generated_findings d ps = Inr [] \<longleftrightarrow>
     ((\<exists>p\<in>set ps. is_generated_path p) \<longrightarrow> sget d ''task_type'' = JStr ''generated_refresh'' \<and>
        (\<exists>cs. sget d ''validation_commands'' = JList cs \<and> has_generator_command cs = Inr True))"
  by (cases "sget d ''validation_commands''") (auto simp: generated_findings_def list_ex_iff bindE_eq_Inr)

lemma scope_marker_findings_Nil:
  "scope_marker_findings ps = [] \<longleftrightarrow> (\<forall>p\<in>set ps. lower (trim_trailing p) \<notin> set DISALLOWED_SCOPE_MARKERS)"
  by (simp add: scope_marker_findings_def filter_empty_conv)

lemma blocked_findings_Nil:
  "blocked_findings ps fs = [] \<longleftrightarrow> (\<forall>p\<in>set ps. \<forall>f\<in>set fs. \<not> forbidden_blocks_allowed p f)"
  by (simp add: blocked_findings_def filter_empty_conv)

lemma validate_scope_rules_Nil: "validate_scope_rules d = Inr [] \<longleftrightarrow> scope_ok d"
proof (cases "sget d ''allowed_paths''")
  case (JList xs)
  let ?fs = "case sget d ''forbidden_paths'' of JList fs \<Rightarrow> mapE as_str fs | _ \<Rightarrow> Inr []"
  have forb: "?fs = Inr ys \<longleftrightarrow> all_strings (sget d ''forbidden_paths'') \<and> ys = strings_of (sget d ''forbidden_paths'')" for ys
    by (cases "sget d ''forbidden_paths''") (auto simp: mapE_as_str all_strings_def strings_of_def)
  have "validate_scope_rules d = Inr [] \<longleftrightarrow> xs \<noteq> [] \<and> list_all is_str xs \<and>
      all_strings (sget d ''forbidden_paths'') \<and> generated_findings d (strings_of (JList xs)) = Inr [] \<and>
      scope_marker_findings (strings_of (JList xs)) = [] \<and>
      blocked_findings (strings_of (JList xs)) (strings_of (sget d ''forbidden_paths'')) = []"
    using JList by (auto simp: validate_scope_rules_def Let_def bindE_eq_Inr mapE_as_str forb)
  then show ?thesis
    unfolding scope_ok_def JList generated_findings_Nil scope_marker_findings_Nil blocked_findings_Nil
    by (cases xs) (auto simp: nonempty_list_def all_strings_def)
qed (auto simp: validate_scope_rules_def scope_ok_def nonempty_list_def)

lemma claims_map_fold:
  "dict_get (fold (\<lambda>claim m.
            case claim of
              JDict d \<Rightarrow> (case (sget d ''id'', sget d ''status'') of
                  (JStr claim_id, JStr status) \<Rightarrow> dict_set claim_id (lower status) m
                | _ \<Rightarrow> m)
            | _ \<Rightarrow> m) cs m) i = (case last_status cs i of Some s \<Rightarrow> Some s | None \<Rightarrow> dict_get m i)"
proof (induction cs arbitrary: m)
  case (Cons c cs)
  then show ?case
    by (auto simp: update_conv split: json.splits option.splits)
qed simp

lemma claims_map_get: "dict_get (claims_map registry) i = registry_status registry i"
  by (auto simp: claims_map_def registry_status_def claims_map_fold split: option.splits json.splits)

lemma claim_finding_Nil:
  "claim_finding m c = [] \<longleftrightarrow>
     (\<forall>i. c = JStr i \<longrightarrow> (\<exists>s. dict_get m i = Some s \<and> s \<notin> set CONTRADICTORY_CLAIM_STATUSES))"
  by (auto simp: claim_finding_def split: json.splits option.splits)

lemma validate_claims_Nil:
  "validate_claims d registry = [] \<longleftrightarrow>
     (\<forall>c\<in>set (strings_of (sget d ''claims'')).
        \<exists>s. registry_status registry c = Some s \<and> s \<notin> set CONTRADICTORY_CLAIM_STATUSES)"
proof (cases "sget d ''claims''")
  case (JList xs)
  have "set (strings_of (JList xs)) = {s. JStr s \<in> set xs}"
    by (force simp: strings_of_def split: json.splits)
  then show ?thesis
    using JList by (auto simp: validate_claims_def claim_finding_Nil claims_map_get)
qed (auto simp: validate_claims_def strings_of_def)

lemma validate_task_requirements_Nil:
  "validate_task_requirements d = [] \<longleftrightarrow>
     nonempty_list (sget d ''validation_commands'') \<and> nonempty_list (sget d ''expected_evidence'')"
  by (simp add: validate_task_requirements_def)

text \<open>
  C11: on a task that is an object, the guard reports nothing exactly when the task satisfies its schema
  and the specification: a non-empty scope of strings without a catch-all marker, no allowed path at or
  below a forbidden one, generated documents only in a refresh task with a generator command,
  validation and evidence present, no final status at any depth, and every claim in the registry with
  a status that does not contradict it.
\<close>

theorem guard_clean_iff:
  "run_non_ideal_guard env (JDict d) registry schema = Inr [] \<longleftrightarrow>
     validate_task_schema env (JDict d) schema = Inr [] \<and> task_ok d registry"
  by (auto simp: run_non_ideal_guard_def bindE_eq_Inr task_ok_def validate_scope_rules_Nil
      validate_task_requirements_Nil find_status_done_Nil validate_claims_Nil)

text \<open>
  The guard never reports the same code, message and field twice, and drops a finding only when
  another with the same code, message and field is reported.
\<close>

lemma dedupe_correct:
  "distinct (map guard_key (dedupe [] fs)) \<and> set (dedupe [] fs) \<subseteq> set fs \<and>
   guard_key ` set (dedupe [] fs) = guard_key ` set fs"
  using dedupe_distinct [of "[]" fs] dedupe_subset [of "[]" fs] dedupe_keys [of "[]" fs] by simp

text \<open>
  A task whose \<^verbatim>\<open>allowed_paths\<close> holds something that is not a string makes the guard raise
  \<^verbatim>\<open>AttributeError\<close>, although the schema check that runs before has already produced its findings.
\<close>

lemma guard_attribute_error:
  assumes "validate_task_schema env (JDict d) schema = Inr fs"
    and "sget d ''allowed_paths'' = JList xs" "x \<in> set xs" "\<not> is_str x"
  shows "run_non_ideal_guard env (JDict d) registry schema = Inl AttributeError"
proof -
  have "mapE as_str xs = Inl AttributeError"
    using assms(3,4)
  proof (induction xs)
    case (Cons y ys)
    then show ?case by (cases y) (auto simp: as_str_def)
  qed simp
  with assms show ?thesis
    by (auto simp: run_non_ideal_guard_def validate_scope_rules_def Let_def)
qed

definition demo_env :: agent_env where
  "demo_env = \<lparr>ae_fs = plain_fs [''repo''] [], ae_re = null_env,
     ae_json_loads = (\<lambda>_ _ raw. Inl (JSONDecodeError ''Expecting value'')), ae_stack = 9, ae_sha256 = (\<lambda>bytes. bytes)\<rparr>"

text \<open>
  The command line of the guard exits with 0, 1 or 2; 1 only in \<^verbatim>\<open>warn\<close> mode with findings, and
  a report in \<^verbatim>\<open>warn\<close> mode exits with 0 only when it is empty.
\<close>

lemma guard_main_exit:
  assumes "guard_main env args = Inr (out, code)"
  shows "(case out of GuardError c m \<Rightarrow> code = 2
          | GuardReport mode task fs \<Rightarrow> mode = ga_mode args \<and> code = (if mode = ''warn'' \<and> fs \<noteq> [] then 1 else 0))"
proof -
  let ?ok = "\<lambda>out code. case out of GuardError c m \<Rightarrow> code = 2
          | GuardReport mode task fs \<Rightarrow> mode = ga_mode args \<and> code = (if mode = ''warn'' \<and> fs \<noteq> [] then 1 else 0)"
  have chk: "?ok out code" if check: "guard_check env args t c = Inr (out, code)" for t c
  proof -
    obtain task err where load: "load_json env t = Inr (task, err)"
      using check by (auto simp: guard_check_def bindE_eq_Inr)
    show ?thesis
    proof (cases err)
      case None
      then obtain data rerr where reg: "load_claim_registry env c = Inr (data, rerr)"
        using check load by (auto simp: guard_check_def bindE_eq_Inr)
      show ?thesis
      proof (cases rerr)
        case None': None
        show ?thesis
        proof (cases data)
          case (Some registry)
          with check load reg None None' show ?thesis
            by (cases "run_non_ideal_guard env (the task) registry []")
               (auto simp: guard_check_def split: py_error.split_asm)
        qed (use check load reg None None' in \<open>auto simp: guard_check_def\<close>)
      qed (use check load reg None in \<open>auto simp: guard_check_def split: option.split_asm\<close>)
    qed (use check load in \<open>auto simp: guard_check_def\<close>)
  qed
  from assms consider t c where "guard_check env args t c = Inr (out, code)"
    | e m where "out = GuardError e m" "code = 2"
    unfolding guard_main_def Let_def
    by (auto split: sum.split_asm py_error.split_asm if_split_asm prod.split_asm)
  then show ?thesis by cases (rule chk, assumption, simp)
qed

end
