(* ===== verification/Handoff.thy ===== *)
theory Handoff
  imports Non_Ideal_Task
begin

text \<open>
  Model of \<^verbatim>\<open>scripts/agent/validate_handoff.py\<close>: a review handoff is checked against its task contract:
  paths against the scope of the task, claims, evidence, validation results and outcome.

  The rules of \<^verbatim>\<open>_validate_binding\<close> run only on values that passed the two JSON schemas. They read the
  values through \<open>read_task\<close> and \<open>read_handoff\<close>, which raise where an item is missing or is not of the
  shape the rules need (\<open>schemas_give_shape\<close> in \<open>Handoff_Contract\<close>: never for the schemas of the repository).

  The locale \<open>normaliser\<close> is the interface of path normalisation the rules rely on; it is interpreted for
  file paths and for scopes. One lemma \<open>..._Nil\<close> per rule gives its specification (\<open>paths_ok\<close>, \<open>claims_ok\<close>,
  \<open>evidence_accounted\<close>, \<open>results_ok\<close>, \<open>outcome_ok\<close>).
\<close>

section \<open>Repository paths\<close>

definition WINDOWS_DRIVE_RE :: re where
  "WINDOWS_DRIVE_RE = seqs [Bol, Chr is_alpha, Lit '':/'']"

definition rooted :: "string \<Rightarrow> bool" where
  "rooted raw = (raw = '''' \<or> startswith raw ''/'' \<or> re_match WINDOWS_DRIVE_RE raw \<noteq> None)"

definition handoff_resolve :: "repo_fs \<Rightarrow> string \<Rightarrow> py_error + path" where
  "handoff_resolve fs value =
     (let raw_text = strip (replace_str [CHR 0x5C] ''/'' value) in
      if rooted raw_text then Inl (ValueError (''Path must be repository-relative: '' @ value))
      else bindE (resolve_below fs raw_text) (\<lambda>(doc_root, resolved).
        if inside doc_root resolved then Inr resolved
        else Inl (ValueError (''Path escapes repository root: '' @ value))))"

definition normalize_repo_path :: "string \<Rightarrow> bool \<Rightarrow> string option" where
  "normalize_repo_path value allow_directory =
     (let raw = strip (replace_str [CHR 0x5C] ''/'' value) in
      if rooted raw then None
      else
        (let is_directory = endswith raw ''/'';
             raw' = (if is_directory then butlast raw else raw);
             parts = split_char CHR ''/'' raw'
         in if list_ex (\<lambda>part. part \<in> {'''', ''.'', ''..''}) parts then None
            else if is_directory \<and> \<not> allow_directory then None
            else Some (if is_directory then join ''/'' parts @ ''/'' else join ''/'' parts)))"

definition path_matches_scope :: "string \<Rightarrow> string \<Rightarrow> bool" where
  "path_matches_scope p scope =
     (case (normalize_repo_path p False, normalize_repo_path scope True) of
        (Some normalized_path, Some normalized_scope) \<Rightarrow>
          if endswith normalized_scope ''/'' then startswith normalized_path normalized_scope
          else normalized_path = normalized_scope
      | _ \<Rightarrow> False)"

definition normalized_file_set :: "string list \<Rightarrow> string list" where
  "normalized_file_set values = remdups (List.map_filter (\<lambda>v. normalize_repo_path v False) values)"

section \<open>Schemas\<close>

definition schema_findings :: "agent_env \<Rightarrow> json \<Rightarrow> jobject \<Rightarrow> string \<Rightarrow> py_error + finding list" where
  "schema_findings env payload schema code =
     bindE (validate_instance (ae_re env) (ae_stack env) payload (JDict schema) [] ''$'') (\<lambda>violations.
     Inr (map (violation_finding code) violations))"

definition load_schema :: "agent_env \<Rightarrow> string \<Rightarrow> py_error + jobject" where
  "load_schema env name =
     bindE (load_json_strict env (fs_root (ae_fs env) @ [''contracts'', ''agent'', name])) (\<lambda>schema.
     case schema of JDict d \<Rightarrow> Inr d
     | _ \<Rightarrow> Inl (UnsupportedSchemaError (name @ '' must contain a JSON object'')))"

section \<open>The contents of the two documents\<close>

record task_contract =
  t_task_id :: string
  t_allowed_paths :: "string list"
  t_forbidden_paths :: "string list"
  t_claims :: "string list"
  t_expected_evidence :: "string list"
  t_validation_commands :: "string list"
  t_delete_allowed :: bool

record handoff =
  h_task_id :: string
  h_task_contract_sha256 :: string
  h_changed_paths :: "string list"
  h_deleted_paths :: "string list"
  h_claims_addressed :: "string list"
  h_evidence_produced :: "string list"
  h_missing_evidence :: "string list"
  h_validation_results :: "(string \<times> string) list"
  h_outcome :: string
  h_blockers :: "string list"
  h_residual_gaps :: "string list"

definition get_key :: "jobject \<Rightarrow> string \<Rightarrow> py_error + json" where
  "get_key d k = (case map_of d k of None \<Rightarrow> Inl (KeyError k) | Some v \<Rightarrow> Inr v)"

definition get_str :: "jobject \<Rightarrow> string \<Rightarrow> py_error + string" where
  "get_str d k = bindE (get_key d k) (\<lambda>v. case v of JStr s \<Rightarrow> Inr s | _ \<Rightarrow> Inl TypeError)"

definition get_bool :: "jobject \<Rightarrow> string \<Rightarrow> py_error + bool" where
  "get_bool d k = bindE (get_key d k) (\<lambda>v. case v of JBool b \<Rightarrow> Inr b | _ \<Rightarrow> Inl TypeError)"

definition item_str :: "json \<Rightarrow> py_error + string" where
  "item_str v = (case v of JStr s \<Rightarrow> Inr s | _ \<Rightarrow> Inl TypeError)"

definition get_strings :: "jobject \<Rightarrow> string \<Rightarrow> py_error + string list" where
  "get_strings d k = bindE (get_key d k) (\<lambda>v. case v of JList xs \<Rightarrow> mapE item_str xs | _ \<Rightarrow> Inl TypeError)"

definition item_result :: "json \<Rightarrow> py_error + string \<times> string" where
  "item_result v = (case v of
       JDict d \<Rightarrow> bindE (get_str d ''command'') (\<lambda>c. bindE (get_str d ''status'') (\<lambda>s. Inr (c, s)))
     | _ \<Rightarrow> Inl TypeError)"

definition get_results :: "jobject \<Rightarrow> string \<Rightarrow> py_error + (string \<times> string) list" where
  "get_results d k = bindE (get_key d k) (\<lambda>v. case v of JList xs \<Rightarrow> mapE item_result xs | _ \<Rightarrow> Inl TypeError)"

definition read_task :: "jobject \<Rightarrow> py_error + task_contract" where
  "read_task d =
     bindE (get_str d ''task_id'') (\<lambda>task_id.
     bindE (get_strings d ''allowed_paths'') (\<lambda>allowed_paths.
     bindE (get_strings d ''forbidden_paths'') (\<lambda>forbidden_paths.
     bindE (get_strings d ''claims'') (\<lambda>claims.
     bindE (get_strings d ''expected_evidence'') (\<lambda>expected_evidence.
     bindE (get_strings d ''validation_commands'') (\<lambda>validation_commands.
     bindE (get_bool d ''delete_allowed'') (\<lambda>delete_allowed.
     Inr \<lparr>t_task_id = task_id, t_allowed_paths = allowed_paths, t_forbidden_paths = forbidden_paths,
          t_claims = claims, t_expected_evidence = expected_evidence,
          t_validation_commands = validation_commands, t_delete_allowed = delete_allowed\<rparr>)))))))"

definition read_handoff :: "jobject \<Rightarrow> py_error + handoff" where
  "read_handoff d =
     bindE (get_str d ''task_id'') (\<lambda>task_id.
     bindE (get_str d ''task_contract_sha256'') (\<lambda>sha.
     bindE (get_strings d ''changed_paths'') (\<lambda>changed.
     bindE (get_strings d ''deleted_paths'') (\<lambda>deleted.
     bindE (get_strings d ''claims_addressed'') (\<lambda>claims.
     bindE (get_strings d ''evidence_produced'') (\<lambda>produced.
     bindE (get_strings d ''missing_evidence'') (\<lambda>missing.
     bindE (get_results d ''validation_results'') (\<lambda>results.
     bindE (get_str d ''outcome'') (\<lambda>outcome.
     bindE (get_strings d ''blockers'') (\<lambda>blockers.
     bindE (get_strings d ''residual_gaps'') (\<lambda>gaps.
     Inr \<lparr>h_task_id = task_id, h_task_contract_sha256 = sha, h_changed_paths = changed,
          h_deleted_paths = deleted, h_claims_addressed = claims, h_evidence_produced = produced,
          h_missing_evidence = missing, h_validation_results = results, h_outcome = outcome,
          h_blockers = blockers, h_residual_gaps = gaps\<rparr>)))))))))))"

section \<open>The rules\<close>

definition path_findings :: "task_contract \<Rightarrow> string \<Rightarrow> string \<Rightarrow> finding list" where
  "path_findings task field declared_path =
     (case normalize_repo_path declared_path False of
        None \<Rightarrow> [mk_finding ''PATH_OUT_OF_REPO'' (''Invalid repository-relative file path: '' @ declared_path) (Some field)]
      | Some normalized \<Rightarrow>
          (if list_ex (path_matches_scope normalized) (t_allowed_paths task) then []
           else [mk_finding ''PATH_OUT_OF_SCOPE'' (''Path is not allowed by task: '' @ declared_path) (Some field)]) @
          (if list_ex (path_matches_scope normalized) (t_forbidden_paths task)
           then [mk_finding ''FORBIDDEN_PATH'' (''Path is forbidden by task: '' @ declared_path) (Some field)]
           else []))"

definition validate_paths :: "task_contract \<Rightarrow> handoff \<Rightarrow> finding list" where
  "validate_paths task h =
     (let changed = normalized_file_set (h_changed_paths h);
          deleted = normalized_file_set (h_deleted_paths h) in
      concat (map (path_findings task ''changed_paths'') (h_changed_paths h)) @
      concat (map (path_findings task ''deleted_paths'') (h_deleted_paths h)) @
      map (\<lambda>p. mk_finding ''PATH_STATE_CONTRADICTION'' (''Path cannot be both changed and deleted: '' @ p) (Some ''deleted_paths''))
        (sorted_set (list_inter changed deleted)) @
      (if deleted \<noteq> [] \<and> \<not> t_delete_allowed task
       then [mk_finding ''DELETE_WITHOUT_PERMISSION'' ''Handoff declares deletions although task forbids deletion''
               (Some ''deleted_paths'')]
       else []))"

definition handoff_claims :: "task_contract \<Rightarrow> handoff \<Rightarrow> finding list" where
  "handoff_claims task h =
     map (\<lambda>claim. mk_finding ''CLAIM_NOT_DECLARED'' (''Handoff addresses undeclared claim: '' @ claim) (Some ''claims_addressed''))
       (sorted_set (list_diff (h_claims_addressed h) (t_claims task))) @
     map (\<lambda>claim. mk_finding ''CLAIM_NOT_ADDRESSED'' (''Task claim is not addressed by handoff: '' @ claim) (Some ''claims_addressed''))
       (sorted_set (list_diff (t_claims task) (h_claims_addressed h)))"

definition valid_local_file :: "repo_fs \<Rightarrow> path \<Rightarrow> string \<Rightarrow> py_error + bool" where
  "valid_local_file fs doc_root normalized =
     (let candidate = fs_root fs @ path_parts normalized in
      case fs_resolve fs candidate of
        Inr resolved \<Rightarrow> Inr (inside doc_root resolved \<and> fs_is_file fs candidate)
      | Inl (OSError _) \<Rightarrow> Inr False
      | Inl (ValueError _) \<Rightarrow> Inr False
      | Inl e \<Rightarrow> Inl e)"

definition evidence_path_findings :: "repo_fs \<Rightarrow> path \<Rightarrow> string \<Rightarrow> string \<Rightarrow> py_error + finding list" where
  "evidence_path_findings fs doc_root field evidence =
     (case normalize_repo_path evidence False of
        None \<Rightarrow> Inr [mk_finding ''EVIDENCE_PATH_INVALID'' (''Evidence must be a repository-relative file path: '' @ evidence) (Some field)]
      | Some normalized \<Rightarrow>
          if field \<noteq> ''evidence_produced'' then Inr []
          else bindE (valid_local_file fs doc_root normalized) (\<lambda>ok.
            Inr (if ok then []
                 else [mk_finding ''EVIDENCE_NOT_FOUND''
                         (''Produced evidence file does not exist inside the repository: '' @ evidence) (Some field)])))"

definition validate_evidence :: "repo_fs \<Rightarrow> task_contract \<Rightarrow> handoff \<Rightarrow> py_error + finding list" where
  "validate_evidence fs task h =
     (let expected = normalized_file_set (t_expected_evidence task);
          produced = normalized_file_set (h_evidence_produced h);
          missing = normalized_file_set (h_missing_evidence h) in
      bindE (fs_resolve fs (fs_root fs)) (\<lambda>doc_root.
      bindE (concatE (evidence_path_findings fs doc_root ''evidence_produced'') (h_evidence_produced h)) (\<lambda>p.
      bindE (concatE (evidence_path_findings fs doc_root ''missing_evidence'') (h_missing_evidence h)) (\<lambda>m.
      Inr (map (\<lambda>e. mk_finding ''EVIDENCE_STATE_CONTRADICTION'' (''Evidence cannot be both produced and missing: '' @ e) (Some ''missing_evidence''))
             (sorted_set (list_inter produced missing)) @
           map (\<lambda>e. mk_finding ''EXPECTED_EVIDENCE_UNACCOUNTED'' (''Expected evidence is neither produced nor declared missing: '' @ e) (Some ''evidence_produced''))
             (sorted_set (list_diff (list_diff expected produced) missing)) @
           map (\<lambda>e. mk_finding ''UNEXPECTED_MISSING_EVIDENCE'' (''Missing evidence was not required by task: '' @ e) (Some ''missing_evidence''))
             (sorted_set (list_diff missing expected)) @
           p @ m)))))"

text \<open>The loop over the recorded results: duplicate findings and the map from command to status.\<close>

fun results_loop :: "nat \<Rightarrow> (string, string) dict \<Rightarrow> (string \<times> string) list \<Rightarrow> finding list \<times> (string, string) dict" where
  "results_loop i m [] = ([], m)"
| "results_loop i m ((command, status) # rest) =
     (let (fs, m') = results_loop (Suc i) (dict_set command status m) rest in
      ((if command \<in> set (keys_of m)
        then [mk_finding ''VALIDATION_RESULT_DUPLICATE'' (''Validation command is recorded more than once: '' @ command)
                (Some (index_path ''validation_results'' i))]
        else []) @ fs, m'))"

definition outcome_findings :: "task_contract \<Rightarrow> handoff \<Rightarrow> (string, string) dict \<Rightarrow> string list \<Rightarrow> finding list" where
  "outcome_findings task h result_map missing_results =
     (let non_passed = sort (map fst (filter (\<lambda>(command, status). status \<noteq> ''passed'') result_map));
          unaddressed = list_diff (t_claims task) (h_claims_addressed h) in
      if h_outcome h = ''ready_for_review'' then
        (if h_blockers h \<noteq> [] \<or> h_missing_evidence h \<noteq> []
         then [mk_finding ''CONTRADICTORY_OUTCOME'' ''ready_for_review requires no blockers or missing evidence'' (Some ''outcome'')]
         else []) @
        (if non_passed \<noteq> [] \<or> missing_results \<noteq> []
         then [mk_finding ''CONTRADICTORY_OUTCOME''
                 ''ready_for_review requires every recorded and required validation to pass'' (Some ''outcome'')]
         else [])
      else if h_outcome h = ''blocked'' \<and> h_blockers h = [] then
        [mk_finding ''CONTRADICTORY_OUTCOME'' ''blocked requires at least one blocker'' (Some ''blockers'')]
      else if h_outcome h = ''incomplete'' \<and>
          \<not> (h_missing_evidence h \<noteq> [] \<or> h_residual_gaps h \<noteq> [] \<or> non_passed \<noteq> [] \<or> missing_results \<noteq> [] \<or> unaddressed \<noteq> []) then
        [mk_finding ''CONTRADICTORY_OUTCOME''
           ''incomplete requires explicitly accounted missing evidence, a failed or not-run validation, or a residual gap''
           (Some ''outcome'')]
      else [])"

definition validate_results_and_outcome :: "task_contract \<Rightarrow> handoff \<Rightarrow> finding list" where
  "validate_results_and_outcome task h =
     (let (duplicates, result_map) = results_loop 0 [] (h_validation_results h);
          missing_results = list_diff (remdups (t_validation_commands task)) (keys_of result_map) in
      duplicates @
      map (\<lambda>command. mk_finding ''VALIDATION_RESULT_MISSING''
             (''No result recorded for required validation command: '' @ command) (Some ''validation_results''))
        (sorted_set missing_results) @
      outcome_findings task h result_map missing_results)"

definition validate_binding :: "agent_env \<Rightarrow> jobject \<Rightarrow> jobject \<Rightarrow> string \<Rightarrow> py_error + finding list" where
  "validate_binding env task_obj handoff_obj task_bytes =
     bindE (read_task task_obj) (\<lambda>task.
     bindE (read_handoff handoff_obj) (\<lambda>h.
     bindE (validate_evidence (ae_fs env) task h) (\<lambda>evidence.
     Inr ((if h_task_id h \<noteq> t_task_id task
           then [mk_finding ''TASK_ID_MISMATCH'' ''Handoff task_id does not match task contract'' (Some ''task_id'')] else []) @
          (if h_task_contract_sha256 h \<noteq> ae_sha256 env task_bytes
           then [mk_finding ''TASK_DIGEST_MISMATCH'' ''Handoff task_contract_sha256 does not match task file bytes''
                   (Some ''task_contract_sha256'')] else []) @
          validate_paths task h @ handoff_claims task h @ evidence @ validate_results_and_outcome task h))))"

section \<open>The validator\<close>

definition handoff_key :: "finding \<Rightarrow> string \<times> string \<times> string" where
  "handoff_key f = (f_code f, field_text f, f_message f)"

definition check_handoff :: "agent_env \<Rightarrow> json \<Rightarrow> json \<Rightarrow> string \<Rightarrow> jobject \<Rightarrow> jobject \<Rightarrow> jobject \<Rightarrow> py_error + finding list" where
  "check_handoff env task handoff_doc task_bytes task_schema handoff_schema claim_registry =
     bindE (schema_findings env task task_schema ''TASK_SCHEMA_INVALID'') (\<lambda>task_shape.
     bindE (schema_findings env handoff_doc handoff_schema ''HANDOFF_SCHEMA_INVALID'') (\<lambda>handoff_shape.
     bindE (if is_dict task then run_non_ideal_guard env task claim_registry task_schema else Inr []) (\<lambda>guard.
     let findings = task_shape @ handoff_shape @ guard;
         has_shape_error = list_ex (\<lambda>item. f_code item \<in> {''TASK_SCHEMA_INVALID'', ''HANDOFF_SCHEMA_INVALID''}) findings in
     bindE (case (task, handoff_doc) of
              (JDict t, JDict h) \<Rightarrow> if has_shape_error then Inr [] else validate_binding env t h task_bytes
            | _ \<Rightarrow> Inr []) (\<lambda>binding.
     Inr (sorted_unique handoff_key (findings @ binding))))))"

definition validate_handoff :: "agent_env \<Rightarrow> json \<Rightarrow> json \<Rightarrow> string \<Rightarrow> jobject option \<Rightarrow> py_error + finding list" where
  "validate_handoff env task handoff_doc task_bytes claim_registry =
     bindE (load_schema env ''task.schema.json'') (\<lambda>task_schema.
     bindE (load_schema env ''handoff.schema.json'') (\<lambda>handoff_schema.
     bindE (case claim_registry of
              Some r \<Rightarrow> Inr (Some r, None)
            | None \<Rightarrow> load_claim_registry env (fs_root (ae_fs env) @ [''docs'', ''claims'', ''registry.yml''])) (\<lambda>(registry, registry_error).
     case (registry, registry_error) of
       (Some r, None) \<Rightarrow> check_handoff env task handoff_doc task_bytes task_schema handoff_schema r
     | (_, Some err) \<Rightarrow> Inr [mk_finding (f_code err) (f_message err) None]
     | (None, None) \<Rightarrow> Inr [mk_finding ''CLAIM_REGISTRY_INVALID'' ''Claim registry is invalid'' None])))"

section \<open>The command line\<close>

record handoff_args =
  ha_task_file :: string
  ha_handoff_file :: string
  ha_claim_registry :: string

datatype handoff_output =
    CliError string string
  | HandoffReport string string string "finding list"

datatype cli_exception = CliInputError string string | Other py_error

definition read_json :: "agent_env \<Rightarrow> path \<Rightarrow> string \<Rightarrow> cli_exception + json" where
  "read_json env p label =
     (case load_json_strict env p of
        Inr v \<Rightarrow> Inr v
      | Inl (DuplicateKeyError msg) \<Rightarrow> Inl (CliInputError ''DUPLICATE_JSON_KEY'' msg)
      | Inl (JSONDecodeError msg) \<Rightarrow> Inl (CliInputError (label @ ''_JSON_INVALID'') (''JSON parse error: '' @ msg))
      | Inl (OSError msg) \<Rightarrow> Inl (CliInputError (label @ ''_FILE_UNREADABLE'') msg)
      | Inl e \<Rightarrow> Inl (Other e))"

definition lift_py :: "py_error + 'a \<Rightarrow> cli_exception + 'a" where
  "lift_py m = (case m of Inl e \<Rightarrow> Inl (Other e) | Inr v \<Rightarrow> Inr v)"

definition handoff_run :: "agent_env \<Rightarrow> path \<Rightarrow> path \<Rightarrow> path \<Rightarrow> cli_exception + (finding + finding list)" where
  "handoff_run env task_path handoff_path registry_file =
     bindE (read_json env task_path ''TASK'') (\<lambda>task.
     bindE (read_json env handoff_path ''HANDOFF'') (\<lambda>handoff_doc.
     bindE (lift_py (load_claim_registry env registry_file)) (\<lambda>(registry, registry_error).
     case (registry, registry_error) of
       (Some r, None) \<Rightarrow>
         bindE (lift_py (fs_read_bytes (ae_fs env) task_path)) (\<lambda>task_bytes.
         bindE (lift_py (validate_handoff env task handoff_doc task_bytes (Some r))) (\<lambda>findings.
         Inr (Inr findings)))
     | (_, Some err) \<Rightarrow> Inr (Inl err)
     | (None, None) \<Rightarrow> Inr (Inl (mk_finding ''CLAIM_REGISTRY_INVALID'' ''Claim registry is invalid'' None)))))"

definition handoff_main :: "agent_env \<Rightarrow> handoff_args \<Rightarrow> py_error + (handoff_output \<times> int)" where
  "handoff_main env args =
     (let fs = ae_fs env in
      case bindE (handoff_resolve fs (ha_task_file args)) (\<lambda>t.
           bindE (handoff_resolve fs (ha_handoff_file args)) (\<lambda>h.
           bindE (handoff_resolve fs (ha_claim_registry args)) (\<lambda>r. Inr (t, h, r)))) of
        Inl (ValueError msg) \<Rightarrow> Inr (CliError ''PATH_OUT_OF_REPO'' msg, 2)
      | Inl e \<Rightarrow> Inl e
      | Inr (task_path, handoff_path, registry_file) \<Rightarrow>
          if \<not> fs_is_file fs task_path then Inr (CliError ''TASK_FILE_NOT_FOUND'' (ha_task_file args), 2)
          else if \<not> fs_is_file fs handoff_path then Inr (CliError ''HANDOFF_FILE_NOT_FOUND'' (ha_handoff_file args), 2)
          else if \<not> fs_is_file fs registry_file then Inr (CliError ''CLAIM_REGISTRY_NOT_FOUND'' (ha_claim_registry args), 2)
          else (case handoff_run env task_path handoff_path registry_file of
              Inr (Inr findings) \<Rightarrow>
                Inr (HandoffReport (if findings = [] then ''valid'' else ''invalid'') (ha_task_file args) (ha_handoff_file args) findings,
                     if findings = [] then 0 else 1)
            | Inr (Inl err) \<Rightarrow> Inr (CliError (f_code err) (f_message err), 2)
            | Inl (CliInputError code msg) \<Rightarrow> Inr (CliError code msg, 2)
            | Inl (Other (DuplicateKeyError msg)) \<Rightarrow> Inr (CliError ''CONTRACT_SCHEMA_INVALID'' msg, 2)
            | Inl (Other (JSONDecodeError msg)) \<Rightarrow> Inr (CliError ''CONTRACT_SCHEMA_INVALID'' msg, 2)
            | Inl (Other (UnsupportedSchemaError msg)) \<Rightarrow> Inr (CliError ''CONTRACT_SCHEMA_UNSUPPORTED'' msg, 2)
            | Inl (Other (OSError msg)) \<Rightarrow> Inr (CliError ''CONTRACT_FILE_UNREADABLE'' msg, 2)
            | Inl (Other e) \<Rightarrow> Inl e))"

section \<open>Normal forms of repository paths\<close>

text \<open>
  The interface the handoff rules rely on: a partial normaliser whose results are normal forms. The
  rules compare files by their normal forms, collected with \<open>List.map_filter\<close>.
\<close>

locale normaliser =
  fixes norm :: "string \<Rightarrow> string option"
  assumes norm_idem: "norm v = Some p \<Longrightarrow> norm p = Some p"
begin

lemma normal_forms_iff: "p \<in> set (List.map_filter norm vs) \<longleftrightarrow> (\<exists>v\<in>set vs. norm v = Some p)"
  by (induction vs) (auto simp: List.map_filter_simps split: option.splits)

lemma normal_form_fixed: "p \<in> set (List.map_filter norm vs) \<Longrightarrow> norm p = Some p"
  using norm_idem by (auto simp: normal_forms_iff)

lemma normal_forms_idem: "set (List.map_filter norm (List.map_filter norm vs)) = set (List.map_filter norm vs)"
  using norm_idem by (fastforce simp: normal_forms_iff)

lemma normal_forms_Nil: "(\<forall>v\<in>set vs. norm v \<noteq> None) \<Longrightarrow> List.map_filter norm vs = [] \<longleftrightarrow> vs = []"
  by (cases vs) (auto simp: List.map_filter_simps split: option.splits)

end

definition unix_text :: "string \<Rightarrow> string" where
  "unix_text value = strip (replace_str [CHR 0x5C] ''/'' value)"

definition repo_path_ok :: "string \<Rightarrow> bool \<Rightarrow> bool" where
  "repo_path_ok raw allow_directory \<longleftrightarrow>
     \<not> rooted raw \<and>
     (\<forall>part\<in>set (split_char CHR ''/'' (if endswith raw ''/'' then butlast raw else raw)). part \<notin> {'''', ''.'', ''..''}) \<and>
     (endswith raw ''/'' \<longrightarrow> allow_directory)"

lemma normalize_repo_path_iff:
  "normalize_repo_path value ad = (if repo_path_ok (unix_text value) ad then Some (unix_text value) else None)"
proof -
  have "butlast raw @ ''/'' = raw" if "endswith raw ''/''" for raw
    using that by (auto simp: endswith_iff)
  then show ?thesis
    unfolding normalize_repo_path_def repo_path_ok_def unix_text_def Let_def
    by (auto simp: list_ex_iff)
qed

lemma replace_backslash: "replace_str [CHR 0x5C] ''/'' s = map (\<lambda>c. if c = CHR 0x5C then CHR ''/'' else c) s"
  by (rule replace_char_map)

lemma unix_text_free: "CHR 0x5C \<notin> set (unix_text v)"
proof -
  have "set (unix_text v) \<subseteq> set (replace_str [CHR 0x5C] ''/'' v)"
    unfolding unix_text_def strip_def by (rule set_strip_by)
  then show ?thesis by (auto simp: replace_backslash split: if_splits)
qed

lemma unix_text_idem: "unix_text (unix_text v) = unix_text v"
proof -
  have "map (\<lambda>c. if c = CHR 0x5C then CHR ''/'' else c) (unix_text v) = unix_text v"
    using unix_text_free [of v] by (auto intro!: map_idI)
  then show ?thesis by (simp add: unix_text_def replace_backslash)
qed

lemma normalize_repo_path_idem:
  "normalize_repo_path v ad = Some p \<Longrightarrow> normalize_repo_path p ad = Some p"
  by (auto simp: normalize_repo_path_iff unix_text_idem split: if_splits)

interpretation file_path: normaliser "\<lambda>v. normalize_repo_path v False"
  by unfold_locales (rule normalize_repo_path_idem)

interpretation scope_path: normaliser "\<lambda>v. normalize_repo_path v True"
  by unfold_locales (rule normalize_repo_path_idem)

lemma set_normalized_file_set: "set (normalized_file_set vs) = {p. \<exists>v\<in>set vs. normalize_repo_path v False = Some p}"
  by (auto simp: normalized_file_set_def file_path.normal_forms_iff)

text \<open>
  A normalised path is a fixed point of the normalisation, is relative, has no backslash, and none
  of its components is empty, \<^verbatim>\<open>.\<close> or \<^verbatim>\<open>..\<close>: it cannot leave the repository.
\<close>

lemma normalize_repo_path_sound:
  assumes "normalize_repo_path v False = Some p"
  shows "normalize_repo_path p False = Some p \<and> \<not> startswith p ''/'' \<and> CHR 0x5C \<notin> set p \<and>
     (\<forall>part\<in>set (split_char CHR ''/'' p). part \<notin> {'''', ''.'', ''..''})"
  using assms normalize_repo_path_idem [OF assms] unix_text_free [of v]
  by (auto simp: normalize_repo_path_iff repo_path_ok_def rooted_def split: if_splits)

text \<open>
  C14: a file matches a scope exactly when both normalise and the file is the scope itself or, for a
  directory scope, its components properly extend those of the directory.
\<close>

theorem path_matches_scope_iff:
  "path_matches_scope p scope \<longleftrightarrow>
     (\<exists>np ns. normalize_repo_path p False = Some np \<and> normalize_repo_path scope True = Some ns \<and>
        (if endswith ns ''/''
         then \<exists>rest. rest \<noteq> [] \<and> split_char CHR ''/'' np = split_char CHR ''/'' (butlast ns) @ rest
         else np = ns))"
proof -
  have dir: "startswith np ns \<longleftrightarrow>
      (\<exists>rest. rest \<noteq> [] \<and> split_char CHR ''/'' np = split_char CHR ''/'' (butlast ns) @ rest)"
    if "endswith ns ''/''" for np ns
  proof -
    from that obtain m where ns: "ns = m @ ''/''" unfolding endswith_iff by (rule exE)
    have "startswith np (m @ ''/'') \<longleftrightarrow> (\<exists>rest. rest \<noteq> [] \<and> split_char CHR ''/'' np = split_char CHR ''/'' m @ rest)"
    proof
      assume "startswith np (m @ ''/'')"
      then show "\<exists>rest. rest \<noteq> [] \<and> split_char CHR ''/'' np = split_char CHR ''/'' m @ rest"
        by (auto simp: startswith_iff split_char_at)
    next
      assume "\<exists>rest. rest \<noteq> [] \<and> split_char CHR ''/'' np = split_char CHR ''/'' m @ rest"
      moreover from this have "np \<noteq> m" by auto
      ultimately show "startswith np (m @ ''/'')" using prefix_parts_iff [of np m "CHR ''/''"] by blast
    qed
    with ns show ?thesis by simp
  qed
  show ?thesis
    unfolding path_matches_scope_def by (auto simp: dir split: option.splits)
qed

section \<open>The rules against their specification\<close>

definition paths_ok :: "task_contract \<Rightarrow> handoff \<Rightarrow> bool" where
  "paths_ok t h \<longleftrightarrow>
     (\<forall>p\<in>set (h_changed_paths h) \<union> set (h_deleted_paths h).
        \<exists>n. normalize_repo_path p False = Some n \<and>
          (\<exists>s\<in>set (t_allowed_paths t). path_matches_scope n s) \<and>
          (\<forall>s\<in>set (t_forbidden_paths t). \<not> path_matches_scope n s)) \<and>
     set (normalized_file_set (h_changed_paths h)) \<inter> set (normalized_file_set (h_deleted_paths h)) = {} \<and>
     (h_deleted_paths h \<noteq> [] \<longrightarrow> t_delete_allowed t)"

definition claims_ok :: "task_contract \<Rightarrow> handoff \<Rightarrow> bool" where
  "claims_ok t h \<longleftrightarrow> set (h_claims_addressed h) = set (t_claims t)"

definition file_inside :: "repo_fs \<Rightarrow> string \<Rightarrow> bool" where
  "file_inside fs n \<longleftrightarrow> (\<exists>doc_root r. fs_resolve fs (fs_root fs) = Inr doc_root \<and>
     fs_resolve fs (fs_root fs @ path_parts n) = Inr r \<and> inside doc_root r \<and> fs_is_file fs (fs_root fs @ path_parts n))"

definition evidence_accounted :: "repo_fs \<Rightarrow> task_contract \<Rightarrow> handoff \<Rightarrow> bool" where
  "evidence_accounted fs t h \<longleftrightarrow>
     (let expected = set (normalized_file_set (t_expected_evidence t));
          produced = set (normalized_file_set (h_evidence_produced h));
          missing = set (normalized_file_set (h_missing_evidence h)) in
      is_ok (fs_resolve fs (fs_root fs)) \<and>
      produced \<inter> missing = {} \<and> expected \<subseteq> produced \<union> missing \<and> missing \<subseteq> expected \<and>
      (\<forall>e\<in>set (h_evidence_produced h) \<union> set (h_missing_evidence h). normalize_repo_path e False \<noteq> None) \<and>
      (\<forall>n\<in>produced. file_inside fs n))"

definition results_ok :: "task_contract \<Rightarrow> handoff \<Rightarrow> bool" where
  "results_ok t h \<longleftrightarrow>
     distinct (map fst (h_validation_results h)) \<and>
     set (t_validation_commands t) \<subseteq> fst ` set (h_validation_results h)"

definition all_passed :: "handoff \<Rightarrow> bool" where
  "all_passed h \<longleftrightarrow> (\<forall>(c, s)\<in>set (h_validation_results h). s = ''passed'')"

definition outcome_ok :: "task_contract \<Rightarrow> handoff \<Rightarrow> bool" where
  "outcome_ok t h \<longleftrightarrow>
     (h_outcome h = ''ready_for_review'' \<longrightarrow> h_blockers h = [] \<and> h_missing_evidence h = [] \<and> all_passed h) \<and>
     (h_outcome h = ''blocked'' \<longrightarrow> h_blockers h \<noteq> []) \<and>
     (h_outcome h = ''incomplete'' \<longrightarrow> h_missing_evidence h \<noteq> [] \<or> h_residual_gaps h \<noteq> [] \<or> \<not> all_passed h \<or>
        \<not> set (t_claims t) \<subseteq> set (h_claims_addressed h))"

lemma path_findings_Nil:
  "path_findings t field p = [] \<longleftrightarrow>
     (\<exists>n. normalize_repo_path p False = Some n \<and> (\<exists>s\<in>set (t_allowed_paths t). path_matches_scope n s) \<and>
        (\<forall>s\<in>set (t_forbidden_paths t). \<not> path_matches_scope n s))"
  by (auto simp: path_findings_def list_ex_iff split: option.splits)

lemma list_inter_Nil: "list_inter xs ys = [] \<longleftrightarrow> set xs \<inter> set ys = {}"
  using set_list_inter [of xs ys] by (metis set_empty)

lemma validate_paths_Nil: "validate_paths t h = [] \<longleftrightarrow> paths_ok t h"
proof (cases "\<forall>p\<in>set (h_deleted_paths h). normalize_repo_path p False \<noteq> None")
  case True
  then have "normalized_file_set (h_deleted_paths h) = [] \<longleftrightarrow> h_deleted_paths h = []"
    unfolding normalized_file_set_def using file_path.normal_forms_Nil by simp
  then show ?thesis
    unfolding validate_paths_def paths_ok_def Let_def
    by (auto simp: path_findings_Nil list_inter_Nil ball_Un)
next
  case False
  then obtain p where p: "p \<in> set (h_deleted_paths h)" "normalize_repo_path p False = None" by auto
  then have "path_findings t ''deleted_paths'' p \<noteq> []" by (simp add: path_findings_Nil)
  with p have "validate_paths t h \<noteq> []" by (auto simp: validate_paths_def Let_def)
  moreover have "\<exists>n. normalize_repo_path p False = Some n" if "paths_ok t h"
    using that p(1) unfolding paths_ok_def by blast
  ultimately show ?thesis using p(2) by auto
qed

lemma handoff_claims_Nil: "handoff_claims t h = [] \<longleftrightarrow> claims_ok t h"
  by (auto simp: handoff_claims_def claims_ok_def list_diff_Nil_iff)

lemma valid_local_file_True:
  "fs_resolve fs (fs_root fs) = Inr doc_root \<Longrightarrow> valid_local_file fs doc_root n = Inr True \<longleftrightarrow> file_inside fs n"
  by (auto simp: valid_local_file_def file_inside_def Let_def split: sum.splits py_error.splits)

lemma evidence_produced_Nil:
  "fs_resolve fs (fs_root fs) = Inr doc_root \<Longrightarrow>
     evidence_path_findings fs doc_root ''evidence_produced'' e = Inr [] \<longleftrightarrow>
     (\<exists>n. normalize_repo_path e False = Some n \<and> file_inside fs n)"
  by (auto simp: evidence_path_findings_def bindE_eq_Inr valid_local_file_True [symmetric] split: option.splits)

lemma evidence_missing_Nil:
  "evidence_path_findings fs doc_root ''missing_evidence'' e = Inr [] \<longleftrightarrow> normalize_repo_path e False \<noteq> None"
  by (auto simp: evidence_path_findings_def split: option.splits)

lemma validate_evidence_Nil: "validate_evidence fs t h = Inr [] \<longleftrightarrow> evidence_accounted fs t h"
proof (cases "fs_resolve fs (fs_root fs)")
  case (Inr doc_root)
  have produced: "concatE (evidence_path_findings fs doc_root ''evidence_produced'') xs = Inr [] \<longleftrightarrow>
      (\<forall>e\<in>set xs. normalize_repo_path e False \<noteq> None) \<and> (\<forall>n\<in>set (normalized_file_set xs). file_inside fs n)" for xs
    unfolding concatE_Nil_iff evidence_produced_Nil [OF Inr] set_normalized_file_set by fastforce
  have missing: "concatE (evidence_path_findings fs doc_root ''missing_evidence'') xs = Inr [] \<longleftrightarrow>
      (\<forall>e\<in>set xs. normalize_repo_path e False \<noteq> None)" for xs
    unfolding concatE_Nil_iff evidence_missing_Nil by simp
  have "validate_evidence fs t h = Inr [] \<longleftrightarrow>
      list_inter (normalized_file_set (h_evidence_produced h)) (normalized_file_set (h_missing_evidence h)) = [] \<and>
      list_diff (list_diff (normalized_file_set (t_expected_evidence t)) (normalized_file_set (h_evidence_produced h)))
        (normalized_file_set (h_missing_evidence h)) = [] \<and>
      list_diff (normalized_file_set (h_missing_evidence h)) (normalized_file_set (t_expected_evidence t)) = [] \<and>
      concatE (evidence_path_findings fs doc_root ''evidence_produced'') (h_evidence_produced h) = Inr [] \<and>
      concatE (evidence_path_findings fs doc_root ''missing_evidence'') (h_missing_evidence h) = Inr []"
    using Inr by (auto simp: validate_evidence_def Let_def bindE_eq_Inr)
  also have "\<dots> \<longleftrightarrow> evidence_accounted fs t h"
    unfolding evidence_accounted_def Let_def produced missing list_inter_Nil list_diff_Nil_iff set_list_diff
    using Inr by (auto simp: ball_Un)
  finally show ?thesis .
qed (auto simp: validate_evidence_def evidence_accounted_def Let_def)

lemma results_loop_Nil:
  "fst (results_loop i m rs) = [] \<longleftrightarrow> distinct (map fst rs) \<and> fst ` set rs \<inter> fst ` set m = {}"
proof (induction i m rs rule: results_loop.induct)
  case (2 i m command status rest)
  then show ?case by (simp add: Let_def case_prod_beta dom_update del: disjoint_insert) blast
qed simp

lemma results_loop_map: "fst (results_loop i m rs) = [] \<Longrightarrow> snd (results_loop i m rs) = m @ rs"
proof (induction i m rs rule: results_loop.induct)
  case (2 i m command status rest)
  then show ?case by (auto simp: Let_def update_fresh split: prod.splits if_splits)
qed simp

lemma results_loop_keys: "fst ` set (snd (results_loop i m rs)) = fst ` set m \<union> fst ` set rs"
proof (induction i m rs rule: results_loop.induct)
  case (2 i m command status rest)
  then show ?case by (simp add: Let_def case_prod_beta dom_update)
qed simp

lemma validate_results_Nil: "validate_results_and_outcome t h = [] \<longleftrightarrow> results_ok t h \<and> outcome_ok t h"
proof (cases "distinct (map fst (h_validation_results h))")
  case True
  then have dup: "fst (results_loop 0 [] (h_validation_results h)) = []"
    by (simp add: results_loop_Nil)
  then have loop: "results_loop 0 [] (h_validation_results h) = ([], h_validation_results h)"
    using results_loop_map [OF dup] by (simp add: prod_eq_iff)
  have sort_Nil: "sort xs = [] \<longleftrightarrow> xs = []" for xs :: "string list"
    by (metis length_0_conv length_sort)
  have passed: "sort (map fst (filter (\<lambda>(command, status). status \<noteq> ''passed'') (h_validation_results h))) = [] \<longleftrightarrow> all_passed h"
    unfolding sort_Nil by (auto simp: all_passed_def filter_empty_conv)
  have out: "outcome_findings t h (h_validation_results h) [] = [] \<longleftrightarrow> outcome_ok t h"
    unfolding outcome_findings_def Let_def outcome_ok_def passed
    by (auto simp: list_diff_Nil_iff)
  have "validate_results_and_outcome t h = [] \<longleftrightarrow>
      list_diff (remdups (t_validation_commands t)) (map fst (h_validation_results h)) = [] \<and>
      outcome_findings t h (h_validation_results h) [] = []"
    unfolding validate_results_and_outcome_def loop by (auto simp: Let_def)
  then show ?thesis
    unfolding out results_ok_def list_diff_Nil_iff using True by auto
next
  case False
  then have "fst (results_loop 0 [] (h_validation_results h)) \<noteq> []" by (simp add: results_loop_Nil)
  with False show ?thesis
    unfolding validate_results_and_outcome_def results_ok_def by (auto simp: Let_def split: prod.splits)
qed

end
