(* ===== verification/Json_Accepts.thy ===== *)
theory Json_Accepts
  imports Json_Contract
begin

text \<open>
  The contract of the validator of \<^verbatim>\<open>scripts/agent/json_contract.py\<close>. The relation \<open>accepts\<close> specifies
  acceptance, one clause per keyword, without paths, messages or stack frames.
  \<open>validate_instance_accepts\<close> proves the validator a refinement of it; \<open>unique_items_canonical\<close> reads
  \<^verbatim>\<open>uniqueItems\<close> as equality of JSON values.
\<close>

section \<open>Acceptance\<close>

definition accepts_object :: "(json \<Rightarrow> json \<Rightarrow> bool) \<Rightarrow> jobject \<Rightarrow> jobject \<Rightarrow> bool" where
  "accepts_object A obj d \<longleftrightarrow>
     (\<forall>v. map_of d ''required'' = Some v \<longrightarrow>
        (\<exists>fs. v = JList fs \<and> (\<forall>f\<in>set fs. str_val f \<in> set (keys_of obj)))) \<and>
     (\<forall>k\<in>set (keys_of obj).
        \<exists>child. property_schema d k = Inr child \<and>
          (case child of Some c \<Rightarrow> A (sget obj k) c | None \<Rightarrow> additional_allowed d))"

definition accepts_items :: "(json \<Rightarrow> json \<Rightarrow> bool) \<Rightarrow> json list \<Rightarrow> jobject \<Rightarrow> bool" where
  "accepts_items A xs d \<longleftrightarrow>
     (\<forall>i. sget d ''items'' = JDict i \<longrightarrow> (\<forall>x\<in>set xs. A x (JDict i))) \<and>
     (\<forall>cs. sget d ''items'' = JList cs \<longrightarrow>
        (\<forall>(c, x)\<in>set (zip cs xs). A x c) \<and>
        (sget d ''additionalItems'' = JBool False \<longrightarrow> length xs \<le> length cs))"

definition accepts_list :: "json list \<Rightarrow> jobject \<Rightarrow> bool" where
  "accepts_list xs d \<longleftrightarrow>
     (\<forall>m. sget d ''minItems'' = JInt m \<longrightarrow> m \<le> int (length xs)) \<and>
     (\<forall>m. sget d ''maxItems'' = JInt m \<longrightarrow> int (length xs) \<le> m) \<and>
     (sget d ''uniqueItems'' = JBool True \<longrightarrow> distinct (map canonical_item xs))"

definition accepts_string :: "re_env \<Rightarrow> string \<Rightarrow> jobject \<Rightarrow> bool" where
  "accepts_string env s d \<longleftrightarrow>
     (\<forall>m. sget d ''minLength'' = JInt m \<longrightarrow> m \<le> int (length s)) \<and>
     (\<forall>m. sget d ''maxLength'' = JInt m \<longrightarrow> int (length s) \<le> m) \<and>
     (\<forall>p. sget d ''pattern'' = JStr p \<longrightarrow> re_found env p s)"

definition accepts_node :: "re_env \<Rightarrow> (json \<Rightarrow> json \<Rightarrow> bool) \<Rightarrow> jobject \<Rightarrow> json \<Rightarrow> jobject \<Rightarrow> bool" where
  "accepts_node env A doc_root inst d \<longleftrightarrow>
     (sget d ''$ref'' = JNull \<or>
        (\<exists>ref t. sget d ''$ref'' = JStr ref \<and> schema_pointer doc_root ref = Inr t \<and> A inst (JDict t))) \<and>
     (\<forall>v. map_of d ''allOf'' = Some v \<longrightarrow> (\<exists>cs. v = JList cs \<and> (\<forall>c\<in>set cs. A inst c))) \<and>
     (\<forall>ty. sget d ''type'' = JStr ty \<longrightarrow> type_matches inst ty = Inr True) \<and>
     (\<forall>vs. sget d ''enum'' = JList vs \<longrightarrow> py_in inst vs) \<and>
     (\<forall>obj. inst = JDict obj \<longrightarrow> accepts_object A obj d) \<and>
     (\<forall>xs. inst = JList xs \<longrightarrow> accepts_list xs d \<and> accepts_items A xs d) \<and>
     (\<forall>s. inst = JStr s \<longrightarrow> accepts_string env s d)"

text \<open>The instances a node hands to its recursive calls.\<close>

definition sub_instances :: "json \<Rightarrow> json set" where
  "sub_instances inst =
     insert inst (case inst of JDict obj \<Rightarrow> sget obj ` set (keys_of obj) | JList xs \<Rightarrow> set xs | _ \<Rightarrow> {})"

lemma finite_sub_instances: "finite (sub_instances inst)"
  by (auto simp: sub_instances_def split: json.splits)

lemma children_items:
  "sget d ''items'' = JDict i \<Longrightarrow> JDict i \<in> set (schema_children r d)"
  "sget d ''items'' = JList cs \<Longrightarrow> c \<in> set cs \<Longrightarrow> c \<in> set (schema_children r d)"
  by (simp_all add: schema_children_def)

lemma accepts_items_cong:
  assumes "accepts_items A xs d"
    and "\<And>i s. i \<in> set xs \<Longrightarrow> s \<in> set (schema_children r d) \<Longrightarrow> A i s \<Longrightarrow> B i s"
  shows "accepts_items B xs d"
  unfolding accepts_items_def
proof (intro conjI allI impI ballI)
  fix cs z assume "sget d ''items'' = JList cs" "z \<in> set (zip cs xs)"
  moreover obtain c x where "z = (c, x)" by (cases z)
  ultimately show "case z of (c, x) \<Rightarrow> B x c"
    using assms(1) assms(2) [of x c] children_items(2) [of d cs c r] set_zip_leftD [of c x cs xs]
      set_zip_rightD [of c x cs xs]
    by (auto simp: accepts_items_def)
qed (use assms children_items(1) [of d _ r] in \<open>auto simp: accepts_items_def\<close>)

lemma accepts_object_cong:
  assumes "accepts_object A obj d"
    and "\<And>i s. i \<in> sget obj ` set (keys_of obj) \<Longrightarrow> s \<in> set (schema_children r d) \<Longrightarrow> A i s \<Longrightarrow> B i s"
  shows "accepts_object B obj d"
  unfolding accepts_object_def
proof (intro conjI ballI)
  fix k assume k: "k \<in> set (keys_of obj)"
  with assms(1) obtain child where child: "property_schema d k = Inr child"
      "case child of Some c \<Rightarrow> A (sget obj k) c | None \<Rightarrow> additional_allowed d"
    by (auto simp: accepts_object_def)
  then have "case child of Some c \<Rightarrow> B (sget obj k) c | None \<Rightarrow> additional_allowed d"
    using assms(2) [of "sget obj k"] k property_schema_Inr [of d k _ r] by (auto split: option.splits)
  with child show "\<exists>child. property_schema d k = Inr child \<and>
      (case child of Some c \<Rightarrow> B (sget obj k) c | None \<Rightarrow> additional_allowed d)" by blast
qed (use assms(1) in \<open>simp add: accepts_object_def\<close>)

lemma accepts_node_cong:
  assumes "accepts_node env A r inst d"
    and "\<And>i s. i \<in> sub_instances inst \<Longrightarrow> s \<in> set (schema_children r d) \<Longrightarrow> A i s \<Longrightarrow> B i s"
  shows "accepts_node env B r inst d"
proof -
  have "accepts_items B xs d" if "inst = JList xs" "accepts_items A xs d" for xs
    using that assms(2) by (auto intro: accepts_items_cong [where r = r] simp: sub_instances_def)
  moreover have "accepts_object B obj d" if "inst = JDict obj" "accepts_object A obj d" for obj
    using that assms(2) by (auto intro: accepts_object_cong [where r = r] simp: sub_instances_def)
  moreover have "B inst s" if "A inst s" "s \<in> set (schema_children r d)" for s
    using that assms(2) by (simp add: sub_instances_def)
  ultimately show ?thesis
    using assms(1) unfolding accepts_node_def
    by (elim conjE, intro conjI) (blast intro: children_ref children_all_of)+
qed

lemma accepts_node_mono [mono]:
  "(\<And>i s. A i s \<longrightarrow> B i s) \<Longrightarrow> accepts_node env A r inst d \<longrightarrow> accepts_node env B r inst d"
  using accepts_node_cong [of env A r inst d B] by blast

inductive accepts :: "re_env \<Rightarrow> jobject \<Rightarrow> json \<Rightarrow> json \<Rightarrow> bool" for env doc_root where
  accepts_schema: "ensure_supported_schema env ''$'' (JDict d) = Inr () \<Longrightarrow>
     accepts_node env (accepts env doc_root) doc_root inst d \<Longrightarrow> accepts env doc_root inst (JDict d)"

inductive_simps accepts_JDict: "accepts env doc_root inst (JDict d)"
inductive_cases acceptsE: "accepts env doc_root inst schema"

section \<open>The validator decides acceptance\<close>

lemma duplicate_findings_Nil:
  "duplicate_findings path i seen cs = [] \<longleftrightarrow> distinct cs \<and> set cs \<inter> set seen = {}"
  by (induction cs arbitrary: i seen) auto

lemma findings_list_Nil: "findings_list xs d path = [] \<longleftrightarrow> accepts_list xs d"
  unfolding findings_list_def accepts_list_def
  by (cases "sget d ''minItems''"; cases "sget d ''maxItems''")
     (auto simp: duplicate_findings_Nil not_less)

lemma findings_str_Nil: "findings_str env s d path = [] \<longleftrightarrow> accepts_string env s d"
  unfolding findings_str_def accepts_string_def
  unfolding append_is_Nil_conv
  by (intro arg_cong2 [where f = "(\<and>)"]) (auto simp: not_less split: json.splits)

lemma findings_required_Nil:
  "findings_required obj d path = Inr [] \<longleftrightarrow>
     (\<forall>v. map_of d ''required'' = Some v \<longrightarrow>
        (\<exists>fs. v = JList fs \<and> (\<forall>f\<in>set fs. str_val f \<in> set (keys_of obj))))"
  by (auto simp: findings_required_def filter_empty_conv split: option.splits json.splits)

lemma findings_object_Nil:
  "findings_object rec obj d path = Inr [] \<longleftrightarrow>
     findings_required obj d path = Inr [] \<and>
     (\<forall>k\<in>set (keys_of obj). findings_member rec obj d path k = Inr [])"
  by (auto simp: findings_object_def bindE_eq_Inr concatE_Nil_iff)

lemma findings_member_Nil:
  "findings_member rec obj d path k = Inr [] \<longleftrightarrow>
     (\<exists>child. property_schema d k = Inr child \<and>
        (case child of Some c \<Rightarrow> rec (sget obj k) c (path @ ''.'' @ k) = Inr [] | None \<Rightarrow> additional_allowed d))"
  unfolding findings_member_def bindE_eq_Inr by (auto split: option.splits)

lemma findings_items_sound:
  assumes "findings_items rec xs d path = Inr []" "\<And>i s p. rec i s p = Inr [] \<Longrightarrow> A i s"
  shows "accepts_items A xs d"
  unfolding accepts_items_def
proof (intro conjI allI impI ballI)
  fix i x assume "sget d ''items'' = JDict i" "x \<in> set xs"
  moreover from \<open>x \<in> set xs\<close> obtain j where "(j, x) \<in> set (enumerate 0 xs)" by (metis enumerate_snd)
  ultimately show "A x (JDict i)"
    using assms by (auto simp: findings_items_def concatE_Nil_iff)
next
  fix cs z assume "sget d ''items'' = JList cs" "z \<in> set (zip cs xs)"
  moreover from \<open>z \<in> set (zip cs xs)\<close> obtain j where "(j, z) \<in> set (enumerate 0 (zip cs xs))"
    by (metis enumerate_snd)
  ultimately show "case z of (c, x) \<Rightarrow> A x c"
    using assms by (cases z) (fastforce simp: findings_items_def bindE_eq_Inr concatE_Nil_iff split: if_splits)
qed (use assms in \<open>auto simp: findings_items_def bindE_eq_Inr split: if_splits\<close>)

lemma findings_items_complete:
  assumes "accepts_items A xs d" "\<And>i s p. A i s \<Longrightarrow> rec i s p = Inr []"
  shows "findings_items rec xs d path = Inr []"
proof (cases "sget d ''items''")
  case (JList cs)
  have "rec x c p = Inr []" if "(j, c, x) \<in> set (enumerate 0 (zip cs xs))" for j c x p
    using that assms JList enumerate_snd [of "(c, x)" 0 "zip cs xs"] by (auto simp: accepts_items_def)
  then have "concatE (\<lambda>(index, child, value). rec value child (index_path path index)) (enumerate 0 (zip cs xs)) = Inr []"
    by (auto simp: concatE_Nil_iff)
  then show ?thesis
    using assms(1) JList by (auto simp: findings_items_def accepts_items_def)
next
  case (JDict i)
  have "rec x (JDict i) p = Inr []" if "(j, x) \<in> set (enumerate 0 xs)" for j x p
    using that assms JDict enumerate_snd [of x 0 xs] by (auto simp: accepts_items_def)
  then show ?thesis
    using JDict by (auto simp: findings_items_def concatE_Nil_iff)
qed (auto simp: findings_items_def)

lemma findings_object_sound:
  assumes "findings_object rec obj d path = Inr []" "\<And>i s p. rec i s p = Inr [] \<Longrightarrow> A i s"
  shows "accepts_object A obj d"
  using assms unfolding findings_object_Nil findings_required_Nil accepts_object_def findings_member_Nil
  by (fastforce split: option.splits)

lemma findings_object_complete:
  assumes "accepts_object A obj d" "\<And>i s p. A i s \<Longrightarrow> rec i s p = Inr []"
  shows "findings_object rec obj d path = Inr []"
  using assms unfolding findings_object_Nil findings_required_Nil accepts_object_def findings_member_Nil
  by (fastforce split: option.splits)

lemma findings_array_Nil:
  "findings_array rec xs d path = Inr [] \<longleftrightarrow> accepts_list xs d \<and> findings_items rec xs d path = Inr []"
  by (auto simp: findings_array_def bindE_eq_Inr findings_list_Nil)

lemma findings_ref_Nil:
  "findings_ref rec r inst d path = Inr [] \<longleftrightarrow>
     sget d ''$ref'' = JNull \<or>
     (\<exists>ref t. sget d ''$ref'' = JStr ref \<and> schema_pointer r ref = Inr t \<and> rec inst (JDict t) path = Inr [])"
  unfolding findings_ref_def by (cases "sget d ''$ref''") (auto simp: bindE_eq_Inr)

lemma findings_all_of_Nil:
  "findings_all_of rec inst d path = Inr [] \<longleftrightarrow>
     (\<forall>v. map_of d ''allOf'' = Some v \<longrightarrow> (\<exists>cs. v = JList cs \<and> (\<forall>c\<in>set cs. rec inst c path = Inr [])))"
  unfolding findings_all_of_def by (auto simp: concatE_Nil_iff split: option.splits json.splits)

lemma findings_enum_Nil:
  "findings_enum inst d path = [] \<longleftrightarrow> (\<forall>vs. sget d ''enum'' = JList vs \<longrightarrow> py_in inst vs)"
  by (auto simp: findings_enum_def split: json.splits)

lemma type_ok_True:
  "type_ok inst d = Inr True \<longleftrightarrow> (\<forall>ty. sget d ''type'' = JStr ty \<longrightarrow> type_matches inst ty = Inr True)"
  by (auto simp: type_ok_def split: json.splits)

lemma validate_node_Nil:
  "validate_node env rec r inst d path = Inr [] \<longleftrightarrow>
     findings_ref rec r inst d path = Inr [] \<and> findings_all_of rec inst d path = Inr [] \<and>
     type_ok inst d = Inr True \<and> findings_enum inst d path = [] \<and>
     (\<forall>obj. inst = JDict obj \<longrightarrow> findings_object rec obj d path = Inr []) \<and>
     (\<forall>xs. inst = JList xs \<longrightarrow> findings_array rec xs d path = Inr []) \<and>
     (\<forall>s. inst = JStr s \<longrightarrow> findings_str env s d path = [])"
  unfolding validate_node_def
  by (cases inst) (auto simp: bindE_eq_Inr sorted_unique_Nil_iff split: if_splits)

lemma validate_node_sound:
  assumes node: "validate_node env rec r inst d path = Inr []" and A: "\<And>i s p. rec i s p = Inr [] \<Longrightarrow> A i s"
  shows "accepts_node env A r inst d"
proof -
  have ref: "sget d ''$ref'' = JNull \<or>
      (\<exists>ref t. sget d ''$ref'' = JStr ref \<and> schema_pointer r ref = Inr t \<and> A inst (JDict t))"
    using node A unfolding validate_node_Nil findings_ref_Nil by blast
  have all: "\<forall>v. map_of d ''allOf'' = Some v \<longrightarrow> (\<exists>cs. v = JList cs \<and> (\<forall>c\<in>set cs. A inst c))"
    using node A unfolding validate_node_Nil findings_all_of_Nil by blast
  have obj: "accepts_object A obj d" if "inst = JDict obj" for obj
    using node that by (intro findings_object_sound [OF _ A]) (auto simp: validate_node_Nil)
  have arr: "accepts_list xs d \<and> accepts_items A xs d" if "inst = JList xs" for xs
    using node that by (intro conjI findings_items_sound [OF _ A]) (auto simp: validate_node_Nil findings_array_Nil)
  show ?thesis
    unfolding accepts_node_def
    using node ref all obj arr by (simp add: validate_node_Nil type_ok_True findings_enum_Nil findings_str_Nil)
qed

lemma validate_node_complete:
  assumes node: "accepts_node env A r inst d" and A: "\<And>i s p. A i s \<Longrightarrow> rec i s p = Inr []"
  shows "validate_node env rec r inst d path = Inr []"
proof -
  have ref: "findings_ref rec r inst d path = Inr []"
    using node A unfolding accepts_node_def findings_ref_Nil by blast
  have all: "findings_all_of rec inst d path = Inr []"
    using node A unfolding accepts_node_def findings_all_of_Nil by blast
  have obj: "findings_object rec obj d path = Inr []" if "inst = JDict obj" for obj
    using node that by (intro findings_object_complete [OF _ A]) (auto simp: accepts_node_def)
  have arr: "findings_array rec xs d path = Inr []" if "inst = JList xs" for xs
    using node that findings_items_complete [OF _ A, of A xs d] by (auto simp: accepts_node_def findings_array_Nil)
  show ?thesis
    unfolding validate_node_Nil
    using node ref all obj arr by (simp add: accepts_node_def type_ok_True findings_enum_Nil findings_str_Nil)
qed

text \<open>The outcome of the schema check does not depend on the path it reports.\<close>


lemma ensure_keywords_path: "ensure_keywords env p d = Inr () \<longleftrightarrow> ensure_keywords env q d = Inr ()"
proof -
  have "ensure_type p v = Inr () \<longleftrightarrow> ensure_type q v = Inr ()"
       "ensure_required p v = Inr () \<longleftrightarrow> ensure_required q v = Inr ()"
       "ensure_pattern env p v = Inr () \<longleftrightarrow> ensure_pattern env q v = Inr ()"
       "ensure_sizes p d = Inr () \<longleftrightarrow> ensure_sizes q d = Inr ()" for v
    by (auto simp: ensure_type_def ensure_required_def ensure_pattern_def
          split: json.splits option.splits)
       (auto simp: ensure_sizes_def bindE_eq_Inr)
  then show ?thesis
    unfolding ensure_keywords_def Let_def by (simp add: bindE_eq_Inr)
qed

lemma forE_enumerate: "(\<And>i j x. x \<in> set xs \<Longrightarrow> f i x = Inr () \<longleftrightarrow> g j x = Inr ()) \<Longrightarrow>
   forE (\<lambda>(i, x). f i x) (enumerate n xs) = Inr () \<longleftrightarrow> forE (\<lambda>(i, x). g i x) (enumerate n xs) = Inr ()"
  unfolding forE_Inr_iff by (rule ball_cong) (auto dest: enumerate_snd [THEN iffD1, OF exI])

lemma bindE_unit: "bindE m f = Inr () \<longleftrightarrow> m = Inr () \<and> f () = Inr ()"
  by (auto simp: bindE_eq_Inr)

lemma ensure_supported_schema_path:
  "ensure_supported_schema env p schema = Inr () \<longleftrightarrow> ensure_supported_schema env q schema = Inr ()"
proof (induction schema arbitrary: p q rule: measure_induct_rule [of size])
  case (less schema)
  show ?case
  proof (cases schema)
    case (JDict d)
    have IH: "ensure_supported_schema env p s = Inr () \<longleftrightarrow> ensure_supported_schema env q s = Inr ()"
      if "size s < size (JDict d)" for p q s
      using less that JDict by simp
    have members: "forE (\<lambda>(n, c). ensure_supported_schema env (f n) c) ps = Inr () \<longleftrightarrow>
        forE (\<lambda>(n, c). ensure_supported_schema env (g n) c) ps = Inr ()"
      if "sget d k = JDict ps" for f g k ps
      unfolding forE_Inr_iff
    proof (rule ball_cong [OF refl])
      fix x assume "x \<in> set ps"
      moreover obtain n c where "x = (n, c)" by (cases x)
      ultimately show "(case x of (n, c) \<Rightarrow> ensure_supported_schema env (f n) c) = Inr () \<longleftrightarrow>
          (case x of (n, c) \<Rightarrow> ensure_supported_schema env (g n) c) = Inr ()"
        using IH [OF size_sget_child [OF that, of n c]] by simp
    qed
    have elems: "forE (\<lambda>(n, c). ensure_supported_schema env (f n) c) (enumerate 0 cs) = Inr () \<longleftrightarrow>
        forE (\<lambda>(n, c). ensure_supported_schema env (g n) c) (enumerate 0 cs) = Inr ()"
      if "sget d k = JList cs" for f g k cs
      by (rule forE_enumerate) (rule IH [OF size_sget_item [OF that]])
    have dict: "ensure_supported_schema env p (JDict e) = Inr () \<longleftrightarrow> ensure_supported_schema env q (JDict e) = Inr ()"
      if "sget d k = JDict e" for k e p q
      by (rule IH [OF size_sget_dict [OF that]])
    show ?thesis
      unfolding JDict ensure_supported_schema.simps [of env _ "JDict d"] json.case bindE_unit
      apply (intro arg_cong2 [where f = "(\<and>)"])
      subgoal by (rule ensure_keywords_path)
      subgoal by (cases "sget d ''properties''") (simp_all, rule members)
      subgoal by (cases "sget d ''definitions''") (simp_all, rule members)
      subgoal by (cases "sget d ''items''") (simp_all, rule elems, assumption, rule dict)
      subgoal by simp
      subgoal by (cases "sget d ''allOf''") (simp_all, rule elems)
      done
  qed (simp_all add: ensure_supported_schema.simps)
qed

lemma validate_instance_JDict:
  "validate_instance env (Suc n) inst (JDict d) r path = Inr [] \<longleftrightarrow>
     ensure_supported_schema env ''$'' (JDict d) = Inr () \<and>
     validate_node env (\<lambda>i s p. validate_instance env n i s (if r = [] then d else r) p)
       (if r = [] then d else r) inst d path = Inr []"
  using ensure_supported_schema_path [of env path "JDict d" "''$''"] by (auto simp: bindE_eq_Inr Let_def)

lemma children_Nil_root: "(if r = [] then d else r) = [] \<Longrightarrow> schema_children r' d = []"
  by (auto simp: schema_children_def sget_def split: if_splits)

lemma validate_instance_schema: "validate_instance env n inst schema r path = Inr fs \<Longrightarrow> \<exists>d. schema = JDict d"
  by (cases n; cases schema) (auto simp: bindE_eq_Inr)

lemma validate_instance_sound:
  "validate_instance env n inst (JDict d) r path = Inr [] \<Longrightarrow> accepts env (if r = [] then d else r) inst (JDict d)"
proof (induction n arbitrary: inst d r path)
  case (Suc n)
  define doc_root where "doc_root = (if r = [] then d else r)"
  have ok: "ensure_supported_schema env ''$'' (JDict d) = Inr ()"
    and node: "validate_node env (\<lambda>i s p. validate_instance env n i s doc_root p) doc_root inst d path = Inr []"
    using Suc.prems unfolding validate_instance_JDict doc_root_def by auto
  let ?A = "\<lambda>i s. doc_root \<noteq> [] \<longrightarrow> accepts env doc_root i s"
  have "accepts_node env ?A doc_root inst d"
  proof (rule validate_node_sound [OF node])
    fix i s p assume *: "validate_instance env n i s doc_root p = Inr []"
    then obtain e where "s = JDict e" using validate_instance_schema by blast
    with * Suc.IH [of i e doc_root p] show "doc_root \<noteq> [] \<longrightarrow> accepts env doc_root i s" by auto
  qed
  then have "accepts_node env (accepts env doc_root) doc_root inst d"
    by (rule accepts_node_cong) (use children_Nil_root [of r d doc_root] doc_root_def in auto)
  with ok show ?case
    unfolding doc_root_def [symmetric] by (rule accepts_schema)
qed simp

lemma uniform_bound:
  fixes P :: "nat \<Rightarrow> 'a \<Rightarrow> bool"
  assumes "finite S" and mono: "\<And>n m x. P n x \<Longrightarrow> n \<le> m \<Longrightarrow> P m x"
  shows "\<exists>N. \<forall>x\<in>S. (\<exists>n. P n x) \<longrightarrow> P N x"
  using assms(1)
proof induction
  case (insert a S)
  then obtain N where N: "\<forall>x\<in>S. (\<exists>n. P n x) \<longrightarrow> P N x" by blast
  obtain M where M: "(\<exists>n. P n a) \<longrightarrow> P M a" by blast
  have "\<forall>x\<in>insert a S. (\<exists>n. P n x) \<longrightarrow> P (max M N) x"
    using N M mono [of M _ "max M N"] mono [of N _ "max M N"] by auto
  then show ?case by blast
qed simp

lemma validate_instance_complete:
  assumes "accepts env r inst schema" "r \<noteq> [] \<or> schema = JDict r"
  shows "\<exists>n. \<forall>path. validate_instance env n inst schema r path = Inr []"
  using assms
proof (induction rule: accepts.induct)
  case (accepts_schema d inst)
  let ?V = "\<lambda>n (i, s). \<forall>p. validate_instance env n i s r p = Inr []"
  have mono: "?V m x" if "?V n x" "n \<le> m" for n m x
    using that validate_instance_mono [OF \<open>n \<le> m\<close>] by (cases x) fastforce
  have "\<exists>N. \<forall>x\<in>sub_instances inst \<times> set (schema_children r d). (\<exists>n. ?V n x) \<longrightarrow> ?V N x"
    by (rule uniform_bound) (use mono finite_sub_instances in auto)
  then obtain N where bound: "\<forall>x\<in>sub_instances inst \<times> set (schema_children r d). (\<exists>n. ?V n x) \<longrightarrow> ?V N x" ..
  have N: "\<forall>p. validate_instance env N i s r p = Inr []"
    if "i \<in> sub_instances inst" "s \<in> set (schema_children r d)"
      "\<exists>n. \<forall>p. validate_instance env n i s r p = Inr []" for i s
    using bspec [OF bound, of "(i, s)"] that by simp
  have root: "(if r = [] then d else r) = r"
    using accepts_schema.prems by auto
  have "accepts_node env (\<lambda>i s. \<forall>p. validate_instance env N i s r p = Inr []) r inst d"
    by (rule accepts_node_cong [OF accepts_schema(2)])
       (use N children_Nil_root [of r d r] root in \<open>metis empty_iff list.set(1)\<close>)
  then have "validate_node env (\<lambda>i s p. validate_instance env N i s r p) r inst d path = Inr []" for path
    by (rule validate_node_complete) blast
  then have "validate_instance env (Suc N) inst (JDict d) r path = Inr []" for path
    unfolding validate_instance_JDict root using accepts_schema(1) by blast
  then show ?case by blast
qed

text \<open>
  C6: the validator returns no finding, with enough stack, exactly for the instances that the
  specification \<open>accepts\<close>: every keyword of the schema, of its references and of its children is
  satisfied, and nothing raises.
\<close>

theorem validate_instance_accepts:
  "(\<exists>n. validate_instance env n inst (JDict d) [] path = Inr []) \<longleftrightarrow> accepts env d inst (JDict d)"
proof
  assume "accepts env d inst (JDict d)"
  then obtain n where "\<forall>path. validate_instance env n inst (JDict d) d path = Inr []"
    using validate_instance_complete [of env d inst "JDict d"] by auto
  moreover have "validate_instance env n inst (JDict d) d path = validate_instance env n inst (JDict d) [] path"
    by (cases n) auto
  ultimately show "\<exists>n. validate_instance env n inst (JDict d) [] path = Inr []" by auto
qed (use validate_instance_sound [of env _ inst d "[]" path] in auto)




end
