(* ===== verification/Handoff_Contract.thy ===== *)
theory Handoff_Contract
  imports Handoff Json_Accepts
begin

text \<open>
  What a clean handoff validation guarantees. \<open>handoff_ok\<close> is the specification of all rules of
  \<^verbatim>\<open>scripts/agent/validate_handoff.py\<close> together; \<open>check_handoff_clean_iff\<close> proves the validator equivalent
  to it, \<open>ready_for_review_sound\<close> what a valid \<^verbatim>\<open>ready_for_review\<close> handoff means. The last part connects
  the validator of JSON schemas with the rules: \<open>task_schema_doc\<close> and \<open>handoff_schema_doc\<close> are the schemas
  under \<^verbatim>\<open>contracts/agent\<close>, and \<open>schemas_give_shape\<close> shows that accepted documents have every field the
  rules read.
\<close>

section \<open>The validator against its specification\<close>

definition handoff_ok :: "agent_env \<Rightarrow> task_contract \<Rightarrow> handoff \<Rightarrow> string \<Rightarrow> bool" where
  "handoff_ok env t h task_bytes \<longleftrightarrow>
     h_task_id h = t_task_id t \<and> h_task_contract_sha256 h = ae_sha256 env task_bytes \<and>
     paths_ok t h \<and> claims_ok t h \<and> evidence_accounted (ae_fs env) t h \<and> results_ok t h \<and> outcome_ok t h"

lemma validate_binding_Nil:
  "validate_binding env to ho bytes = Inr [] \<longleftrightarrow>
     (\<exists>t h. read_task to = Inr t \<and> read_handoff ho = Inr h \<and> handoff_ok env t h bytes)"
  by (auto simp: validate_binding_def bindE_eq_Inr handoff_ok_def validate_paths_Nil handoff_claims_Nil
      validate_evidence_Nil validate_results_Nil split: if_splits)

text \<open>
  C7: for a task and a handoff that are objects, the validator reports nothing exactly when both satisfy
  their schemas, the non-ideal-task guard is clean and the handoff meets the specification of every
  rule: identity and digest of the task, scope of all paths, claims, evidence, results and outcome.
\<close>

theorem check_handoff_clean_iff:
  "check_handoff env (JDict to) (JDict ho) bytes task_schema handoff_schema registry = Inr [] \<longleftrightarrow>
     schema_findings env (JDict to) task_schema ''TASK_SCHEMA_INVALID'' = Inr [] \<and>
     schema_findings env (JDict ho) handoff_schema ''HANDOFF_SCHEMA_INVALID'' = Inr [] \<and>
     run_non_ideal_guard env (JDict to) registry task_schema = Inr [] \<and>
     (\<exists>t h. read_task to = Inr t \<and> read_handoff ho = Inr h \<and> handoff_ok env t h bytes)"
  unfolding validate_binding_Nil [symmetric]
  by (auto simp: check_handoff_def bindE_eq_Inr Let_def)


text \<open>
  An expected evidence entry that is not a repository-relative file path, such as a directory or a
  path with \<^verbatim>\<open>..\<close>, is never required: the evidence rule treats the task as if it were not listed.
\<close>

lemma unnormalisable_evidence_ignored:
  assumes "normalize_repo_path e False = None"
  shows "validate_evidence fs (t\<lparr>t_expected_evidence := e # es\<rparr>) h = validate_evidence fs (t\<lparr>t_expected_evidence := es\<rparr>) h"
proof -
  have "normalized_file_set (e # es) = normalized_file_set es"
    using assms by (simp add: normalized_file_set_def List.map_filter_simps)
  then show ?thesis by (simp add: validate_evidence_def)
qed

section \<open>What the schemas of the repository guarantee\<close>

lemma accepts_nodeD: "accepts env r inst (JDict s) \<Longrightarrow> accepts_node env (accepts env r) r inst s"
  by (erule acceptsE) simp

lemma accepts_type:
  "accepts env r inst (JDict s) \<Longrightarrow> sget s ''type'' = JStr ty \<Longrightarrow> type_matches inst ty = Inr True"
  by (drule accepts_nodeD) (simp add: accepts_node_def)

lemma accepts_objectD: "accepts env r (JDict d) (JDict s) \<Longrightarrow> accepts_object (accepts env r) d s"
  by (drule accepts_nodeD) (simp add: accepts_node_def)

lemma accepts_required:
  assumes "accepts env r (JDict d) (JDict s)" "map_of s ''required'' = Some (JList fs)" "JStr f \<in> set fs"
  shows "\<exists>v. map_of d f = Some v"
proof -
  have "\<forall>f\<in>set fs. str_val f \<in> set (keys_of d)"
    using accepts_objectD [OF assms(1)] assms(2) unfolding accepts_object_def by auto
  with assms(3) have "f \<in> set (keys_of d)" by fastforce
  then show ?thesis by (metis map_of_eq_None_iff option.exhaust list.set_map)
qed

lemma accepts_property:
  assumes "accepts env r (JDict d) (JDict s)" "map_of s ''properties'' = Some (JDict ps)" "map_of ps k = Some c"
    "map_of d k = Some v"
  shows "accepts env r v c"
proof -
  have "k \<in> set (keys_of d)" using assms(4) by (force dest: map_of_SomeD)
  moreover have "property_schema s k = Inr (Some c)" using assms(2,3) by (simp add: property_schema_def)
  moreover have "sget d k = v" using assms(4) by (simp add: sget_def)
  moreover from \<open>k \<in> set (keys_of d)\<close> obtain child where "property_schema s k = Inr child"
      "case child of Some c \<Rightarrow> accepts env r (sget d k) c | None \<Rightarrow> additional_allowed s"
    using accepts_objectD [OF assms(1)] unfolding accepts_object_def by blast
  ultimately show ?thesis by simp
qed

lemma accepts_items_all:
  assumes "accepts env r (JList xs) (JDict s)" "sget s ''items'' = JDict i" "x \<in> set xs"
  shows "accepts env r x (JDict i)"
proof -
  have "accepts_items (accepts env r) xs s"
    using accepts_nodeD [OF assms(1)] by (simp add: accepts_node_def)
  with assms(2,3) show ?thesis by (simp add: accepts_items_def)
qed

lemma accepts_ref:
  "accepts env r inst (JDict s) \<Longrightarrow> sget s ''$ref'' = JStr ref \<Longrightarrow> schema_pointer r ref = Inr t \<Longrightarrow> accepts env r inst (JDict t)"
  by (drule accepts_nodeD) (simp add: accepts_node_def)

lemma accepts_all_of:
  "accepts env r inst (JDict s) \<Longrightarrow> map_of s ''allOf'' = Some (JList cs) \<Longrightarrow> c \<in> set cs \<Longrightarrow> accepts env r inst c"
  by (drule accepts_nodeD) (simp add: accepts_node_def)

lemma type_matches_True:
  "type_matches v ''string'' = Inr True \<longleftrightarrow> (\<exists>s. v = JStr s)"
  "type_matches v ''boolean'' = Inr True \<longleftrightarrow> (\<exists>b. v = JBool b)"
  "type_matches v ''array'' = Inr True \<longleftrightarrow> (\<exists>xs. v = JList xs)"
  "type_matches v ''object'' = Inr True \<longleftrightarrow> (\<exists>d. v = JDict d)"
  by (cases v; simp add: type_matches_def)+

definition string_schema :: "jobject \<Rightarrow> bool" where
  "string_schema s = (sget s ''type'' = JStr ''string'')"

definition strings_schema :: "jobject \<Rightarrow> bool" where
  "strings_schema s = (sget s ''type'' = JStr ''array'' \<and>
     (case sget s ''items'' of JDict i \<Rightarrow> string_schema i | _ \<Rightarrow> False))"

lemma accepts_strings:
  assumes "accepts env r v (JDict s)" "strings_schema s"
  shows "\<exists>ss. v = JList (map JStr ss)"
proof -
  obtain i where i: "sget s ''items'' = JDict i" "string_schema i"
    using assms(2) by (auto simp: strings_schema_def split: json.splits)
  obtain xs where v: "v = JList xs"
    using accepts_type [OF assms(1), of "''array''"] assms(2) by (auto simp: strings_schema_def type_matches_True)
  have "\<exists>t. x = JStr t" if "x \<in> set xs" for x
    using accepts_type [OF accepts_items_all [OF assms(1) [unfolded v] i(1) that], of "''string''"] i(2)
    by (auto simp: string_schema_def type_matches_True)
  then have "xs \<in> range (map JStr)"
  proof (induction xs)
    case (Cons x xs)
    then obtain t ts where "x = JStr t" "xs = map JStr ts" by fastforce
    then show ?case by (auto intro: image_eqI [of _ _ "t # ts"])
  qed simp
  with v show ?thesis by auto
qed

lemma mapE_item_str [simp]: "mapE item_str (map JStr ss) = Inr ss"
  by (induction ss) (auto simp: item_str_def)

subsection \<open>Reading the fields a schema guarantees\<close>

definition required_field :: "jobject \<Rightarrow> string \<Rightarrow> bool" where
  "required_field s k = (case map_of s ''required'' of Some (JList fs) \<Rightarrow> JStr k \<in> set fs | _ \<Rightarrow> False)"

definition field_schema :: "jobject \<Rightarrow> string \<Rightarrow> jobject option" where
  "field_schema s k =
     (case map_of s ''properties'' of
        Some (JDict ps) \<Rightarrow> (case map_of ps k of Some (JDict c) \<Rightarrow> Some c | _ \<Rightarrow> None)
      | _ \<Rightarrow> None)"

definition ref_strings :: "jobject \<Rightarrow> jobject \<Rightarrow> bool" where
  "ref_strings r c =
     (case sget c ''$ref'' of
        JStr ref \<Rightarrow> (case schema_pointer r ref of Inr t \<Rightarrow> strings_schema t | Inl _ \<Rightarrow> False)
      | _ \<Rightarrow> False)"

definition strings_via :: "jobject \<Rightarrow> jobject \<Rightarrow> bool" where
  "strings_via r c \<longleftrightarrow> strings_schema c \<or> ref_strings r c \<or>
     (case map_of c ''allOf'' of Some (JList (JDict c' # _)) \<Rightarrow> ref_strings r c' | _ \<Rightarrow> False)"

definition strings_field :: "jobject \<Rightarrow> jobject \<Rightarrow> string \<Rightarrow> bool" where
  "strings_field r s k \<longleftrightarrow> required_field s k \<and> (case field_schema s k of Some c \<Rightarrow> strings_via r c | None \<Rightarrow> False)"

definition string_field_schema :: "jobject \<Rightarrow> string \<Rightarrow> bool" where
  "string_field_schema s k \<longleftrightarrow> required_field s k \<and> (case field_schema s k of Some c \<Rightarrow> string_schema c | None \<Rightarrow> False)"

lemma accepted_field:
  assumes "accepts env r (JDict d) (JDict s)" "required_field s k" "field_schema s k = Some c"
  shows "\<exists>v. map_of d k = Some v \<and> accepts env r v (JDict c)"
proof -
  from assms(2) obtain fs where "map_of s ''required'' = Some (JList fs)" "JStr k \<in> set fs"
    by (auto simp: required_field_def split: option.splits json.splits)
  from accepts_required [OF assms(1) this] obtain v where v: "map_of d k = Some v" ..
  from assms(3) obtain ps where "map_of s ''properties'' = Some (JDict ps)" "map_of ps k = Some (JDict c)"
    by (auto simp: field_schema_def split: option.splits json.splits)
  from accepts_property [OF assms(1) this v] v show ?thesis by blast
qed

lemma ref_strings_list:
  assumes "accepts env r v (JDict c)" "ref_strings r c"
  shows "\<exists>ss. v = JList (map JStr ss)"
proof -
  from assms(2) obtain ref t where "sget c ''$ref'' = JStr ref" "schema_pointer r ref = Inr t" "strings_schema t"
    by (auto simp: ref_strings_def split: json.splits sum.splits)
  with accepts_ref [OF assms(1)] accepts_strings show ?thesis by blast
qed

lemma strings_via_list:
  assumes "accepts env r v (JDict c)" "strings_via r c"
  shows "\<exists>ss. v = JList (map JStr ss)"
proof -
  consider "strings_schema c" | "ref_strings r c"
    | c' cs where "map_of c ''allOf'' = Some (JList (JDict c' # cs))" "ref_strings r c'"
    using assms(2) by (auto simp: strings_via_def split: option.splits json.splits list.splits)
  then show ?thesis
  proof cases
    case 3
    from accepts_all_of [OF assms(1) this(1), of "JDict c'"] 3(2) ref_strings_list show ?thesis by auto
  qed (use assms(1) accepts_strings ref_strings_list in blast)+
qed

lemma get_strings_ok:
  assumes "accepts env r (JDict d) (JDict s)" "strings_field r s k"
  shows "\<exists>ss. get_strings d k = Inr ss"
proof -
  from assms(2) obtain c where "required_field s k" "field_schema s k = Some c" "strings_via r c"
    by (auto simp: strings_field_def split: option.splits)
  with accepted_field [OF assms(1)] strings_via_list obtain ss where "map_of d k = Some (JList (map JStr ss))" by blast
  then show ?thesis by (simp add: get_strings_def get_key_def)
qed

lemma accepted_string:
  assumes "accepts env r (JDict d) (JDict s)" "string_field_schema s k"
  shows "\<exists>x. get_str d k = Inr x"
proof -
  from assms(2) obtain c where c: "required_field s k" "field_schema s k = Some c" "string_schema c"
    by (auto simp: string_field_schema_def split: option.splits)
  with accepted_field [OF assms(1)] obtain v where "map_of d k = Some v" "accepts env r v (JDict c)" by blast
  with accepts_type [of env r v c "''string''"] c(3) show ?thesis
    by (auto simp: string_schema_def type_matches_True get_str_def get_key_def)
qed

lemma accepted_bool:
  assumes "accepts env r (JDict d) (JDict s)" "required_field s k" "field_schema s k = Some c" "sget c ''type'' = JStr ''boolean''"
  shows "\<exists>x. get_bool d k = Inr x"
proof -
  from accepted_field [OF assms(1-3)] obtain v where "map_of d k = Some v" "accepts env r v (JDict c)" by blast
  with accepts_type [of env r v c "''boolean''"] assms(4) show ?thesis
    by (auto simp: type_matches_True get_bool_def get_key_def)
qed

definition result_schema :: "jobject \<Rightarrow> bool" where
  "result_schema s \<longleftrightarrow> sget s ''type'' = JStr ''array'' \<and>
     (case sget s ''items'' of
        JDict i \<Rightarrow> sget i ''type'' = JStr ''object'' \<and> string_field_schema i ''command'' \<and> string_field_schema i ''status''
      | _ \<Rightarrow> False)"

lemma mapE_ok: "(\<And>x. x \<in> set xs \<Longrightarrow> \<exists>y. f x = Inr y) \<Longrightarrow> \<exists>ys. mapE f xs = Inr ys"
  by (induction xs) fastforce+

lemma accepted_results:
  assumes "accepts env r (JDict d) (JDict s)" "required_field s k" "field_schema s k = Some c" "result_schema c"
  shows "\<exists>x. get_results d k = Inr x"
proof -
  from accepted_field [OF assms(1-3)] obtain v where v: "map_of d k = Some v" "accepts env r v (JDict c)" by blast
  from assms(4) obtain i where i: "sget c ''items'' = JDict i" "sget i ''type'' = JStr ''object''"
      "string_field_schema i ''command''" "string_field_schema i ''status''"
    by (auto simp: result_schema_def split: json.splits)
  from accepts_type [OF v(2), of "''array''"] assms(4) obtain xs where xs: "v = JList xs"
    by (auto simp: result_schema_def type_matches_True)
  have "\<exists>y. item_result x = Inr y" if "x \<in> set xs" for x
  proof -
    have acc: "accepts env r x (JDict i)" using accepts_items_all [OF v(2) [unfolded xs] i(1) that] .
    from accepts_type [OF this i(2)] obtain e where "x = JDict e" by (auto simp: type_matches_True)
    with accepted_string [OF acc [unfolded this] i(3)] accepted_string [OF acc [unfolded this] i(4)]
    show ?thesis by (auto simp: item_result_def)
  qed
  from mapE_ok [OF this] v(1) xs show ?thesis by (simp add: get_results_def get_key_def)
qed

subsection \<open>The schemas of the repository\<close>

definition task_schema_doc :: jobject where
  "task_schema_doc =
     [(''$schema'', JStr ''http://json-schema.org/draft-07/schema#''), (''$id'',
     JStr ''https://weltgewebe.org/schemas/agent/task.schema.json''), (''title'',
     JStr ''Agent Task Contract''), (''description'',
     JStr ''Minimal machine-readable contract for agent task definitions.''), (''type'', JStr ''object''),
     (''required'', JList [JStr ''task_id'', JStr ''goal'', JStr ''task_type'', JStr ''allowed_paths'',
     JStr ''forbidden_paths'', JStr ''claims'', JStr ''expected_evidence'', JStr ''validation_commands'',
     JStr ''delete_allowed'']), (''additionalProperties'', JBool False), (''properties'', JDict [(''task_id'',
     JDict [(''type'', JStr ''string''), (''pattern'', JStr ''^[A-Z]+(-[A-Z]+)*-[0-9]{3}$'')]), (''goal'',
     JDict [(''type'', JStr ''string''), (''minLength'', JInt 1), (''pattern'', JStr ([CHR 0x5C] @ ''S''))]),
     (''task_type'', JDict [(''type'', JStr ''string''), (''enum'', JList [JStr ''doc_change'',
     JStr ''ci_change'', JStr ''infra_change'', JStr ''governance'', JStr ''generated_refresh''])]),
     (''allowed_paths'', JDict [(''type'', JStr ''array''), (''minItems'', JInt 1), (''items'',
     JDict [(''type'', JStr ''string''), (''minLength'', JInt 1), (''pattern'', JStr ([CHR 0x5C] @ ''S''))]),
     (''uniqueItems'', JBool True)]), (''forbidden_paths'', JDict [(''type'', JStr ''array''), (''items'',
     JDict [(''type'', JStr ''string''), (''minLength'', JInt 1), (''pattern'', JStr ([CHR 0x5C] @ ''S''))]),
     (''uniqueItems'', JBool True)]), (''claims'', JDict [(''type'', JStr ''array''), (''minItems'', JInt 1),
     (''items'', JDict [(''type'', JStr ''string''), (''minLength'', JInt 1), (''pattern'',
     JStr ([CHR 0x5C] @ ''S''))]), (''uniqueItems'', JBool True)]), (''expected_evidence'', JDict [(''type'',
     JStr ''array''), (''minItems'', JInt 1), (''items'', JDict [(''type'', JStr ''string''), (''minLength'',
     JInt 1), (''pattern'', JStr ([CHR 0x5C] @ ''S''))]), (''uniqueItems'', JBool True)]),
     (''validation_commands'', JDict [(''type'', JStr ''array''), (''minItems'', JInt 1), (''items'',
     JDict [(''type'', JStr ''string''), (''minLength'', JInt 1), (''pattern'', JStr ([CHR 0x5C] @ ''S''))]),
     (''uniqueItems'', JBool True)]), (''delete_allowed'', JDict [(''type'', JStr ''boolean'')]), (''status'',
     JDict [(''type'', JStr ''string'')]), (''decision'', JDict [(''type'', JStr ''string'')]),
     (''repo_status'', JDict [(''type'', JStr ''string'')])])]"

definition handoff_schema_doc :: jobject where
  "handoff_schema_doc =
     [(''$schema'', JStr ''http://json-schema.org/draft-07/schema#''), (''$id'',
     JStr ''https://weltgewebe.org/schemas/agent/handoff.schema.json''), (''title'',
     JStr ''Agent Handoff Contract''), (''description'',
     JStr ''Machine-readable review handoff for an agent task.''), (''type'', JStr ''object''), (''required'',
     JList [JStr ''handoff_id'', JStr ''task_id'', JStr ''task_contract_sha256'', JStr ''source_revision'',
     JStr ''producer'', JStr ''outcome'', JStr ''changed_paths'', JStr ''deleted_paths'',
     JStr ''claims_addressed'', JStr ''evidence_produced'', JStr ''missing_evidence'',
     JStr ''validation_results'', JStr ''blockers'', JStr ''residual_gaps'']), (''additionalProperties'',
     JBool False), (''properties'', JDict [(''handoff_id'', JDict [(''type'', JStr ''string''), (''pattern'',
     JStr ''^[A-Z0-9]+(-[A-Z0-9]+)*$'')]), (''task_id'', JDict [(''type'', JStr ''string''), (''pattern'',
     JStr ''^[A-Z]+(-[A-Z]+)*-[0-9]{3}$'')]), (''task_contract_sha256'', JDict [(''type'', JStr ''string''),
     (''pattern'', JStr ''^[0-9a-f]{64}$'')]), (''source_revision'', JDict [(''type'', JStr ''string''),
     (''pattern'', JStr ''^([0-9a-f]{40}|[0-9a-f]{64})$'')]), (''producer'', JDict [(''type'',
     JStr ''string''), (''minLength'', JInt 1), (''maxLength'', JInt 128), (''pattern'',
     JStr ''^[A-Za-z0-9][A-Za-z0-9._/-]*$'')]), (''outcome'', JDict [(''type'', JStr ''string''), (''enum'',
     JList [JStr ''ready_for_review'', JStr ''blocked'', JStr ''incomplete''])]), (''changed_paths'',
     JDict [(''$ref'', JStr ''#/definitions/uniqueStrings'')]), (''deleted_paths'', JDict [(''$ref'',
     JStr ''#/definitions/uniqueStrings'')]), (''claims_addressed'', JDict [(''allOf'',
     JList [JDict [(''$ref'', JStr ''#/definitions/uniqueStrings'')], JDict [(''minItems'', JInt 1)]])]),
     (''evidence_produced'', JDict [(''$ref'', JStr ''#/definitions/uniqueStrings'')]), (''missing_evidence'',
     JDict [(''$ref'', JStr ''#/definitions/uniqueStrings'')]), (''validation_results'', JDict [(''type'',
     JStr ''array''), (''items'', JDict [(''type'', JStr ''object''), (''required'', JList [JStr ''command'',
     JStr ''status'']), (''additionalProperties'', JBool False), (''properties'', JDict [(''command'',
     JDict [(''type'', JStr ''string''), (''minLength'', JInt 1)]), (''status'', JDict [(''type'',
     JStr ''string''), (''enum'', JList [JStr ''passed'', JStr ''failed'', JStr ''not_run''])])])]),
     (''uniqueItems'', JBool True)]), (''blockers'', JDict [(''$ref'', JStr ''#/definitions/uniqueStrings'')]),
     (''residual_gaps'', JDict [(''$ref'', JStr ''#/definitions/uniqueStrings'')])]), (''definitions'',
     JDict [(''uniqueStrings'', JDict [(''type'', JStr ''array''), (''uniqueItems'', JBool True), (''items'',
     JDict [(''type'', JStr ''string''), (''minLength'', JInt 1)])])])]"


lemma task_schema_fields:
  "string_field_schema task_schema_doc ''task_id''"
  "list_all (strings_field task_schema_doc task_schema_doc)
     [''allowed_paths'', ''forbidden_paths'', ''claims'', ''expected_evidence'', ''validation_commands'']"
  "required_field task_schema_doc ''delete_allowed''"
  "field_schema task_schema_doc ''delete_allowed'' = Some [(''type'', JStr ''boolean'')]"
  by code_simp+

lemma handoff_schema_fields:
  "list_all (string_field_schema handoff_schema_doc) [''task_id'', ''task_contract_sha256'', ''outcome'']"
  "list_all (strings_field handoff_schema_doc handoff_schema_doc)
     [''changed_paths'', ''deleted_paths'', ''claims_addressed'', ''evidence_produced'', ''missing_evidence'',
      ''blockers'', ''residual_gaps'']"
  "required_field handoff_schema_doc ''validation_results''"
  "case field_schema handoff_schema_doc ''validation_results'' of Some c \<Rightarrow> result_schema c | None \<Rightarrow> False"
  by code_simp+

lemma read_task_ok:
  assumes "accepts env task_schema_doc (JDict d) (JDict task_schema_doc)"
  shows "\<exists>t. read_task d = Inr t"
proof -
  note str = get_strings_ok [OF assms]
  have "strings_field task_schema_doc task_schema_doc k"
    if "k \<in> {''allowed_paths'', ''forbidden_paths'', ''claims'', ''expected_evidence'', ''validation_commands''}" for k
    using that task_schema_fields(2) by auto
  then obtain a f c e v where "get_strings d ''allowed_paths'' = Inr a" "get_strings d ''forbidden_paths'' = Inr f"
      "get_strings d ''claims'' = Inr c" "get_strings d ''expected_evidence'' = Inr e"
      "get_strings d ''validation_commands'' = Inr v"
    using str by (meson insertCI)
  moreover obtain i where "get_str d ''task_id'' = Inr i" using accepted_string [OF assms task_schema_fields(1)] by blast
  moreover obtain b where "get_bool d ''delete_allowed'' = Inr b"
    using accepted_bool [OF assms task_schema_fields(3,4)] by (auto simp: sget_def)
  ultimately show ?thesis by (simp add: read_task_def)
qed

lemma read_handoff_ok:
  assumes "accepts env handoff_schema_doc (JDict d) (JDict handoff_schema_doc)"
  shows "\<exists>h. read_handoff d = Inr h"
proof -
  note str = get_strings_ok [OF assms]
  have "strings_field handoff_schema_doc handoff_schema_doc k"
    if "k \<in> {''changed_paths'', ''deleted_paths'', ''claims_addressed'', ''evidence_produced'', ''missing_evidence'',
      ''blockers'', ''residual_gaps''}" for k
    using that handoff_schema_fields(2) by auto
  then obtain c de cl p m b g where "get_strings d ''changed_paths'' = Inr c" "get_strings d ''deleted_paths'' = Inr de"
      "get_strings d ''claims_addressed'' = Inr cl" "get_strings d ''evidence_produced'' = Inr p"
      "get_strings d ''missing_evidence'' = Inr m" "get_strings d ''blockers'' = Inr b" "get_strings d ''residual_gaps'' = Inr g"
    using str by (meson insertCI)
  moreover have "string_field_schema handoff_schema_doc k" if "k \<in> {''task_id'', ''task_contract_sha256'', ''outcome''}" for k
    using that handoff_schema_fields(1) by auto
  then obtain i s out where "get_str d ''task_id'' = Inr i" "get_str d ''task_contract_sha256'' = Inr s" "get_str d ''outcome'' = Inr out"
    using accepted_string [OF assms] by (meson insertCI)
  moreover obtain rs where "get_results d ''validation_results'' = Inr rs"
    using accepted_results [OF assms handoff_schema_fields(3)] handoff_schema_fields(4)
    by (auto split: option.splits)
  ultimately show ?thesis by (simp add: read_handoff_def)
qed

text \<open>
  C36: with the two schemas of the repository, documents that pass the schema check have every field the
  rules read, in the shape they need: the rules never raise a missing key or a wrong type.
\<close>

theorem schemas_give_shape:
  assumes "validate_instance env n (JDict to) (JDict task_schema_doc) [] p = Inr []"
    and "validate_instance env m (JDict ho) (JDict handoff_schema_doc) [] q = Inr []"
  shows "(\<exists>t. read_task to = Inr t) \<and> (\<exists>h. read_handoff ho = Inr h)"
  using validate_instance_sound [OF assms(1)] validate_instance_sound [OF assms(2)] read_task_ok read_handoff_ok
  by auto

section \<open>Concrete documents\<close>

definition demo_task :: jobject where
  "demo_task =
     [(''task_id'', JStr ''DEMO-001''), (''goal'', JStr ''x''), (''task_type'', JStr ''doc_change''),
      (''allowed_paths'', JList [JStr ''docs/guide/'']), (''forbidden_paths'', JList [JStr ''docs/guide/old'']),
      (''claims'', JList [JStr ''C-1'']), (''expected_evidence'', JList [JStr ''docs/guide/a.md'', JStr ''out/'']),
      (''validation_commands'', JList [JStr ''make check'']), (''delete_allowed'', JBool False)]"

definition demo_handoff :: jobject where
  "demo_handoff =
     [(''handoff_id'', JStr ''H-1''), (''task_id'', JStr ''DEMO-001''), (''task_contract_sha256'', JStr ''bytes''),
      (''source_revision'', JStr ''r''), (''producer'', JStr ''p''), (''outcome'', JStr ''ready_for_review''),
      (''changed_paths'', JList [JStr ''docs/guide/a.md'']), (''deleted_paths'', JList []),
      (''claims_addressed'', JList [JStr ''C-1'']), (''evidence_produced'', JList [JStr ''docs/guide/a.md'']),
      (''missing_evidence'', JList []),
      (''validation_results'', JList [JDict [(''command'', JStr ''make check''), (''status'', JStr ''passed'')]]),
      (''blockers'', JList []), (''residual_gaps'', JList [])]"

definition demo_registry :: jobject where
  "demo_registry = [(''claims'', JList [JDict [(''id'', JStr ''C-1''), (''status'', JStr ''established'')]])]"

definition demo_repo :: agent_env where
  "demo_repo = demo_env\<lparr>ae_fs := plain_fs [''repo''] [([''repo'', ''docs'', ''guide'', ''a.md''], ''text'')]\<rparr>"

lemma demo_reads:
  "\<exists>t h. read_task demo_task = Inr t \<and> read_handoff demo_handoff = Inr h \<and> h_outcome h = ''ready_for_review'' \<and>
     t_validation_commands t = [''make check''] \<and> h_validation_results h = [(''make check'', ''passed'')]"
  by (simp add: read_task_def read_handoff_def demo_task_def demo_handoff_def get_str_def get_strings_def get_bool_def
      get_results_def get_key_def item_str_def item_result_def)


theorem schemas_give_shape_witness:
  "(\<exists>t. read_task demo_task = Inr t) \<and> (\<exists>h. read_handoff demo_handoff = Inr h)"
proof (rule schemas_give_shape)
  show "validate_instance null_env 9 (JDict demo_task) (JDict task_schema_doc) [] ''$'' = Inr []" by code_simp
  show "validate_instance null_env 9 (JDict demo_handoff) (JDict handoff_schema_doc) [] ''$'' = Inr []" by code_simp
qed

section \<open>Output\<close>

text \<open>
  The findings of a handoff validation are strictly ordered by code, field and
  message.
\<close>

lemma check_handoff_sorted:
  assumes "check_handoff env task h bytes ts hs registry = Inr fs"
  shows "sorted (map handoff_key fs) \<and> distinct (map handoff_key fs)"
  using assms sorted_unique_sorted sorted_unique_distinct
  by (auto simp: check_handoff_def bindE_eq_Inr Let_def)

text \<open>
  The exit code of the handoff check: 0 exactly for a report without findings, which says
  \<^verbatim>\<open>valid\<close>; 1 for a report with findings; 2 for every input error.
\<close>

lemma handoff_main_exit:
  assumes "handoff_main env args = Inr (out, code)"
  shows "case out of CliError c m \<Rightarrow> code = 2
     | HandoffReport status t h fs \<Rightarrow> code = (if fs = [] then 0 else 1) \<and> status = (if fs = [] then ''valid'' else ''invalid'')"
proof -
  obtain r where r: "bindE (handoff_resolve (ae_fs env) (ha_task_file args)) (\<lambda>t.
       bindE (handoff_resolve (ae_fs env) (ha_handoff_file args)) (\<lambda>h.
       bindE (handoff_resolve (ae_fs env) (ha_claim_registry args)) (\<lambda>r. Inr (t, h, r)))) = r" by blast
  show ?thesis
  proof (cases r)
    case (Inl e)
    with assms r show ?thesis by (auto simp: handoff_main_def Let_def split: py_error.split_asm)
  next
    case (Inr paths)
    obtain t h c where "paths = (t, h, c)" by (cases paths)
    with assms r Inr show ?thesis
      by (cases "handoff_run env t h c")
         (auto simp: handoff_main_def Let_def split: if_split_asm sum.split_asm cli_exception.split_asm py_error.split_asm)
  qed
qed

end
