(* ===== verification/Run_World.thy ===== *)
theory Run_World
  imports Handoff_Contract
begin

text \<open>
  The world the dry-run runner of \<^verbatim>\<open>scripts/agent/run_task.py\<close> acts on, and the monad its effects are
  written in.

  \<^item> An effectful function is a \<open>run\<close>: it maps a world to a result (\<open>Inl\<close> an exception) and a world.
    \<open>RunnerErr\<close> is \<^verbatim>\<open>RunnerError\<close> with its code, message, clean-up errors and evidence path; every other
    exception is \<open>PyErr\<close>.
  \<^item> \<open>run_env\<close> is everything outside the program, as functions of the number of interactions so far:
    what \<^verbatim>\<open>git\<close> answers (an error message, or its return code and output), \<^verbatim>\<open>lstat\<close> and content of untracked
    files, the SHA-256 digest, the clock and random names, which system call fails and with what message, how much of a failing write reached
    the disk, what other processes do to the directory in the meantime, and what the directory tree above
    it looks like (\<open>re_ident\<close> is the inode an \<^verbatim>\<open>open\<close> with \<^verbatim>\<open>O_NOFOLLOW\<close> or a \<^verbatim>\<open>stat\<close> finds, or the error).
  \<^item> The world holds the sub-directories of the directory the evidence is published in (names to inodes,
    inodes to files) and the three local variables of \<^verbatim>\<open>publish_evidence_bundle\<close> that its \<^verbatim>\<open>finally\<close>
    clause reads. A directory descriptor is an inode, so it survives a rename.
\<close>

section \<open>Exceptions, environment, world\<close>

record runner_error =
  e_code :: string
  e_message :: string
  e_cleanup :: "string list"
  e_path :: "string option"

datatype run_exc = RunnerErr runner_error | PyErr py_error

definition RunnerError :: "string \<Rightarrow> string \<Rightarrow> run_exc" where
  "RunnerError code message = RunnerErr \<lparr>e_code = code, e_message = message, e_cleanup = [], e_path = None\<rparr>"

datatype parent_check = SameParent | OtherParent | ParentGone string | ParentFault string

record fs_state =
  d_names :: "(string, nat) dict"
  d_files :: "(nat, (string, string) dict) dict"

record file_stat =
  st_dev :: nat
  st_ino :: nat
  st_mode :: nat
  st_size :: nat
  st_mtime_ns :: nat

record run_env =
  re_agent :: agent_env
  re_git :: "nat \<Rightarrow> string list \<Rightarrow> string + int \<times> string"
  re_lstat :: "nat \<Rightarrow> string \<Rightarrow> string + file_stat"
  re_content :: "nat \<Rightarrow> string \<Rightarrow> string + string"
  re_digest :: "string \<Rightarrow> string"
  re_clock :: "nat \<Rightarrow> string"
  re_run_id :: "nat \<Rightarrow> string"
  re_token :: "nat \<Rightarrow> string"
  re_fault :: "nat \<Rightarrow> string option"
  re_written :: "nat \<Rightarrow> nat"
  re_disturb :: "nat \<Rightarrow> fs_state \<Rightarrow> fs_state"
  re_parent :: "nat \<Rightarrow> parent_check"
  re_cwd :: path
  re_resolve :: "nat \<Rightarrow> path \<Rightarrow> string + path"
  re_resolve_strict :: "nat \<Rightarrow> path \<Rightarrow> string + path"
  re_exists :: "nat \<Rightarrow> path \<Rightarrow> bool"
  re_is_dir :: "nat \<Rightarrow> path \<Rightarrow> bool"
  re_is_symlink :: "nat \<Rightarrow> path \<Rightarrow> bool"
  re_ident :: "nat \<Rightarrow> path \<Rightarrow> string + nat"
  re_renameat2 :: bool

record run_world =
  w_time :: nat
  w_fs :: fs_state
  w_created :: bool
  w_fd :: "nat option"
  w_published :: bool

type_synonym 'a run = "run_world \<Rightarrow> (run_exc + 'a) \<times> run_world"

definition retR :: "'a \<Rightarrow> 'a run" where
  "retR a w = (Inr a, w)"

definition raiseR :: "run_exc \<Rightarrow> 'a run" where
  "raiseR e w = (Inl e, w)"

definition bindR :: "'a run \<Rightarrow> ('a \<Rightarrow> 'b run) \<Rightarrow> 'b run" where
  "bindR m f w = (case m w of (Inl e, w') \<Rightarrow> (Inl e, w') | (Inr a, w') \<Rightarrow> f a w')"

definition liftR :: "run_exc + 'a \<Rightarrow> 'a run" where
  "liftR r w = (r, w)"

definition whenR :: "bool \<Rightarrow> run_exc \<Rightarrow> unit run" where
  "whenR c e w = ((if c then Inl e else Inr ()), w)"

definition pyR :: "py_error + 'a \<Rightarrow> 'a run" where
  "pyR r w = ((case r of Inl e \<Rightarrow> Inl (PyErr e) | Inr a \<Rightarrow> Inr a), w)"

definition catchR :: "'a run \<Rightarrow> (run_exc \<Rightarrow> 'a run) \<Rightarrow> 'a run" where
  "catchR m h w = (case m w of (Inl e, w') \<Rightarrow> h e w' | (Inr a, w') \<Rightarrow> (Inr a, w'))"

fun forR :: "('a \<Rightarrow> unit run) \<Rightarrow> 'a list \<Rightarrow> unit run" where
  "forR f [] = retR ()"
| "forR f (x # xs) = bindR (f x) (\<lambda>_. forR f xs)"

section \<open>Observations\<close>

text \<open>One interaction with the outside: its time, after the disturbance that precedes it.\<close>

definition tick :: "run_env \<Rightarrow> nat run" where
  "tick env w = (Inr (w_time w), w\<lparr>w_time := Suc (w_time w), w_fs := re_disturb env (w_time w) (w_fs w)\<rparr>)"

definition utc_timestamp :: "run_env \<Rightarrow> string run" where
  "utc_timestamp env = bindR (tick env) (\<lambda>t. retR (re_clock env t))"

section \<open>System calls\<close>

text \<open>A system call that fails raises \<^verbatim>\<open>OSError\<close> and changes nothing.\<close>

definition syscall :: "run_env \<Rightarrow> 'a run \<Rightarrow> 'a run" where
  "syscall env m =
     bindR (tick env) (\<lambda>t. case re_fault env t of Some msg \<Rightarrow> raiseR (PyErr (OSError msg)) | None \<Rightarrow> m)"

definition os_mkdir :: "run_env \<Rightarrow> string \<Rightarrow> unit run" where
  "os_mkdir env name = syscall env (\<lambda>w.
     if name \<in> set (keys_of (d_names (w_fs w))) then (Inl (PyErr (OSError ''File exists'')), w)
     else let ino = Suc (Max (insert 0 (set (keys_of (d_files (w_fs w))))))
          in (Inr (), w\<lparr>w_fs := \<lparr>d_names = dict_set name ino (d_names (w_fs w)), d_files = dict_set ino [] (d_files (w_fs w))\<rparr>\<rparr>))"

definition os_open_dir :: "run_env \<Rightarrow> string \<Rightarrow> nat run" where
  "os_open_dir env name = syscall env (\<lambda>w.
     case dict_get (d_names (w_fs w)) name of
       None \<Rightarrow> (Inl (PyErr (OSError ''No such file or directory'')), w)
     | Some ino \<Rightarrow> (Inr ino, w))"

definition files_of :: "run_world \<Rightarrow> nat \<Rightarrow> (string, string) dict" where
  "files_of w ino = (case dict_get (d_files (w_fs w)) ino of None \<Rightarrow> [] | Some fs \<Rightarrow> fs)"

definition put_file :: "nat \<Rightarrow> string \<Rightarrow> string \<Rightarrow> run_world \<Rightarrow> run_world" where
  "put_file ino name data w =
     w\<lparr>w_fs := (w_fs w)\<lparr>d_files := dict_set ino (dict_set name data (files_of w ino)) (d_files (w_fs w))\<rparr>\<rparr>"

text \<open>
  \<^verbatim>\<open>_write_file_sync_at\<close>: exclusive creation, then the write with its synchronisation, which may fail
  with a part of the data written.
\<close>

definition write_file_sync_at :: "run_env \<Rightarrow> nat \<Rightarrow> string \<Rightarrow> string \<Rightarrow> unit run" where
  "write_file_sync_at env ino name data =
     bindR (syscall env (\<lambda>w.
        if name \<in> set (keys_of (files_of w ino)) then (Inl (PyErr (OSError ''File exists'')), w)
        else (Inr (), put_file ino name [] w))) (\<lambda>_.
     bindR (tick env) (\<lambda>t.
        case re_fault env t of
          Some msg \<Rightarrow> (\<lambda>w. (Inl (PyErr (OSError msg)), put_file ino name (take (re_written env t) data) w))
        | None \<Rightarrow> (\<lambda>w. (Inr (), put_file ino name data w))))"

definition read_file_at :: "run_env \<Rightarrow> nat \<Rightarrow> string \<Rightarrow> string run" where
  "read_file_at env ino name = syscall env (\<lambda>w.
     case dict_get (files_of w ino) name of
       None \<Rightarrow> (Inl (PyErr (OSError ''No such file or directory'')), w)
     | Some data \<Rightarrow> (Inr data, w))"

definition os_listdir :: "run_env \<Rightarrow> nat \<Rightarrow> string list run" where
  "os_listdir env ino = syscall env (\<lambda>w. (Inr (keys_of (files_of w ino)), w))"

definition os_unlink :: "run_env \<Rightarrow> nat \<Rightarrow> string \<Rightarrow> unit run" where
  "os_unlink env ino name = syscall env (\<lambda>w.
     if name \<notin> set (keys_of (files_of w ino)) then (Inl (PyErr (OSError ''No such file or directory'')), w)
     else (Inr (), w\<lparr>w_fs := (w_fs w)\<lparr>d_files :=
             dict_set ino (AList.delete name (files_of w ino)) (d_files (w_fs w))\<rparr>\<rparr>))"

definition os_rmdir :: "run_env \<Rightarrow> string \<Rightarrow> unit run" where
  "os_rmdir env name = syscall env (\<lambda>w.
     case dict_get (d_names (w_fs w)) name of
       None \<Rightarrow> (Inl (PyErr (OSError ''No such file or directory'')), w)
     | Some ino \<Rightarrow>
         if files_of w ino \<noteq> [] then (Inl (PyErr (OSError ''Directory not empty'')), w)
         else (Inr (), w\<lparr>w_fs := (w_fs w)\<lparr>d_names := AList.delete name (d_names (w_fs w))\<rparr>\<rparr>))"

definition os_noop :: "run_env \<Rightarrow> unit run" where
  "os_noop env = syscall env (retR ())"

abbreviation fsync_fd :: "run_env \<Rightarrow> unit run" where
  "fsync_fd env \<equiv> os_noop env"

abbreviation os_close :: "run_env \<Rightarrow> unit run" where
  "os_close env \<equiv> os_noop env"

text \<open>\<^verbatim>\<open>_rename_noreplace_at\<close>: the atomic publication; a failure is a \<^verbatim>\<open>RunnerError\<close>, not an \<^verbatim>\<open>OSError\<close>.\<close>

definition rename_noreplace_at :: "run_env \<Rightarrow> string \<Rightarrow> string \<Rightarrow> unit run" where
  "rename_noreplace_at env source target =
     (if \<not> re_renameat2 env then
        raiseR (RunnerError ''OUTPUT_ATOMIC_PUBLISH_UNAVAILABLE''
                  ''renameat2(RENAME_NOREPLACE) is required for atomic publication'')
      else bindR (tick env) (\<lambda>t.
        case re_fault env t of
          Some msg \<Rightarrow> raiseR (RunnerError ''OUTPUT_WRITE_FAILED'' msg)
        | None \<Rightarrow> (\<lambda>w.
            if target \<in> set (keys_of (d_names (w_fs w))) then
              (Inl (RunnerError ''OUTPUT_DIR_EXISTS'' ''Output directory must not already exist''), w)
            else (case dict_get (d_names (w_fs w)) source of
                None \<Rightarrow> (Inl (RunnerError ''OUTPUT_WRITE_FAILED'' ''No such file or directory''), w)
              | Some ino \<Rightarrow> (Inr (), w\<lparr>w_fs := (w_fs w)\<lparr>d_names :=
                    dict_set target ino (AList.delete source (d_names (w_fs w)))\<rparr>\<rparr>)))))"

section \<open>Where the bundle goes\<close>

text \<open>One look at the directory tree: a \<^verbatim>\<open>pathlib\<close> predicate, or a call that finds an inode or fails.\<close>

definition look :: "run_env \<Rightarrow> (nat \<Rightarrow> path \<Rightarrow> 'a) \<Rightarrow> path \<Rightarrow> 'a run" where
  "look env probe p = bindR (tick env) (\<lambda>t. retR (probe t p))"

definition os_lookup :: "run_env \<Rightarrow> (nat \<Rightarrow> path \<Rightarrow> string + 'a) \<Rightarrow> path \<Rightarrow> 'a run" where
  "os_lookup env probe p =
     bindR (tick env) (\<lambda>t. case probe t p of Inl msg \<Rightarrow> raiseR (PyErr (OSError msg)) | Inr a \<Rightarrow> retR a)"

text \<open>\<^verbatim>\<open>_open_directory_no_symlinks\<close>: one component at a time; a failing close counts as a failing step.\<close>

fun open_components :: "run_env \<Rightarrow> path \<Rightarrow> nat \<Rightarrow> path \<Rightarrow> nat run" where
  "open_components env seen fd [] = retR fd"
| "open_components env seen fd (part # parts) =
     bindR (catchR (bindR (os_lookup env (re_ident env) (seen @ [part])) (\<lambda>nfd. bindR (os_close env) (\<lambda>_. retR nfd)))
        (\<lambda>e. case e of
           PyErr (OSError _) \<Rightarrow> bindR (os_close env) (\<lambda>_. raiseR (RunnerError ''OUTPUT_DIR_INVALID''
             ''Output directory parent changed or contains a symlink''))
         | _ \<Rightarrow> raiseR e))
       (\<lambda>nfd. open_components env (seen @ [part]) nfd parts)"

definition open_directory_no_symlinks :: "run_env \<Rightarrow> path \<Rightarrow> nat run" where
  "open_directory_no_symlinks env absolute =
     bindR (os_lookup env (re_ident env) []) (\<lambda>fd. open_components env [] fd absolute)"

text \<open>\<^verbatim>\<open>_ensure_child_directory\<close>: \<^verbatim>\<open>FileExistsError\<close> is ignored, every other failure of \<^verbatim>\<open>mkdir\<close> is not.\<close>

definition ensure_child_directory :: "run_env \<Rightarrow> path \<Rightarrow> string \<Rightarrow> nat run" where
  "ensure_child_directory env parent name =
     bindR (os_noop env) (\<lambda>_.
     catchR (os_lookup env (re_ident env) (parent @ [name])) (\<lambda>e. case e of
         PyErr (OSError _) \<Rightarrow> raiseR (RunnerError ''OUTPUT_DIR_INVALID'' (''Evidence directory is not a real directory: '' @ name))
       | _ \<Rightarrow> raiseR e))"

text \<open>A step of a \<^verbatim>\<open>try\<close> block whose \<^verbatim>\<open>finally\<close> clause closes \<open>n\<close> descriptors.\<close>

definition closing_on_error :: "run_env \<Rightarrow> nat \<Rightarrow> 'a run \<Rightarrow> 'a run" where
  "closing_on_error env n m = catchR m (\<lambda>e. bindR (forR (\<lambda>_. os_close env) [0..<n]) (\<lambda>_. raiseR e))"

definition repo_contains :: "run_env \<Rightarrow> path \<Rightarrow> path \<Rightarrow> bool run" where
  "repo_contains env repo candidate =
     catchR (bindR (os_lookup env (re_resolve env) candidate) (\<lambda>c.
             bindR (os_lookup env (re_resolve env) repo) (\<lambda>r. retR (inside r c))))
       (\<lambda>e. case e of PyErr (OSError _) \<Rightarrow> retR False | _ \<Rightarrow> raiseR e)"

text \<open>\<^verbatim>\<open>_ensure_no_symlink_parents\<close>: the path, when it exists, and each of its ancestors up to \<^verbatim>\<open>/\<close>.\<close>

function no_symlink_from :: "run_env \<Rightarrow> path \<Rightarrow> unit run" where
  "no_symlink_from env current =
     bindR (look env (re_is_symlink env) current) (\<lambda>link.
     bindR (whenR link (RunnerError ''OUTPUT_DIR_INVALID'' ''Output path and its parents must not be symlinks'')) (\<lambda>_.
     if current = [] then retR () else no_symlink_from env (butlast current)))"
  by auto
termination by (relation "measure (\<lambda>(env, p). length p)") auto

declare no_symlink_from.simps [simp del]

definition ensure_no_symlink_parents :: "run_env \<Rightarrow> path \<Rightarrow> unit run" where
  "ensure_no_symlink_parents env p =
     bindR (look env (re_exists env) p) (\<lambda>there. no_symlink_from env (if there then p else butlast p))"

text \<open>\<^verbatim>\<open>validate_output_dir\<close>: the absolute candidate.\<close>

definition validate_output_dir :: "run_env \<Rightarrow> string \<Rightarrow> path run" where
  "validate_output_dir env output_dir =
     (if ''..'' \<in> set (path_parts output_dir) then
        raiseR (RunnerError ''OUTPUT_DIR_INVALID'' ''Relative output directory must not contain parent traversal'')
      else
        let candidate = (if is_absolute output_dir then path_parts output_dir else re_cwd env @ path_parts output_dir) in
        bindR (os_lookup env (re_resolve env) (fs_root (ae_fs (re_agent env)))) (\<lambda>repo.
        bindR (os_lookup env (re_resolve env) candidate) (\<lambda>resolved.
        bindR (if resolved = repo then retR True else repo_contains env repo resolved) (\<lambda>in_repo.
        bindR (whenR in_repo (RunnerError ''OUTPUT_DIR_IN_REPOSITORY'' ''Custom output directory must be outside the repository root'')) (\<lambda>_.
        bindR (look env (re_is_symlink env) candidate) (\<lambda>link.
        bindR (whenR link (RunnerError ''OUTPUT_DIR_INVALID'' ''Output directory must not be a symlink'')) (\<lambda>_.
        bindR (bindR (look env (re_exists env) (butlast candidate)) (\<lambda>there.
               if there then look env (re_is_dir env) (butlast candidate) else retR False)) (\<lambda>parent_ok.
        bindR (whenR (\<not> parent_ok) (RunnerError ''OUTPUT_DIR_INVALID'' ''Output directory parent must be an existing directory'')) (\<lambda>_.
        bindR (ensure_no_symlink_parents env candidate) (\<lambda>_.
        bindR (look env (re_exists env) candidate) (\<lambda>there.
        bindR (whenR there (RunnerError ''OUTPUT_DIR_EXISTS'' ''Output directory must not already exist'')) (\<lambda>_.
        retR candidate))))))))))))"

end
