(* ===== verification/Evidence_Bundle.thy ===== *)
theory Evidence_Bundle
  imports Run_World
begin

text \<open>
  The evidence bundle of \<^verbatim>\<open>scripts/agent/run_task.py\<close>: serialisation, time stamps, the consistency rules
  between the four files (\<^verbatim>\<open>_validate_evidence_bindings\<close>) and the publication protocol
  (\<^verbatim>\<open>publish_evidence_bundle\<close>): the files are written to a staging directory, read back, and renamed
  into place.

  \<open>bindings_accepted_iff\<close> says what accepted evidence agrees on; the atomicity of the publication is proved
  in the theory \<open>Publish_Atomic\<close>.
\<close>

section \<open>Constants\<close>

definition STAGE_NAMES :: "string list" where
  "STAGE_NAMES =
     [''capture_repository_state'', ''load_task'', ''validate_task_schema'', ''load_claim_registry'',
      ''run_non_ideal_guard'', ''resolve_source_revision'', ''prepare_execution_plan'',
      ''account_expected_evidence'', ''build_handoff'', ''validate_handoff'',
      ''verify_repository_unchanged'', ''finalize_result'']"

definition VALIDATION_CHECK_NAMES :: "string list" where
  "VALIDATION_CHECK_NAMES =
     [''task_schema'', ''claim_registry'', ''non_ideal_guard'', ''handoff_contract'', ''repository_unchanged'']"

definition EVIDENCE_FILES :: "string list" where
  "EVIDENCE_FILES = [''task.yml'', ''handoff.json'', ''validation.json'', ''run-result.json'']"

definition RESIDUAL_GAPS :: "string list" where
  "RESIDUAL_GAPS =
     [''dry-run does not execute task validation commands'',
      ''dry-run does not apply repository changes'',
      ''run-evidence-lite persists only successfully planned dry-runs'',
      ''run-evidence-lite is not a CI attestation or write-mode authorization'']"

definition SOURCE_REVISION_RE :: re where
  "SOURCE_REVISION_RE = class_block 40 is_lower_hex"

definition RUN_ID_RE :: re where
  "RUN_ID_RE = seqs [Bol, Lit ''RUN-'', Rep 8 (Chr is_digit), Lit ''T'', Rep 6 (Chr is_digit), Lit ''Z-'',
     Rep 12 (Chr is_lower_hex), Eol]"

section \<open>Serialisation\<close>

text \<open>\<^verbatim>\<open>json.dumps(data, ensure_ascii=False, indent=2, sort_keys=True) + "\n"\<close>, encoded as UTF-8.\<close>

definition indent_at :: "nat \<Rightarrow> string" where
  "indent_at n = CHR 0x0A # replicate (2 * n) CHR '' ''"

fun dumps_indent :: "nat \<Rightarrow> json \<Rightarrow> string" where
  "dumps_indent n (JList xs) =
     (if xs = [] then ''[]''
      else ''['' @ indent_at (Suc n) @ join ('','' @ indent_at (Suc n)) (map (dumps_indent (Suc n)) xs) @ indent_at n @ '']'')"
| "dumps_indent n (JDict d) =
     (if d = [] then ''{}''
      else ''{'' @ indent_at (Suc n) @
        join ('','' @ indent_at (Suc n))
          (map (\<lambda>(k, s). dumps_str k @ '': '' @ s) (sort_key fst (map (\<lambda>(k, v). (k, dumps_indent (Suc n) v)) d))) @
        indent_at n @ ''}'')"
| "dumps_indent n v = json_dumps v"

definition json_bytes :: "json \<Rightarrow> string" where
  "json_bytes data = utf8_encode (dumps_indent 0 data @ [CHR 0x0A])"

section \<open>Time stamps\<close>

text \<open>
  \<^verbatim>\<open>datetime.strptime\<close> for the two formats of the runner. The groups are the fields, as in CPython's
  translation of a format to a regular expression, in which literals ignore case; the date must exist.
\<close>

definition digit_val :: "char \<Rightarrow> nat" where
  "digit_val c = of_char c - 48"

definition nat_of_digits :: "string \<Rightarrow> nat" where
  "nat_of_digits s = foldl (\<lambda>n c. 10 * n + digit_val c) 0 s"

definition digit_in :: "char \<Rightarrow> char \<Rightarrow> re" where
  "digit_in a b = Chr (in_range a b)"

abbreviation any_digit :: re where
  "any_digit \<equiv> Chr is_digit"

definition fmt_Y :: re where "fmt_Y = Rep 4 any_digit"

definition fmt_m :: re where
  "fmt_m = alts [Seq (Lit ''1'') (digit_in CHR ''0'' CHR ''2''), Seq (Lit ''0'') (digit_in CHR ''1'' CHR ''9''),
     digit_in CHR ''1'' CHR ''9'']"

definition fmt_d :: re where
  "fmt_d = alts [Seq (Lit ''3'') (digit_in CHR ''0'' CHR ''1''), Seq (digit_in CHR ''1'' CHR ''2'') any_digit,
     Seq (Lit ''0'') (digit_in CHR ''1'' CHR ''9''), digit_in CHR ''1'' CHR ''9'', Seq (Lit '' '') (digit_in CHR ''1'' CHR ''9'')]"

definition fmt_H :: re where
  "fmt_H = alts [Seq (Lit ''2'') (digit_in CHR ''0'' CHR ''3''), Seq (digit_in CHR ''0'' CHR ''1'') any_digit, any_digit]"

definition fmt_M :: re where
  "fmt_M = alts [Seq (digit_in CHR ''0'' CHR ''5'') any_digit, any_digit]"

definition fmt_S :: re where
  "fmt_S = alts [Seq (Lit ''6'') (digit_in CHR ''0'' CHR ''1''), Seq (digit_in CHR ''0'' CHR ''5'') any_digit, any_digit]"

definition fmt_f :: re where "fmt_f = RepBetween 1 6 any_digit"

definition evidence_time_re :: re where
  "evidence_time_re = seqs [Grp 1 fmt_Y, Lit ''-'', Grp 2 fmt_m, Lit ''-'', Grp 3 fmt_d, LitI ''T'', Grp 4 fmt_H, Lit '':'',
     Grp 5 fmt_M, Lit '':'', Grp 6 fmt_S, Lit ''.'', Grp 7 fmt_f, LitI ''Z'']"

definition run_id_time_re :: re where
  "run_id_time_re = seqs [Grp 1 fmt_Y, Grp 2 fmt_m, Grp 3 fmt_d, LitI ''T'', Grp 4 fmt_H, Grp 5 fmt_M, Grp 6 fmt_S, LitI ''Z'']"

definition is_leap :: "nat \<Rightarrow> bool" where
  "is_leap y = (y mod 4 = 0 \<and> (y mod 100 \<noteq> 0 \<or> y mod 400 = 0))"

definition days_in_month :: "nat \<Rightarrow> nat \<Rightarrow> nat" where
  "days_in_month y m = (if m = 2 then (if is_leap y then 29 else 28) else if m \<in> {4, 6, 9, 11} then 30 else 31)"

type_synonym timestamp = "nat list"

text \<open>Year, month, day, hour, minute, second, microsecond; lists of equal length compare like the tuple.\<close>

definition strptime :: "re \<Rightarrow> string \<Rightarrow> timestamp option" where
  "strptime fmt s =
     (case re_match fmt s of
        None \<Rightarrow> None
      | Some st \<Rightarrow>
          if rest_of st \<noteq> [] then None
          else
            (let g = (\<lambda>n. case re_group n st of None \<Rightarrow> 0 | Some x \<Rightarrow> nat_of_digits (strip x));
                 us = (case re_group 7 st of None \<Rightarrow> 0 | Some x \<Rightarrow> nat_of_digits (x @ replicate (6 - length x) CHR ''0''))
             in if g 1 = 0 \<or> days_in_month (g 1) (g 2) < g 3 \<or> 59 < g 6 then None
                else Some [g 1, g 2, g 3, g 4, g 5, g 6, us]))"

definition parse_evidence_timestamp :: "json \<Rightarrow> string \<Rightarrow> run_exc + timestamp" where
  "parse_evidence_timestamp value label =
     (case (case value of JStr s \<Rightarrow> strptime evidence_time_re s | _ \<Rightarrow> None) of
        Some t \<Rightarrow> Inr t
      | None \<Rightarrow> Inl (RunnerError ''RUN_EVIDENCE_SEMANTIC_INVALID'' (label @ '' is not a real UTC timestamp'')))"

definition validate_run_id_timestamp :: "json \<Rightarrow> run_exc + unit" where
  "validate_run_id_timestamp run_id =
     (case run_id of
        JStr r \<Rightarrow>
          if re_fullmatch RUN_ID_RE r = None then Inl (RunnerError ''RUN_ID_INVALID'' ''run_id has an invalid format'')
          else if strptime run_id_time_re (take 16 (drop 4 r)) = None then
            Inl (RunnerError ''RUN_EVIDENCE_SEMANTIC_INVALID'' ''run_id contains an impossible UTC timestamp'')
          else Inr ()
      | _ \<Rightarrow> Inl (PyErr TypeError))"

section \<open>Payloads and their bindings\<close>

definition check_entry :: "string \<Rightarrow> json" where
  "check_entry name = JDict [(''name'', JStr name), (''status'', JStr ''passed'')]"

definition validation_payload :: "string \<Rightarrow> json \<Rightarrow> string \<Rightarrow> string \<Rightarrow> string \<Rightarrow> string \<Rightarrow> jobject" where
  "validation_payload run_id task_id task_digest source_revision repository_state_sha256 created_at =
     [(''schema_version'', JStr ''1.0''), (''run_id'', JStr run_id), (''created_at'', JStr created_at),
      (''task_id'', task_id), (''task_contract_sha256'', JStr task_digest),
      (''source_revision'', JStr source_revision), (''repository_state_sha256'', JStr repository_state_sha256),
      (''status'', JStr ''passed''),
      (''checks'', JList [check_entry ''task_schema'', check_entry ''claim_registry'', check_entry ''non_ideal_guard'',
         check_entry ''handoff_contract'', check_entry ''repository_unchanged''])]"

text \<open>\<^verbatim>\<open>d[key]\<close> and \<^verbatim>\<open>d["a"]["b"]\<close>.\<close>

definition item :: "jobject \<Rightarrow> string \<Rightarrow> run_exc + json" where
  "item d k = (case map_of d k of None \<Rightarrow> Inl (PyErr (KeyError k)) | Some v \<Rightarrow> Inr v)"

definition sub_item :: "json \<Rightarrow> string \<Rightarrow> run_exc + json" where
  "sub_item v k = (case v of JDict d \<Rightarrow> item d k | _ \<Rightarrow> Inl (PyErr TypeError))"

definition binding_invalid :: "bool \<Rightarrow> string \<Rightarrow> run_exc + unit" where
  "binding_invalid c message = raise_when c (RunnerError ''RUN_EVIDENCE_BINDING_INVALID'' message)"

definition check_identity :: "jobject \<Rightarrow> jobject \<Rightarrow> jobject \<Rightarrow> string \<Rightarrow> run_exc + unit" where
  "check_identity handoff validation persisted field =
     bindE (item persisted field) (\<lambda>expected.
     bindE (item validation field) (\<lambda>v.
     if \<not> py_eq v expected then binding_invalid True (''Evidence identity mismatch: '' @ field)
     else bindE (item handoff field) (\<lambda>h.
       binding_invalid (\<not> py_eq h expected) (''Evidence identity mismatch: '' @ field))))"

text \<open>\<^verbatim>\<open>[item.get("name") for item in entries]\<close> against the canonical names.\<close>

definition entry_names :: "json \<Rightarrow> run_exc + json list" where
  "entry_names entries =
     (case entries of
        JList xs \<Rightarrow> mapE (\<lambda>x. case x of JDict d \<Rightarrow> Inr (sget d ''name'') | _ \<Rightarrow> Inl (PyErr AttributeError)) xs
      | _ \<Rightarrow> Inl (PyErr TypeError))"

definition check_names :: "jobject \<Rightarrow> string \<Rightarrow> string list \<Rightarrow> string \<Rightarrow> run_exc + unit" where
  "check_names d key names message =
     bindE (bindE (item d key) entry_names) (\<lambda>observed.
     raise_when (observed \<noteq> map JStr names) (RunnerError ''RUN_EVIDENCE_SEMANTIC_INVALID'' message))"

definition check_times :: "jobject \<Rightarrow> jobject \<Rightarrow> run_exc + unit" where
  "check_times validation persisted =
     bindE (bindE (item persisted ''run_id'') validate_run_id_timestamp) (\<lambda>_.
     bindE (bindE (item persisted ''started_at'') (\<lambda>v. parse_evidence_timestamp v ''started_at'')) (\<lambda>started_at.
     bindE (bindE (item persisted ''completed_at'') (\<lambda>v. parse_evidence_timestamp v ''completed_at'')) (\<lambda>completed_at.
     bindE (bindE (item validation ''created_at'') (\<lambda>v. parse_evidence_timestamp v ''validation.created_at'')) (\<lambda>_.
     raise_when (completed_at < started_at)
       (RunnerError ''CLOCK_MOVED_BACKWARDS'' ''completed_at precedes started_at'')))))"

definition check_hashes :: "(string \<Rightarrow> string) \<Rightarrow> string \<Rightarrow> jobject \<Rightarrow> jobject \<Rightarrow> run_exc + unit" where
  "check_hashes sha256 raw_task validation persisted =
     bindE (item validation ''created_at'') (\<lambda>created.
     bindE (item persisted ''completed_at'') (\<lambda>completed.
     bindE (binding_invalid (\<not> py_eq created completed) ''validation timestamp mismatch'') (\<lambda>_.
     bindE (item persisted ''repository_state_sha256'') (\<lambda>repository_hash.
     bindE (item validation ''repository_state_sha256'') (\<lambda>vhash.
     bindE (binding_invalid (\<not> py_eq vhash repository_hash) ''repository fingerprint mismatch'') (\<lambda>_.
     bindE (item persisted ''repository_state'') (\<lambda>repository_state.
     bindE (sub_item repository_state ''git_visible_sha256'') (\<lambda>nested.
     bindE (binding_invalid (\<not> py_eq nested repository_hash) ''nested repository fingerprint mismatch'') (\<lambda>_.
     bindE (sub_item repository_state ''source_revision'') (\<lambda>nested_revision.
     bindE (item persisted ''source_revision'') (\<lambda>revision.
     bindE (binding_invalid (\<not> py_eq nested_revision revision) ''nested source revision mismatch'') (\<lambda>_.
     bindE (item persisted ''artifacts'') (\<lambda>artifacts.
     bindE (sub_item artifacts ''task'') (\<lambda>task_artifact.
     bindE (sub_item task_artifact ''sha256'') (\<lambda>task_hash.
     binding_invalid (\<not> py_eq task_hash (JStr (sha256 raw_task))) ''task hash mismatch'')))))))))))))))"

definition validate_evidence_bindings ::
  "(string \<Rightarrow> string) \<Rightarrow> string \<Rightarrow> jobject \<Rightarrow> jobject \<Rightarrow> jobject \<Rightarrow> run_exc + unit" where
  "validate_evidence_bindings sha256 raw_task handoff validation persisted =
     bindE (forE (check_identity handoff validation persisted) [''task_id'', ''task_contract_sha256'', ''source_revision'']) (\<lambda>_.
     bindE (item validation ''run_id'') (\<lambda>vrun.
     bindE (item persisted ''run_id'') (\<lambda>prun.
     bindE (binding_invalid (\<not> py_eq vrun prun) ''run_id mismatch'') (\<lambda>_.
     bindE (item persisted ''handoff'') (\<lambda>phandoff.
     bindE (binding_invalid (\<not> py_eq phandoff (JDict handoff)) ''handoff payload mismatch'') (\<lambda>_.
     bindE (item persisted ''outcome'') (\<lambda>poutcome.
     bindE (item handoff ''outcome'') (\<lambda>houtcome.
     bindE (binding_invalid (\<not> py_eq poutcome houtcome) ''handoff outcome mismatch'') (\<lambda>_.
     bindE (check_times validation persisted) (\<lambda>_.
     bindE (check_names persisted ''stages'' STAGE_NAMES ''run-result stages are not in canonical execution order'') (\<lambda>_.
     bindE (check_names validation ''checks'' VALIDATION_CHECK_NAMES ''validation checks are not in canonical execution order'') (\<lambda>_.
     check_hashes sha256 raw_task validation persisted))))))))))))"

section \<open>Publication\<close>

definition published_error :: "string \<Rightarrow> string \<Rightarrow> string \<Rightarrow> string option \<Rightarrow> run_exc" where
  "published_error code message evidence_path detail =
     RunnerErr \<lparr>e_code = code, e_message = message,
       e_cleanup = (case detail of Some d \<Rightarrow> if d = '''' then [] else [d] | None \<Rightarrow> []),
       e_path = Some evidence_path\<rparr>"

definition add_cleanup :: "string \<Rightarrow> run_exc \<Rightarrow> run_exc" where
  "add_cleanup msg e = (case e of RunnerErr r \<Rightarrow> RunnerErr (r\<lparr>e_cleanup := e_cleanup r @ [msg]\<rparr>) | PyErr p \<Rightarrow> PyErr p)"

text \<open>
  \<^verbatim>\<open>finally: os.close(fd)\<close>: a failing close is appended to the pending error, or raised when there is none.
\<close>

definition close_after :: "run_env \<Rightarrow> run_exc option \<Rightarrow> unit run" where
  "close_after env pending w =
     (case os_close env w of
        (Inl (PyErr (OSError msg)), w') \<Rightarrow>
          ((case pending of Some e \<Rightarrow> Inl (add_cleanup msg e) | None \<Rightarrow> Inl (PyErr (OSError msg))), w')
      | (_, w') \<Rightarrow> ((case pending of Some e \<Rightarrow> Inl e | None \<Rightarrow> Inr ()), w'))"

text \<open>\<^verbatim>\<open>try: fstat, compare\<close> \<^verbatim>\<open>finally: close\<close>, of a directory just opened.\<close>

definition compare_identity :: "run_env \<Rightarrow> bool \<Rightarrow> run_exc \<Rightarrow> unit run" where
  "compare_identity env other err w =
     (case os_noop env w of
        (Inl e, w1) \<Rightarrow> (case os_close env w1 of (Inl e', w2) \<Rightarrow> (Inl e', w2) | (Inr _, w2) \<Rightarrow> (Inl e, w2))
      | (Inr _, w1) \<Rightarrow> close_after env (if other then Some err else None) w1)"

definition assert_published_parent_identity :: "run_env \<Rightarrow> string \<Rightarrow> unit run" where
  "assert_published_parent_identity env display =
     bindR (os_noop env) (\<lambda>_.
     bindR (tick env) (\<lambda>t.
     case re_parent env t of
       ParentFault msg \<Rightarrow> raiseR (published_error ''OUTPUT_FINALIZATION_UNCONFIRMED''
           ''Evidence was published, but parent-path verification failed'' display (Some msg))
     | ParentGone msg \<Rightarrow> raiseR (published_error ''OUTPUT_LOCATION_CHANGED''
           ''Evidence was published, but its parent path no longer resolves safely'' display (Some msg))
     | seen \<Rightarrow> compare_identity env (seen = OtherParent) (published_error ''OUTPUT_LOCATION_CHANGED''
           ''Evidence was published, but its parent path now identifies another directory'' display None)))"

definition assert_published_target_identity :: "run_env \<Rightarrow> string \<Rightarrow> nat \<Rightarrow> string \<Rightarrow> unit run" where
  "assert_published_target_identity env target published_fd display =
     bindR (os_noop env) (\<lambda>_.
     bindR (catchR (os_open_dir env target) (\<lambda>e. case e of
         PyErr (OSError msg) \<Rightarrow> raiseR (published_error ''OUTPUT_LOCATION_CHANGED''
             ''Evidence was published, but the target path no longer resolves safely'' display (Some msg))
       | _ \<Rightarrow> raiseR e)) (\<lambda>observed.
     compare_identity env (observed \<noteq> published_fd) (published_error ''OUTPUT_LOCATION_CHANGED''
        ''Evidence was published, but the target path now identifies another directory'' display None)))"

definition verify_file :: "run_env \<Rightarrow> nat \<Rightarrow> (string \<Rightarrow> run_exc) \<Rightarrow> string \<times> string \<Rightarrow> unit run" where
  "verify_file env fd mismatch payload =
     bindR (read_file_at env fd (fst payload)) (\<lambda>data. whenR (data \<noteq> snd payload) (mismatch (fst payload)))"

text \<open>The \<^verbatim>\<open>try\<close> body, from the moment the staging directory is open.\<close>

definition publish_opened ::
  "run_env \<Rightarrow> (string \<times> string) list \<Rightarrow> string \<Rightarrow> string \<Rightarrow> string \<Rightarrow> unit run \<Rightarrow> nat \<Rightarrow> unit run" where
  "publish_opened env payloads staging target display pre_publish_guard fd =
     bindR (\<lambda>w. (Inr (), w\<lparr>w_fd := Some fd\<rparr>)) (\<lambda>_.
     bindR (forR (\<lambda>(name, payload). write_file_sync_at env fd name payload) payloads) (\<lambda>_.
     bindR (os_listdir env fd) (\<lambda>names.
     bindR (whenR (set names \<noteq> set EVIDENCE_FILES)
              (RunnerError ''RUN_EVIDENCE_INCOMPLETE'' ''Staged evidence bundle does not contain exactly four files'')) (\<lambda>_.
     bindR (forR (verify_file env fd (\<lambda>name. RunnerError ''RUN_EVIDENCE_WRITE_MISMATCH''
              (''Staged evidence file does not match serialized payload: '' @ name))) payloads) (\<lambda>_.
     bindR (fsync_fd env) (\<lambda>_.
     bindR pre_publish_guard (\<lambda>_.
     bindR (rename_noreplace_at env staging target) (\<lambda>_.
     bindR (\<lambda>w. (Inr (), w\<lparr>w_published := True\<rparr>)) (\<lambda>_.
     bindR (catchR (fsync_fd env) (\<lambda>e. case e of
         PyErr (OSError msg) \<Rightarrow> raiseR (published_error ''OUTPUT_DURABILITY_UNCONFIRMED''
             ''Evidence was atomically published, but parent-directory sync failed'' display (Some msg))
       | _ \<Rightarrow> raiseR e)) (\<lambda>_.
     bindR (assert_published_parent_identity env display) (\<lambda>_.
     bindR (assert_published_target_identity env target fd display) (\<lambda>_.
     forR (verify_file env fd (\<lambda>name. published_error ''RUN_EVIDENCE_WRITE_MISMATCH''
        (''Published evidence file changed before finalization: '' @ name) display None)) payloads))))))))))))"

definition publish_body ::
  "run_env \<Rightarrow> (string \<times> string) list \<Rightarrow> string \<Rightarrow> string \<Rightarrow> string \<Rightarrow> unit run \<Rightarrow> unit run" where
  "publish_body env payloads staging target display pre_publish_guard =
     bindR (os_mkdir env staging) (\<lambda>_.
     bindR (\<lambda>w. (Inr (), w\<lparr>w_created := True\<rparr>)) (\<lambda>_.
     bindR (os_open_dir env staging) (publish_opened env payloads staging target display pre_publish_guard)))"

text \<open>The two \<^verbatim>\<open>except\<close> clauses.\<close>

definition publish_except :: "bool \<Rightarrow> string \<Rightarrow> run_exc \<Rightarrow> run_exc" where
  "publish_except published display e =
     (case e of
        RunnerErr r \<Rightarrow> RunnerErr (if published \<and> e_path r = None then r\<lparr>e_path := Some display\<rparr> else r)
      | PyErr (OSError msg) \<Rightarrow>
          if published then published_error ''OUTPUT_FINALIZATION_UNCONFIRMED''
             ''Evidence was atomically published, but finalization failed'' display (Some msg)
          else RunnerError ''OUTPUT_WRITE_FAILED'' msg
      | PyErr p \<Rightarrow> PyErr p)"

text \<open>\<^verbatim>\<open>_cleanup_staging\<close>: every step is attempted, the messages of the failing ones are collected.\<close>

definition collectR :: "'a run \<Rightarrow> string list run" where
  "collectR m w =
     (case m w of
        (Inl (PyErr (OSError msg)), w') \<Rightarrow> (Inr [msg], w')
      | (Inl e, w') \<Rightarrow> (Inl e, w')
      | (Inr _, w') \<Rightarrow> (Inr [], w'))"

fun unlink_all :: "run_env \<Rightarrow> nat \<Rightarrow> string list \<Rightarrow> string list run" where
  "unlink_all env fd [] = retR []"
| "unlink_all env fd (name # names) =
     bindR (collectR (os_unlink env fd name)) (\<lambda>e. bindR (unlink_all env fd names) (\<lambda>es. retR (e @ es)))"

definition cleanup_staging :: "run_env \<Rightarrow> nat \<Rightarrow> string \<Rightarrow> unit run" where
  "cleanup_staging env fd staging =
     bindR (catchR (bindR (os_listdir env fd) (\<lambda>names. retR (names, []))) (\<lambda>e. case e of
         PyErr (OSError msg) \<Rightarrow> retR ([], [msg]) | _ \<Rightarrow> raiseR e)) (\<lambda>(names, e1).
     bindR (unlink_all env fd names) (\<lambda>e2.
     bindR (collectR (os_close env)) (\<lambda>e3.
     bindR (collectR (os_rmdir env staging)) (\<lambda>e4.
     let errors = e1 @ e2 @ e3 @ e4 in
     if errors \<noteq> [] then raiseR (PyErr (OSError (join ''; '' errors))) else retR ()))))"

text \<open>
  One step of the \<^verbatim>\<open>finally\<close> clause: an \<^verbatim>\<open>OSError\<close> joins the pending \<^verbatim>\<open>RunnerError\<close>; without one it is
  raised as the given error, and the rest of the clause is skipped.
\<close>

definition finally_step :: "unit run \<Rightarrow> (string \<Rightarrow> run_exc) \<Rightarrow> run_exc + unit \<Rightarrow> run_world \<Rightarrow> bool \<times> (run_exc + unit) \<times> run_world" where
  "finally_step m raised r w =
     (case m w of
        (Inl (PyErr (OSError msg)), w') \<Rightarrow>
          (case r of
             Inl (RunnerErr e) \<Rightarrow> (True, Inl (add_cleanup msg (RunnerErr e)), w')
           | _ \<Rightarrow> (False, Inl (raised msg), w'))
      | (Inl e, w') \<Rightarrow> (False, Inl e, w')
      | (Inr _, w') \<Rightarrow> (True, r, w'))"

definition publish_finally :: "run_env \<Rightarrow> string \<Rightarrow> string \<Rightarrow> run_exc + unit \<Rightarrow> run_world \<Rightarrow> (run_exc + unit) \<times> run_world" where
  "publish_finally env staging display r w =
     (let unconfirmed = (\<lambda>msg. published_error ''OUTPUT_FINALIZATION_UNCONFIRMED''
            ''Evidence was atomically published, but finalization failed'' display (Some msg));
          (go1, r1, w1) =
            (if \<not> w_published w \<and> w_created w
             then finally_step (case w_fd w of Some fd \<Rightarrow> cleanup_staging env fd staging | None \<Rightarrow> os_rmdir env staging)
                    (RunnerError ''OUTPUT_CLEANUP_FAILED'') r w
             else (True, r, w))
      in if \<not> go1 then (r1, w1) else
         (let (go2, r2, w2) =
            (if w_published w1 \<and> w_fd w1 \<noteq> None then finally_step (os_close env) unconfirmed r1 w1 else (True, r1, w1))
          in if \<not> go2 then (r2, w2) else
             (let (go3, r3, w3) = finally_step (os_close env)
                    (if w_published w2 then unconfirmed else RunnerError ''OUTPUT_CLEANUP_FAILED'') r2 w2
              in (r3, w3))))"

definition publish_staged ::
  "run_env \<Rightarrow> (string \<times> string) list \<Rightarrow> string \<Rightarrow> string \<Rightarrow> string \<Rightarrow> unit run \<Rightarrow> unit run" where
  "publish_staged env payloads staging target display pre_publish_guard w =
     (let (r, w1) = publish_body env payloads staging target display pre_publish_guard
            (w\<lparr>w_created := False, w_fd := None, w_published := False\<rparr>)
      in publish_finally env staging display
           (case r of Inl e \<Rightarrow> Inl (publish_except (w_published w1) display e) | Inr u \<Rightarrow> Inr u) w1)"

section \<open>The bundle\<close>

definition load_evidence_schema :: "agent_env \<Rightarrow> string \<Rightarrow> run_exc + jobject" where
  "load_evidence_schema env name =
     (case load_json_strict env (fs_root (ae_fs env) @ [''contracts'', ''agent'', name]) of
        Inr (JDict d) \<Rightarrow> Inr d
      | Inr _ \<Rightarrow> Inl (RunnerError ''CONTRACT_SCHEMA_INVALID'' (name @ '' must be an object''))
      | Inl (OSError msg) \<Rightarrow> Inl (RunnerError ''CONTRACT_SCHEMA_INVALID'' msg)
      | Inl (JSONDecodeError msg) \<Rightarrow> Inl (RunnerError ''CONTRACT_SCHEMA_INVALID'' msg)
      | Inl (DuplicateKeyError msg) \<Rightarrow> Inl (RunnerError ''CONTRACT_SCHEMA_INVALID'' msg)
      | Inl e \<Rightarrow> Inl (PyErr e))"

definition validate_evidence_payload :: "agent_env \<Rightarrow> jobject \<Rightarrow> jobject \<Rightarrow> string \<Rightarrow> run_exc + unit" where
  "validate_evidence_payload env payload schema label =
     (case validate_instance (ae_re env) (ae_stack env) (JDict payload) (JDict schema) [] ''$'' of
        Inl (UnsupportedSchemaError msg) \<Rightarrow> Inl (RunnerError ''CONTRACT_SCHEMA_UNSUPPORTED'' msg)
      | Inl e \<Rightarrow> Inl (PyErr e)
      | Inr [] \<Rightarrow> Inr ()
      | Inr (first # _) \<Rightarrow> Inl (RunnerError ''RUN_EVIDENCE_SCHEMA_INVALID''
            (label @ '' failed schema validation at '' @ v_path first @ '': '' @ v_message first)))"

definition artifact :: "string \<Rightarrow> string \<Rightarrow> json" where
  "artifact p sha = JDict [(''path'', JStr p), (''sha256'', JStr sha)]"

text \<open>\<^verbatim>\<open>{**run_result, ...}\<close>: later keys replace earlier ones in place.\<close>

definition dict_merge :: "jobject \<Rightarrow> jobject \<Rightarrow> jobject" where
  "dict_merge d e = fold (\<lambda>(k, v) acc. dict_set k v acc) e d"

definition persisted_result ::
  "(string \<Rightarrow> string) \<Rightarrow> jobject \<Rightarrow> string \<Rightarrow> json \<Rightarrow> string \<Rightarrow> string \<Rightarrow> string \<Rightarrow> string \<Rightarrow> string \<Rightarrow> string \<Rightarrow> string \<Rightarrow> jobject" where
  "persisted_result sha256 run_result run_id outcome started_at completed_at state_sha revision raw_task handoff_bytes validation_bytes =
     dict_merge run_result
       [(''schema_version'', JStr ''1.0''), (''run_id'', JStr run_id), (''outcome'', outcome),
        (''started_at'', JStr started_at), (''completed_at'', JStr completed_at),
        (''repository_state_sha256'', JStr state_sha),
        (''repository_state'', JDict [(''source_revision'', JStr revision), (''git_visible_sha256'', JStr state_sha)]),
        (''artifacts'', JDict [(''task'', artifact ''task.yml'' (sha256 raw_task)),
           (''handoff'', artifact ''handoff.json'' (sha256 handoff_bytes)),
           (''validation'', artifact ''validation.json'' (sha256 validation_bytes)),
           (''run_result'', JDict [(''path'', JStr ''run-result.json'')])]),
        (''residual_gaps'', JList (map JStr RESIDUAL_GAPS))]"

record run_bundle =
  b_run_id :: string
  b_raw_task :: string
  b_task_id :: json
  b_task_digest :: string
  b_source_revision :: string
  b_state_sha256 :: string
  b_started_at :: string
  b_completed_at :: string
  b_run_result :: jobject
  b_handoff :: jobject

text \<open>The four files, after the schema checks and the binding checks.\<close>

definition staged_payloads :: "agent_env \<Rightarrow> run_bundle \<Rightarrow> run_exc + (string \<times> string) list" where
  "staged_payloads env b =
     (let sha256 = ae_sha256 env;
          handoff_bytes = json_bytes (JDict (b_handoff b));
          validation = validation_payload (b_run_id b) (b_task_id b) (b_task_digest b) (b_source_revision b)
                         (b_state_sha256 b) (b_completed_at b) in
      bindE (load_evidence_schema env ''validation.schema.json'') (\<lambda>validation_schema.
      bindE (validate_evidence_payload env validation validation_schema ''validation.json'') (\<lambda>_.
      let validation_bytes = json_bytes (JDict validation) in
      bindE (item (b_handoff b) ''outcome'') (\<lambda>outcome.
      let persisted = persisted_result sha256 (b_run_result b) (b_run_id b) outcome (b_started_at b) (b_completed_at b)
                        (b_state_sha256 b) (b_source_revision b) (b_raw_task b) handoff_bytes validation_bytes in
      bindE (load_evidence_schema env ''run-result.schema.json'') (\<lambda>result_schema.
      bindE (validate_evidence_payload env persisted result_schema ''run-result.json'') (\<lambda>_.
      bindE (validate_evidence_bindings sha256 (b_raw_task b) (b_handoff b) validation persisted) (\<lambda>_.
      Inr [(''task.yml'', b_raw_task b), (''handoff.json'', handoff_bytes), (''validation.json'', validation_bytes),
           (''run-result.json'', json_bytes (JDict persisted))])))))))"

text \<open>\<^verbatim>\<open>_acquire_default_evidence_target\<close> and \<^verbatim>\<open>_acquire_custom_evidence_target\<close>: name of the target and displayed path.\<close>

definition acquire_default_evidence_target :: "run_env \<Rightarrow> string \<Rightarrow> (string \<times> string) run" where
  "acquire_default_evidence_target env run_id =
     bindR (whenR (re_fullmatch RUN_ID_RE run_id = None)
        (RunnerError ''RUN_ID_INVALID'' ''Generated run_id has an invalid format'')) (\<lambda>_.
     bindR (os_lookup env (re_resolve env) (fs_root (ae_fs (re_agent env)))) (\<lambda>repo.
     bindR (open_directory_no_symlinks env repo) (\<lambda>_.
     bindR (closing_on_error env 1 (ensure_child_directory env repo ''artifacts'')) (\<lambda>_.
     bindR (closing_on_error env 2 (ensure_child_directory env (repo @ [''artifacts'']) ''agent-runs'')) (\<lambda>_.
     bindR (closing_on_error env 3 (bindR (fsync_fd env) (\<lambda>_. fsync_fd env))) (\<lambda>_.
     bindR (forR (\<lambda>_. os_close env) [0..<2::nat]) (\<lambda>_.
     retR (run_id, ''artifacts/agent-runs/'' @ run_id))))))))"

definition acquire_custom_evidence_target :: "run_env \<Rightarrow> string \<Rightarrow> (string \<times> string) run" where
  "acquire_custom_evidence_target env output_dir =
     bindR (validate_output_dir env output_dir) (\<lambda>target.
     let parent = butlast target in
     bindR (os_lookup env (re_ident env) parent) (\<lambda>expected.
     bindR (open_directory_no_symlinks env parent) (\<lambda>opened.
     bindR (os_noop env) (\<lambda>_.
     if expected \<noteq> opened then
       bindR (os_close env) (\<lambda>_. raiseR (RunnerError ''OUTPUT_DIR_INVALID'' ''Output directory parent changed during validation''))
     else retR (if target = [] then [] else last target, output_dir)))))"

definition staging_name :: "run_env \<Rightarrow> nat \<Rightarrow> string" where
  "staging_name env t = ''.agent-run-staging-'' @ re_token env t"

definition publish_evidence_bundle :: "run_env \<Rightarrow> run_bundle \<Rightarrow> string option \<Rightarrow> unit run \<Rightarrow> string run" where
  "publish_evidence_bundle env b output_dir pre_publish_guard =
     bindR (liftR (staged_payloads (re_agent env) b)) (\<lambda>payloads.
     bindR (case output_dir of
              None \<Rightarrow> acquire_default_evidence_target env (b_run_id b)
            | Some out \<Rightarrow> acquire_custom_evidence_target env out) (\<lambda>(target, display).
     bindR (bindR (tick env) (\<lambda>t. retR (staging_name env t))) (\<lambda>staging.
     bindR (publish_staged env payloads staging target display pre_publish_guard) (\<lambda>_.
     retR display))))"

section \<open>The binding rules\<close>

text \<open>\<open>agree d e k\<close>: both objects have the key, with equal values.\<close>

definition agree :: "jobject \<Rightarrow> jobject \<Rightarrow> string \<Rightarrow> bool" where
  "agree d e k \<longleftrightarrow> (\<exists>x y. map_of d k = Some x \<and> map_of e k = Some y \<and> py_eq y x)"

definition time_of :: "jobject \<Rightarrow> string \<Rightarrow> timestamp option" where
  "time_of d k = (case map_of d k of Some (JStr s) \<Rightarrow> strptime evidence_time_re s | _ \<Rightarrow> None)"

definition real_run_id :: "jobject \<Rightarrow> bool" where
  "real_run_id d \<longleftrightarrow> (\<exists>r. map_of d ''run_id'' = Some (JStr r) \<and> re_fullmatch RUN_ID_RE r \<noteq> None \<and>
     strptime run_id_time_re (take 16 (drop 4 r)) \<noteq> None)"

definition names_are :: "jobject \<Rightarrow> string \<Rightarrow> string list \<Rightarrow> bool" where
  "names_are d k names \<longleftrightarrow> (\<exists>es. map_of d k = Some (JList (map JDict es)) \<and> map (\<lambda>e. sget e ''name'') es = map JStr names)"

definition times_ok :: "jobject \<Rightarrow> jobject \<Rightarrow> bool" where
  "times_ok validation persisted \<longleftrightarrow> real_run_id persisted \<and> time_of validation ''created_at'' \<noteq> None \<and>
     (\<exists>s c. time_of persisted ''started_at'' = Some s \<and> time_of persisted ''completed_at'' = Some c \<and> s \<le> c)"

definition hashes_ok :: "(string \<Rightarrow> string) \<Rightarrow> string \<Rightarrow> jobject \<Rightarrow> jobject \<Rightarrow> bool" where
  "hashes_ok sha256 raw_task validation persisted \<longleftrightarrow>
     (\<exists>x y. map_of validation ''created_at'' = Some x \<and> map_of persisted ''completed_at'' = Some y \<and> py_eq x y) \<and>
     agree persisted validation ''repository_state_sha256'' \<and>
     (\<exists>state h g. map_of persisted ''repository_state'' = Some (JDict state) \<and>
        map_of persisted ''repository_state_sha256'' = Some h \<and> map_of state ''git_visible_sha256'' = Some g \<and> py_eq g h) \<and>
     (\<exists>state r g. map_of persisted ''repository_state'' = Some (JDict state) \<and>
        map_of persisted ''source_revision'' = Some r \<and> map_of state ''source_revision'' = Some g \<and> py_eq g r) \<and>
     (\<exists>artifacts task h. map_of persisted ''artifacts'' = Some (JDict artifacts) \<and> map_of artifacts ''task'' = Some (JDict task) \<and>
        map_of task ''sha256'' = Some h \<and> py_eq h (JStr (sha256 raw_task)))"

definition bindings_ok :: "(string \<Rightarrow> string) \<Rightarrow> string \<Rightarrow> jobject \<Rightarrow> jobject \<Rightarrow> jobject \<Rightarrow> bool" where
  "bindings_ok sha256 raw_task handoff validation persisted \<longleftrightarrow>
     list_all (\<lambda>k. agree persisted validation k \<and> agree persisted handoff k) [''task_id'', ''task_contract_sha256'', ''source_revision''] \<and>
     agree persisted validation ''run_id'' \<and>
     (\<exists>h. map_of persisted ''handoff'' = Some h \<and> py_eq h (JDict handoff)) \<and>
     (\<exists>x y. map_of persisted ''outcome'' = Some x \<and> map_of handoff ''outcome'' = Some y \<and> py_eq x y) \<and>
     times_ok validation persisted \<and>
     names_are persisted ''stages'' STAGE_NAMES \<and> names_are validation ''checks'' VALIDATION_CHECK_NAMES \<and>
     hashes_ok sha256 raw_task validation persisted"

lemma item_Inr [simp]: "item d k = Inr v \<longleftrightarrow> map_of d k = Some v"
  by (simp add: item_def split: option.splits)

lemma sub_item_Inr [simp]: "sub_item v k = Inr x \<longleftrightarrow> (\<exists>d. v = JDict d \<and> map_of d k = Some x)"
  by (auto simp: sub_item_def split: json.splits)

lemma binding_invalid_Inr [simp]: "binding_invalid c m = Inr u \<longleftrightarrow> \<not> c"
  by (simp add: binding_invalid_def)

lemma check_identity_iff: "check_identity h v p k = Inr u \<longleftrightarrow> agree p v k \<and> agree p h k"
  by (auto simp: check_identity_def agree_def bindE_eq_Inr)

lemma parse_time_Inr: "bindE (item d k) (\<lambda>v. parse_evidence_timestamp v l) = Inr t \<longleftrightarrow> time_of d k = Some t"
  by (auto simp: bindE_def item_def parse_evidence_timestamp_def time_of_def split: json.split option.split)

lemma run_id_Inr: "bindE (item d ''run_id'') validate_run_id_timestamp = Inr u \<longleftrightarrow> real_run_id d"
  by (auto simp: bindE_def item_def validate_run_id_timestamp_def real_run_id_def split: json.split option.split)

lemma check_times_iff: "check_times v p = Inr u \<longleftrightarrow> times_ok v p"
  by (auto simp: check_times_def times_ok_def bindE_eq_Inr [of "bindE _ _"] run_id_Inr parse_time_Inr not_less)

lemma mapE_dict_Inr:
  "mapE (\<lambda>x. case x of JDict d \<Rightarrow> Inr (f d) | _ \<Rightarrow> Inl (PyErr AttributeError)) xs = Inr ys \<longleftrightarrow>
     (\<exists>es. xs = map JDict es \<and> ys = map f es)"
proof (induction xs arbitrary: ys)
  case (Cons x xs)
  then show ?case
    by (cases x) (auto simp: bindE_eq_Inr Cons_eq_map_conv)
qed auto

lemma check_names_iff: "check_names d k names msg = Inr u \<longleftrightarrow> names_are d k names"
proof (cases "map_of d k")
  case (Some v)
  then show ?thesis
    by (cases v) (auto simp: item_def check_names_def entry_names_def names_are_def bindE_eq_Inr [of "mapE _ _"] mapE_dict_Inr)
qed (simp add: item_def names_are_def check_names_def)

lemma item_bind: "bindE (item d k) f = Inr v \<longleftrightarrow> (\<exists>x. map_of d k = Some x \<and> f x = Inr v)"
  by (simp add: bindE_eq_Inr)

lemma then_bind: "bindE (m :: 'e + unit) (\<lambda>_. k) = Inr v \<longleftrightarrow> m = Inr () \<and> k = Inr v"
  by (simp add: bindE_eq_Inr)

lemma check_hashes_iff: "check_hashes sha raw v p = Inr u \<longleftrightarrow> hashes_ok sha raw v p"
  unfolding check_hashes_def hashes_ok_def agree_def bindE_eq_Inr item_Inr sub_item_Inr binding_invalid_Inr
  by (intro iffI; elim exE conjE) (force | (intro exI conjI; (assumption | force)))+

text \<open>
  C15: \<^verbatim>\<open>_validate_evidence_bindings\<close> accepts four files exactly when they agree: identity, run id and
  outcome are the same in all of them, the persisted result contains the handoff, the times are real and
  in order, stages and checks are the canonical ones in order, and the fingerprints are those of the
  repository state and of the task file.
\<close>

theorem bindings_accepted_iff:
  "validate_evidence_bindings sha256 raw_task handoff validation persisted = Inr () \<longleftrightarrow>
     bindings_ok sha256 raw_task handoff validation persisted"
  unfolding validate_evidence_bindings_def bindings_ok_def agree_def [of _ _ "''run_id''"]
  by (simp add: then_bind item_bind check_identity_iff check_times_iff check_names_iff check_hashes_iff) blast

end
