(* ===== verification/Run_Logic.thy ===== *)
theory Run_Logic
  imports Run_World
begin

text \<open>
  A small program logic for the runs of \<open>Run_World\<close>: triples with a postcondition for returning and one for
  raising, and runs that only observe.
\<close>

section \<open>Reasoning about runs\<close>

text \<open>
  \<open>hoareR P m Q E\<close>: from a world with \<open>P\<close>, \<open>m\<close> returns in a world with \<open>Q\<close> or raises in one with \<open>E\<close>.
  \<open>quiet_run\<close>: only time passes. \<open>timeless\<close>: a property that time does not change.
\<close>

definition hoareR :: "(run_world \<Rightarrow> bool) \<Rightarrow> 'a run \<Rightarrow> ('a \<Rightarrow> run_world \<Rightarrow> bool) \<Rightarrow> (run_exc \<Rightarrow> run_world \<Rightarrow> bool) \<Rightarrow> bool" where
  "hoareR P m Q E \<longleftrightarrow> (\<forall>w. P w \<longrightarrow> (case m w of (Inr a, w') \<Rightarrow> Q a w' | (Inl e, w') \<Rightarrow> E e w'))"

definition timeless :: "(run_world \<Rightarrow> bool) \<Rightarrow> bool" where
  "timeless P \<longleftrightarrow> (\<forall>w t. P (w\<lparr>w_time := t\<rparr>) = P w)"

definition quiet_run :: "'a run \<Rightarrow> bool" where
  "quiet_run m \<longleftrightarrow> (\<forall>w. \<exists>t. snd (m w) = w\<lparr>w_time := t\<rparr>)"

definition quiet_env :: "run_env \<Rightarrow> bool" where
  "quiet_env env \<longleftrightarrow> (\<forall>t s. re_disturb env t s = s)"

named_theorems quiet \<open>runs that only observe\<close>

lemma hoare_bind:
  "hoareR P m R E \<Longrightarrow> (\<And>a. hoareR (R a) (f a) Q E) \<Longrightarrow> hoareR P (bindR m f) Q E"
  unfolding hoareR_def bindR_def by (fastforce split: prod.splits sum.splits)

lemma hoare_weaken: "hoareR P m Q E \<Longrightarrow> (\<And>w. P' w \<Longrightarrow> P w) \<Longrightarrow> (\<And>a w. Q a w \<Longrightarrow> Q' a w) \<Longrightarrow>
   (\<And>e w. E e w \<Longrightarrow> E' e w) \<Longrightarrow> hoareR P' m Q' E'"
  unfolding hoareR_def by (fastforce split: prod.splits sum.splits)

lemma hoare_quiet:
  assumes "quiet_run m" "timeless P" "\<And>e w. P w \<Longrightarrow> E e w"
  shows "hoareR P m (\<lambda>_. P) E"
proof -
  have "P (snd (m w)) = P w" for w
    using assms(1,2) unfolding quiet_run_def timeless_def by metis
  then show ?thesis
    using assms(3) unfolding hoareR_def by (auto split: prod.splits sum.splits) (metis snd_conv)+
qed

lemma quiet_retR [quiet]: "quiet_run (retR a)"
  unfolding quiet_run_def retR_def by (metis run_world.surjective run_world.update_convs(1) snd_conv)

lemma quiet_raiseR [quiet]: "quiet_run (raiseR e)"
  unfolding quiet_run_def raiseR_def by (metis run_world.surjective run_world.update_convs(1) snd_conv)

lemma quiet_fun: "(\<And>w. snd (m w) = w) \<Longrightarrow> quiet_run m"
  unfolding quiet_run_def by (metis run_world.surjective run_world.update_convs(1))

lemma quiet_bindR [quiet]: "quiet_run m \<Longrightarrow> (\<And>a. quiet_run (f a)) \<Longrightarrow> quiet_run (bindR m f)"
  unfolding quiet_run_def bindR_def
  by (auto split: prod.splits sum.splits) (metis run_world.update_convs(1) run_world.surjective snd_conv)+

lemma quiet_catchR [quiet]: "quiet_run m \<Longrightarrow> (\<And>e. quiet_run (h e)) \<Longrightarrow> quiet_run (catchR m h)"
  unfolding quiet_run_def catchR_def
  by (auto split: prod.splits sum.splits) (metis run_world.update_convs(1) run_world.surjective snd_conv)+

lemma quiet_liftR [quiet]: "quiet_run (liftR r)"
  by (rule quiet_fun) (simp add: liftR_def)

lemma quiet_whenR [quiet]: "quiet_run (whenR c e)"
  by (rule quiet_fun) (simp add: whenR_def)

lemma quiet_forR [quiet]: "(\<And>x. quiet_run (f x)) \<Longrightarrow> quiet_run (forR f xs)"
  by (induction xs) (auto intro: quiet)

lemma quiet_tick [quiet]: "quiet_env env \<Longrightarrow> quiet_run (tick env)"
  unfolding quiet_run_def quiet_env_def tick_def by auto

lemma quiet_syscall [quiet]: "quiet_env env \<Longrightarrow> quiet_run m \<Longrightarrow> quiet_run (syscall env m)"
  unfolding syscall_def by (intro quiet_bindR quiet_tick) (auto intro: quiet split: option.splits)

lemma quiet_observations [quiet]:
  "quiet_env env \<Longrightarrow> quiet_run (os_noop env)"
  "quiet_env env \<Longrightarrow> quiet_run (os_listdir env ino)"
  "quiet_env env \<Longrightarrow> quiet_run (read_file_at env ino name)"
  "quiet_env env \<Longrightarrow> quiet_run (os_open_dir env name)"
  unfolding os_noop_def os_listdir_def read_file_at_def os_open_dir_def
  by (auto intro!: quiet_syscall intro: quiet_fun quiet_retR split: option.splits)

lemma hoare_syscall:
  assumes "quiet_env env" "timeless P" "hoareR P m Q E" "\<And>msg w. P w \<Longrightarrow> E (PyErr (OSError msg)) w"
  shows "hoareR P (syscall env m) Q E"
  unfolding syscall_def
proof (rule hoare_bind [where R = "\<lambda>_. P"])
  show "hoareR P (tick env) (\<lambda>_. P) E"
    using assms(1,2) unfolding hoareR_def tick_def quiet_env_def timeless_def by simp
  show "hoareR P (case re_fault env t of Some msg \<Rightarrow> raiseR (PyErr (OSError msg)) | None \<Rightarrow> m) Q E" for t
    using assms(3,4) by (auto simp: hoareR_def raiseR_def split: option.splits)
qed

lemma hoare_fun: "(\<And>w. P w \<Longrightarrow> case m w of (Inr a, w') \<Rightarrow> Q a w' | (Inl e, w') \<Rightarrow> E e w') \<Longrightarrow> hoareR P m Q E"
  by (simp add: hoareR_def)

lemma hoare_for:
  assumes "\<And>x. x \<in> set xs \<Longrightarrow> hoareR P (f x) (\<lambda>_. P) E"
  shows "hoareR P (forR f xs) (\<lambda>_. P) E"
  using assms
proof (induction xs)
  case Nil
  then show ?case by (simp add: hoareR_def retR_def)
next
  case (Cons x xs)
  then show ?case by (auto intro: hoare_bind)
qed

lemma hoare_conj: "hoareR P m Q E \<Longrightarrow> hoareR P m R E \<Longrightarrow> hoareR P m (\<lambda>a w. Q a w \<and> R a w) E"
  by (simp add: hoareR_def split: prod.splits sum.splits)

text \<open>A loop of observations establishes what each of them checks.\<close>

lemma hoare_for_checks:
  assumes "\<And>x. quiet_run (f x)" "\<And>x. hoareR P (f x) (\<lambda>_. A x) E" "\<And>x. timeless (A x)" "timeless P"
    "\<And>e w. P w \<Longrightarrow> E e w"
  shows "hoareR P (forR f xs) (\<lambda>_ w. P w \<and> (\<forall>x \<in> set xs. A x w)) E"
proof (induction xs)
  case Nil
  then show ?case by (simp add: hoareR_def retR_def)
next
  case (Cons x xs)
  have step: "hoareR P (f x) (\<lambda>_ w. P w \<and> A x w) E"
    by (rule hoare_conj [OF hoare_quiet [OF assms(1,4,5)] assms(2)])
  have "hoareR (\<lambda>w. P w \<and> A x w) (forR f xs) (\<lambda>_ w. P w \<and> A x w) E"
    by (rule hoare_quiet) (use assms in \<open>auto simp: timeless_def intro: quiet_forR\<close>)
  from hoare_conj [OF this hoare_weaken [OF Cons.IH]]
  have "hoareR (\<lambda>w. P w \<and> A x w) (forR f xs) (\<lambda>_ w. P w \<and> (\<forall>y \<in> set (x # xs). A y w)) E"
    by (rule hoare_weaken) auto
  then show ?case using hoare_bind [OF step] by simp
qed

lemma hoareD: "hoareR P m Q E \<Longrightarrow> P w \<Longrightarrow> m w = (x, w') \<Longrightarrow> case x of Inr a \<Rightarrow> Q a w' | Inl e \<Rightarrow> E e w'"
  by (auto simp: hoareR_def split: sum.splits)

lemma hoare_catch: "hoareR P m Q E \<Longrightarrow> (\<And>e. hoareR (E e) (h e) Q E') \<Longrightarrow> hoareR P (catchR m h) Q E'"
  unfolding hoareR_def catchR_def by (fastforce split: prod.splits sum.splits)

lemma quiet_look [quiet]: "quiet_env env \<Longrightarrow> quiet_run (look env probe p)"
  unfolding look_def by (intro quiet)

lemma quiet_os_lookup [quiet]: "quiet_env env \<Longrightarrow> quiet_run (os_lookup env probe p)"
  unfolding os_lookup_def by (intro quiet_bindR quiet_tick) (auto intro: quiet split: sum.splits)

lemma quiet_if [quiet]: "quiet_run a \<Longrightarrow> quiet_run b \<Longrightarrow> quiet_run (if c then a else b)"
  by simp

lemma quiet_case_exc [quiet]:
  "(\<And>m. quiet_run (f m)) \<Longrightarrow> quiet_run (g :: 'a run) \<Longrightarrow> quiet_run (case e of PyErr (OSError m) \<Rightarrow> f m | _ \<Rightarrow> g)"
  by (auto split: run_exc.splits py_error.splits)

end
