(* ===== verification/Publish_Atomic.thy ===== *)
theory Publish_Atomic
  imports Evidence_Bundle Run_Logic
begin

text \<open>
  The publication protocol of \<open>Evidence_Bundle\<close>, against every pattern of failing system calls.

  \<open>publish_atomic\<close>: the target holds nothing or exactly the four files; \<open>publish_live\<close>: without failures the
  bundle is published; \<open>validate_output_dir_safe\<close>: where a custom output directory can be. The directory is
  assumed to be changed by no other process (\<open>quiet_env\<close>).
\<close>

section \<open>Atomicity of the publication\<close>

text \<open>
  The states of a publication into the directory \<open>N\<close>: nothing touched, staging directory present, and target in
  place. \<open>names_of\<close> is the directory.
\<close>

abbreviation names_of :: "run_world \<Rightarrow> (string, nat) dict" where
  "names_of w \<equiv> d_names (w_fs w)"

definition untouched :: "(string, nat) dict \<Rightarrow> run_world \<Rightarrow> bool" where
  "untouched N w \<longleftrightarrow> names_of w = N \<and> \<not> w_created w \<and> \<not> w_published w"

definition staged :: "(string, nat) dict \<Rightarrow> string \<Rightarrow> nat \<Rightarrow> run_world \<Rightarrow> bool" where
  "staged N s fd w \<longleftrightarrow> names_of w = dict_set s fd N \<and> w_created w \<and> \<not> w_published w"

definition holds_files :: "nat \<Rightarrow> (string \<times> string) list \<Rightarrow> run_world \<Rightarrow> bool" where
  "holds_files fd F w \<longleftrightarrow> map_of (files_of w fd) = map_of F"

definition in_place :: "(string, nat) dict \<Rightarrow> string \<Rightarrow> (string \<times> string) list \<Rightarrow> nat \<Rightarrow> run_world \<Rightarrow> bool" where
  "in_place N t F fd w \<longleftrightarrow>
     t \<notin> set (keys_of N) \<and> names_of w = dict_set t fd N \<and> holds_files fd F w \<and> w_published w"

definition withdrawn :: "(string, nat) dict \<Rightarrow> string \<Rightarrow> run_world \<Rightarrow> bool" where
  "withdrawn N s w \<longleftrightarrow> untouched N w \<or> (\<exists>fd. staged N s fd w)"

definition fate :: "(string, nat) dict \<Rightarrow> string \<Rightarrow> string \<Rightarrow> (string \<times> string) list \<Rightarrow> run_world \<Rightarrow> bool" where
  "fate N s t F w \<longleftrightarrow> withdrawn N s w \<or> (\<exists>fd. in_place N t F fd w)"

lemmas fate_defs = untouched_def staged_def holds_files_def in_place_def withdrawn_def fate_def files_of_def

lemma timeless_fates [intro]:
  "timeless (untouched N)" "timeless (staged N s fd)" "timeless (in_place N t F fd)"
  "timeless (\<lambda>w. staged N s fd w \<and> holds_files fd F w)" "timeless (withdrawn N s)" "timeless (fate N s t F)"
  by (simp_all add: timeless_def fate_defs)

lemma fateI:
  "untouched N w \<Longrightarrow> fate N s t F w" "staged N s fd w \<Longrightarrow> fate N s t F w" "in_place N t F fd w \<Longrightarrow> fate N s t F w"
  by (auto simp: fate_def withdrawn_def)

definition made :: "(string, nat) dict \<Rightarrow> string \<Rightarrow> run_world \<Rightarrow> bool" where
  "made N s w \<longleftrightarrow> (\<exists>fd. names_of w = dict_set s fd N) \<and> \<not> w_published w"

lemma hoare_mkdir: "quiet_env env \<Longrightarrow> hoareR (untouched N) (os_mkdir env s) (\<lambda>_. made N s) (\<lambda>_. fate N s t F)"
  unfolding os_mkdir_def
  by (rule hoare_syscall) (auto intro: fateI simp: hoareR_def Let_def untouched_def made_def)

lemma hoare_created:
  "hoareR (made N s) (\<lambda>w. (Inr (), w\<lparr>w_created := True\<rparr>)) (\<lambda>_ w. \<exists>fd. staged N s fd w) (\<lambda>_. fate N s t F)"
  by (auto simp: hoareR_def staged_def made_def)

lemma hoare_open_staging:
  "quiet_env env \<Longrightarrow> hoareR (\<lambda>w. \<exists>fd. staged N s fd w) (os_open_dir env s) (staged N s) (\<lambda>_. fate N s t F)"
  unfolding os_open_dir_def
  by (rule hoare_syscall)
    (auto simp: hoareR_def timeless_def fate_def withdrawn_def staged_def update_conv split: option.splits)

lemma quietly:
  assumes "quiet_run m" "\<And>w. P w \<Longrightarrow> fate N s t F w" "timeless P"
  shows "hoareR P m (\<lambda>_. P) (\<lambda>_. fate N s t F)"
  using assms by (intro hoare_quiet)

lemma staged_put_file [simp]: "staged N s fd (put_file ino name data w) = staged N s fd w"
  by (simp add: staged_def put_file_def)

lemma files_of_put_file [simp]: "files_of (put_file ino name data w) ino = dict_set name data (files_of w ino)"
  by (simp add: put_file_def files_of_def update_conv)

lemma hoare_write_file:
  assumes "quiet_env env"
  shows "hoareR (staged N s fd) (write_file_sync_at env fd name data) (\<lambda>_. staged N s fd) (\<lambda>_. fate N s t F)"
  unfolding write_file_sync_at_def
proof (intro hoare_bind)
  show "hoareR (staged N s fd)
     (syscall env (\<lambda>w. if name \<in> set (keys_of (files_of w fd)) then (Inl (PyErr (OSError ''File exists'')), w)
        else (Inr (), put_file fd name [] w))) (\<lambda>_. staged N s fd) (\<lambda>_. fate N s t F)"
    by (rule hoare_syscall [OF assms]) (auto simp: hoareR_def intro: fateI)
  show "hoareR (staged N s fd) (tick env) (\<lambda>_. staged N s fd) (\<lambda>_. fate N s t F)" for u :: unit
    by (rule quietly) (auto intro: fateI quiet assms)
qed (auto simp: hoareR_def intro: fateI split: option.splits)


definition reads :: "nat \<Rightarrow> string \<times> string \<Rightarrow> run_world \<Rightarrow> bool" where
  "reads fd payload w \<longleftrightarrow> map_of (files_of w fd) (fst payload) = Some (snd payload)"

definition listed :: "(string, nat) dict \<Rightarrow> string \<Rightarrow> nat \<Rightarrow> string list \<Rightarrow> run_world \<Rightarrow> bool" where
  "listed N s fd names w \<longleftrightarrow> staged N s fd w \<and> set names = set (keys_of (files_of w fd))"

lemma timeless_reads [intro]: "timeless (reads fd payload)" "timeless (listed N s fd names)"
  by (simp_all add: timeless_def reads_def listed_def fate_defs)

lemma quiet_verify_file [quiet]: "quiet_env env \<Longrightarrow> quiet_run (verify_file env fd mm p)"
  unfolding verify_file_def by (intro quiet)

lemma hoare_listdir:
  "quiet_env env \<Longrightarrow> hoareR (staged N s fd) (os_listdir env fd) (listed N s fd) (\<lambda>_. fate N s t F)"
  unfolding os_listdir_def
  by (rule hoare_syscall) (auto simp: hoareR_def listed_def intro: fateI)

lemma hoare_verify_file:
  assumes "quiet_env env" "timeless P" "\<And>w. P w \<Longrightarrow> fate N s t F w"
  shows "hoareR P (verify_file env fd mm p) (\<lambda>_. reads fd p) (\<lambda>_. fate N s t F)"
  unfolding verify_file_def
proof (rule hoare_bind)
  show "hoareR P (read_file_at env fd (fst p)) (\<lambda>data w. P w \<and> map_of (files_of w fd) (fst p) = Some data) (\<lambda>_. fate N s t F)"
    unfolding read_file_at_def
    by (rule hoare_syscall [OF assms(1,2)]) (auto simp: hoareR_def intro: assms(3) split: option.splits)
qed (auto simp: hoareR_def whenR_def reads_def intro: assms(3))

lemma holds_filesI:
  assumes "set (keys_of (files_of w fd)) = set (map fst F)" "\<forall>p \<in> set F. reads fd p w" "distinct (map fst F)"
  shows "holds_files fd F w"
  unfolding holds_files_def
proof
  fix n
  show "map_of (files_of w fd) n = map_of F n"
  proof (cases "n \<in> set (map fst F)")
    case True
    then obtain v where "(n, v) \<in> set F" by auto
    then show ?thesis using assms(2,3) by (force simp: reads_def)
  next
    case False
    then show ?thesis using assms(1) by (metis list.set_map map_of_eq_None_iff)
  qed
qed

lemma delete_update_fresh: "s \<notin> set (keys_of N) \<Longrightarrow> AList.delete s (dict_set s fd N) = N"
  by (induction N) (auto simp: AList.delete_eq)

lemma keys_dict_set: "fst ` set (dict_set s fd N) = insert s (fst ` set N)"
  by (induction N) auto

lemma hoare_rename:
  assumes "quiet_env env" "s \<notin> set (keys_of N)"
  shows "hoareR (\<lambda>w. staged N s fd w \<and> holds_files fd F w) (rename_noreplace_at env s t)
     (\<lambda>_ w. t \<notin> set (keys_of N) \<and> names_of w = dict_set t fd N \<and> holds_files fd F w) (\<lambda>_. fate N s t F)"
proof (cases "re_renameat2 env")
  case True
  let ?P = "\<lambda>w. staged N s fd w \<and> holds_files fd F w"
  have tick: "hoareR ?P (tick env) (\<lambda>_. ?P) (\<lambda>_. fate N s t F)"
    by (rule quietly) (auto intro: fateI quiet assms(1))
  show ?thesis
    unfolding rename_noreplace_at_def using True
    apply simp
    apply (rule hoare_bind [OF tick])
    subgoal for ta
      by (cases "re_fault env ta")
        (auto simp: hoareR_def raiseR_def fateI staged_def holds_files_def update_conv keys_dict_set
           delete_update_fresh [OF assms(2)] files_of_def)
    done
next
  case False
  then show ?thesis by (auto simp: rename_noreplace_at_def hoareR_def raiseR_def intro: fateI)
qed


text \<open>What holds of every publication: files with the four names, and fresh directory names.\<close>

definition publishable :: "(string, nat) dict \<Rightarrow> string \<Rightarrow> (string \<times> string) list \<Rightarrow> bool" where
  "publishable N s F \<longleftrightarrow> s \<notin> set (keys_of N) \<and> distinct (map fst F) \<and> set (map fst F) = set EVIDENCE_FILES"

definition complete :: "(string, nat) dict \<Rightarrow> string \<Rightarrow> nat \<Rightarrow> run_world \<Rightarrow> bool" where
  "complete N s fd w \<longleftrightarrow> staged N s fd w \<and> set (keys_of (files_of w fd)) = set EVIDENCE_FILES"

lemma timeless_complete [intro]: "timeless (complete N s fd)"
  by (simp add: timeless_def complete_def fate_defs)

lemma hoare_verify_staged:
  assumes "quiet_env env" "publishable N s F"
  shows "hoareR (complete N s fd) (forR (verify_file env fd mm) F)
     (\<lambda>_ w. staged N s fd w \<and> holds_files fd F w) (\<lambda>_. fate N s t F)"
proof (rule hoare_weaken [OF hoare_for_checks])
  show "hoareR (complete N s fd) (verify_file env fd mm p) (\<lambda>_. reads fd p) (\<lambda>_. fate N s t F)" for p
    by (rule hoare_verify_file) (auto simp: assms complete_def intro: fateI)
qed (use assms in \<open>auto simp: complete_def publishable_def intro: fateI holds_filesI quiet\<close>)

lemma quiet_identity [quiet]:
  assumes "quiet_env env"
  shows "quiet_run (close_after env p)" "quiet_run (assert_published_parent_identity env d)"
    "quiet_run (assert_published_target_identity env t fd d)"
proof -
  show close: "quiet_run (close_after env p)" for p
    using quiet_observations(1) [OF assms] unfolding quiet_run_def close_after_def
    by (auto split: prod.splits sum.splits run_exc.splits py_error.splits) (metis snd_conv)+
  have compare: "quiet_run (compare_identity env b e)" for b e
    unfolding quiet_run_def
  proof
    fix w
    obtain x t1 where 1: "os_noop env w = (x, w\<lparr>w_time := t1\<rparr>)"
      using quiet_observations(1) [OF assms] unfolding quiet_run_def by (metis prod.collapse)
    obtain y t2 where 2: "os_noop env (w\<lparr>w_time := t1\<rparr>) = (y, w\<lparr>w_time := t2\<rparr>)"
      using quiet_observations(1) [OF assms] unfolding quiet_run_def
      by (metis prod.collapse run_world.surjective run_world.update_convs(1))
    obtain t3 where 3: "snd (close_after env (if b then Some e else None) (w\<lparr>w_time := t1\<rparr>)) = w\<lparr>w_time := t3\<rparr>"
      using close unfolding quiet_run_def by (metis run_world.surjective run_world.update_convs(1))
    show "\<exists>t. snd (compare_identity env b e w) = w\<lparr>w_time := t\<rparr>"
      using 1 2 3 by (cases x; cases y) (auto simp: compare_identity_def)
  qed
  show "quiet_run (assert_published_parent_identity env d)"
    unfolding assert_published_parent_identity_def
    by (intro quiet_bindR quiet_tick quiet_observations assms) (auto intro: compare quiet split: parent_check.splits)
  show "quiet_run (assert_published_target_identity env t fd d)"
    unfolding assert_published_target_identity_def
    by (intro quiet_bindR quiet_catchR quiet_tick quiet_observations assms compare)
      (auto intro: quiet split: run_exc.splits py_error.splits)
qed

lemma quiet_sync [quiet]:
  "quiet_env env \<Longrightarrow> quiet_run (catchR (fsync_fd env) (\<lambda>e. case e of PyErr (OSError msg) \<Rightarrow> raiseR (f msg) | _ \<Rightarrow> raiseR e))"
  by (intro quiet_catchR quiet_observations) (auto intro: quiet split: run_exc.splits py_error.splits)

lemma hoare_publish_opened:
  assumes env: "quiet_env env" and guard: "quiet_run pre_publish_guard" and F: "publishable N s F"
  shows "hoareR (staged N s fd) (publish_opened env F s t display pre_publish_guard fd)
     (\<lambda>_ w. \<exists>fd. in_place N t F fd w) (\<lambda>_. fate N s t F)"
proof -
  let ?E = "\<lambda>(_::run_exc). fate N s t F"
  have set_fd: "hoareR (staged N s fd) (\<lambda>w. (Inr (), w\<lparr>w_fd := Some fd\<rparr>)) (\<lambda>_. staged N s fd) ?E"
    by (simp add: hoareR_def staged_def)
  have write_all: "hoareR (staged N s fd) (forR (\<lambda>(name, payload). write_file_sync_at env fd name payload) F) (\<lambda>_. staged N s fd) ?E"
    by (rule hoare_for) (auto intro: hoare_write_file [OF env])
  have check: "hoareR (listed N s fd names) (whenR (set names \<noteq> set EVIDENCE_FILES) e) (\<lambda>_. complete N s fd) ?E" for names e
    by (auto simp: hoareR_def whenR_def listed_def complete_def intro: fateI)
  have publish: "hoareR (\<lambda>w. t \<notin> set (keys_of N) \<and> names_of w = dict_set t fd N \<and> holds_files fd F w) (\<lambda>w. (Inr (), w\<lparr>w_published := True\<rparr>)) (\<lambda>_. in_place N t F fd) ?E"
    by (simp add: hoareR_def in_place_def holds_files_def files_of_def)
  have staged_quietly: "hoareR (\<lambda>w. staged N s fd w \<and> holds_files fd F w) m (\<lambda>_ w. staged N s fd w \<and> holds_files fd F w) ?E"
    if "quiet_run m" for m :: "unit run"
    by (rule quietly [OF that]) (auto intro: fateI)
  have placed_quietly: "hoareR (in_place N t F fd) m (\<lambda>_. in_place N t F fd) ?E" if "quiet_run m" for m :: "unit run"
    by (rule quietly [OF that]) (auto intro: fateI)
  have reread: "hoareR (in_place N t F fd) (forR (verify_file env fd mm) F) (\<lambda>_ w. \<exists>fd. in_place N t F fd w) ?E" for mm
    by (rule hoare_weaken [OF placed_quietly]) (auto intro: quiet env)
  show ?thesis
    unfolding publish_opened_def
    by (rule hoare_bind [OF set_fd] hoare_bind [OF write_all] hoare_bind [OF hoare_listdir [OF env]] hoare_bind [OF check]
        hoare_bind [OF hoare_verify_staged [OF env F]] hoare_bind [OF hoare_rename [OF env]] hoare_bind [OF publish] reread
        hoare_bind [OF staged_quietly [OF quiet_observations(1) [OF env]]] hoare_bind [OF staged_quietly [OF guard]]
        hoare_bind [OF placed_quietly [OF quiet_sync [OF env]]] hoare_bind [OF placed_quietly [OF quiet_identity(2) [OF env]]]
        hoare_bind [OF placed_quietly [OF quiet_identity(3) [OF env]]]
      | (use F in \<open>simp add: publishable_def\<close>))+
qed

lemma hoare_publish_body:
  assumes "quiet_env env" "quiet_run pre_publish_guard" "publishable N s F"
  shows "hoareR (untouched N) (publish_body env F s t display pre_publish_guard)
     (\<lambda>_ w. \<exists>fd. in_place N t F fd w) (\<lambda>_. fate N s t F)"
  unfolding publish_body_def
  by (rule hoare_bind [OF hoare_mkdir [OF assms(1)]], rule hoare_bind [OF hoare_created],
      rule hoare_bind [OF hoare_open_staging [OF assms(1)]], rule hoare_publish_opened [OF assms])

text \<open>
  Clean-up. \<open>cleared\<close>: the directory is as it was; \<open>left_over\<close>: at most the staging directory is left. Every clean-up step
  raises \<^verbatim>\<open>OSError\<close> only.
\<close>

definition os_err :: "run_exc \<Rightarrow> bool" where
  "os_err e \<longleftrightarrow> (case e of PyErr (OSError _) \<Rightarrow> True | _ \<Rightarrow> False)"

definition cleared :: "(string, nat) dict \<Rightarrow> run_world \<Rightarrow> bool" where
  "cleared N w \<longleftrightarrow> names_of w = N \<and> \<not> w_published w"

definition left_over :: "(string, nat) dict \<Rightarrow> string \<Rightarrow> run_world \<Rightarrow> bool" where
  "left_over N s w \<longleftrightarrow> cleared N w \<or> (\<exists>fd. staged N s fd w)"

lemma os_err_simps [simp]: "os_err (PyErr (OSError m))" "\<not> os_err (RunnerErr r)"
  by (simp_all add: os_err_def)

lemma os_errE: assumes "os_err e" obtains m where "e = PyErr (OSError m)"
  using assms by (auto simp: os_err_def split: run_exc.splits py_error.splits)

lemma hoare_collectR:
  assumes "hoareR P m (\<lambda>_. Q) (\<lambda>e w. os_err e \<and> R w)"
  shows "hoareR P (collectR m) (\<lambda>es w. if es = [] then Q w else R w) E"
proof (rule hoare_fun)
  fix w assume "P w"
  then show "case collectR m w of (Inr es, w') \<Rightarrow> if es = [] then Q w' else R w' | (Inl e, w') \<Rightarrow> E e w'"
    using hoareD [OF assms, of w "fst (m w)" "snd (m w)"]
    by (cases "m w"; cases "fst (m w)") (auto simp: collectR_def elim!: os_errE)
qed

lemma hoare_os_close:
  "quiet_env env \<Longrightarrow> timeless P \<Longrightarrow> hoareR P (os_close env) (\<lambda>_. P) (\<lambda>e w. os_err e \<and> P w)"
  unfolding os_noop_def by (rule hoare_syscall) (auto simp: hoareR_def retR_def)

lemma hoare_unlink_all:
  assumes "quiet_env env"
  shows "hoareR (staged N s i) (unlink_all env fd names) (\<lambda>_. staged N s i) (\<lambda>_ _. False)"
proof (induction names)
  case Nil
  then show ?case by (simp add: hoareR_def retR_def)
next
  case (Cons n names)
  have "hoareR (staged N s i) (os_unlink env fd n) (\<lambda>_. staged N s i) (\<lambda>e w. os_err e \<and> staged N s i w)"
    unfolding os_unlink_def by (rule hoare_syscall [OF assms]) (auto simp: hoareR_def staged_def)
  then have step: "hoareR (staged N s i) (collectR (os_unlink env fd n)) (\<lambda>_. staged N s i) (\<lambda>_ _. False)"
    by (rule hoare_weaken [OF hoare_collectR]) (auto split: if_splits)
  have "hoareR (staged N s i) (bindR (unlink_all env fd names) (\<lambda>es. retR (e @ es))) (\<lambda>_. staged N s i) (\<lambda>_ _. False)" for e
    by (rule hoare_bind [OF Cons.IH]) (simp add: hoareR_def retR_def)
  then show ?case by (auto intro: hoare_bind [OF step])
qed

lemma hoare_rmdir_staging:
  assumes "quiet_env env" "s \<notin> set (keys_of N)"
  shows "hoareR (staged N s i) (os_rmdir env s) (\<lambda>_. cleared N) (\<lambda>e w. os_err e \<and> staged N s i w)"
  unfolding os_rmdir_def
  by (rule hoare_syscall [OF assms(1)])
    (auto simp: hoareR_def cleared_def staged_def update_conv delete_update_fresh [OF assms(2)] split: option.splits)

lemma hoare_cleanup_staging:
  assumes env: "quiet_env env" and s: "s \<notin> set (keys_of N)"
  shows "hoareR (staged N s i) (cleanup_staging env fd s) (\<lambda>_. cleared N) (\<lambda>e w. os_err e \<and> left_over N s w)"
proof -
  let ?E = "\<lambda>e w. os_err e \<and> left_over N s w"
  have list: "hoareR (staged N s i) (catchR (bindR (os_listdir env fd) (\<lambda>names. retR (names, []))) (\<lambda>e. case e of
         PyErr (OSError msg) \<Rightarrow> retR ([], [msg]) | _ \<Rightarrow> raiseR e)) (\<lambda>_. staged N s i) ?E"
  proof (rule hoare_catch [OF hoare_bind])
    show "hoareR (staged N s i) (os_listdir env fd) (\<lambda>_. staged N s i) (\<lambda>e w. os_err e \<and> staged N s i w)"
      unfolding os_listdir_def by (rule hoare_syscall [OF env]) (auto simp: hoareR_def)
  qed (auto simp: hoareR_def retR_def elim!: os_errE)
  have unlink: "hoareR (staged N s i) (unlink_all env fd names) (\<lambda>_. staged N s i) ?E" for names
    by (rule hoare_weaken [OF hoare_unlink_all [OF env]]) auto
  have close: "hoareR (staged N s i) (collectR (os_close env)) (\<lambda>_. staged N s i) ?E"
    by (rule hoare_weaken [OF hoare_collectR [OF hoare_os_close [OF env]]]) (auto split: if_splits)
  have rmdir: "hoareR (staged N s i) (collectR (os_rmdir env s)) (\<lambda>es w. if es = [] then cleared N w else staged N s i w) ?E"
    by (rule hoare_collectR [OF hoare_rmdir_staging [OF env s]])
  have report: "hoareR (\<lambda>w. if e4 = [] then cleared N w else staged N s i w)
      (let errors = e1 @ e2 @ e3 @ e4 in
       if errors \<noteq> [] then raiseR (PyErr (OSError (join ''; '' errors))) else retR ()) (\<lambda>_. cleared N) ?E" for e1 e2 e3 e4
    by (auto simp: hoareR_def Let_def raiseR_def retR_def left_over_def)
  show ?thesis
    unfolding cleanup_staging_def
    by (rule hoare_bind [OF list], clarify) (rule hoare_bind [OF unlink] hoare_bind [OF close] hoare_bind [OF rmdir] report)+
qed

text \<open>The step of the \<^verbatim>\<open>finally\<close> clause, for an action with a contract.\<close>

lemma finally_stepE:
  assumes "hoareR P m (\<lambda>_. Q) (\<lambda>e w. os_err e \<and> R w)" "P w"
  obtains w' where "finally_step m raised r w = (True, r, w')" "Q w'"
  | w' msg e where "finally_step m raised r w = (True, Inl (add_cleanup msg (RunnerErr e)), w')" "r = Inl (RunnerErr e)" "R w'"
  | w' msg where "finally_step m raised r w = (False, Inl (raised msg), w')" "\<forall>e. r \<noteq> Inl (RunnerErr e)" "R w'"
proof (cases "m w")
  case (Pair x w')
  show thesis
  proof (cases x)
    case (Inr u)
    then show thesis using that(1) [of w'] assms Pair by (simp add: hoareR_def finally_step_def split: prod.splits sum.splits)
  next
    case (Inl e)
    then have "os_err e" "R w'"
      using assms Pair by (auto simp: hoareR_def split: prod.splits sum.splits)
    then obtain msg where "e = PyErr (OSError msg)"
      by (auto elim: os_errE)
    then have step: "finally_step m raised r w = (case r of
          Inl (RunnerErr e) \<Rightarrow> (True, Inl (add_cleanup msg (RunnerErr e)), w') | _ \<Rightarrow> (False, Inl (raised msg), w'))"
      using Inl Pair by (simp add: finally_step_def)
    show thesis
    proof (cases "\<exists>e. r = Inl (RunnerErr e)")
      case True
      then show thesis using that(2) step \<open>R w'\<close> by auto
    next
      case False
      then have "finally_step m raised r w = (False, Inl (raised msg), w')"
        using step by (auto split: sum.splits run_exc.splits)
      then show thesis using that(3) False \<open>R w'\<close> by auto
    qed
  qed
qed


text \<open>How a publication ends: in place, and every error names the evidence; or withdrawn, and a left-over is reported.\<close>

definition ends_in_place :: "(string, nat) dict \<Rightarrow> string \<Rightarrow> (string \<times> string) list \<Rightarrow> run_exc + 'a \<Rightarrow> run_world \<Rightarrow> bool" where
  "ends_in_place N t F r w \<longleftrightarrow>
     (\<exists>fd. in_place N t F fd w) \<and> (\<forall>e. r = Inl (RunnerErr e) \<longrightarrow> e_path e \<noteq> None)"

definition reported :: "run_exc + 'a \<Rightarrow> bool" where
  "reported r \<longleftrightarrow> (\<exists>e. r = Inl (RunnerErr e) \<and> (e_cleanup e \<noteq> [] \<or> e_code e = ''OUTPUT_CLEANUP_FAILED''))"

definition ends_withdrawn :: "(string, nat) dict \<Rightarrow> string \<Rightarrow> run_exc + 'a \<Rightarrow> run_world \<Rightarrow> bool" where
  "ends_withdrawn N s r w \<longleftrightarrow> (\<exists>e. r = Inl e) \<and> (cleared N w \<or> (\<exists>fd. staged N s fd w) \<and> reported r)"

lemma timeless_ends [intro]: "timeless (\<lambda>w. \<exists>fd. in_place N t F fd w)" "timeless (cleared N)" "timeless (\<lambda>w. \<exists>fd. staged N s fd w)"
  by (simp_all add: timeless_def fate_defs cleared_def)

lemma close_in_place:
  assumes "quiet_env env" "ends_in_place N t F r w"
    "finally_step (os_close env) (\<lambda>m. published_error c msg display (Some m)) r w = (go, r', w')"
  shows "ends_in_place N t F r' w'"
  by (rule finally_stepE [OF hoare_os_close [OF assms(1), of "\<lambda>w. \<exists>fd. in_place N t F fd w"], of w
        "\<lambda>m. published_error c msg display (Some m)" r])
    (use assms(2,3) in \<open>auto simp: ends_in_place_def published_error_def add_cleanup_def\<close>)

lemma in_place_published: "in_place N t F fd w \<Longrightarrow> w_published w"
  by (simp add: in_place_def)

lemma ends_in_place_published: "ends_in_place N t F r w \<Longrightarrow> w_published w"
  by (auto simp: ends_in_place_def in_place_def)

lemma finally_in_place:
  assumes env: "quiet_env env" and w: "ends_in_place N t F r w" and fin: "publish_finally env s display r w = (r', w')"
  shows "ends_in_place N t F r' w'"
proof -
  note closed = close_in_place [OF env]
  let ?U = "\<lambda>m. published_error ''OUTPUT_FINALIZATION_UNCONFIRMED''
            ''Evidence was atomically published, but finalization failed'' display (Some m)"
  define second where "second = (if w_fd w \<noteq> None then finally_step (os_close env) ?U r w else (True, r, w))"
  obtain go2 r2 w2 where 2: "second = (go2, r2, w2)" by (cases second)
  have e2: "ends_in_place N t F r2 w2"
    using 2 w closed [OF w] by (auto simp: second_def split: if_splits)
  obtain go3 r3 w3 where 3: "finally_step (os_close env) ?U r2 w2 = (go3, r3, w3)" by (metis prod_cases3)
  have "publish_finally env s display r w = (if go2 then (r3, w3) else (r2, w2))"
    unfolding publish_finally_def using ends_in_place_published [OF w] ends_in_place_published [OF e2] 2 3
    by (simp add: second_def)
  then show ?thesis
    using fin e2 closed [OF e2 3] by (auto split: if_splits)
qed

lemma close_withdrawn:
  assumes env: "quiet_env env" and w: "ends_withdrawn N s r w"
    and fin: "finally_step (os_close env) (RunnerError ''OUTPUT_CLEANUP_FAILED'') r w = (go, r', w')"
  shows "ends_withdrawn N s r' w'"
proof -
  have *: "P w' \<and> (\<exists>e. r' = Inl e) \<and> (reported r \<longrightarrow> reported r')" if "P w" "timeless P" for P
    by (rule finally_stepE [OF hoare_os_close [OF env that(2)] that(1), of "RunnerError ''OUTPUT_CLEANUP_FAILED''" r])
      (use fin w in \<open>auto simp: reported_def RunnerError_def add_cleanup_def ends_withdrawn_def\<close>)
  show ?thesis
    using w * [of "cleared N"] * [of "\<lambda>w. \<exists>fd. staged N s fd w"] by (auto simp: ends_withdrawn_def)
qed

lemma finally_withdrawn:
  assumes env: "quiet_env env" and w: "withdrawn N s w" and s: "s \<notin> set (keys_of N)"
    and fin: "publish_finally env s display (Inl e) w = (r', w')"
  shows "ends_withdrawn N s r' w'"
proof -
  let ?C = "RunnerError ''OUTPUT_CLEANUP_FAILED''"
  have pub: "\<not> w_published w" using w by (auto simp: withdrawn_def untouched_def staged_def)
  define first where "first = (if w_created w
     then finally_step (case w_fd w of Some fd \<Rightarrow> cleanup_staging env fd s | None \<Rightarrow> os_rmdir env s) ?C (Inl e :: run_exc + unit) w
     else (True, Inl e, w))"
  obtain go1 r1 w1 where 1: "first = (go1, r1, w1)" by (cases first)
  have e1: "ends_withdrawn N s r1 w1"
  proof (cases "w_created w")
    case True
    then obtain i where st: "staged N s i w" using w by (auto simp: withdrawn_def untouched_def)
    have contract: "hoareR (staged N s i) (case w_fd w of Some fd \<Rightarrow> cleanup_staging env fd s | None \<Rightarrow> os_rmdir env s)
       (\<lambda>_. cleared N) (\<lambda>e w. os_err e \<and> left_over N s w)"
    proof (cases "w_fd w")
      case None
      have "hoareR (staged N s i) (os_rmdir env s) (\<lambda>_. cleared N) (\<lambda>e w. os_err e \<and> left_over N s w)"
        by (rule hoare_weaken [OF hoare_rmdir_staging [OF env s]]) (auto simp: left_over_def)
      then show ?thesis using None by simp
    qed (simp add: hoare_cleanup_staging [OF env s])
    show ?thesis
      by (rule finally_stepE [OF contract st, of ?C "Inl e"])
        (use 1 True in \<open>auto simp: first_def ends_withdrawn_def left_over_def reported_def add_cleanup_def RunnerError_def\<close>)
  next
    case False
    then show ?thesis using 1 w by (auto simp: first_def ends_withdrawn_def withdrawn_def untouched_def staged_def cleared_def)
  qed
  have pub1: "\<not> w_published w1" using e1 by (auto simp: ends_withdrawn_def cleared_def staged_def)
  obtain go3 r3 w3 where 3: "finally_step (os_close env) ?C r1 w1 = (go3, r3, w3)" by (metis prod_cases3)
  have "publish_finally env s display (Inl e) w = (if go1 then (r3, w3) else (r1, w1))"
    unfolding publish_finally_def using pub pub1 1 3 by (simp add: first_def)
  then show ?thesis
    using fin e1 close_withdrawn [OF env e1 3] by (auto split: if_splits)
qed

lemma publish_except_path:
  "published \<Longrightarrow> publish_except published display e = RunnerErr r \<Longrightarrow> e_path r \<noteq> None"
  by (auto simp: publish_except_def published_error_def split: run_exc.splits py_error.splits)

lemma publish_staged_ends:
  assumes "quiet_env env" "quiet_run pre_publish_guard" "publishable (names_of w) s F"
    and run: "publish_staged env F s t display pre_publish_guard w = (r, w')"
  shows "ends_in_place (names_of w) t F r w' \<or> ends_withdrawn (names_of w) s r w'"
proof -
  let ?N = "names_of w" and ?w = "w\<lparr>w_created := False, w_fd := None, w_published := False\<rparr>"
  obtain x w1 where body: "publish_body env F s t display pre_publish_guard ?w = (x, w1)" by force
  have "untouched ?N ?w" by (simp add: untouched_def)
  then have post: "case x of Inr _ \<Rightarrow> \<exists>fd. in_place ?N t F fd w1 | Inl _ \<Rightarrow> fate ?N s t F w1"
    using hoareD [OF hoare_publish_body [OF assms(1-3), of t display]] body by simp
  let ?r = "case x of Inl e \<Rightarrow> Inl (publish_except (w_published w1) display e) | Inr u \<Rightarrow> Inr u"
  have run: "publish_finally env s display ?r w1 = (r, w')"
    using run body by (simp add: publish_staged_def)
  consider (placed) "ends_in_place ?N t F ?r w1" | (withdrawn) e where "withdrawn ?N s w1" "?r = Inl e"
    using post publish_except_path [of "w_published w1" display] in_place_published [of ?N t F _ w1]
    by (fastforce simp: fate_def ends_in_place_def split: sum.splits)
  then show ?thesis
  proof cases
    case placed
    then show ?thesis using finally_in_place [OF assms(1) _ run] by blast
  next
    case withdrawn
    then show ?thesis using finally_withdrawn [OF assms(1)] run assms(3) by (metis publishable_def)
  qed
qed

text \<open>
  Progress: with no failing system call, an unchanged parent and a guard that passes, the publication returns.
\<close>

definition calm :: "run_env \<Rightarrow> bool" where
  "calm env \<longleftrightarrow> quiet_env env \<and> re_renameat2 env \<and> (\<forall>t. re_fault env t = None \<and> re_parent env t = SameParent)"

abbreviation succeeds :: "(run_world \<Rightarrow> bool) \<Rightarrow> 'a run \<Rightarrow> ('a \<Rightarrow> run_world \<Rightarrow> bool) \<Rightarrow> bool" where
  "succeeds P m Q \<equiv> hoareR P m Q (\<lambda>_ _. False)"

definition filled :: "(string, nat) dict \<Rightarrow> string \<Rightarrow> nat \<Rightarrow> (string \<times> string) list \<Rightarrow> run_world \<Rightarrow> bool" where
  "filled N s fd G w \<longleftrightarrow> staged N s fd w \<and> files_of w fd = G"

lemma timeless_filled [intro]: "timeless (filled N s fd G)"
  by (simp add: timeless_def filled_def fate_defs)

lemma succeeds_tick: "calm env \<Longrightarrow> timeless P \<Longrightarrow> succeeds P (tick env) (\<lambda>_. P)"
  unfolding hoareR_def tick_def calm_def quiet_env_def timeless_def by simp

lemma succeeds_syscall: "calm env \<Longrightarrow> timeless P \<Longrightarrow> succeeds P m Q \<Longrightarrow> succeeds P (syscall env m) Q"
  unfolding syscall_def by (rule hoare_bind [OF succeeds_tick]) (auto simp: calm_def)

lemma succeeds_noop: "calm env \<Longrightarrow> timeless P \<Longrightarrow> succeeds P (os_noop env) (\<lambda>_. P)"
  unfolding os_noop_def by (rule succeeds_syscall) (auto simp: hoareR_def retR_def)

lemma succeeds_mkdir:
  assumes "calm env" "s \<notin> set (keys_of N)"
  shows "succeeds (untouched N) (os_mkdir env s)
     (\<lambda>_ w. \<exists>fd. names_of w = dict_set s fd N \<and> \<not> w_published w \<and> files_of w fd = [])"
  unfolding os_mkdir_def
  by (rule succeeds_syscall [OF assms(1)])
    (use assms(2) in \<open>auto simp: hoareR_def Let_def untouched_def files_of_def update_conv\<close>)

lemma succeeds_open:
  assumes "calm env"
  shows "succeeds (\<lambda>w. \<exists>fd. filled N s fd [] w) (os_open_dir env s) (\<lambda>fd. filled N s fd [])"
  unfolding os_open_dir_def
  by (rule succeeds_syscall [OF assms])
    (auto simp: hoareR_def timeless_def filled_def fate_defs update_conv split: option.splits)

lemma succeeds_write:
  assumes "calm env" "n \<notin> set (keys_of G)"
  shows "succeeds (filled N s fd G) (write_file_sync_at env fd n d) (\<lambda>_. filled N s fd (G @ [(n, d)]))"
  unfolding write_file_sync_at_def
proof (intro hoare_bind)
  show "succeeds (filled N s fd G) (syscall env (\<lambda>w.
        if n \<in> set (keys_of (files_of w fd)) then (Inl (PyErr (OSError ''File exists'')), w)
        else (Inr (), put_file fd n [] w))) (\<lambda>_. filled N s fd (G @ [(n, [])]))"
    by (rule succeeds_syscall [OF assms(1)])
      (use assms(2) in \<open>auto simp: hoareR_def filled_def update_fresh\<close>)
  show "succeeds (filled N s fd (G @ [(n, [])])) (tick env) (\<lambda>_. filled N s fd (G @ [(n, [])]))" for u :: unit
    by (rule succeeds_tick [OF assms(1)]) auto
  have "dict_set n d (G @ [(n, [])]) = G @ [(n, d)]" using assms(2) by (induction G) auto
  then show "succeeds (filled N s fd (G @ [(n, [])])) (case re_fault env t of
          Some msg \<Rightarrow> (\<lambda>w. (Inl (PyErr (OSError msg)), put_file fd n (take (re_written env t) d) w))
        | None \<Rightarrow> (\<lambda>w. (Inr (), put_file fd n d w))) (\<lambda>_. filled N s fd (G @ [(n, d)]))" for t
    using assms(1) by (simp add: calm_def hoareR_def filled_def)
qed

lemma succeeds_write_all:
  assumes "calm env" "distinct (map fst (G @ F))"
  shows "succeeds (filled N s fd G) (forR (\<lambda>(n, d). write_file_sync_at env fd n d) F) (\<lambda>_. filled N s fd (G @ F))"
  using assms(2)
proof (induction F arbitrary: G)
  case Nil
  then show ?case by (simp add: hoareR_def retR_def)
next
  case (Cons p F)
  then show ?case
    using hoare_bind [OF succeeds_write [OF assms(1), of "fst p" G N s fd "snd p"]] Cons.IH [of "G @ [p]"]
    by (cases p) auto
qed

lemma succeeds_verify:
  assumes "calm env" "timeless P" "\<And>w. P w \<Longrightarrow> holds_files fd F w" "distinct (map fst F)"
  shows "succeeds P (forR (verify_file env fd mm) F) (\<lambda>_. P)"
proof (rule hoare_for)
  fix p assume "p \<in> set F"
  then have "map_of F (fst p) = Some (snd p)" using assms(4) by (simp add: map_of_is_SomeI)
  then have "succeeds P (read_file_at env fd (fst p)) (\<lambda>d w. P w \<and> d = snd p)"
    unfolding read_file_at_def
    by (intro succeeds_syscall assms(1,2)) (use assms(3) in \<open>fastforce simp: hoareR_def holds_files_def split: option.splits\<close>)
  then show "succeeds P (verify_file env fd mm p) (\<lambda>_. P)"
    unfolding verify_file_def by (rule hoare_bind) (auto simp: hoareR_def whenR_def)
qed

lemma succeeds_rename:
  assumes "calm env" "s \<notin> set (keys_of N)" "t \<notin> set (keys_of N)" "s \<noteq> t"
  shows "succeeds (filled N s fd F) (rename_noreplace_at env s t)
     (\<lambda>_ w. names_of w = dict_set t fd N \<and> files_of w fd = F)"
proof -
  have "re_renameat2 env" "\<And>t. re_fault env t = None" using assms(1) by (auto simp: calm_def)
  then show ?thesis
    unfolding rename_noreplace_at_def
    apply simp
    apply (rule hoare_bind [OF succeeds_tick [OF assms(1) timeless_filled]])
    using assms(2-4)
    by (auto simp: hoareR_def filled_def staged_def update_conv keys_dict_set delete_update_fresh [OF assms(2)] files_of_def)
qed

lemma succeeds_identity:
  assumes "calm env" "timeless P" "\<And>w. P w \<Longrightarrow> map_of (names_of w) t = Some fd"
  shows "succeeds P (close_after env None) (\<lambda>_. P)"
    "succeeds P (assert_published_parent_identity env display) (\<lambda>_. P)"
    "succeeds P (assert_published_target_identity env t fd display) (\<lambda>_. P)"
proof -
  note noop = succeeds_noop [OF assms(1,2)]
  show close: "succeeds P (close_after env None) (\<lambda>_. P)"
    using noop unfolding hoareR_def close_after_def by (fastforce split: prod.splits sum.splits)
  have compare: "succeeds P (compare_identity env False e) (\<lambda>_. P)" for e
  proof (rule hoare_fun)
    fix w assume "P w"
    then obtain w1 where "os_noop env w = (Inr (), w1)" "P w1"
      using hoareD [OF noop] by (cases "os_noop env w") (force split: sum.splits)
    then show "case compare_identity env False e w of (Inr a, w') \<Rightarrow> P w' | (Inl e, w') \<Rightarrow> False"
      using close by (simp add: compare_identity_def hoareR_def)
  qed
  show "succeeds P (assert_published_parent_identity env display) (\<lambda>_. P)"
    unfolding assert_published_parent_identity_def
    using assms(1) compare by (auto intro!: hoare_bind [OF noop] hoare_bind [OF succeeds_tick [OF assms(1,2)]] simp: calm_def)
  have "succeeds P (os_open_dir env t) (\<lambda>seen w. P w \<and> seen = fd)"
    unfolding os_open_dir_def
    by (intro succeeds_syscall assms(1,2)) (use assms(3) in \<open>fastforce simp: hoareR_def split: option.splits\<close>)
  then have opened: "succeeds P (catchR (os_open_dir env t) h) (\<lambda>seen w. P w \<and> seen = fd)" for h
    unfolding hoareR_def catchR_def by (fastforce split: prod.splits sum.splits)
  show "succeeds P (assert_published_target_identity env t fd display) (\<lambda>_. P)"
    unfolding assert_published_target_identity_def
    apply (rule hoare_bind [OF noop], rule hoare_bind [OF opened])
    subgoal for _ seen using compare by (cases "seen = fd") (auto simp: hoareR_def)
    done
qed

lemma succeeds_publish_opened:
  assumes env: "calm env" and guard: "quiet_run pre_publish_guard" "\<And>w. \<exists>w'. pre_publish_guard w = (Inr (), w')"
    and F: "publishable N s F" and t: "t \<notin> set (keys_of N)" "s \<noteq> t"
  shows "succeeds (filled N s fd []) (publish_opened env F s t display pre_publish_guard fd) (\<lambda>_. in_place N t F fd)"
proof -
  have names: "set (map fst F) = set EVIDENCE_FILES" "distinct (map fst F)" "s \<notin> set (keys_of N)"
    using F by (auto simp: publishable_def)
  have set_fd: "succeeds (filled N s fd []) (\<lambda>w. (Inr (), w\<lparr>w_fd := Some fd\<rparr>)) (\<lambda>_. filled N s fd [])"
    by (simp add: hoareR_def filled_def fate_defs)
  have write_all: "succeeds (filled N s fd []) (forR (\<lambda>(n, d). write_file_sync_at env fd n d) F) (\<lambda>_. filled N s fd F)"
    using succeeds_write_all [OF env, of "[]" F] names(2) by simp
  have list: "succeeds (filled N s fd F) (os_listdir env fd) (\<lambda>names w. filled N s fd F w \<and> names = map fst F)"
    unfolding os_listdir_def by (rule succeeds_syscall [OF env]) (auto simp: hoareR_def filled_def)
  have check: "succeeds (\<lambda>w. filled N s fd F w \<and> names' = map fst F) (whenR (set names' \<noteq> set EVIDENCE_FILES) e) (\<lambda>_. filled N s fd F)" for names' e
    using names(1) by (auto simp: hoareR_def whenR_def)
  have verify: "succeeds (filled N s fd F) (forR (verify_file env fd mm) F) (\<lambda>_. filled N s fd F)" for mm
    by (rule succeeds_verify [OF env _ _ names(2)]) (auto simp: filled_def holds_files_def)
  have sync: "succeeds (filled N s fd F) (fsync_fd env) (\<lambda>_. filled N s fd F)"
    by (rule succeeds_noop [OF env]) auto
  have guarded: "succeeds (filled N s fd F) pre_publish_guard (\<lambda>_. filled N s fd F)"
  proof (rule hoare_fun)
    fix w assume "filled N s fd F w"
    moreover obtain w' where "pre_publish_guard w = (Inr (), w')" using guard(2) by blast
    moreover have "hoareR (filled N s fd F) pre_publish_guard (\<lambda>_. filled N s fd F) (\<lambda>_ _. True)"
      by (rule hoare_quiet [OF guard(1)]) auto
    ultimately show "case pre_publish_guard w of (Inr a, w') \<Rightarrow> filled N s fd F w' | (Inl e, w') \<Rightarrow> False"
      using hoareD by fastforce
  qed
  have publish: "succeeds (\<lambda>w. names_of w = dict_set t fd N \<and> files_of w fd = F) (\<lambda>w. (Inr (), w\<lparr>w_published := True\<rparr>)) (\<lambda>_. in_place N t F fd)"
    using t by (simp add: hoareR_def fate_defs)
  have sync': "succeeds (in_place N t F fd) (catchR (fsync_fd env) h) (\<lambda>_. in_place N t F fd)" for h
    by (rule hoare_catch [OF succeeds_noop [OF env]]) (auto simp: hoareR_def)
  have target: "in_place N t F fd w \<Longrightarrow> map_of (names_of w) t = Some fd" for w
    by (simp add: in_place_def update_conv)
  note identity = succeeds_identity [OF env timeless_fates(3) target]
  have reread: "succeeds (in_place N t F fd) (forR (verify_file env fd mm) F) (\<lambda>_. in_place N t F fd)" for mm
    by (rule succeeds_verify [OF env _ _ names(2)]) (auto simp: in_place_def)
  show ?thesis
    unfolding publish_opened_def
    by (rule hoare_bind [OF set_fd] hoare_bind [OF write_all] hoare_bind [OF list] hoare_bind [OF check] hoare_bind [OF verify]
        hoare_bind [OF sync] hoare_bind [OF guarded] hoare_bind [OF succeeds_rename [OF env names(3) t]] hoare_bind [OF publish]
        hoare_bind [OF sync'] hoare_bind [OF identity(2)] hoare_bind [OF identity(3)] reread | assumption)+
qed

lemma succeeds_publish_body:
  assumes "calm env" "quiet_run pre_publish_guard" "\<And>w. \<exists>w'. pre_publish_guard w = (Inr (), w')"
    "publishable N s F" "t \<notin> set (keys_of N)" "s \<noteq> t"
  shows "succeeds (untouched N) (publish_body env F s t display pre_publish_guard) (\<lambda>_ w. \<exists>fd. in_place N t F fd w)"
proof -
  have s: "s \<notin> set (keys_of N)" using assms(4) by (simp add: publishable_def)
  have created: "succeeds (\<lambda>w. \<exists>fd. names_of w = dict_set s fd N \<and> \<not> w_published w \<and> files_of w fd = [])
     (\<lambda>w. (Inr (), w\<lparr>w_created := True\<rparr>)) (\<lambda>_ w. \<exists>fd. filled N s fd [] w)"
    by (auto simp: hoareR_def filled_def fate_defs)
  show ?thesis
    unfolding publish_body_def
    by (rule hoare_bind [OF succeeds_mkdir [OF assms(1) s]], rule hoare_bind [OF created],
        rule hoare_bind [OF succeeds_open [OF assms(1)]], rule hoare_weaken [OF succeeds_publish_opened [OF assms]]) auto
qed

lemma calm_close:
  assumes "calm env" shows "finally_step (os_close env) raised r w = (True, r, w\<lparr>w_time := Suc (w_time w)\<rparr>)"
  using assms by (simp add: finally_step_def os_noop_def syscall_def tick_def bindR_def retR_def calm_def quiet_env_def)

lemma publish_staged_live:
  assumes "calm env" "quiet_run pre_publish_guard" "\<And>w. \<exists>w'. pre_publish_guard w = (Inr (), w')"
    "publishable (names_of w) s F" "t \<notin> set (keys_of (names_of w))" "s \<noteq> t"
  shows "\<exists>w' fd. publish_staged env F s t display pre_publish_guard w = (Inr (), w') \<and> in_place (names_of w) t F fd w'"
proof -
  let ?w = "w\<lparr>w_created := False, w_fd := None, w_published := False\<rparr>"
  obtain x w1 where body: "publish_body env F s t display pre_publish_guard ?w = (x, w1)" by force
  have "untouched (names_of w) ?w" by (simp add: untouched_def)
  from hoareD [OF succeeds_publish_body [OF assms] this body]
  obtain fd where fd: "in_place (names_of w) t F fd w1" and x: "x = Inr ()" by (auto split: sum.splits)
  have pub: "w_published w1" using fd by (rule in_place_published)
  have "\<exists>t2. publish_finally env s display (Inr ()) w1 = (Inr (), w1\<lparr>w_time := t2\<rparr>)"
    using pub by (cases "w_fd w1") (auto simp: publish_finally_def calm_close [OF assms(1)])
  then obtain t2 where "publish_finally env s display (Inr ()) w1 = (Inr (), w1\<lparr>w_time := t2\<rparr>)" by blast
  then have "publish_staged env F s t display pre_publish_guard w = (Inr (), w1\<lparr>w_time := t2\<rparr>)"
    using body x by (simp add: publish_staged_def)
  moreover have "in_place (names_of w) t F fd (w1\<lparr>w_time := t2\<rparr>)"
    using fd by (simp add: fate_defs)
  ultimately show ?thesis by blast
qed

section \<open>What the publication guarantees\<close>

lemma quiet_open_components [quiet]: "quiet_env env \<Longrightarrow> quiet_run (open_components env seen fd parts)"
  by (induction parts arbitrary: seen fd)
    (auto intro!: quiet_bindR quiet_catchR quiet_os_lookup quiet_observations quiet_case_exc quiet_retR quiet_raiseR)

lemma quiet_no_symlink_from [quiet]: "quiet_env env \<Longrightarrow> quiet_run (no_symlink_from env p)"
proof (induction env p rule: no_symlink_from.induct)
  case (1 env current)
  then show ?case
    by (subst no_symlink_from.simps) (auto intro!: quiet_bindR quiet_look quiet_whenR quiet_if quiet_retR)
qed

lemma quiet_acquire [quiet]:
  assumes "quiet_env env"
  shows "quiet_run (acquire_default_evidence_target env run_id)" "quiet_run (acquire_custom_evidence_target env out)"
proof -
  note q = quiet_bindR quiet_catchR quiet_os_lookup quiet_observations quiet_case_exc quiet_retR quiet_raiseR quiet_whenR
    quiet_forR quiet_open_components quiet_no_symlink_from quiet_look quiet_if assms
  show "quiet_run (acquire_default_evidence_target env run_id)"
    unfolding acquire_default_evidence_target_def open_directory_no_symlinks_def closing_on_error_def ensure_child_directory_def
    by (intro q)
  show "quiet_run (acquire_custom_evidence_target env out)"
    unfolding acquire_custom_evidence_target_def validate_output_dir_def open_directory_no_symlinks_def
      ensure_no_symlink_parents_def repo_contains_def Let_def
    by (intro q)
qed

lemma staged_payloads_publishable:
  "staged_payloads env b = Inr F \<Longrightarrow> s \<notin> set (keys_of N) \<Longrightarrow> publishable N s F"
  by (auto simp: staged_payloads_def publishable_def EVIDENCE_FILES_def Let_def bindE_eq_Inr)

lemma ends_in_place_map: "ends_in_place N t F r w \<Longrightarrow> (\<And>e. r' = Inl e \<Longrightarrow> r = Inl e) \<Longrightarrow> ends_in_place N t F r' w"
  by (auto simp: ends_in_place_def)


text \<open>An environment for concrete runs: nothing fails, nothing else acts, the tree has no symbolic links.\<close>

definition demo_run_env :: run_env where
  "demo_run_env = \<lparr>re_agent = demo_repo, re_git = (\<lambda>_ _. Inr (0, [])), re_lstat = (\<lambda>_ _. Inl ''absent''), re_content = (\<lambda>_ _. Inr []),
     re_digest = (\<lambda>bytes. bytes),
     re_clock = (\<lambda>_. ''2026-01-02T03:04:05.000006Z''), re_run_id = (\<lambda>_. ''RUN-20260102T030405Z-0123456789ab''),
     re_token = (\<lambda>_. ''0f''), re_fault = (\<lambda>_. None), re_written = (\<lambda>_. 0), re_disturb = (\<lambda>_ s. s),
     re_parent = (\<lambda>_. SameParent), re_cwd = [''tmp''], re_resolve = (\<lambda>_ p. Inr p), re_resolve_strict = (\<lambda>_ p. Inr p), re_exists = (\<lambda>_ p. length p \<le> 1),
     re_is_dir = (\<lambda>_ _. True), re_is_symlink = (\<lambda>_ _. False), re_ident = (\<lambda>_ p. Inr (length p)), re_renameat2 = True\<rparr>"

definition demo_world :: run_world where
  "demo_world = \<lparr>w_time = 0, w_fs = \<lparr>d_names = [(''old'', 1)], d_files = [(1, [])]\<rparr>, w_created = False, w_fd = None, w_published = False\<rparr>"

definition demo_bundle :: run_bundle where
  "demo_bundle = \<lparr>b_run_id = ''RUN-20260102T030405Z-0123456789ab'', b_raw_task = ''task'', b_task_id = JStr ''DEMO-001'',
     b_task_digest = ''d'', b_source_revision = ''r'', b_state_sha256 = ''s'', b_started_at = ''2026-01-02T03:04:05.000006Z'',
     b_completed_at = ''2026-01-02T03:04:05.000007Z'', b_run_result = [], b_handoff = demo_handoff\<rparr>"

definition demo_files :: "(string \<times> string) list" where
  "demo_files = [(''task.yml'', ''t''), (''handoff.json'', ''h''), (''validation.json'', ''v''), (''run-result.json'', ''r'')]"

lemma demo_calm: "calm demo_run_env"
  by (simp add: calm_def quiet_env_def demo_run_env_def)


text \<open>
  C31: publication makes progress. When no system call fails, the parent directory stays the same, the
  guard passes and the target is free, the four files are published and nothing is raised.
\<close>

theorem publish_live:
  assumes "calm env" "quiet_run pre_publish_guard" "\<And>w. \<exists>w'. pre_publish_guard w = (Inr (), w')"
    "publishable (names_of w) s F" "t \<notin> set (keys_of (names_of w))" "s \<noteq> t"
  shows "\<exists>w' fd. publish_staged env F s t display pre_publish_guard w = (Inr (), w') \<and>
     names_of w' = dict_set t fd (names_of w) \<and> map_of (files_of w' fd) = map_of F"
  using publish_staged_live [OF assms, of display] by (auto simp: in_place_def holds_files_def)

theorem publish_live_witness:
  "\<exists>w' fd. publish_staged demo_run_env demo_files ''.agent-run-staging-0f'' ''RUN'' ''artifacts/RUN'' (retR ()) demo_world = (Inr (), w') \<and>
     names_of w' = dict_set ''RUN'' fd (names_of demo_world) \<and> map_of (files_of w' fd) = map_of demo_files"
proof (rule publish_live [OF demo_calm quiet_retR])
  show "\<exists>w'. retR () w = (Inr (), w')" for w by (simp add: retR_def)
  show "publishable (names_of demo_world) ''.agent-run-staging-0f'' demo_files"
    by (simp add: publishable_def demo_world_def demo_files_def EVIDENCE_FILES_def)
qed (simp_all add: demo_world_def)

lemma bindR_Inr: "bindR m f w = (Inr b, w') \<longleftrightarrow> (\<exists>a w1. m w = (Inr a, w1) \<and> f a w1 = (Inr b, w'))"
  by (auto simp: bindR_def split: prod.splits sum.splits)

lemma look_Inr: "look env probe p w = (Inr b, w') \<Longrightarrow> \<exists>t. b = probe t p"
  by (auto simp: look_def bindR_Inr tick_def retR_def)

lemma os_lookup_Inr: "os_lookup env probe p w = (Inr b, w') \<Longrightarrow> \<exists>t. probe t p = Inr b"
  by (auto simp: os_lookup_def bindR_Inr tick_def retR_def raiseR_def split: sum.splits)

lemma whenR_Inr: "whenR c e w = (Inr b, w') \<longleftrightarrow> \<not> c \<and> w' = w"
  by (auto simp: whenR_def)

lemma no_symlink_from_Inr:
  "no_symlink_from env p w = (Inr u, w') \<Longrightarrow> n \<le> length p \<Longrightarrow> \<exists>t. \<not> re_is_symlink env t (take n p)"
proof (induction env p arbitrary: w rule: no_symlink_from.induct)
  case (1 env p)
  from 1(2) obtain link w1 where link: "look env (re_is_symlink env) p w = (Inr link, w1)" "\<not> link"
    and rest: "(if p = [] then retR () else no_symlink_from env (butlast p)) w1 = (Inr u, w')"
    by (subst (asm) no_symlink_from.simps) (auto simp: bindR_Inr whenR_Inr)
  show ?case
  proof (cases "n = length p")
    case True
    then show ?thesis using look_Inr [OF link(1)] link(2) by auto
  next
    case False
    then have "p \<noteq> []" "n \<le> length (butlast p)" "take n (butlast p) = take n p"
      using 1(3) by (auto simp: butlast_conv_take)
    then show ?thesis using 1(1) [of w1] rest by auto
  qed
qed

lemma repo_contains_False:
  assumes res: "\<And>t p. re_resolve env t p = res p" "\<And>p q. res p = Inr q \<Longrightarrow> res q = Inr q"
    and "res root' = Inr repo" "res p = Inr q" "repo_contains env repo q w = (Inr False, w')"
  shows "\<not> inside repo q"
proof -
  have "res q = Inr q" "res repo = Inr repo" using assms(2-4) by auto
  then have "repo_contains env repo q w = (Inr (inside repo q), snd (repo_contains env repo q w))"
    by (simp add: repo_contains_def catchR_def bindR_def os_lookup_def tick_def retR_def res(1))
  then show ?thesis using assms(5) by (metis prod.inject sum.inject(2))
qed

text \<open>
  A custom output directory is outside the repository. \<^verbatim>\<open>validate_output_dir\<close> accepts a directory only if,
  as the calls saw it, it resolves outside the resolved root, does not exist, is below an existing
  directory, and no component of its path up to the root directory is a symbolic link.
\<close>

lemma validate_output_dir_safe:
  assumes "validate_output_dir env output_dir w = (Inr p, w')"
    and "\<And>t p. re_resolve env t p = res p" "\<And>p q. res p = Inr q \<Longrightarrow> res q = Inr q"
  shows "\<exists>repo q. res (fs_root (ae_fs (re_agent env))) = Inr repo \<and> res p = Inr q \<and> \<not> inside repo q \<and>
     (\<exists>t. \<not> re_exists env t p) \<and> (\<exists>t. re_is_dir env t (butlast p)) \<and>
     (\<forall>n \<le> length p. \<exists>t. \<not> re_is_symlink env t (take n p))"
proof -
  obtain repo q w1 w2 w3 w4 w5 w6 w7 w8 w9 there link in_repo u where
    repo: "os_lookup env (re_resolve env) (fs_root (ae_fs (re_agent env))) w = (Inr repo, w1)"
    and q: "os_lookup env (re_resolve env) p w1 = (Inr q, w2)"
    and in_repo: "(if q = repo then retR True else repo_contains env repo q) w2 = (Inr in_repo, w3)" "\<not> in_repo"
    and link: "look env (re_is_symlink env) p w3 = (Inr link, w4)" "\<not> link"
    and parent: "look env (re_is_dir env) (butlast p) w5 = (Inr True, w6)"
    and parents: "ensure_no_symlink_parents env p w6 = (Inr u, w7)"
    and gone: "look env (re_exists env) p w7 = (Inr there, w8)" "\<not> there"
    using assms(1)
    by (auto simp: validate_output_dir_def Let_def bindR_Inr whenR_Inr raiseR_def retR_def split: if_splits)
  have "res (fs_root (ae_fs (re_agent env))) = Inr repo" "res p = Inr q"
    using os_lookup_Inr [OF repo] os_lookup_Inr [OF q] assms(2) by auto
  moreover have "\<not> inside repo q"
    using repo_contains_False [OF assms(2,3) calculation] in_repo by (auto simp: retR_def split: if_splits)
  moreover have "\<exists>t. \<not> re_is_symlink env t (take n p)" if "n \<le> length p" for n
  proof (cases "n = length p")
    case True
    then show ?thesis using look_Inr [OF link(1)] link(2) by auto
  next
    case False
    obtain b w9 where "no_symlink_from env (if b then p else butlast p) w9 = (Inr u, w7)"
      using parents by (auto simp: ensure_no_symlink_parents_def bindR_Inr)
    moreover have "n \<le> length (butlast p)" "take n (butlast p) = take n p"
      using False that by (auto simp: butlast_conv_take)
    ultimately show ?thesis
      using that no_symlink_from_Inr [of env _ w9 u w7 n] by (metis (full_types))
  qed
  ultimately show ?thesis
    using look_Inr [OF gone(1)] gone(2) look_Inr [OF parent] by (metis (full_types))
qed

end
