(* ===== verification/Prefix_Code.thy ===== *)
theory Prefix_Code
  imports Py_Prelude
begin

text \<open>
  Length-prefixed records, as the programs feed them to a hash: the big-endian length of a part, then the part. The locale
  \<open>prefix_code\<close> is the contract of such an encoding, that a record can be read off the front of the bytes; whatever is a list of
  records then has an injective encoding.
\<close>

text \<open>\<^verbatim>\<open>n.to_bytes(w, "big")\<close>, for \<open>n < 256 ^ w\<close>.\<close>

definition be :: "nat \<Rightarrow> nat \<Rightarrow> string" where
  "be w n = map (\<lambda>i. char_of (n div 256 ^ (w - 1 - i))) [0..<w]"

text \<open>For evaluation the digits are computed on integers.\<close>

lemma be_code [code]: "be w n = map (\<lambda>i. char_of (int n div 256 ^ (w - 1 - i))) [0..<w]"
proof -
  have "int n div 256 ^ j = int (n div 256 ^ j)" for j by (simp add: zdiv_int)
  then show ?thesis by (simp add: be_def)
qed

lemma length_be [simp]: "length (be w n) = w"
  by (simp add: be_def)

lemma be_inj:
  assumes "be w m = be w n" "m < 256 ^ w" "n < 256 ^ w"
  shows "m = n"
proof -
  have digit: "m div 256 ^ j mod 256 = n div 256 ^ j mod 256" if "j < w" for j
  proof -
    have "be w m ! (w - 1 - j) = be w n ! (w - 1 - j)" using assms(1) by simp
    then have "(char_of (m div 256 ^ j) :: char) = char_of (n div 256 ^ j)"
      using that by (simp add: be_def)
    then show ?thesis by (simp only: char_of_eq_iff) (simp add: take_bit_eq_mod)
  qed
  have "m mod 256 ^ k = n mod 256 ^ k" if "k \<le> w" for k
    using that
  proof (induction k)
    case (Suc k)
    then show ?case using digit [of k] by (simp add: mod_mult2_eq mult.commute [of 256])
  qed simp
  from this [of w] show ?thesis using assms(2,3) by simp
qed

locale prefix_code =
  fixes enc :: "'a \<Rightarrow> string" and ok :: "'a \<Rightarrow> bool"
  assumes enc_prefix: "enc a @ x = enc b @ y \<Longrightarrow> ok a \<Longrightarrow> ok b \<Longrightarrow> a = b \<and> x = y"
    and enc_nonempty: "enc a \<noteq> []"
begin

lemma enc_inj: "enc a = enc b \<Longrightarrow> ok a \<Longrightarrow> ok b \<Longrightarrow> a = b"
  using enc_prefix [of a "[]" b "[]"] by simp

lemma concat_prefix:
  "concat (map enc xs) @ x = concat (map enc ys) @ y \<Longrightarrow> length xs = length ys \<Longrightarrow> list_all ok xs \<Longrightarrow> list_all ok ys \<Longrightarrow>
     xs = ys \<and> x = y"
proof (induction xs ys rule: list_induct2')
  case (4 a xs b ys)
  have "a = b \<and> concat (map enc xs) @ x = concat (map enc ys) @ y"
    by (rule enc_prefix) (use 4 in simp_all)
  with 4 show ?case by simp
qed simp_all

lemma concat_inj:
  "concat (map enc xs) = concat (map enc ys) \<Longrightarrow> list_all ok xs \<Longrightarrow> list_all ok ys \<Longrightarrow> xs = ys"
proof (induction xs ys rule: list_induct2')
  case (4 a xs b ys)
  have "a = b \<and> concat (map enc xs) = concat (map enc ys)"
    by (rule enc_prefix) (use 4 in simp_all)
  with 4 show ?case by simp
qed (simp_all add: enc_nonempty)

end

text \<open>A part behind its length in \<open>w\<close> bytes.\<close>

definition sized_part :: "nat \<Rightarrow> string \<Rightarrow> string" where
  "sized_part w s = be w (length s) @ s"

lemma sized_part_prefix:
  assumes "sized_part w a @ x = sized_part w b @ y" "length a < 256 ^ w" "length b < 256 ^ w"
  shows "a = b \<and> x = y"
proof -
  have "be w (length a) = be w (length b)" "a @ x = b @ y"
    using assms(1) by (simp_all add: sized_part_def)
  then show ?thesis using be_inj assms(2,3) by (metis append_eq_append_conv)
qed

interpretation part8: prefix_code "sized_part 8" "\<lambda>s. length s < 2 ^ 64"
proof
  show "a = b \<and> x = y" if "sized_part 8 a @ x = sized_part 8 b @ y" "length a < 2 ^ 64" "length b < 2 ^ 64" for a b x y
    using sized_part_prefix [OF that(1)] that(2,3) by simp
  show "sized_part 8 a \<noteq> []" for a by (auto simp: sized_part_def dest: arg_cong [of _ _ length])
qed

text \<open>A labelled part: the label in front, with its own length.\<close>

definition labelled_part :: "nat \<Rightarrow> nat \<Rightarrow> string \<times> string \<Rightarrow> string" where
  "labelled_part v w p = sized_part v (fst p) @ sized_part w (snd p)"

definition labelled_ok :: "nat \<Rightarrow> nat \<Rightarrow> string \<times> string \<Rightarrow> bool" where
  "labelled_ok v w p \<longleftrightarrow> length (fst p) < 256 ^ v \<and> length (snd p) < 256 ^ w"

lemma labelled_part_prefix:
  assumes "labelled_part v w p @ x = labelled_part v w q @ y" "labelled_ok v w p" "labelled_ok v w q"
  shows "p = q \<and> x = y"
proof -
  have 1: "fst p = fst q \<and> sized_part w (snd p) @ x = sized_part w (snd q) @ y"
    by (rule sized_part_prefix [of v]) (use assms in \<open>simp_all add: labelled_part_def labelled_ok_def\<close>)
  then have "snd p = snd q \<and> x = y"
    by (intro sized_part_prefix [of w]) (use assms in \<open>simp_all add: labelled_ok_def\<close>)
  with 1 show ?thesis by (simp add: prod_eq_iff)
qed

end
