(* ===== verification/Git_State.thy ===== *)
theory Git_State
  imports Publish_Atomic Prefix_Code
begin

text \<open>
  The fingerprint of the repository in \<^verbatim>\<open>scripts/agent/run_task.py\<close>: Git's head, the two diffs and every
  untracked file go into one SHA-256 digest (\<^verbatim>\<open>repository_state_bytes\<close>). The records are length-prefixed:
  \<open>fingerprint_injective\<close> shows that the bytes that are hashed determine the state they were made of.
\<close>

section \<open>Asking Git\<close>

text \<open>\<^verbatim>\<open>subprocess.run\<close>: an \<^verbatim>\<open>OSError\<close> or a timeout (\<open>Inl\<close>), or return code and output.\<close>

definition run_git :: "run_env \<Rightarrow> string \<Rightarrow> string list \<Rightarrow> (int \<times> string) run" where
  "run_git env code arguments =
     bindR (tick env) (\<lambda>t. case re_git env t arguments of Inl msg \<Rightarrow> raiseR (RunnerError code msg) | Inr out \<Rightarrow> retR out)"

definition runner_error_when_os :: "string \<Rightarrow> 'a run \<Rightarrow> 'a run" where
  "runner_error_when_os code m =
     catchR m (\<lambda>e. case e of PyErr (OSError msg) \<Rightarrow> raiseR (RunnerError code msg) | _ \<Rightarrow> raiseR e)"

definition resolve_git_toplevel :: "run_env \<Rightarrow> path \<Rightarrow> path run" where
  "resolve_git_toplevel env repo_root =
     bindR (run_git env ''SOURCE_REVISION_UNAVAILABLE'' [''rev-parse'', ''--show-toplevel'']) (\<lambda>(returncode, stdout).
     bindR (whenR (returncode \<noteq> 0) (RunnerError ''SOURCE_REVISION_UNAVAILABLE'' ''Unable to resolve Git repository root'')) (\<lambda>_.
     bindR (runner_error_when_os ''SOURCE_REVISION_UNAVAILABLE''
       (bindR (os_lookup env (re_resolve_strict env) (path_parts (strip stdout))) (\<lambda>observed.
        bindR (os_lookup env (re_resolve_strict env) repo_root) (\<lambda>expected.
        retR (observed, expected))))) (\<lambda>(observed, expected).
     bindR (whenR (observed \<noteq> expected)
        (RunnerError ''GIT_REPOSITORY_MISMATCH'' ''Git commands resolved a repository other than repo_root'')) (\<lambda>_.
     retR observed))))"

definition resolve_git_head :: "run_env \<Rightarrow> path \<Rightarrow> string run" where
  "resolve_git_head env repo_root =
     bindR (resolve_git_toplevel env repo_root) (\<lambda>_.
     bindR (run_git env ''SOURCE_REVISION_UNAVAILABLE'' [''rev-parse'', ''--verify'', ''HEAD'']) (\<lambda>(returncode, stdout).
     let revision = strip stdout in
     bindR (whenR (returncode \<noteq> 0 \<or> re_fullmatch SOURCE_REVISION_RE revision = None)
        (RunnerError ''SOURCE_REVISION_UNAVAILABLE'' ''Unable to resolve current Git HEAD'')) (\<lambda>_.
     bindR (whenR (revision = replicate 40 CHR ''0'') (RunnerError ''SOURCE_REVISION_UNAVAILABLE'' ''Git HEAD is invalid'')) (\<lambda>_.
     retR revision))))"

definition git_output :: "run_env \<Rightarrow> string list \<Rightarrow> string run" where
  "git_output env arguments =
     bindR (run_git env ''GIT_STATE_UNAVAILABLE'' arguments) (\<lambda>(returncode, stdout).
     bindR (whenR (returncode \<noteq> 0) (RunnerError ''GIT_STATE_UNAVAILABLE''
        (''Unable to read Git-visible repository state: '' @ join '' '' arguments))) (\<lambda>_.
     retR stdout))"

section \<open>Records\<close>

text \<open>A part of a record behind its length in eight bytes; a length is below \<open>2 ^ 64\<close>.\<close>

definition hash_part :: "string \<Rightarrow> string" where
  "hash_part part = be 8 (length part) @ part"

definition hash_record :: "string \<Rightarrow> string \<Rightarrow> string" where
  "hash_record label payload = hash_part label @ hash_part payload"

text \<open>\<^verbatim>\<open>stat.S_IFMT\<close> and \<^verbatim>\<open>stat.S_IMODE\<close>.\<close>

definition S_IFMT :: "nat \<Rightarrow> nat" where
  "S_IFMT mode = (mode div 4096) mod 16 * 4096"

definition S_IMODE :: "nat \<Rightarrow> nat" where
  "S_IMODE mode = mode mod 4096"

definition untracked_record :: "run_env \<Rightarrow> string \<Rightarrow> (string \<times> string \<times> string) run" where
  "untracked_record env raw_path =
     bindR (catchR
       (bindR (bindR (tick env) (\<lambda>t. case re_lstat env t raw_path of Inl msg \<Rightarrow> raiseR (PyErr (OSError msg)) | Inr s \<Rightarrow> retR s)) (\<lambda>before.
        bindR (let fmt = S_IFMT (st_mode before) in
               if fmt = 40960 \<or> fmt = 32768 then
                 bindR (tick env) (\<lambda>t. case re_content env t raw_path of
                     Inl msg \<Rightarrow> raiseR (PyErr (OSError msg))
                   | Inr content \<Rightarrow> retR (if fmt = 40960 then ''symlink'' else ''file'', re_digest env content))
               else retR (''special:'' @ octal fmt, re_digest env [])) (\<lambda>(file_kind, content_digest).
        bindR (bindR (tick env) (\<lambda>t. case re_lstat env t raw_path of Inl msg \<Rightarrow> raiseR (PyErr (OSError msg)) | Inr s \<Rightarrow> retR s)) (\<lambda>after.
        retR (before, file_kind, content_digest, after)))))
       (\<lambda>e. case e of
          PyErr (OSError _) \<Rightarrow> raiseR (RunnerError ''GIT_STATE_UNAVAILABLE'' (''Unable to fingerprint untracked path: '' @ fsdecode raw_path))
        | _ \<Rightarrow> raiseR e))
     (\<lambda>(before, file_kind, content_digest, after).
     bindR (whenR (before \<noteq> after)
        (RunnerError ''GIT_STATE_UNAVAILABLE'' (''Untracked path changed while fingerprinting: '' @ fsdecode raw_path))) (\<lambda>_.
     retR (file_kind, octal (S_IMODE (st_mode before)), content_digest)))"

definition untracked_bytes :: "string \<times> string \<times> string \<times> string \<Rightarrow> string" where
  "untracked_bytes r = (case r of (raw_path, file_kind, mode, content_digest) \<Rightarrow>
     hash_record ''untracked-path'' raw_path @ hash_record ''untracked-kind'' file_kind @
     hash_record ''untracked-mode'' mode @ hash_record ''untracked-content-sha256'' content_digest)"

text \<open>Everything that \<^verbatim>\<open>hasher.update\<close> receives.\<close>

definition fingerprint_input :: "string \<Rightarrow> string \<Rightarrow> string \<Rightarrow> (string \<times> string \<times> string \<times> string) list \<Rightarrow> string" where
  "fingerprint_input head index_diff worktree_diff untracked =
     hash_record ''head'' head @ hash_record ''index-diff'' index_diff @ hash_record ''worktree-diff'' worktree_diff @
     concat (map untracked_bytes untracked)"

fun untracked_records :: "run_env \<Rightarrow> string list \<Rightarrow> (string \<times> string \<times> string \<times> string) list run" where
  "untracked_records env [] = retR []"
| "untracked_records env (p # ps) =
     bindR (untracked_record env p) (\<lambda>r. bindR (untracked_records env ps) (\<lambda>rs. retR ((p, r) # rs)))"

definition repository_state_bytes :: "run_env \<Rightarrow> path \<Rightarrow> string run" where
  "repository_state_bytes env repo_root =
     bindR (os_lookup env (re_resolve env) repo_root) (\<lambda>doc_root.
     bindR (resolve_git_head env doc_root) (\<lambda>head_before.
     bindR (git_output env [''diff'', ''--cached'', ''--no-ext-diff'', ''--no-textconv'', ''--binary'', ''--full-index'', ''HEAD'', ''--'']) (\<lambda>index_diff.
     bindR (git_output env [''diff'', ''--no-ext-diff'', ''--no-textconv'', ''--binary'', ''--full-index'', ''--'']) (\<lambda>worktree_diff.
     bindR (git_output env [''ls-files'', ''--others'', ''--exclude-per-directory=.gitignore'', ''-z'']) (\<lambda>untracked_raw.
     bindR (untracked_records env (sort (filter (\<lambda>p. p \<noteq> []) (split_char CHR 0x00 untracked_raw)))) (\<lambda>untracked.
     bindR (resolve_git_head env doc_root) (\<lambda>head_after.
     bindR (whenR (head_before \<noteq> head_after)
        (RunnerError ''GIT_STATE_UNAVAILABLE'' ''Git HEAD changed while fingerprinting repository state'')) (\<lambda>_.
     retR (re_digest env (fingerprint_input head_before index_diff worktree_diff untracked))))))))))"

section \<open>The encoding\<close>

lemma hash_part_prefix:
  "hash_part a @ x = hash_part b @ y \<Longrightarrow> length a < 2 ^ 64 \<Longrightarrow> length b < 2 ^ 64 \<Longrightarrow> a = b \<and> x = y"
  using part8.enc_prefix [of a x b y] by (simp add: hash_part_def sized_part_def)

text \<open>Every string the fingerprint is made of is shorter than \<open>2 ^ 64\<close> bytes.\<close>

definition sized :: "string \<Rightarrow> string \<Rightarrow> string \<Rightarrow> (string \<times> string \<times> string \<times> string) list \<Rightarrow> bool" where
  "sized head index_diff worktree_diff untracked \<longleftrightarrow>
     list_all (\<lambda>s. length s < 2 ^ 64) [head, index_diff, worktree_diff] \<and>
     list_all (\<lambda>(p, k, m, d). list_all (\<lambda>s. length s < 2 ^ 64) [p, k, m, d]) untracked"

lemma hash_record_inj:
  assumes "hash_record l a @ x = hash_record l b @ y" "length l < 2 ^ 64" "length a < 2 ^ 64" "length b < 2 ^ 64"
  shows "a = b \<and> x = y"
  using assms hash_part_prefix [of l "hash_part a @ x" l "hash_part b @ y"] hash_part_prefix [of a x b y]
  by (simp add: hash_record_def)

lemma untracked_bytes_inj:
  assumes "untracked_bytes r @ x = untracked_bytes q @ y"
    "list_all (\<lambda>(p, k, m, d). list_all (\<lambda>s. length s < 2 ^ 64) [p, k, m, d]) [r, q]"
  shows "r = q \<and> x = y"
proof -
  obtain p k m d where r: "r = (p, k, m, d)" by (cases r)
  obtain p' k' m' d' where q: "q = (p', k', m', d')" by (cases q)
  have bounds: "length p < 2 ^ 64" "length k < 2 ^ 64" "length m < 2 ^ 64" "length d < 2 ^ 64"
    "length p' < 2 ^ 64" "length k' < 2 ^ 64" "length m' < 2 ^ 64" "length d' < 2 ^ 64"
    using assms(2) by (simp_all add: r q)
  from assms(1) have 0: "hash_record ''untracked-path'' p @ hash_record ''untracked-kind'' k @ hash_record ''untracked-mode'' m @
      hash_record ''untracked-content-sha256'' d @ x =
    hash_record ''untracked-path'' p' @ hash_record ''untracked-kind'' k' @ hash_record ''untracked-mode'' m' @
      hash_record ''untracked-content-sha256'' d' @ y"
    by (simp add: untracked_bytes_def r q)
  note 1 = hash_record_inj [OF 0 _ bounds(1,5), simplified]
  note 2 = hash_record_inj [OF 1 [THEN conjunct2] _ bounds(2,6), simplified]
  note 3 = hash_record_inj [OF 2 [THEN conjunct2] _ bounds(3,7), simplified]
  note 4 = hash_record_inj [OF 3 [THEN conjunct2] _ bounds(4,8), simplified]
  show ?thesis using 1 2 3 4 r q by simp
qed

lemma untracked_bytes_nonempty: "untracked_bytes r \<noteq> []"
proof -
  have "8 \<le> length (untracked_bytes r)"
    by (cases r) (simp add: untracked_bytes_def hash_record_def hash_part_def)
  then show ?thesis by auto
qed

interpretation untracked_code: prefix_code untracked_bytes "\<lambda>(p, k, m, d). list_all (\<lambda>s. length s < 2 ^ 64) [p, k, m, d]"
proof
  show "r = q \<and> x = y" if "untracked_bytes r @ x = untracked_bytes q @ y"
    "case r of (p, k, m, d) \<Rightarrow> list_all (\<lambda>s. length s < 2 ^ 64) [p, k, m, d]"
    "case q of (p, k, m, d) \<Rightarrow> list_all (\<lambda>s. length s < 2 ^ 64) [p, k, m, d]" for r q x y
    by (rule untracked_bytes_inj [OF that(1)]) (use that(2,3) in simp)
  show "untracked_bytes r \<noteq> []" for r by (rule untracked_bytes_nonempty)
qed

text \<open>
  C13: the bytes that are hashed determine the repository state: two states with the same input to SHA-256
  have the same head, the same staged and unstaged differences and the same untracked files with their
  kinds, modes and content digests. No two different states can collide before the hash.
\<close>

theorem fingerprint_injective:
  assumes "sized head index worktree untracked" "sized head' index' worktree' untracked'"
    and "fingerprint_input head index worktree untracked = fingerprint_input head' index' worktree' untracked'"
  shows "head = head' \<and> index = index' \<and> worktree = worktree' \<and> untracked = untracked'"
proof -
  have bounds: "length head < 2 ^ 64" "length index < 2 ^ 64" "length worktree < 2 ^ 64"
    "length head' < 2 ^ 64" "length index' < 2 ^ 64" "length worktree' < 2 ^ 64"
    "list_all (\<lambda>(p, k, m, d). list_all (\<lambda>s. length s < 2 ^ 64) [p, k, m, d]) untracked"
    "list_all (\<lambda>(p, k, m, d). list_all (\<lambda>s. length s < 2 ^ 64) [p, k, m, d]) untracked'"
    using assms(1,2) by (simp_all add: sized_def)
  note 1 = hash_record_inj [OF assms(3) [unfolded fingerprint_input_def] _ bounds(1,4), simplified]
  note 2 = hash_record_inj [OF 1 [THEN conjunct2] _ bounds(2,5), simplified]
  note 3 = hash_record_inj [OF 2 [THEN conjunct2] _ bounds(3,6), simplified]
  show ?thesis using 1 2 3 untracked_code.concat_inj [OF _ bounds(7,8)] by blast
qed

theorem fingerprint_injective_witness:
  "fingerprint_input ''a'' ''bc'' '''' [(''p'', ''file'', ''644'', ''d'')] \<noteq> fingerprint_input ''a'' ''b'' ''c'' [(''p'', ''file'', ''644'', ''d'')]"
proof
  assume "fingerprint_input ''a'' ''bc'' '''' [(''p'', ''file'', ''644'', ''d'')] = fingerprint_input ''a'' ''b'' ''c'' [(''p'', ''file'', ''644'', ''d'')]"
  from fingerprint_injective [OF _ _ this] show False by (simp add: sized_def)
qed

end
