(* ===== verification/Run_Task.thy ===== *)
theory Run_Task
  imports Git_State
begin

text \<open>
  The dry-run runner of \<^verbatim>\<open>scripts/agent/run_task.py\<close>: loading and checking the task contract, the execution
  plan, the generated handoff, the checks that the repository did not change, persistence, and the command
  line.

  \<open>dry_run\<close> is \<^verbatim>\<open>_run_dry_run\<close>, with its two callables as arguments; \<open>run_dry_run\<close> supplies those of
  \<open>Git_State\<close>.
\<close>

section \<open>Stages and results\<close>

record dry_run_outcome =
  o_result :: jobject
  o_exit_code :: int

definition stage_status :: "(string, string) dict \<Rightarrow> string \<Rightarrow> string \<Rightarrow> string option \<Rightarrow> (string, string) dict" where
  "stage_status current name status message =
     (let d = dict_set name status current in
      case message of None \<Rightarrow> d | Some m \<Rightarrow> dict_set (name @ '':message'') m d)"

definition render_stages :: "(string, string) dict \<Rightarrow> json" where
  "render_stages statuses =
     JList (map (\<lambda>name.
        let status = (case map_of statuses name of Some s \<Rightarrow> s | None \<Rightarrow> ''not_run'');
            message = (case map_of statuses (name @ '':message'') of Some m \<Rightarrow> m | None \<Rightarrow> [])
        in JDict ([(''name'', JStr name), (''status'', JStr status)] @ (if message = [] then [] else [(''message'', JStr message)])))
      STAGE_NAMES)"

definition passed :: "string list \<Rightarrow> (string, string) dict" where
  "passed names = foldl (\<lambda>d name. stage_status d name ''passed'' None) [] names"

definition finding_json :: "finding \<Rightarrow> json" where
  "finding_json f = JDict ([(''code'', JStr (f_code f)), (''message'', JStr (f_message f))] @
     (case f_field f of None \<Rightarrow> [] | Some x \<Rightarrow> [(''field'', JStr x)]))"

section \<open>Loading\<close>

definition resolve_task_path :: "repo_fs \<Rightarrow> string \<Rightarrow> run_exc + path \<times> string" where
  "resolve_task_path fs value =
     (let raw_text = normalize_path value in
      if rooted raw_text then Inl (RunnerError ''TASK_PATH_INVALID'' ''Task path must be repository-relative'')
      else if ''..'' \<in> set (path_parts raw_text) then
        Inl (RunnerError ''TASK_PATH_INVALID'' ''Task path must not contain empty, current, or parent segments'')
      else (case fs_resolve fs (fs_root fs) of
          Inl e \<Rightarrow> Inl (PyErr e)
        | Inr r \<Rightarrow>
            (let candidate = fs_root fs @ path_parts raw_text;
                 outside = Inl (RunnerError ''TASK_PATH_INVALID'' ''Task path resolves outside repository root'') in
             case fs_resolve fs candidate of
               Inl (OSError _) \<Rightarrow> outside
             | Inl (RuntimeError _) \<Rightarrow> outside
             | Inl (ValueError _) \<Rightarrow> outside
             | Inl e \<Rightarrow> Inl (PyErr e)
             | Inr resolved \<Rightarrow>
                 if \<not> inside r resolved then outside
                 else if \<not> fs_is_file fs candidate then
                   Inl (RunnerError ''TASK_FILE_NOT_FOUND'' (''Task file not found: '' @ raw_text))
                 else Inr (candidate, raw_text))))"

definition load_task_bytes :: "agent_env \<Rightarrow> path \<Rightarrow> run_exc + string \<times> string \<times> json" where
  "load_task_bytes env task_path =
     (case fs_read_bytes (ae_fs env) task_path of
        Inl (OSError msg) \<Rightarrow> Inl (RunnerError ''TASK_FILE_UNREADABLE'' msg)
      | Inl e \<Rightarrow> Inl (PyErr e)
      | Inr raw_task \<Rightarrow>
          (case utf8_decode raw_task of
             None \<Rightarrow> Inl (RunnerError ''TASK_UTF8_INVALID'' ''Task file must be valid UTF-8'')
           | Some task_text \<Rightarrow>
               (case loads_json_strict (ae_json_loads env) task_text of
                  Inl (DuplicateKeyError msg) \<Rightarrow> Inl (RunnerError ''TASK_JSON_DUPLICATE_KEY'' msg)
                | Inl (JSONDecodeError msg) \<Rightarrow> Inl (RunnerError ''TASK_JSON_INVALID'' (''JSON parse error: '' @ msg))
                | Inl e \<Rightarrow> Inl (PyErr e)
                | Inr task \<Rightarrow> Inr (raw_task, ae_sha256 env raw_task, task))))"

definition runner_load_task_schema :: "agent_env \<Rightarrow> run_exc + jobject" where
  "runner_load_task_schema env =
     (case load_json_strict env (fs_root (ae_fs env) @ [''contracts'', ''agent'', ''task.schema.json'']) of
        Inr (JDict d) \<Rightarrow> Inr d
      | Inr _ \<Rightarrow> Inl (RunnerError ''CONTRACT_SCHEMA_INVALID'' ''Task schema must be an object'')
      | Inl (OSError msg) \<Rightarrow> Inl (RunnerError ''CONTRACT_SCHEMA_INVALID'' msg)
      | Inl (JSONDecodeError msg) \<Rightarrow> Inl (RunnerError ''CONTRACT_SCHEMA_INVALID'' msg)
      | Inl (DuplicateKeyError msg) \<Rightarrow> Inl (RunnerError ''CONTRACT_SCHEMA_INVALID'' msg)
      | Inl e \<Rightarrow> Inl (PyErr e))"

definition runner_schema_findings :: "agent_env \<Rightarrow> json \<Rightarrow> jobject \<Rightarrow> run_exc + finding list" where
  "runner_schema_findings env task schema =
     (case validate_instance (ae_re env) (ae_stack env) task (JDict schema) [] ''$'' of
        Inl (UnsupportedSchemaError msg) \<Rightarrow> Inl (RunnerError ''CONTRACT_SCHEMA_UNSUPPORTED'' msg)
      | Inl e \<Rightarrow> Inl (PyErr e)
      | Inr violations \<Rightarrow>
          Inr (map (\<lambda>v. let field = removeprefix (v_path v) ''$.'' in
             mk_finding ''TASK_SCHEMA_INVALID'' (v_message v) (if field \<noteq> ''$'' then Some field else None)) violations))"

definition py_exc :: "py_error + 'a \<Rightarrow> run_exc + 'a" where
  "py_exc r = (case r of Inl e \<Rightarrow> Inl (PyErr e) | Inr a \<Rightarrow> Inr a)"

definition runner_load_claim_registry :: "agent_env \<Rightarrow> run_exc + jobject" where
  "runner_load_claim_registry env =
     bindE (py_exc (load_registry (plain_loads env) (ae_fs env) (fs_root (ae_fs env) @ [''docs'', ''claims'', ''registry.yml''])))
       (\<lambda>(data, parser_findings, parser_exit).
     if parser_exit \<noteq> 0 \<or> data = None \<or> data = Some JNull then
       Inl (if parser_findings \<noteq> [] \<and> rf_code (hd parser_findings) \<noteq> ''REGISTRY_MISSING''
            then RunnerError ''CLAIM_REGISTRY_INVALID'' (rf_message (hd parser_findings))
            else RunnerError ''CLAIM_REGISTRY_NOT_FOUND'' ''Claim registry not found'')
     else
       bindE (py_exc (validate_registry_data (ae_fs env) (the data))) (\<lambda>registry_findings.
       if registry_findings \<noteq> [] then Inl (RunnerError ''CLAIM_REGISTRY_INVALID'' (rf_message (hd registry_findings)))
       else (case the data of
           JDict d \<Rightarrow> Inr d
         | _ \<Rightarrow> Inl (RunnerError ''CLAIM_REGISTRY_INVALID'' ''Claim registry must be an object''))))"

definition validate_source_revision :: "string \<Rightarrow> run_exc + unit" where
  "validate_source_revision source_revision =
     raise_when (re_fullmatch SOURCE_REVISION_RE source_revision = None)
       (RunnerError ''SOURCE_REVISION_INVALID'' ''Source revision must be the current 40-character lowercase Git HEAD'')"

definition assert_repository_unchanged :: "string run \<Rightarrow> string \<Rightarrow> unit run" where
  "assert_repository_unchanged state_reader before_state =
     bindR state_reader (\<lambda>now. whenR (before_state \<noteq> now)
       (RunnerError ''REPO_MUTATED_DURING_DRY_RUN'' ''Git-visible repository content changed during dry run''))"

section \<open>Plan, accounting, handoff\<close>

text \<open>\<^verbatim>\<open>list(x)\<close> and \<^verbatim>\<open>set(x)\<close> of a JSON value.\<close>

definition py_list :: "json \<Rightarrow> run_exc + json list" where
  "py_list v =
     (case v of
        JList xs \<Rightarrow> Inr xs
      | JStr s \<Rightarrow> Inr (map (\<lambda>c. JStr [c]) s)
      | JDict d \<Rightarrow> Inr (map (\<lambda>p. JStr (fst p)) d)
      | _ \<Rightarrow> Inl (PyErr TypeError))"

definition hashable :: "json \<Rightarrow> bool" where
  "hashable v = (case v of JList _ \<Rightarrow> False | JDict _ \<Rightarrow> False | _ \<Rightarrow> True)"

definition py_set :: "json \<Rightarrow> run_exc + json list" where
  "py_set v = bindE (py_list v) (\<lambda>xs. bindE (raise_when (\<not> list_all hashable xs) (PyErr TypeError)) (\<lambda>_. Inr xs))"

definition set_minus :: "json list \<Rightarrow> json list \<Rightarrow> json list" where
  "set_minus xs ys = filter (\<lambda>x. \<not> list_ex (py_eq x) ys) xs"

definition get_default :: "jobject \<Rightarrow> string \<Rightarrow> json \<Rightarrow> json" where
  "get_default d k v = (case map_of d k of None \<Rightarrow> v | Some x \<Rightarrow> x)"

definition list_item :: "jobject \<Rightarrow> string \<Rightarrow> run_exc + json" where
  "list_item d k = bindE (item d k) (\<lambda>v. bindE (py_list v) (\<lambda>xs. Inr (JList xs)))"

definition execution_plan :: "jobject \<Rightarrow> run_exc + jobject" where
  "execution_plan task =
     bindE (list_item task ''allowed_paths'') (\<lambda>allowed.
     bindE (list_item task ''forbidden_paths'') (\<lambda>forbidden.
     bindE (item task ''delete_allowed'') (\<lambda>delete_allowed.
     Inr [(''allowed_paths'', allowed), (''forbidden_paths'', forbidden), (''delete_allowed'', JBool (truthy delete_allowed)),
          (''planned_changed_paths'', JList []), (''planned_deleted_paths'', JList [])])))"

definition evidence_accounting :: "jobject \<Rightarrow> run_exc + jobject" where
  "evidence_accounting task =
     bindE (list_item task ''expected_evidence'') (\<lambda>expected.
     bindE (list_item task ''expected_evidence'') (\<lambda>missing.
     Inr [(''expected_evidence'', expected), (''evidence_produced'', JList []), (''missing_evidence'', missing)]))"

definition validate_evidence_accounting :: "jobject \<Rightarrow> jobject \<Rightarrow> run_exc + unit" where
  "validate_evidence_accounting task accounting =
     bindE (bindE (item task ''expected_evidence'') py_set) (\<lambda>expected.
     bindE (py_set (get_default accounting ''evidence_produced'' (JList []))) (\<lambda>produced.
     bindE (py_set (get_default accounting ''missing_evidence'' (JList []))) (\<lambda>missing.
     bindE (raise_when (set_minus (set_minus expected produced) missing \<noteq> [])
       (RunnerError ''EVIDENCE_ACCOUNTING_INCOMPLETE'' ''Expected evidence is not fully accounted'')) (\<lambda>_.
     raise_when (set_minus missing expected \<noteq> [])
       (RunnerError ''EVIDENCE_ACCOUNTING_INVALID'' ''Missing evidence contains entries not required by the task'')))))"

definition PRODUCER :: string where
  "PRODUCER = ''scripts.agent.run_task''"

definition handoff_id :: "json \<Rightarrow> string \<Rightarrow> string" where
  "handoff_id task_id task_digest = ''DRY-RUN-'' @ py_str task_id @ ''-'' @ upper (take 12 task_digest)"

definition dry_run_handoff :: "jobject \<Rightarrow> string \<Rightarrow> string \<Rightarrow> run_exc + jobject" where
  "dry_run_handoff task task_digest source_revision =
     bindE (item task ''task_id'') (\<lambda>task_id.
     bindE (list_item task ''claims'') (\<lambda>claims.
     bindE (list_item task ''expected_evidence'') (\<lambda>expected.
     bindE (bindE (item task ''validation_commands'') py_list) (\<lambda>commands.
     Inr [(''handoff_id'', JStr (handoff_id task_id task_digest)), (''task_id'', task_id),
          (''task_contract_sha256'', JStr task_digest), (''source_revision'', JStr source_revision),
          (''producer'', JStr PRODUCER), (''outcome'', JStr ''incomplete''),
          (''changed_paths'', JList []), (''deleted_paths'', JList []),
          (''claims_addressed'', claims), (''evidence_produced'', JList []), (''missing_evidence'', expected),
          (''validation_results'', JList (map (\<lambda>c. JDict [(''command'', c), (''status'', JStr ''not_run'')]) commands)),
          (''blockers'', JList []), (''residual_gaps'', JList (map JStr RESIDUAL_GAPS))]))))"

definition base_result ::
  "string \<Rightarrow> string \<Rightarrow> json \<Rightarrow> json \<Rightarrow> json list \<Rightarrow> json \<Rightarrow> json \<Rightarrow> jobject \<Rightarrow> jobject \<Rightarrow> jobject \<Rightarrow> bool \<Rightarrow> jobject" where
  "base_result status task_file source_revision stages findings task_id task_digest plan accounting handoff_doc repository_unchanged =
     [(''mode'', JStr ''dry_run''), (''status'', JStr status), (''task_file'', JStr task_file), (''task_id'', task_id),
      (''task_contract_sha256'', task_digest), (''source_revision'', source_revision), (''stages'', stages),
      (''findings'', JList findings), (''execution_plan'', JDict plan), (''evidence_accounting'', JDict accounting),
      (''handoff'', JDict handoff_doc), (''repository_unchanged'', JBool repository_unchanged)]"

section \<open>The dry run\<close>

text \<open>The two early returns: the repository is checked, the findings are the result.\<close>

definition blocked_outcome ::
  "string run \<Rightarrow> string \<Rightarrow> string \<Rightarrow> (string, string) dict \<Rightarrow> finding list \<Rightarrow> run_exc + json \<Rightarrow> string \<Rightarrow> dry_run_outcome run" where
  "blocked_outcome state_reader before_state task_rel statuses findings task_id task_digest =
     bindR (assert_repository_unchanged state_reader before_state) (\<lambda>_.
     let statuses' = stage_status (stage_status statuses ''verify_repository_unchanged'' ''passed'' None) ''finalize_result'' ''passed'' None in
     bindR (liftR task_id) (\<lambda>task_id.
     retR \<lparr>o_result = base_result ''blocked'' task_rel JNull (render_stages statuses') (map finding_json findings) task_id
             (JStr task_digest) [] [] [] True, o_exit_code = 1\<rparr>))"

definition check_revision :: "string run \<Rightarrow> string \<Rightarrow> unit run" where
  "check_revision revision_resolver revision =
     bindR revision_resolver (\<lambda>now. whenR (now \<noteq> revision)
       (RunnerError ''SOURCE_REVISION_CHANGED_DURING_DRY_RUN'' ''Git HEAD changed during dry run''))"

text \<open>\<^verbatim>\<open>pre_publish_guard\<close>, which is also the last check of a run that is not persisted.\<close>

definition pre_publish_guard :: "string run \<Rightarrow> string run \<Rightarrow> string \<Rightarrow> string \<Rightarrow> unit run" where
  "pre_publish_guard state_reader revision_resolver revision before_state =
     bindR (check_revision revision_resolver revision) (\<lambda>_. assert_repository_unchanged state_reader before_state)"

definition persist_result ::
  "run_env \<Rightarrow> string run \<Rightarrow> string run \<Rightarrow> string option \<Rightarrow> string \<Rightarrow> string \<Rightarrow> string \<Rightarrow> json \<Rightarrow> string \<Rightarrow> string \<Rightarrow> jobject \<Rightarrow> jobject \<Rightarrow> jobject run" where
  "persist_result env state_reader revision_resolver output_dir started_at before_state raw_task task_id task_digest revision result handoff_doc =
     bindR (bindR (tick env) (\<lambda>t. retR (re_run_id env t))) (\<lambda>run_id.
     bindR (whenR (re_fullmatch RUN_ID_RE run_id = None) (RunnerError ''RUN_ID_INVALID'' ''run_id has an invalid format'')) (\<lambda>_.
     bindR (utc_timestamp env) (\<lambda>completed_at.
     bindR (whenR (completed_at < started_at) (RunnerError ''CLOCK_MOVED_BACKWARDS'' ''completed_at precedes started_at'')) (\<lambda>_.
     bindR (publish_evidence_bundle env
        \<lparr>b_run_id = run_id, b_raw_task = raw_task, b_task_id = task_id, b_task_digest = task_digest, b_source_revision = revision,
         b_state_sha256 = ae_sha256 (re_agent env) before_state, b_started_at = started_at, b_completed_at = completed_at,
         b_run_result = result, b_handoff = handoff_doc\<rparr>
        output_dir (pre_publish_guard state_reader revision_resolver revision before_state)) (\<lambda>evidence_path.
     retR (dict_merge result [(''run_id'', JStr run_id), (''evidence_path'', JStr evidence_path)]))))))"

text \<open>The part after the guard: plan, handoff, final checks, result.\<close>

definition plan_outcome ::
  "run_env \<Rightarrow> string run \<Rightarrow> string run \<Rightarrow> string option \<Rightarrow> bool \<Rightarrow> string \<Rightarrow> string \<Rightarrow> string \<Rightarrow> string \<Rightarrow> string \<Rightarrow> json \<Rightarrow> jobject \<Rightarrow> dry_run_outcome run" where
  "plan_outcome env state_reader revision_resolver output_dir should_persist started_at before_state task_rel raw_task task_digest task registry =
     bindR revision_resolver (\<lambda>revision.
     bindR (liftR (validate_source_revision revision)) (\<lambda>_.
     case task of
       JDict t \<Rightarrow>
         bindR (liftR (execution_plan t)) (\<lambda>plan.
         bindR (liftR (evidence_accounting t)) (\<lambda>accounting.
         bindR (liftR (validate_evidence_accounting t accounting)) (\<lambda>_.
         bindR (liftR (dry_run_handoff t task_digest revision)) (\<lambda>handoff_doc.
         bindR (pyR (validate_handoff (re_agent env) task (JDict handoff_doc) raw_task (Some registry))) (\<lambda>handoff_findings.
         bindR (whenR (handoff_findings \<noteq> []) (RunnerError ''HANDOFF_VALIDATION_FAILED'' (f_message (hd handoff_findings)))) (\<lambda>_.
         bindR (check_revision revision_resolver revision) (\<lambda>_.
         bindR (assert_repository_unchanged state_reader before_state) (\<lambda>_.
         bindR (liftR (item t ''task_id'')) (\<lambda>task_id.
         let result = base_result ''planned'' task_rel (JStr revision) (render_stages (passed STAGE_NAMES)) [] task_id
                        (JStr task_digest) plan accounting handoff_doc True in
         if should_persist then
           bindR (persist_result env state_reader revision_resolver output_dir started_at before_state raw_task task_id task_digest revision result handoff_doc)
             (\<lambda>result'. retR \<lparr>o_result = result', o_exit_code = 0\<rparr>)
         else
           bindR (pre_publish_guard state_reader revision_resolver revision before_state)
             (\<lambda>_. retR \<lparr>o_result = result, o_exit_code = 0\<rparr>))))))))))
     | _ \<Rightarrow> raiseR (RunnerError ''TASK_SCHEMA_INVALID'' ''Task must be a JSON object'')))"

definition dry_run_try ::
  "run_env \<Rightarrow> string run \<Rightarrow> string run \<Rightarrow> string \<Rightarrow> string option \<Rightarrow> bool \<Rightarrow> string \<Rightarrow> string \<Rightarrow> dry_run_outcome run" where
  "dry_run_try env state_reader revision_resolver task_file output_dir should_persist started_at before_state =
     (let agent = re_agent env in
      bindR (liftR (resolve_task_path (ae_fs agent) task_file)) (\<lambda>(task_path, task_rel).
      bindR (liftR (load_task_bytes agent task_path)) (\<lambda>(raw_task, task_digest, task).
      bindR (liftR (runner_load_task_schema agent)) (\<lambda>task_schema.
      bindR (liftR (runner_schema_findings agent task task_schema)) (\<lambda>schema_findings.
      let loaded = passed [''capture_repository_state'', ''load_task''] in
      if schema_findings \<noteq> [] then
        blocked_outcome state_reader before_state task_rel (stage_status loaded ''validate_task_schema'' ''blocked'' None)
          schema_findings (Inr (case task of JDict t \<Rightarrow> sget t ''task_id'' | _ \<Rightarrow> JNull)) task_digest
      else
        bindR (liftR (runner_load_claim_registry agent)) (\<lambda>registry.
        bindR (pyR (run_non_ideal_guard agent task registry task_schema)) (\<lambda>guard_findings.
        let registered = passed [''capture_repository_state'', ''load_task'', ''validate_task_schema'', ''load_claim_registry''] in
        if guard_findings \<noteq> [] then
          blocked_outcome state_reader before_state task_rel (stage_status registered ''run_non_ideal_guard'' ''blocked'' None)
            guard_findings (case task of JDict t \<Rightarrow> item t ''task_id'' | _ \<Rightarrow> Inr JNull) task_digest
        else
          plan_outcome env state_reader revision_resolver output_dir should_persist started_at before_state task_rel raw_task
            task_digest task registry)))))))"

text \<open>\<^verbatim>\<open>_run_dry_run\<close>: every exception but the two that report a change is held back until the state is read again.\<close>

definition guarded_codes :: "string list" where
  "guarded_codes = [''REPO_MUTATED_DURING_DRY_RUN'', ''SOURCE_REVISION_CHANGED_DURING_DRY_RUN'']"

definition dry_run_except :: "string run \<Rightarrow> string \<Rightarrow> run_exc \<Rightarrow> dry_run_outcome run" where
  "dry_run_except state_reader before_state e =
     (case e of
        RunnerErr r \<Rightarrow> if e_code r \<in> set guarded_codes then raiseR e
                       else bindR (assert_repository_unchanged state_reader before_state) (\<lambda>_. raiseR e)
      | _ \<Rightarrow> bindR (assert_repository_unchanged state_reader before_state) (\<lambda>_. raiseR e))"

definition dry_run ::
  "run_env \<Rightarrow> (path \<Rightarrow> string run) \<Rightarrow> (path \<Rightarrow> string run) \<Rightarrow> string \<Rightarrow> string option \<Rightarrow> bool \<Rightarrow> dry_run_outcome run" where
  "dry_run env repository_state_reader source_revision_resolver task_file output_dir persist =
     bindR (pyR (fs_resolve (ae_fs (re_agent env)) (fs_root (ae_fs (re_agent env))))) (\<lambda>doc_root.
     let env' = env\<lparr>re_agent := (re_agent env)\<lparr>ae_fs := (ae_fs (re_agent env))\<lparr>fs_root := doc_root\<rparr>\<rparr>\<rparr>;
         state_reader = repository_state_reader doc_root;
         revision_resolver = source_revision_resolver doc_root in
     bindR (utc_timestamp env) (\<lambda>started_at.
     bindR state_reader (\<lambda>before_state.
     catchR (dry_run_try env' state_reader revision_resolver task_file output_dir (persist \<or> output_dir \<noteq> None) started_at before_state)
       (dry_run_except state_reader before_state))))"

definition run_dry_run :: "run_env \<Rightarrow> string \<Rightarrow> string option \<Rightarrow> bool \<Rightarrow> dry_run_outcome run" where
  "run_dry_run env task_file output_dir persist =
     dry_run env (repository_state_bytes env) (resolve_git_head env) task_file output_dir persist"

section \<open>The command line\<close>

record run_args =
  ra_task_file :: string
  ra_output_dir :: "string option"
  ra_no_persist :: bool

definition emit_error :: "runner_error \<Rightarrow> json \<times> int" where
  "emit_error e =
     (JDict ([(''code'', JStr (e_code e)), (''message'', JStr (e_message e))] @
        (case e_path e of Some p \<Rightarrow> [(''evidence_path'', JStr p)] | None \<Rightarrow> []) @
        (if e_cleanup e \<noteq> [] then [(''cleanup_errors'', JList (map JStr (e_cleanup e)))] else [])), 2)"

text \<open>
  The arguments as \<^verbatim>\<open>argparse\<close> parses them, \<open>Inl\<close> its error message. The result is what is printed and the exit
  code; an exception that is neither a \<^verbatim>\<open>RunnerError\<close> nor an \<^verbatim>\<open>OSError\<close>, \<^verbatim>\<open>ValueError\<close> or \<^verbatim>\<open>UnsupportedSchemaError\<close> escapes.
\<close>

definition truthy_dir :: "string option \<Rightarrow> string option" where
  "truthy_dir d = (case d of Some s \<Rightarrow> if s = [] then None else Some s | None \<Rightarrow> None)"

definition run_main :: "run_env \<Rightarrow> string + run_args \<Rightarrow> (string \<times> int) run" where
  "run_main env parsed =
     catchR (bindR (liftR (case parsed of Inl msg \<Rightarrow> Inl (RunnerError ''INVALID_ARGUMENTS'' msg) | Inr a \<Rightarrow> Inr a)) (\<lambda>args.
        bindR (whenR (ra_no_persist args \<and> truthy_dir (ra_output_dir args) \<noteq> None)
          (RunnerError ''INVALID_ARGUMENTS'' ''--no-persist and --output-dir cannot be used together'')) (\<lambda>_.
        bindR (run_dry_run env (ra_task_file args) (truthy_dir (ra_output_dir args)) (\<not> ra_no_persist args)) (\<lambda>outcome.
        retR (dumps_indent 0 (JDict (o_result outcome)) @ [CHR 0x0A], o_exit_code outcome)))))
     (\<lambda>e. let report = (\<lambda>r. retR (dumps_indent 0 (fst (emit_error r)) @ [CHR 0x0A], snd (emit_error r))) in
        case e of
          RunnerErr r \<Rightarrow> report r
        | PyErr p \<Rightarrow>
            (let os = (\<lambda>msg. report \<lparr>e_code = ''RUNNER_ERROR'', e_message = msg, e_cleanup = [], e_path = None\<rparr>) in
             case p of
               OSError msg \<Rightarrow> os msg
             | ValueError msg \<Rightarrow> os msg
             | JSONDecodeError msg \<Rightarrow> os msg
             | DuplicateKeyError msg \<Rightarrow> os msg
             | UnsupportedSchemaError msg \<Rightarrow> os msg
             | _ \<Rightarrow> raiseR e))"

section \<open>What the runner guarantees\<close>

lemma liftR_Inr [simp]: "liftR r w = (Inr a, w') \<longleftrightarrow> r = Inr a \<and> w' = w"
  by (auto simp: liftR_def)

lemma pyR_Inr [simp]: "pyR r w = (Inr a, w') \<longleftrightarrow> r = Inr a \<and> w' = w"
  by (auto simp: pyR_def split: sum.splits)

lemma retR_Inr [simp]: "retR b w = (Inr a, w') \<longleftrightarrow> a = b \<and> w' = w"
  by (auto simp: retR_def)

lemma raiseR_Inr [simp]: "raiseR e w = (Inr a, w') \<longleftrightarrow> False"
  by (auto simp: raiseR_def)

lemmas run_Inr = bindR_Inr whenR_Inr

lemma assert_unchanged_Inr:
  "assert_repository_unchanged sr before w = (Inr u, w') \<longleftrightarrow> sr w = (Inr before, w')"
  by (auto simp: assert_repository_unchanged_def run_Inr)

lemma finally_step_Inr:
  "finally_step m raised r w = (go, Inr u, w') \<Longrightarrow> r = Inr u"
  by (auto simp: finally_step_def split: prod.splits sum.splits run_exc.splits py_error.splits)

lemma publish_finally_Inr: "publish_finally env s d r w = (Inr u, w') \<Longrightarrow> r = Inr u"
  by (auto simp: publish_finally_def Let_def dest!: finally_step_Inr split: prod.splits if_splits)

lemma publish_staged_guarded:
  assumes "publish_staged env F s t d guard w = (Inr u, w')"
  shows "\<exists>w1 w2. guard w1 = (Inr (), w2)"
proof -
  let ?w = "w\<lparr>w_created := False, w_fd := None, w_published := False\<rparr>"
  obtain r w1 where body: "publish_body env F s t d guard ?w = (r, w1)" by force
  then have "r = Inr ()"
    using assms publish_finally_Inr by (fastforce simp: publish_staged_def split: sum.splits)
  then show ?thesis
    using body by (auto simp: publish_body_def publish_opened_def run_Inr)
qed

lemma publish_guarded:
  "publish_evidence_bundle env b out guard w = (Inr p, w') \<Longrightarrow> \<exists>w1 w2. guard w1 = (Inr (), w2)"
  by (auto simp: publish_evidence_bundle_def run_Inr split: prod.splits dest!: publish_staged_guarded)

lemma pre_publish_guard_Inr:
  "pre_publish_guard sr rv revision before w = (Inr u, w') \<Longrightarrow> \<exists>w1. sr w1 = (Inr before, w')"
  by (auto simp: pre_publish_guard_def run_Inr assert_unchanged_Inr)

text \<open>What a successful plan has passed, with the facts of the run as witnesses.\<close>

definition plan_checked :: "agent_env \<Rightarrow> string \<Rightarrow> jobject \<Rightarrow> string \<Rightarrow> jobject \<Rightarrow> bool" where
  "plan_checked agent task_file t raw_task handoff_doc \<longleftrightarrow>
     (\<exists>task_path task_rel digest schema registry.
        resolve_task_path (ae_fs agent) task_file = Inr (task_path, task_rel) \<and>
        load_task_bytes agent task_path = Inr (raw_task, digest, JDict t) \<and>
        runner_load_task_schema agent = Inr schema \<and> runner_schema_findings agent (JDict t) schema = Inr [] \<and>
        runner_load_claim_registry agent = Inr registry \<and>
        run_non_ideal_guard agent (JDict t) registry schema = Inr [] \<and>
        validate_handoff agent (JDict t) (JDict handoff_doc) raw_task (Some registry) = Inr [])"

lemma plan_outcome_Inr:
  assumes "plan_outcome env sr rv out should_persist started before rel raw digest task registry w = (Inr oc, w')"
  shows "\<exists>t hd revision. task = JDict t \<and> o_exit_code oc = 0 \<and> dry_run_handoff t digest revision = Inr hd \<and>
     re_fullmatch SOURCE_REVISION_RE revision \<noteq> None \<and>
     validate_handoff (re_agent env) task (JDict hd) raw (Some registry) = Inr [] \<and>
     (\<exists>w1 w2. sr w1 = (Inr before, w2)) \<and> (\<not> should_persist \<longrightarrow> (\<exists>w1. sr w1 = (Inr before, w')))"
proof -
  obtain t where t: "task = JDict t"
    using assms by (cases task) (auto simp: plan_outcome_def run_Inr)
  show ?thesis
    using assms unfolding t
    by (auto simp: plan_outcome_def run_Inr Let_def validate_source_revision_def assert_unchanged_Inr persist_result_def
        split: if_splits dest!: publish_guarded pre_publish_guard_Inr) blast+
qed

lemma dry_run_try_Inr:
  assumes "dry_run_try env sr rv file out should_persist started before w = (Inr oc, w')"
  shows "(o_exit_code oc = 0 \<and> (\<exists>t raw hd revision. plan_checked (re_agent env) file t raw hd \<and>
        dry_run_handoff t (ae_sha256 (re_agent env) raw) revision = Inr hd \<and> re_fullmatch SOURCE_REVISION_RE revision \<noteq> None) \<or>
      o_exit_code oc = 1 \<and> map_of (o_result oc) ''status'' = Some (JStr ''blocked'') \<and>
        (\<exists>f fs. map_of (o_result oc) ''findings'' = Some (JList (f # fs)))) \<and>
     (\<exists>w1 w2. sr w1 = (Inr before, w2)) \<and> (\<not> should_persist \<longrightarrow> (\<exists>w1. sr w1 = (Inr before, w')))"
proof -
  obtain path rel raw digest task schema fs where
    path: "resolve_task_path (ae_fs (re_agent env)) file = Inr (path, rel)"
    and load: "load_task_bytes (re_agent env) path = Inr (raw, digest, task)"
    and schema: "runner_load_task_schema (re_agent env) = Inr schema" "runner_schema_findings (re_agent env) task schema = Inr fs"
    using assms by (auto simp: dry_run_try_def run_Inr Let_def)
  have digest: "digest = ae_sha256 (re_agent env) raw"
    using load by (auto simp: load_task_bytes_def split: sum.splits py_error.splits option.splits)
  show ?thesis
  proof (cases "fs = []")
    case False
    then obtain f fs' where "fs = f # fs'" by (cases fs) auto
    then show ?thesis
      using assms path load schema
      by (auto simp: dry_run_try_def run_Inr Let_def blocked_outcome_def assert_unchanged_Inr base_result_def)
  next
    case True
    then obtain registry gs where reg: "runner_load_claim_registry (re_agent env) = Inr registry"
      "run_non_ideal_guard (re_agent env) task registry schema = Inr gs"
      using assms path load schema by (auto simp: dry_run_try_def run_Inr Let_def)
    show ?thesis
    proof (cases "gs = []")
      case False
      then obtain g gs' where "gs = g # gs'" by (cases gs) auto
      then show ?thesis
        using assms path load schema reg True
        by (auto simp: dry_run_try_def run_Inr Let_def blocked_outcome_def assert_unchanged_Inr base_result_def)
    next
      case gs: True
      then have "plan_outcome env sr rv out should_persist started before rel raw digest task registry w = (Inr oc, w')"
        using assms path load schema reg True by (auto simp: dry_run_try_def run_Inr Let_def)
      from plan_outcome_Inr [OF this] show ?thesis
        using path load schema reg True gs digest unfolding plan_checked_def by blast
    qed
  qed
qed

lemma dry_run_returns:
  assumes "dry_run env reader resolver task_file output_dir persist w = (Inr oc, w')"
  obtains doc_root started before w1 w2 where
    "fs_resolve (ae_fs (re_agent env)) (fs_root (ae_fs (re_agent env))) = Inr doc_root"
    "dry_run_try (env\<lparr>re_agent := (re_agent env)\<lparr>ae_fs := (ae_fs (re_agent env))\<lparr>fs_root := doc_root\<rparr>\<rparr>\<rparr>) (reader doc_root) (resolver doc_root)
       task_file output_dir (persist \<or> output_dir \<noteq> None) started before w2 = (Inr oc, w')"
    "reader doc_root w1 = (Inr before, w2)"
proof -
  obtain doc_root where root: "fs_resolve (ae_fs (re_agent env)) (fs_root (ae_fs (re_agent env))) = Inr doc_root"
    using assms by (auto simp: dry_run_def run_Inr)
  let ?env = "env\<lparr>re_agent := (re_agent env)\<lparr>ae_fs := (ae_fs (re_agent env))\<lparr>fs_root := doc_root\<rparr>\<rparr>\<rparr>"
  obtain started before w1 w2 where read: "reader doc_root w1 = (Inr before, w2)"
    and run: "catchR (dry_run_try ?env (reader doc_root) (resolver doc_root) task_file output_dir (persist \<or> output_dir \<noteq> None) started before)
       (dry_run_except (reader doc_root) before) w2 = (Inr oc, w')"
    using assms root by (auto simp: dry_run_def run_Inr Let_def)
  have "dry_run_except sr b e v \<noteq> (Inr x, v')" for sr b e v x v'
    by (auto simp: dry_run_except_def run_Inr split: run_exc.splits)
  then have "dry_run_try ?env (reader doc_root) (resolver doc_root) task_file output_dir (persist \<or> output_dir \<noteq> None) started before w2 = (Inr oc, w')"
    using run by (auto simp: catchR_def split: prod.splits sum.splits)
  then show thesis using that root read by blast
qed


definition demo_claim :: jobject where
  "demo_claim = [(''id'', JStr ''CLAIM-A-001''), (''status'', JStr ''proposed''), (''subject'', JStr ''s''), (''statement'', JStr ''x''),
     (''evidence'', JList [JDict [(''path'', JStr ''docs/a.md''), (''kind'', JStr ''doc'')]]), (''validation'', JList [JStr ''make''] ),
     (''updated'', JStr ''2026-01-01'')]"

definition demo_dry_task :: jobject where
  "demo_dry_task = dict_set ''claims'' (JList [JStr ''CLAIM-A-001'']) (dict_set ''expected_evidence'' (JList [JStr ''docs/guide/a.md'']) demo_task)"

definition demo_dry_env :: run_env where
  "demo_dry_env = demo_run_env\<lparr>re_agent := demo_env\<lparr>
     ae_fs := plain_fs [''repo''] [([''repo'', ''task.json''], ''task''), ([''repo'', ''docs'', ''claims'', ''registry.yml''], ''registry''),
       ([''repo'', ''contracts'', ''agent'', ''task.schema.json''], ''schema''), ([''repo'', ''contracts'', ''agent'', ''handoff.schema.json''], ''schema'')],
     ae_json_loads := (\<lambda>_ _ raw. Inr (JDict (if raw = ''task'' then demo_dry_task else if raw = ''schema'' then []
        else [(''version'', JInt 1), (''claims'', JList [JDict demo_claim])])))\<rparr>\<rparr>"

lemma demo_dry_run:
  "\<exists>oc w'. dry_run demo_dry_env (\<lambda>_. retR ''state'') (\<lambda>_. retR (replicate 40 CHR ''a'')) ''task.json'' None False demo_world = (Inr oc, w') \<and>
     o_exit_code oc = 0"
proof -
  have "o_exit_code (case fst (dry_run demo_dry_env (\<lambda>_. retR ''state'') (\<lambda>_. retR (replicate 40 CHR ''a'')) ''task.json'' None False demo_world) of
     Inr oc \<Rightarrow> oc | Inl e \<Rightarrow> \<lparr>o_result = [], o_exit_code = 7\<rparr>) = 0"
    by code_simp
  then show ?thesis
    by (cases "dry_run demo_dry_env (\<lambda>_. retR ''state'') (\<lambda>_. retR (replicate 40 CHR ''a'')) ''task.json'' None False demo_world")
      (auto split: sum.splits)
qed




text \<open>
  The task file is inside the repository: an accepted path has no \<^verbatim>\<open>..\<close> component, names an existing
  file below the root, and resolves, through all symbolic links, to a place below the resolved root.
\<close>

lemma resolve_task_path_inside:
  assumes "resolve_task_path fs value = Inr (candidate, task_rel)"
  shows "candidate = fs_root fs @ path_parts task_rel \<and> ''..'' \<notin> set (path_parts task_rel) \<and> \<not> is_absolute task_rel \<and>
     fs_is_file fs candidate \<and> (\<exists>r q. fs_resolve fs (fs_root fs) = Inr r \<and> fs_resolve fs candidate = Inr q \<and> inside r q)"
  using assms
  by (auto simp: resolve_task_path_def Let_def rooted_def is_absolute_def split: if_splits sum.splits py_error.splits)

lemma mapE_item_str_iff: "mapE item_str xs = Inr ss \<longleftrightarrow> xs = map JStr ss"
proof (induction xs arbitrary: ss)
  case (Cons x xs)
  then show ?case by (cases x) (auto simp: bindE_eq_Inr item_str_def Cons_eq_map_conv)
qed auto

lemma get_key_Inr [simp]: "get_key d k = Inr v \<longleftrightarrow> map_of d k = Some v"
  by (simp add: get_key_def split: option.splits)

lemma get_strings_iff: "get_strings d k = Inr ss \<longleftrightarrow> map_of d k = Some (JList (map JStr ss))"
proof (cases "map_of d k")
  case (Some v)
  then show ?thesis by (cases v) (auto simp: get_strings_def get_key_def mapE_item_str_iff)
qed (simp add: get_strings_def get_key_def)

lemma get_str_iff: "get_str d k = Inr s \<longleftrightarrow> map_of d k = Some (JStr s)"
proof (cases "map_of d k")
  case (Some v)
  then show ?thesis by (cases v) (auto simp: get_str_def get_key_def)
qed (simp add: get_str_def get_key_def)

lemma list_item_strings: "map_of d k = Some (JList xs) \<Longrightarrow> list_item d k = Inr (JList xs)"
  by (simp add: list_item_def item_def py_list_def)

text \<open>The record of the generated handoff.\<close>

definition own_handoff :: "task_contract \<Rightarrow> string \<Rightarrow> handoff" where
  "own_handoff t digest =
     \<lparr>h_task_id = t_task_id t, h_task_contract_sha256 = digest, h_changed_paths = [], h_deleted_paths = [],
      h_claims_addressed = t_claims t, h_evidence_produced = [], h_missing_evidence = t_expected_evidence t,
      h_validation_results = map (\<lambda>c. (c, ''not_run'')) (t_validation_commands t), h_outcome = ''incomplete'',
      h_blockers = [], h_residual_gaps = RESIDUAL_GAPS\<rparr>"

lemma mapE_own_results:
  "mapE item_result (map ((\<lambda>c. JDict [(''command'', c), (''status'', JStr ''not_run'')]) \<circ> JStr) cs) = Inr (map (\<lambda>c. (c, ''not_run'')) cs)"
  by (induction cs) (simp_all add: item_result_def get_str_def get_key_def)

lemma dry_run_handoff_read:
  assumes "read_task to = Inr t"
  shows "\<exists>ho. dry_run_handoff to digest revision = Inr ho \<and> read_handoff ho = Inr (own_handoff t digest)"
proof -
  have fields: "map_of to ''task_id'' = Some (JStr (t_task_id t))" "map_of to ''claims'' = Some (JList (map JStr (t_claims t)))"
    "map_of to ''expected_evidence'' = Some (JList (map JStr (t_expected_evidence t)))"
    "map_of to ''validation_commands'' = Some (JList (map JStr (t_validation_commands t)))"
    using assms by (auto simp: read_task_def bindE_eq_Inr get_strings_iff get_str_iff)
  show ?thesis
    by (simp add: dry_run_handoff_def fields item_def list_item_strings [OF fields(2)] list_item_strings [OF fields(3)] py_list_def
        read_handoff_def get_str_def get_strings_def get_results_def get_key_def own_handoff_def mapE_own_results)
qed

text \<open>
  C32: the handoff the runner writes for itself is valid. For a task whose fields have the right types, whose
  commands are pairwise different and whose expected evidence are repository-relative file paths, the
  generated handoff satisfies every rule of the handoff validator.
\<close>

theorem dry_run_handoff_ok:
  assumes "read_task to = Inr t" "distinct (t_validation_commands t)"
    and "list_all (\<lambda>e. normalize_repo_path e False \<noteq> None) (t_expected_evidence t)"
    and "fs_resolve (ae_fs env) (fs_root (ae_fs env)) = Inr doc_root"
  shows "\<exists>ho h. dry_run_handoff to (ae_sha256 env raw_task) revision = Inr ho \<and> read_handoff ho = Inr h \<and>
     handoff_ok env t h raw_task"
proof -
  have "handoff_ok env t (own_handoff t (ae_sha256 env raw_task)) raw_task"
    using assms(2-4)
    by (auto simp: handoff_ok_def own_handoff_def paths_ok_def claims_ok_def evidence_accounted_def results_ok_def outcome_ok_def
        normalized_file_set_def Let_def comp_def is_ok_def list_all_iff RESIDUAL_GAPS_def map_filter_def image_image)
  then show ?thesis using dry_run_handoff_read [OF assms(1)] by blast
qed

theorem dry_run_handoff_ok_witness:
  "\<exists>t ho h. read_task demo_dry_task = Inr t \<and> dry_run_handoff demo_dry_task (ae_sha256 (re_agent demo_dry_env) ''task'') ''r'' = Inr ho \<and>
     read_handoff ho = Inr h \<and> handoff_ok (re_agent demo_dry_env) t h ''task''"
proof -
  let ?t = "\<lparr>t_task_id = ''DEMO-001'', t_allowed_paths = [''docs/guide/''], t_forbidden_paths = [''docs/guide/old''], t_claims = [''CLAIM-A-001''],
    t_expected_evidence = [''docs/guide/a.md''], t_validation_commands = [''make check''], t_delete_allowed = False\<rparr>"
  have read: "read_task demo_dry_task = Inr ?t"
    by code_simp
  have norm: "list_all (\<lambda>e. normalize_repo_path e False \<noteq> None) (t_expected_evidence ?t)"
    by code_simp
  have "fs_resolve (ae_fs (re_agent demo_dry_env)) (fs_root (ae_fs (re_agent demo_dry_env))) = Inr [''repo'']"
    by (simp add: demo_dry_env_def plain_fs_def)
  from dry_run_handoff_ok [OF read _ norm this] read show ?thesis by auto
qed

text \<open>
  Exit codes of the command line. When \<^verbatim>\<open>main\<close> returns, it returns 0 or 1 for an outcome of the run, or 2
  with an error report; a \<^verbatim>\<open>RunnerError\<close> never escapes.
\<close>

lemma run_main_exit:
  "case run_main env parsed w of
     (Inr (out, code), w') \<Rightarrow> code = 0 \<or> code = 1 \<or> code = 2 \<and> (\<exists>r. out = dumps_indent 0 (fst (emit_error r)) @ [CHR 0x0A])
   | (Inl e, w') \<Rightarrow> \<exists>p. e = PyErr p"
proof -
  define body where "body = bindR (liftR (case parsed of Inl msg \<Rightarrow> Inl (RunnerError ''INVALID_ARGUMENTS'' msg) | Inr a \<Rightarrow> Inr a)) (\<lambda>args.
        bindR (whenR (ra_no_persist args \<and> truthy_dir (ra_output_dir args) \<noteq> None)
          (RunnerError ''INVALID_ARGUMENTS'' ''--no-persist and --output-dir cannot be used together'')) (\<lambda>_.
        bindR (run_dry_run env (ra_task_file args) (truthy_dir (ra_output_dir args)) (\<not> ra_no_persist args)) (\<lambda>outcome.
        retR (dumps_indent 0 (JDict (o_result outcome)) @ [CHR 0x0A], o_exit_code outcome))))"
  have codes: "o_exit_code oc = 0 \<or> o_exit_code oc = 1" if "run_dry_run env f d p w1 = (Inr oc, w2)" for f d p w1 w2 oc
    using that unfolding run_dry_run_def by (auto elim!: dry_run_returns dest!: dry_run_try_Inr)
  obtain x w1 where x: "body w = (x, w1)" by force
  show ?thesis
  proof (cases x)
    case (Inr y)
    then have "snd y = 0 \<or> snd y = 1" using x codes by (fastforce simp: body_def run_Inr)
    then show ?thesis using x Inr unfolding run_main_def body_def [symmetric] by (cases y) (auto simp: catchR_def)
  next
    case (Inl e)
    have two: "snd (emit_error r) = 2" for r by (simp add: emit_error_def)
    show ?thesis
    proof (cases e)
      case (RunnerErr r)
      then show ?thesis using x Inl unfolding run_main_def body_def [symmetric] by (auto simp: catchR_def retR_def two)
    next
      case (PyErr p)
      then show ?thesis
        using x Inl unfolding run_main_def body_def [symmetric]
        by (cases p) (auto simp: catchR_def retR_def raiseR_def two)
    qed
  qed
qed

end
