(* ===== verification/Attention_Impact.thy ===== *)
theory Attention_Impact
  imports Repo_Fs Py_Regex
begin

text \<open>
  \<^verbatim>\<open>scripts/quality/attention_impact_contract.py\<close>: the markers a pull request must carry when it changes
  product logic, and the list of product documents read from the trusted manifest.
\<close>

section \<open>Constants\<close>

definition PRODUCT_LOGIC_PREFIXES :: "string list" where
  "PRODUCT_LOGIC_PREFIXES = [''apps/'', ''contracts/domain/'']"

abbreviation re_spaces :: re where
  "re_spaces \<equiv> Star (Chr py_isspace)"

definition IMPACT_RE :: re where
  "IMPACT_RE = seqs [Lit ''<!--'', re_spaces, LitI ''weltgewebe-attention-impact:'', re_spaces,
     Grp 1 (alts [LitI ''contract'', LitI ''none'']), re_spaces, Lit ''-->'']"

definition RATIONALE_RE :: re where
  "RATIONALE_RE = seqs [Lit ''<!--'', re_spaces, LitI ''weltgewebe-attention-rationale:'', re_spaces,
     Grp 1 (LPlus (Chr (\<lambda>c. c \<notin> {CHR 0x0D, CHR 0x0A, CHR ''<'', CHR ''>''}))), re_spaces, Lit ''-->'']"

definition is_manifest_char :: "char \<Rightarrow> bool" where
  "is_manifest_char c = (is_alpha c \<or> is_digit c \<or> c \<in> {CHR ''.'', CHR ''_'', CHR ''/'', CHR ''-''})"

definition SAFE_MANIFEST_SCALAR_RE :: re where
  "SAFE_MANIFEST_SCALAR_RE = seqs [Bol, Plus (Chr is_manifest_char), Eol]"

definition MIN_RATIONALE_BYTES :: nat where "MIN_RATIONALE_BYTES = 20"

definition MAX_RATIONALE_BYTES :: nat where "MAX_RATIONALE_BYTES = 500"

text \<open>\<^verbatim>\<open>pattern.findall(s)\<close> for a pattern with one group.\<close>

definition findall1 :: "re \<Rightarrow> string \<Rightarrow> string list" where
  "findall1 r s = map (\<lambda>(_, st). case re_group 1 st of Some g \<Rightarrow> g | None \<Rightarrow> []) (re_finditer r s)"

section \<open>Markers\<close>

definition product_logic_changes :: "string list \<Rightarrow> string list" where
  "product_logic_changes changed_files =
     sort (filter (\<lambda>p. list_ex (startswith p) PRODUCT_LOGIC_PREFIXES) changed_files)"

definition attention_impact_decision :: "string \<Rightarrow> string option" where
  "attention_impact_decision pr_body = (case findall1 IMPACT_RE pr_body of [m] \<Rightarrow> Some (lower m) | _ \<Rightarrow> None)"

definition validate_attention_impact_markers :: "string \<Rightarrow> string list \<Rightarrow> string list" where
  "validate_attention_impact_markers pr_body changed_files =
     (if product_logic_changes changed_files = [] then []
      else (case findall1 IMPACT_RE pr_body of
        [impact] \<Rightarrow>
          if lower impact = ''contract'' then []
          else (case findall1 RATIONALE_RE pr_body of
            [raw] \<Rightarrow>
              (let rationale = strip raw; rationale_bytes = length (utf8_encode rationale) in
               (if \<not> (MIN_RATIONALE_BYTES \<le> rationale_bytes \<and> rationale_bytes \<le> MAX_RATIONALE_BYTES)
                then [''Attention impact rationale must be between 20 and 500 UTF-8 bytes''] else []) @
               (if list_ex (\<lambda>c. (of_char c :: nat) < 32 \<and> c \<noteq> CHR 0x09) rationale
                then [''Attention impact rationale contains control characters''] else []))
          | _ \<Rightarrow> [''Attention impact=none requires exactly one rationale marker: '' @
                 ''<!-- weltgewebe-attention-rationale: concrete reason -->''])
      | _ \<Rightarrow> [''product logic changed but the PR body must contain exactly one Attention impact marker: '' @
             ''<!-- weltgewebe-attention-impact: contract --> or <!-- weltgewebe-attention-impact: none -->'']))"

definition validate_attention_impact_contract_binding :: "string \<Rightarrow> string list \<Rightarrow> string list \<Rightarrow> string list" where
  "validate_attention_impact_contract_binding pr_body changed canonical_product_docs =
     (let errors = validate_attention_impact_markers pr_body changed in
      if errors \<noteq> [] \<or> product_logic_changes changed = [] then errors
      else if attention_impact_decision pr_body = Some ''contract'' then
        (if sorted_set (filter (\<lambda>p. p \<in> set canonical_product_docs) changed) = []
         then [''Attention impact=contract requires at least one changed canonical product contract from the canonical product zone'']
         else [])
      else [])"

section \<open>The trusted manifest\<close>

definition manifest_scalar :: "string \<Rightarrow> string \<Rightarrow> py_error + string" where
  "manifest_scalar raw field =
     (let v = strip raw in
      if v = [] \<or> re_fullmatch SAFE_MANIFEST_SCALAR_RE v = None then
        Inl (ValueError (''unsupported '' @ field @ '' scalar in trusted manifest''))
      else if is_absolute v \<or> ''..'' \<in> set (path_parts v) then
        Inl (ValueError (''unsafe '' @ field @ '' path in trusted manifest''))
      else Inr v)"

record product_zone =
  z_path :: "string option"
  z_docs :: "string list"
  z_in_docs :: bool
  z_saw_docs :: bool

definition zone_line :: "product_zone \<Rightarrow> string \<Rightarrow> py_error + product_zone" where
  "zone_line z line =
     (if strip line = [] \<or> startswith (lstrip line) ''#'' then Inr z
      else if startswith line ''    path:'' then
        (if z_path z \<noteq> None then Inl (ValueError ''trusted product zone defines path more than once'')
         else bindE (manifest_scalar (last (split_char_max 1 CHR '':'' line)) ''product.path'') (\<lambda>p.
           Inr (z\<lparr>z_path := Some p, z_in_docs := False\<rparr>)))
      else if line = ''    canonical_docs:'' then
        (if z_saw_docs z then Inl (ValueError ''trusted product zone defines canonical_docs more than once'')
         else Inr (z\<lparr>z_saw_docs := True, z_in_docs := True\<rparr>))
      else if z_in_docs z \<and> startswith line ''      - '' then
        bindE (manifest_scalar (drop 8 line) ''product.canonical_docs'') (\<lambda>d. Inr (z\<lparr>z_docs := z_docs z @ [d]\<rparr>))
      else if startswith line ''    '' then Inr (z\<lparr>z_in_docs := False\<rparr>)
      else Inl (ValueError ''unsupported indentation in trusted product zone''))"

definition zone_lines :: "string list \<Rightarrow> string list" where
  "zone_lines lines =
     takeWhile (\<lambda>l. \<not> (startswith l ''  '' \<and> \<not> startswith l ''    '')) (drop 1 (dropWhile (\<lambda>l. l \<noteq> ''  product:'') lines))"

definition canonical_product_docs_from_manifest_text :: "string \<Rightarrow> py_error + string list" where
  "canonical_product_docs_from_manifest_text text =
     (let lines = splitlines text in
      if length (filter (\<lambda>l. l = ''  product:'') lines) \<noteq> 1 then
        Inl (ValueError ''trusted manifest must define exactly one product zone'')
      else
        bindE (foldE zone_line \<lparr>z_path = None, z_docs = [], z_in_docs = False, z_saw_docs = False\<rparr> (zone_lines lines)) (\<lambda>z.
        case z_path z of
          None \<Rightarrow> Inl (ValueError ''trusted product zone must define path'')
        | Some product_path \<Rightarrow>
            if \<not> z_saw_docs z \<or> z_docs z = [] then Inl (ValueError ''trusted product zone must define canonical_docs'')
            else if \<not> distinct (z_docs z) then Inl (ValueError ''trusted product canonical_docs contains duplicates'')
            else Inr (map (\<lambda>doc. rstrip_by (\<lambda>c. c = CHR ''/'') product_path @ ''/'' @ doc) (z_docs z))))"

section \<open>Properties\<close>

definition safe_doc :: "string \<Rightarrow> bool" where
  "safe_doc p \<longleftrightarrow> list_all is_manifest_char p \<and> ''..'' \<notin> set (path_parts p)"

lemma manifest_scalar_safe:
  assumes "manifest_scalar raw field = Inr v" shows "safe_doc v" "v \<noteq> []"
proof -
  have "re_fullmatch SAFE_MANIFEST_SCALAR_RE v \<noteq> None" "''..'' \<notin> set (path_parts v)" "v \<noteq> []"
    using assms by (auto simp: manifest_scalar_def Let_def split: if_splits)
  moreover have "re_fullmatch SAFE_MANIFEST_SCALAR_RE v \<noteq> None \<longleftrightarrow> v \<in> lang (seqs [Plus (Chr is_manifest_char)])"
    using fullmatch_anchored [of "[Plus (Chr is_manifest_char)]" v] by (simp add: SAFE_MANIFEST_SCALAR_RE_def)
  ultimately show "safe_doc v" "v \<noteq> []" by (auto simp: safe_doc_def lang_seqs_Cons)
qed

lemma path_parts_append: "path_parts (a @ ''/'' @ b) = path_parts a @ path_parts b"
  by (simp add: path_parts_def split_char_at)

lemma path_parts_rstrip: "path_parts (rstrip_by (\<lambda>c. c = CHR ''/'') p) = path_parts p"
proof (induction p rule: rev_induct)
  case (snoc c p)
  then show ?case
    by (cases "c = CHR ''/''") (simp_all add: rstrip_by_def path_parts_append [of p "[]", simplified] path_parts_def [of "[]"])
qed (simp add: rstrip_by_def)

definition zone_safe :: "product_zone \<Rightarrow> bool" where
  "zone_safe z \<longleftrightarrow> (\<forall>p. z_path z = Some p \<longrightarrow> safe_doc p) \<and> list_all safe_doc (z_docs z)"

lemma zone_line_safe: "zone_line z line = Inr z' \<Longrightarrow> zone_safe z \<Longrightarrow> zone_safe z'"
  by (auto simp: zone_line_def zone_safe_def bindE_eq_Inr split: if_splits dest: manifest_scalar_safe)

lemma zone_fold_safe: "foldE zone_line z ls = Inr z' \<Longrightarrow> zone_safe z \<Longrightarrow> zone_safe z'"
  by (induction ls arbitrary: z) (auto simp: bindE_eq_Inr dest: zone_line_safe)

text \<open>
  The documents read from the trusted manifest are repository-relative. Whatever the manifest says, every
  path that \<^verbatim>\<open>canonical_product_docs_from_manifest_text\<close> returns consists of letters, digits, dots,
  underscores, hyphens and slashes only and has no \<^verbatim>\<open>..\<close> component, and no path is returned twice.
\<close>

lemma canonical_docs_safe:
  assumes "canonical_product_docs_from_manifest_text text = Inr docs"
  shows "docs \<noteq> [] \<and> distinct docs \<and> list_all (\<lambda>p. list_all is_manifest_char p \<and> ''..'' \<notin> set (path_parts p)) docs"
proof -
  obtain z p where fold: "foldE zone_line \<lparr>z_path = None, z_docs = [], z_in_docs = False, z_saw_docs = False\<rparr> (zone_lines (splitlines text)) = Inr z"
    and z: "z_path z = Some p" "z_docs z \<noteq> []" "distinct (z_docs z)"
    and docs: "docs = map (\<lambda>doc. rstrip_by (\<lambda>c. c = CHR ''/'') p @ ''/'' @ doc) (z_docs z)"
    using assms by (auto simp: canonical_product_docs_from_manifest_text_def Let_def bindE_eq_Inr split: if_splits option.splits)
  have "zone_safe z" using zone_fold_safe [OF fold] by (simp add: zone_safe_def)
  then have safe: "safe_doc p" "list_all safe_doc (z_docs z)" using z(1) by (auto simp: zone_safe_def)
  have "set (rstrip_by (\<lambda>c. c = CHR ''/'') p) \<subseteq> set p"
    by (auto simp: rstrip_by_def dest: set_dropWhileD)
  then have "list_all is_manifest_char (rstrip_by (\<lambda>c. c = CHR ''/'') p)"
    using safe(1) by (auto simp: safe_doc_def list_all_iff)
  then have "list_all (\<lambda>d. list_all is_manifest_char d \<and> ''..'' \<notin> set (path_parts d)) docs"
    using safe path_parts_append [of "rstrip_by (\<lambda>c. c = CHR ''/'') p"]
    by (auto simp: docs safe_doc_def list_all_iff path_parts_rstrip is_manifest_char_def)
  moreover have "distinct docs" using z(3) by (auto simp: docs distinct_map intro: inj_onI)
  ultimately show ?thesis using z(2) docs by simp
qed

end
