(* ===== verification/Review_Governance.thy ===== *)
theory Review_Governance
  imports Attention_Impact
begin

text \<open>
  \<^verbatim>\<open>scripts/quality/review_governance.py\<close>: the risk class of a pull request, the materials of a review, and
  the evaluation of review evidence (\<^verbatim>\<open>evaluate_evidence\<close>), which decides whether a pull request may be
  merged.

  Outside the program, in \<open>gov_env\<close>: \<^verbatim>\<open>json.JSONDecoder.raw_decode\<close> (the value and the number of
  characters consumed), \<^verbatim>\<open>datetime.fromisoformat\<close> (microseconds since year 1 in UTC, \<open>None\<close> for a
  \<^verbatim>\<open>ValueError\<close>) and SHA-256. NFC leaves every string over the model's alphabet as it is. Names that are not UTF-8 and
  characters beyond U+00FF are outside that alphabet. The summaries of the
  evaluation that are only printed keep the order of the source.
\<close>

section \<open>Risk classes\<close>

datatype risk = R0 | R1 | R2 | R3

fun RISK_ORDER :: "risk \<Rightarrow> nat" where
  "RISK_ORDER R0 = 0" | "RISK_ORDER R1 = 1" | "RISK_ORDER R2 = 2" | "RISK_ORDER R3 = 3"

fun REQUIRED_REVIEWS :: "risk \<Rightarrow> nat" where
  "REQUIRED_REVIEWS R0 = 0" | "REQUIRED_REVIEWS R1 = 1" | "REQUIRED_REVIEWS R2 = 2" | "REQUIRED_REVIEWS R3 = 2"

fun risk_name :: "risk \<Rightarrow> string" where
  "risk_name R0 = ''R0''" | "risk_name R1 = ''R1''" | "risk_name R2 = ''R2''" | "risk_name R3 = ''R3''"

instantiation risk :: linorder
begin

definition less_eq_risk :: "risk \<Rightarrow> risk \<Rightarrow> bool" where
  "less_eq_risk a b = (RISK_ORDER a \<le> RISK_ORDER b)"

definition less_risk :: "risk \<Rightarrow> risk \<Rightarrow> bool" where
  "less_risk a b = (RISK_ORDER a < RISK_ORDER b)"

instance
proof
  fix a b :: risk
  show "a \<le> b \<Longrightarrow> b \<le> a \<Longrightarrow> a = b"
    by (cases a; cases b) (simp_all add: less_eq_risk_def)
qed (auto simp: less_eq_risk_def less_risk_def)

end

section \<open>Constants\<close>

definition MAX_EVIDENCE_PAYLOAD_BYTES :: nat where "MAX_EVIDENCE_PAYLOAD_BYTES = 20 * 1024"
definition MIN_REVIEW_REPORT_BYTES :: nat where "MIN_REVIEW_REPORT_BYTES = 120"
definition MAX_FALLBACK_REASON_BYTES :: nat where "MAX_FALLBACK_REASON_BYTES = 512"
definition MAX_ARTIFACT_BYTES :: nat where "MAX_ARTIFACT_BYTES = 100 * 1024 * 1024"

definition SHA40_RE :: re where
  "SHA40_RE = class_block 40 is_lower_hex"

definition REPORT_SHA256_RE :: re where
  "REPORT_SHA256_RE = class_block 64 is_lower_hex"

definition is_alnum :: "char \<Rightarrow> bool" where
  "is_alnum c = (is_alpha c \<or> is_digit c)"

definition GITHUB_LOGIN_RE :: re where
  "GITHUB_LOGIN_RE = seqs [Bol, Chr is_alnum,
     Opt (Seq (RepBetween 0 37 (Chr (\<lambda>c. is_alnum c \<or> c = CHR ''-''))) (Chr is_alnum)), Eol]"

definition REVIEW_SESSION_RE :: re where
  "REVIEW_SESSION_RE = seqs [Bol, Chr is_alnum,
     RepBetween 0 79 (Chr (\<lambda>c. is_alnum c \<or> c \<in> {CHR ''.'', CHR ''_'', CHR '':'', CHR ''-''})), Eol]"

definition RISK_RE :: re where
  "RISK_RE = seqs [Lit ''<!--'', re_spaces, LitI ''weltgewebe-risk:'', re_spaces,
     Grp 1 (Seq (LitI ''R'') (Chr (in_range CHR ''0'' CHR ''3''))), re_spaces, Lit ''-->'']"

definition EVIDENCE_START_RE :: re where
  "EVIDENCE_START_RE = seqs [Lit ''<!--'', re_spaces, LitI ''weltgewebe-review-evidence'', WordB]"

definition FORWARDED_EVIDENCE_START_RE :: re where
  "FORWARDED_EVIDENCE_START_RE = seqs [Lit ''<!--'', re_spaces, LitI ''weltgewebe-forwarded-review'', WordB]"

definition SAFE_OPAQUE_SUFFIXES :: "string list" where
  "SAFE_OPAQUE_SUFFIXES = [''.png'', ''.jpg'', ''.jpeg'', ''.gif'', ''.webp'', ''.avif'', ''.ico'']"

definition SAFE_OPAQUE_PREFIXES :: "string list" where
  "SAFE_OPAQUE_PREFIXES = [''docs/'', ''apps/web/static/'', ''apps/web/src/lib/assets/'', ''static/'']"

definition AUTHORIZED_ASSOCIATIONS :: "string list" where
  "AUTHORIZED_ASSOCIATIONS = [''OWNER'', ''MEMBER'', ''COLLABORATOR'']"

definition HIGH_RISK_AXES :: "string list" where
  "HIGH_RISK_AXES = [''security'', ''privacy'', ''data-integrity'', ''concurrency'', ''migration'', ''operations'']"

definition ALLOWED_AXES :: "string list" where
  "ALLOWED_AXES = HIGH_RISK_AXES @ [''correctness'', ''regression'', ''architecture'', ''maintainability'', ''accessibility'',
     ''user-experience'', ''testing'']"

text \<open>\<^verbatim>\<open>Path(p).suffix\<close>.\<close>

definition path_suffix :: "string \<Rightarrow> string" where
  "path_suffix p =
     (let parts = path_parts p; name = (if parts = [] then [] else last parts);
          tail = takeWhile (\<lambda>c. c \<noteq> CHR ''.'') (rev name) in
      if CHR ''.'' \<in> set name \<and> tail \<noteq> [] \<and> length tail + 1 < length name then CHR ''.'' # rev tail else [])"

section \<open>Errors and the authorities\<close>

datatype gov_error = GovernanceError string | GovPy py_error

record gov_env =
  ge_raw_decode :: "string \<Rightarrow> py_error + json \<times> nat"
  ge_fromisoformat :: "string \<Rightarrow> nat option"
  ge_sha256 :: "string \<Rightarrow> string"

definition gov_when :: "bool \<Rightarrow> string \<Rightarrow> gov_error + unit" where
  "gov_when c msg = raise_when c (GovernanceError msg)"

definition attester_login :: "json \<Rightarrow> gov_error + string" where
  "attester_login v =
     (case v of
        JStr s \<Rightarrow>
          if s \<noteq> strip s then Inl (GovernanceError ''allowed_attesters contains an invalid login'')
          else if re_fullmatch GITHUB_LOGIN_RE s = None then
            Inl (GovernanceError ''allowed_attesters contains an invalid GitHub login'')
          else Inr (casefold s)
      | _ \<Rightarrow> Inl (GovernanceError ''allowed_attesters contains an invalid login''))"

text \<open>\<^verbatim>\<open>load_allowed_attesters\<close>, on the JSON value of the file.\<close>

definition load_allowed_attesters :: "json \<Rightarrow> gov_error + string list" where
  "load_allowed_attesters raw =
     (case raw of
        JDict d \<Rightarrow>
          if set (keys_of d) \<noteq> {''schema_version'', ''allowed_attesters''} then
            Inl (GovernanceError ''attester authority file must contain exactly schema_version and allowed_attesters'')
          else if \<not> py_eq (sget d ''schema_version'') (JInt 1) then Inl (GovernanceError ''unsupported attester authority schema'')
          else (case sget d ''allowed_attesters'' of
              JList vs \<Rightarrow>
                if vs = [] then Inl (GovernanceError ''allowed_attesters must be a non-empty list'')
                else bindE (mapE attester_login vs) (\<lambda>normalized.
                  if \<not> distinct normalized then Inl (GovernanceError ''allowed_attesters must not contain duplicates'')
                  else Inr normalized)
            | _ \<Rightarrow> Inl (GovernanceError ''allowed_attesters must be a non-empty list''))
      | _ \<Rightarrow> Inl (GovernanceError ''attester authority file must contain exactly schema_version and allowed_attesters''))"

section \<open>What a pull request changes\<close>

record diff_stats =
  ds_changed_files :: "string list"
  ds_additions :: int
  ds_deletions :: int
  ds_binary_files :: "string list"
  ds_opaque_files :: "string list"
  ds_attention_changed_files :: "string list"

definition changed_lines :: "diff_stats \<Rightarrow> int" where
  "changed_lines s = ds_additions s + ds_deletions s"

definition attention_files :: "diff_stats \<Rightarrow> string list" where
  "attention_files s = (if ds_attention_changed_files s \<noteq> [] then ds_attention_changed_files s else ds_changed_files s)"

record review_bundle =
  rb_pr_number :: int
  rb_base_sha :: string
  rb_head_sha :: string
  rb_merge_base_sha :: string
  rb_diff_sha256 :: string
  rb_patch_sha256 :: string
  rb_stats :: diff_stats

text \<open>
  \<^verbatim>\<open>_parse_numstat_z\<close>: the loop over the NUL-separated fields. A record with an empty path is a rename and
  takes the next two fields. The accumulator holds additions, deletions and binary files.
\<close>

type_synonym numstat = "int \<times> int \<times> string list"

definition numstat_totals :: "string \<Rightarrow> string \<Rightarrow> string \<Rightarrow> numstat \<Rightarrow> gov_error + numstat" where
  "numstat_totals added_raw deleted_raw file acc =
     (case acc of (additions, deletions, binary) \<Rightarrow>
      if (added_raw = ''-'') \<noteq> (deleted_raw = ''-'') then Inl (GovernanceError ''git numstat contains a partial binary marker'')
      else if added_raw = ''-'' then Inr (additions, deletions, binary @ [file])
      else (case (int_of_bytes added_raw, int_of_bytes deleted_raw) of
          (Some added, Some deleted) \<Rightarrow>
            if added < 0 \<or> deleted < 0 then Inl (GovernanceError ''git numstat contains negative totals'')
            else Inr (additions + added, deletions + deleted, binary)
        | _ \<Rightarrow> Inl (GovernanceError ''git numstat contains non-numeric totals'')))"

fun numstat_records :: "string list \<Rightarrow> numstat \<Rightarrow> gov_error + numstat" where
  "numstat_records [] acc = Inr acc"
| "numstat_records (entry # records) acc =
     (if entry = [] then Inl (GovernanceError ''git numstat produced an empty record'')
      else (case split_char_max 2 CHR 0x09 entry of
          [added_raw, deleted_raw, path_raw] \<Rightarrow>
            if path_raw \<noteq> [] then
              bindE (numstat_totals added_raw deleted_raw (fsdecode path_raw) acc) (\<lambda>acc'. numstat_records records acc')
            else (case records of
                old_path_raw # new_path_raw # rest \<Rightarrow>
                  if old_path_raw = [] \<or> new_path_raw = [] then
                    Inl (GovernanceError ''git numstat rename paths must not be empty'')
                  else bindE (numstat_totals added_raw deleted_raw (fsdecode new_path_raw) acc) (\<lambda>acc'. numstat_records rest acc')
              | _ \<Rightarrow> Inl (GovernanceError ''git numstat rename record is incomplete''))
        | _ \<Rightarrow> Inl (GovernanceError ''git numstat produced a malformed record'')))"

definition parse_numstat_z :: "string \<Rightarrow> gov_error + numstat" where
  "parse_numstat_z raw =
     (if raw = [] then Inr (0, 0, [])
      else
        (let fields = split_char CHR 0x00 raw in
         if last fields \<noteq> [] then Inl (GovernanceError ''git numstat stream is not NUL terminated'')
         else numstat_records (butlast fields) (0, 0, [])))"

section \<open>The risk of a change\<close>

definition parse_risk_class :: "string \<Rightarrow> risk option" where
  "parse_risk_class pr_body =
     (case map upper (findall1 RISK_RE pr_body) of
        [m] \<Rightarrow> find (\<lambda>r. risk_name r = m) [R0, R1, R2, R3]
      | _ \<Rightarrow> None)"

definition is_safe_opaque_asset :: "string \<Rightarrow> bool" where
  "is_safe_opaque_asset p =
     (let lowered = lower p in
      list_ex (startswith lowered) SAFE_OPAQUE_PREFIXES \<and> path_suffix lowered \<in> set SAFE_OPAQUE_SUFFIXES)"

definition partition_opaque_files :: "string list \<Rightarrow> string list \<times> string list" where
  "partition_opaque_files paths = (filter is_safe_opaque_asset paths, filter (\<lambda>p. \<not> is_safe_opaque_asset p) paths)"

definition critical_path :: "string \<Rightarrow> bool" where
  "critical_path p \<longleftrightarrow>
     startswith p ''.github/workflows/'' \<or>
     p \<in> {''.github/grabowski-required-checks.json'', ''.github/review-evidence-authorities.json'',
          ''.github/pull_request_template.md'', ''scripts/quality/review_governance.py'', ''docs/process/merge-quality-gate.md''} \<or>
     startswith p ''infra/'' \<or> startswith p ''scripts/ops/'' \<or> contains ''/migrations/'' (''/'' @ p) \<or>
     list_ex (\<lambda>token. contains token p) [''auth'', ''security'', ''privacy'', ''session'', ''passkey''] \<or>
     startswith p ''docs/deploy/'' \<or> startswith p ''docs/runbooks/''"

definition code_path :: "string \<Rightarrow> bool" where
  "code_path p \<longleftrightarrow>
     list_ex (startswith p) [''apps/api/'', ''apps/web/'', ''src/'', ''scripts/'', ''tests/''] \<or>
     list_ex (endswith p) [''cargo.lock'', ''pnpm-lock.yaml'', ''package-lock.json''] \<or>
     list_ex (endswith p) [''.rs'', ''.py'', ''.ts'', ''.tsx'', ''.js'', ''.mjs'', ''.svelte'', ''.sql'', ''.sh'']"

fun minimum_risk_loop :: "risk \<Rightarrow> string list \<Rightarrow> risk" where
  "minimum_risk_loop minimum [] = minimum"
| "minimum_risk_loop minimum (raw_path # paths) =
     (let p = lower raw_path in
      if critical_path p then R3
      else if endswith p ''.md'' then minimum_risk_loop minimum paths
      else if is_safe_opaque_asset p then minimum_risk_loop (max minimum R1) paths
      else if code_path p then minimum_risk_loop R2 paths
      else minimum_risk_loop (max minimum R1) paths)"

definition minimum_risk_for_paths :: "string list \<Rightarrow> risk" where
  "minimum_risk_for_paths paths = minimum_risk_loop R0 paths"

definition r0_scope_valid :: "diff_stats \<Rightarrow> bool \<times> string" where
  "r0_scope_valid stats =
     (if changed_lines stats > 50
      then (False, ''R0 permits at most 50 changed lines, found '' @ str_of_int (changed_lines stats))
      else
        (let unsafe = filter (\<lambda>p. \<not> endswith p ''.md'') (ds_changed_files stats) in
         if unsafe \<noteq> [] then (False, ''R0 permits Markdown-only changes, found: '' @ join '', '' unsafe) else (True, [])))"

section \<open>Materials\<close>

definition validate_binding_shas :: "int \<Rightarrow> string \<Rightarrow> string \<Rightarrow> string \<Rightarrow> gov_error + unit" where
  "validate_binding_shas pr_number base_sha head_sha merge_base_sha =
     bindE (gov_when (pr_number < 1) ''PR number must be a positive integer'') (\<lambda>_.
     forE (\<lambda>(name, v). gov_when (re_fullmatch SHA40_RE v = None) (name @ '' must be a lowercase 40-character Git SHA''))
       [(''base_sha'', base_sha), (''head_sha'', head_sha), (''merge_base_sha'', merge_base_sha)])"

definition invalid_path :: "string \<Rightarrow> bool" where
  "invalid_path p \<longleftrightarrow> p = [] \<or> p \<noteq> strip p \<or> startswith p ''/'' \<or>
     list_ex (\<lambda>part. part \<in> {'''', ''.'', ''..''}) (split_char CHR ''/'' p) \<or> list_ex is_control p"

definition validate_stats :: "diff_stats \<Rightarrow> gov_error + unit" where
  "validate_stats s =
     bindE (gov_when (ds_additions s < 0 \<or> ds_deletions s < 0) ''diff totals must be non-negative'') (\<lambda>_.
     bindE (gov_when (\<not> distinct (ds_changed_files s)) ''changed_files must not contain duplicates'') (\<lambda>_.
     bindE (gov_when (\<not> distinct (ds_binary_files s)) ''binary_files must not contain duplicates'') (\<lambda>_.
     bindE (gov_when (\<not> distinct (ds_opaque_files s)) ''opaque_files must not contain duplicates'') (\<lambda>_.
     bindE (gov_when (\<not> distinct (attention_files s)) ''attention_changed_files must not contain duplicates'') (\<lambda>_.
     bindE (gov_when (\<not> set (ds_binary_files s) \<subseteq> set (ds_changed_files s)) ''binary_files must be a subset of changed_files'') (\<lambda>_.
     bindE (gov_when (\<not> set (ds_opaque_files s) \<subseteq> set (ds_changed_files s)) ''opaque_files must be a subset of changed_files'') (\<lambda>_.
     forE (\<lambda>(field_name, paths). forE (\<lambda>p. gov_when (invalid_path p) (field_name @ '' contains an invalid path'')) paths)
       [(''changed_files'', ds_changed_files s), (''attention_changed_files'', attention_files s)])))))))"

text \<open>\<^verbatim>\<open>bytes.splitlines()\<close> and \<^verbatim>\<open>_safe_name\<close>.\<close>

fun bytes_lines :: "string \<Rightarrow> string \<Rightarrow> string list" where
  "bytes_lines acc [] = (if acc = [] then [] else [rev acc])"
| "bytes_lines acc (c # cs) =
     (if c = CHR 0x0A then rev acc # bytes_lines [] cs
      else if c = CHR 0x0D then rev acc # (case cs of d # ds \<Rightarrow> if d = CHR 0x0A then bytes_lines [] ds else bytes_lines [] cs | [] \<Rightarrow> [])
      else bytes_lines (c # acc) cs)"

fun dash_runs :: "bool \<Rightarrow> string \<Rightarrow> string" where
  "dash_runs in_run [] = []"
| "dash_runs in_run (c # cs) =
     (if is_alnum c \<or> c \<in> {CHR ''.'', CHR ''_'', CHR ''-''} then c # dash_runs False cs
      else if in_run then dash_runs True cs else CHR ''-'' # dash_runs True cs)"

definition safe_name :: "string \<Rightarrow> string" where
  "safe_name v = (let s = strip_by (\<lambda>c. c = CHR ''-'') (dash_runs False v) in if s = [] then ''unknown'' else s)"

definition strings :: "string list \<Rightarrow> json" where
  "strings xs = JList (map JStr xs)"

definition risk_json :: "risk option \<Rightarrow> json" where
  "risk_json r = (case r of None \<Rightarrow> JNull | Some x \<Rightarrow> JStr (risk_name x))"

definition bundle_stem :: "int \<Rightarrow> string \<Rightarrow> string \<Rightarrow> string" where
  "bundle_stem pr_number head_sha diff_hash =
     ''weltgewebe-pr-'' @ str_of_int pr_number @ ''-'' @ safe_name (take 12 head_sha) @ ''-'' @ take 12 diff_hash"

text \<open>
  \<^verbatim>\<open>_build_bundle\<close> up to its first write: every check of it, the bundle and the manifest.
\<close>

definition build_bundle ::
  "gov_env \<Rightarrow> string \<Rightarrow> int \<Rightarrow> string \<Rightarrow> string \<Rightarrow> string \<Rightarrow> risk option \<Rightarrow> string \<Rightarrow> string \<Rightarrow> diff_stats \<Rightarrow> string \<Rightarrow> gov_error + review_bundle \<times> json" where
  "build_bundle env now pr_number base_sha head_sha merge_base_sha risk_class diff_bytes patch_bytes stats source =
     bindE (validate_binding_shas pr_number base_sha head_sha merge_base_sha) (\<lambda>_.
     bindE (validate_stats stats) (\<lambda>_.
     bindE (gov_when (diff_bytes = []) ''review diff is empty'') (\<lambda>_.
     bindE (gov_when (patch_bytes = []) ''review patch is empty'') (\<lambda>_.
     bindE (gov_when (length diff_bytes > MAX_ARTIFACT_BYTES \<or> length patch_bytes > MAX_ARTIFACT_BYTES)
        (''review artifacts exceed the '' @ str_of_nat MAX_ARTIFACT_BYTES @ ''-byte safety limit'')) (\<lambda>_.
     let diff_file_count = length (filter (\<lambda>line. startswith line ''diff --git '') (bytes_lines [] diff_bytes)) in
     bindE (gov_when (diff_file_count \<noteq> length (ds_changed_files stats))
        (''review diff file count does not match materialized changed-file list: diff='' @ str_of_nat diff_file_count @
         '', metadata='' @ str_of_nat (length (ds_changed_files stats)))) (\<lambda>_.
     let diff_hash = ge_sha256 env diff_bytes;
         patch_hash = ge_sha256 env patch_bytes;
         stem = bundle_stem pr_number head_sha diff_hash;
         (reviewable_opaque, blocking_opaque) = partition_opaque_files (ds_opaque_files stats) in
     Inr (\<lparr>rb_pr_number = pr_number, rb_base_sha = base_sha, rb_head_sha = head_sha, rb_merge_base_sha = merge_base_sha,
           rb_diff_sha256 = diff_hash, rb_patch_sha256 = patch_hash, rb_stats = stats\<rparr>,
          JDict [(''schema_version'', JInt 1), (''kind'', JStr ''weltgewebe-review-bundle''), (''generated_at_utc'', JStr now),
            (''source'', JStr source),
            (''binding'', JDict [(''pr_number'', JInt pr_number), (''base_sha'', JStr base_sha), (''head_sha'', JStr head_sha),
               (''merge_base_sha'', JStr merge_base_sha), (''diff_sha256'', JStr diff_hash), (''risk_class'', risk_json risk_class)]),
            (''stats'', JDict [(''changed_files'', strings (ds_changed_files stats)), (''attention_changed_files'', strings (attention_files stats)),
               (''changed_file_count'', JInt (int (length (ds_changed_files stats)))), (''additions'', JInt (ds_additions stats)),
               (''deletions'', JInt (ds_deletions stats)), (''binary_files'', strings (ds_binary_files stats)),
               (''opaque_files'', strings (ds_opaque_files stats)), (''reviewable_opaque_files'', strings reviewable_opaque),
               (''blocking_opaque_files'', strings blocking_opaque)]),
            (''artifacts'', JDict [
               (''diff'', JDict [(''filename'', JStr (stem @ ''.diff'')), (''sha256'', JStr diff_hash), (''bytes'', JInt (int (length diff_bytes)))]),
               (''patch'', JDict [(''filename'', JStr (stem @ ''.patch'')), (''sha256'', JStr patch_hash), (''bytes'', JInt (int (length patch_bytes)))])])])))))))"

text \<open>\<^verbatim>\<open>_materialized_metadata\<close>, on the JSON value of the file.\<close>

definition METADATA_KEYS :: "string list" where
  "METADATA_KEYS = [''schema_version'', ''pr_number'', ''base_sha'', ''head_sha'', ''merge_base_sha'', ''changed_file_count'',
     ''changed_files'', ''additions'', ''deletions'', ''opaque_files'']"

definition plain_int :: "json \<Rightarrow> int option" where
  "plain_int v = (case v of JInt i \<Rightarrow> Some i | _ \<Rightarrow> None)"

definition string_list :: "json \<Rightarrow> string list option" where
  "string_list v =
     (case v of
        JList xs \<Rightarrow> those (map (\<lambda>x. case x of JStr s \<Rightarrow> Some s | _ \<Rightarrow> None) xs)
      | _ \<Rightarrow> None)"

definition gov_opt :: "'a option \<Rightarrow> string \<Rightarrow> gov_error + 'a" where
  "gov_opt x msg = (case x of Some a \<Rightarrow> Inr a | None \<Rightarrow> Inl (GovernanceError msg))"

definition natural_int :: "json \<Rightarrow> int option" where
  "natural_int v = (case plain_int v of Some i \<Rightarrow> if i < 0 then None else Some i | None \<Rightarrow> None)"

definition materialized_metadata :: "json \<Rightarrow> gov_error + int \<times> string \<times> string \<times> string \<times> diff_stats" where
  "materialized_metadata raw =
     (case raw of
        JDict d \<Rightarrow>
          bindE (gov_when (\<not> (set METADATA_KEYS \<subseteq> set (keys_of d) \<and> set (keys_of d) \<subseteq> insert ''attention_changed_files'' (set METADATA_KEYS)))
             (''materialized metadata keys mismatch; missing='' @ py_repr (strings (sorted_set (filter (\<lambda>k. k \<notin> set (keys_of d)) METADATA_KEYS))) @
              '', extra='' @ py_repr (strings (sorted_set (filter (\<lambda>k. k \<notin> insert ''attention_changed_files'' (set METADATA_KEYS)) (keys_of d)))))) (\<lambda>_.
          bindE (gov_when (plain_int (sget d ''schema_version'') \<noteq> Some 1) ''unsupported materialized metadata schema'') (\<lambda>_.
          bindE (gov_opt (plain_int (sget d ''pr_number'')) ''materialized pr_number must be an integer'') (\<lambda>pr_number.
          bindE (gov_opt (natural_int (sget d ''changed_file_count'')) ''materialized changed_file_count must be a non-negative integer'') (\<lambda>changed_file_count.
          bindE (gov_opt (natural_int (sget d ''additions'')) ''materialized additions must be a non-negative integer'') (\<lambda>additions.
          bindE (gov_opt (natural_int (sget d ''deletions'')) ''materialized deletions must be a non-negative integer'') (\<lambda>deletions.
          bindE (gov_opt (string_list (sget d ''changed_files'')) ''materialized changed_files must be a string list'') (\<lambda>changed_files.
          bindE (gov_opt (case map_of d ''attention_changed_files'' of None \<Rightarrow> Some changed_files | Some v \<Rightarrow> string_list v)
             ''materialized attention_changed_files must be a string list'') (\<lambda>attention.
          bindE (gov_opt (string_list (sget d ''opaque_files'')) ''materialized opaque_files must be a string list'') (\<lambda>opaque.
          bindE (gov_when (changed_file_count \<noteq> int (length changed_files)) ''materialized changed_file_count does not match file list'') (\<lambda>_.
          let stats = \<lparr>ds_changed_files = changed_files, ds_additions = additions, ds_deletions = deletions, ds_binary_files = [],
                        ds_opaque_files = opaque, ds_attention_changed_files = attention\<rparr> in
          (case (sget d ''base_sha'', sget d ''head_sha'', sget d ''merge_base_sha'') of
             (JStr base_sha, JStr head_sha, JStr merge_base_sha) \<Rightarrow>
               bindE (validate_binding_shas pr_number base_sha head_sha merge_base_sha) (\<lambda>_.
               bindE (validate_stats stats) (\<lambda>_.
               Inr (pr_number, base_sha, head_sha, merge_base_sha, stats)))
           | _ \<Rightarrow> Inl (GovernanceError ''materialized Git SHAs must be strings''))))))))))))
      | _ \<Rightarrow> Inl (GovernanceError ''materialized metadata must be a JSON object''))"

section \<open>Evidence\<close>

fun flatten_entries :: "json list \<Rightarrow> jobject list" where
  "flatten_entries [] = []"
| "flatten_entries (JList xs # items) = List.map_filter (\<lambda>x. case x of JDict d \<Rightarrow> Some d | _ \<Rightarrow> None) xs @ flatten_entries items"
| "flatten_entries (JDict d # items) = d # flatten_entries items"
| "flatten_entries (_ # items) = flatten_entries items"

definition flatten_comments :: "json \<Rightarrow> gov_error + jobject list" where
  "flatten_comments raw = (case raw of JList xs \<Rightarrow> Inr (flatten_entries xs) | _ \<Rightarrow> Inl (GovernanceError ''comments JSON must be a list''))"

definition flatten_reviews :: "json \<Rightarrow> gov_error + jobject list" where
  "flatten_reviews raw = (case raw of JList xs \<Rightarrow> Inr (flatten_entries xs) | _ \<Rightarrow> Inl (GovernanceError ''reviews JSON must be a list''))"

definition normalized_report_text :: "string \<Rightarrow> string" where
  "normalized_report_text v = strip (replace_str [CHR 0x0D] [CHR 0x0A] (replace_str [CHR 0x0D, CHR 0x0A] [CHR 0x0A] v))"

definition github_timestamp :: "gov_env \<Rightarrow> json \<Rightarrow> nat" where
  "github_timestamp env v =
     (case v of
        JStr s \<Rightarrow> if s = [] then 0 else (case ge_fromisoformat env (replace_str ''Z'' ''+00:00'' s) of Some t \<Rightarrow> t | None \<Rightarrow> 0)
      | _ \<Rightarrow> 0)"

definition numeric_id :: "json \<Rightarrow> int" where
  "numeric_id v = (case plain_int v of Some i \<Rightarrow> i | None \<Rightarrow> 0)"

text \<open>\<^verbatim>\<open>x or ""\<close>, then \<^verbatim>\<open>str\<close>.\<close>

definition str_or_empty :: "json \<Rightarrow> string" where
  "str_or_empty v = (if truthy v then py_str v else [])"

datatype decode_failure = Malformed | Oversized

definition decode_evidence_payload :: "gov_env \<Rightarrow> string \<Rightarrow> gov_error + (decode_failure + jobject)" where
  "decode_evidence_payload env body_rest =
     (let source = lstrip body_rest in
      case ge_raw_decode env source of
        Inl (JSONDecodeError _) \<Rightarrow> Inr (Inl Malformed)
      | Inl e \<Rightarrow> Inl (GovPy e)
      | Inr (v, consumed) \<Rightarrow>
          Inr (if length (utf8_encode (take consumed source)) > MAX_EVIDENCE_PAYLOAD_BYTES then Inl Oversized
               else let remainder = lstrip (drop consumed source) in
                 if \<not> (startswith remainder ''-->'' \<or> startswith remainder ''--!>'') then Inl Malformed
                 else (case v of JDict d \<Rightarrow> Inr d | _ \<Rightarrow> Inl Malformed)))"

record evidence =
  ev_payload :: jobject
  ev_comment_index :: nat
  ev_block_index :: nat
  ev_block_count :: nat
  ev_report_bytes :: nat
  ev_report_sha256 :: string
  ev_association :: string
  ev_author :: json
  ev_url :: json
  ev_id :: int
  ev_updated :: json

definition comment_body :: "jobject \<Rightarrow> string option" where
  "comment_body c = (case sget c ''body'' of JStr s \<Rightarrow> Some s | v \<Rightarrow> if truthy v then None else Some [])"

definition login_of :: "jobject \<Rightarrow> json" where
  "login_of c = (case sget c ''user'' of JDict u \<Rightarrow> sget u ''login'' | _ \<Rightarrow> JNull)"

definition mk_evidence :: "gov_env \<Rightarrow> jobject \<Rightarrow> nat \<Rightarrow> nat \<Rightarrow> nat \<Rightarrow> string \<Rightarrow> jobject \<Rightarrow> evidence" where
  "mk_evidence env c comment_index block_index block_count before payload =
     (let report_bytes = utf8_encode (normalized_report_text before) in
      \<lparr>ev_payload = payload, ev_comment_index = comment_index, ev_block_index = block_index, ev_block_count = block_count,
       ev_report_bytes = length report_bytes, ev_report_sha256 = ge_sha256 env report_bytes,
       ev_association = upper (str_or_empty (sget c ''author_association'')), ev_author = login_of c, ev_url = sget c ''html_url'',
       ev_id = numeric_id (sget c ''id''),
       ev_updated = (if truthy (sget c ''updated_at'') then sget c ''updated_at''
                     else if truthy (sget c ''created_at'') then sget c ''created_at'' else JStr [])\<rparr>)"

type_synonym block_scan = "evidence list \<times> nat \<times> nat"

fun scan_blocks :: "gov_env \<Rightarrow> jobject \<Rightarrow> nat \<Rightarrow> nat \<Rightarrow> nat \<Rightarrow> (string \<times> re_state) list \<Rightarrow> gov_error + block_scan" where
  "scan_blocks env c ci n bi [] = Inr ([], 0, 0)"
| "scan_blocks env c ci n bi ((before, st) # starts) =
     bindE (decode_evidence_payload env (rest_of st)) (\<lambda>decoded.
     bindE (scan_blocks env c ci n (Suc bi) starts) (\<lambda>(evs, failures, oversized).
     Inr (case decoded of
         Inr payload \<Rightarrow> (mk_evidence env c ci bi n (rev before) payload # evs, failures, oversized)
       | Inl Malformed \<Rightarrow> (evs, Suc failures, oversized)
       | Inl Oversized \<Rightarrow> (evs, Suc failures, Suc oversized))))"

fun scan_comments :: "gov_env \<Rightarrow> re \<Rightarrow> nat \<Rightarrow> jobject list \<Rightarrow> gov_error + block_scan" where
  "scan_comments env marker ci [] = Inr ([], 0, 0)"
| "scan_comments env marker ci (c # cs) =
     bindE (case comment_body c of
         None \<Rightarrow> Inr ([], 0, 0)
       | Some body \<Rightarrow> (let starts = re_finditer marker body in scan_blocks env c ci (length starts) 0 starts)) (\<lambda>(evs, failures, oversized).
     bindE (scan_comments env marker (Suc ci) cs) (\<lambda>(evs', failures', oversized').
     Inr (evs @ evs', failures + failures', oversized + oversized')))"

definition evidence_blocks :: "gov_env \<Rightarrow> jobject list \<Rightarrow> gov_error + block_scan" where
  "evidence_blocks env comments = scan_comments env EVIDENCE_START_RE 0 comments"

definition forwarded_evidence_blocks :: "gov_env \<Rightarrow> jobject list \<Rightarrow> gov_error + block_scan" where
  "forwarded_evidence_blocks env comments = scan_comments env FORWARDED_EVIDENCE_START_RE 0 comments"

section \<open>Native reviews\<close>

record native_review =
  nv_reviewer :: string
  nv_state :: string
  nv_commit_id :: string
  nv_url :: json
  nv_ordering :: "nat \<times> int \<times> nat"

type_synonym native_scan = "(string, native_review) dict \<times> nat \<times> nat"

text \<open>One iteration: latest review per login, unauthorised count, malformed count.\<close>

definition native_step :: "gov_env \<Rightarrow> nat \<Rightarrow> jobject \<Rightarrow> native_scan \<Rightarrow> native_scan" where
  "native_step env index review acc =
     (case acc of (latest, unauthorized, malformed) \<Rightarrow>
      let state = upper (str_or_empty (sget review ''state'')) in
      if state \<notin> {''APPROVED'', ''CHANGES_REQUESTED'', ''DISMISSED''} then acc
      else (case login_of review of
        JStr login \<Rightarrow>
          if re_fullmatch GITHUB_LOGIN_RE login = None then (latest, unauthorized, Suc malformed)
          else if upper (str_or_empty (sget review ''author_association'')) \<notin> set AUTHORIZED_ASSOCIATIONS then (latest, Suc unauthorized, malformed)
          else (case sget review ''commit_id'' of
              JStr commit_id \<Rightarrow>
                if re_fullmatch SHA40_RE commit_id = None then (latest, unauthorized, Suc malformed)
                else
                  (let ordering = (github_timestamp env (sget review ''submitted_at''), numeric_id (sget review ''id''), index);
                       current = \<lparr>nv_reviewer = login, nv_state = state, nv_commit_id = commit_id, nv_url = sget review ''html_url'', nv_ordering = ordering\<rparr>
                   in case map_of latest (casefold login) of
                        Some previous \<Rightarrow> if nv_ordering previous \<le> ordering then (dict_set (casefold login) current latest, unauthorized, malformed) else acc
                      | None \<Rightarrow> (dict_set (casefold login) current latest, unauthorized, malformed))
            | _ \<Rightarrow> (latest, unauthorized, Suc malformed))
      | _ \<Rightarrow> (latest, unauthorized, Suc malformed)))"

fun native_loop :: "gov_env \<Rightarrow> nat \<Rightarrow> jobject list \<Rightarrow> native_scan \<Rightarrow> native_scan" where
  "native_loop env index [] acc = acc"
| "native_loop env index (review # reviews) acc = native_loop env (Suc index) reviews (native_step env index review acc)"

record native_result =
  nr_accepted :: "native_review list"
  nr_blocking :: "native_review list"
  nr_stale :: nat
  nr_unauthorized :: nat
  nr_malformed :: nat

definition native_review_evidence :: "gov_env \<Rightarrow> jobject list \<Rightarrow> string \<Rightarrow> native_result" where
  "native_review_evidence env reviews head_sha =
     (let (latest, unauthorized, malformed) = native_loop env 0 reviews ([], 0, 0);
          records = map snd latest;
          current = filter (\<lambda>r. nv_commit_id r = head_sha) records in
      \<lparr>nr_accepted = filter (\<lambda>r. nv_state r = ''APPROVED'') current,
       nr_blocking = filter (\<lambda>r. nv_state r = ''CHANGES_REQUESTED'') current,
       nr_stale = length (filter (\<lambda>r. nv_commit_id r \<noteq> head_sha) records),
       nr_unauthorized = unauthorized, nr_malformed = malformed\<rparr>)"

section \<open>Screening the evidence\<close>

record exact_review =
  x_reviewer :: string
  x_report_sha256 :: string
  x_axis :: string
  x_verdict :: string
  x_resolved :: bool
  x_mode :: "string option"
  x_session :: "string option"
  x_reason :: "string option"
  x_forwarded :: bool
  x_evidence :: evidence

datatype screened = Unauthorized | MalformedRecord | Stale | Exact exact_review

definition REQUIRED_FIELDS :: "string list" where
  "REQUIRED_FIELDS = [''schema_version'', ''pr_number'', ''base_sha'', ''head_sha'', ''diff_sha256'', ''risk_class'', ''reviewer'',
     ''report_sha256'', ''review_axis'', ''verdict'', ''findings_resolved'']"

definition OPTIONAL_FIELDS :: "string list" where
  "OPTIONAL_FIELDS = [''review_mode'', ''review_session'', ''fallback_reason'']"

definition FORWARDED_FIELDS :: "string list" where
  "FORWARDED_FIELDS = [''schema_version'', ''base_sha'', ''head_sha'', ''diff_sha256'', ''reviewer'', ''review_axis'', ''verdict'',
     ''findings_resolved'']"

definition attested :: "string list \<Rightarrow> evidence \<Rightarrow> bool" where
  "attested attesters ev \<longleftrightarrow>
     ev_association ev \<in> set AUTHORIZED_ASSOCIATIONS \<and> casefold (strip (str_or_empty (ev_author ev))) \<in> set attesters"

definition string_or_empty :: "json \<Rightarrow> string" where
  "string_or_empty v = (case v of JStr s \<Rightarrow> s | _ \<Rightarrow> [])"

text \<open>Mode, session and reason of a review, and whether they are consistent.\<close>

definition self_review_fields :: "jobject \<Rightarrow> string \<times> string \<times> string \<times> bool" where
  "self_review_fields p =
     (let mode_raw = (case map_of p ''review_mode'' of Some v \<Rightarrow> v | None \<Rightarrow> JStr ''external'');
          session_raw = (case map_of p ''review_session'' of Some v \<Rightarrow> v | None \<Rightarrow> JStr []);
          reason_raw = (case map_of p ''fallback_reason'' of Some v \<Rightarrow> v | None \<Rightarrow> JStr []);
          mode_present = (map_of p ''review_mode'' \<noteq> None);
          session_present = (map_of p ''review_session'' \<noteq> None);
          reason_present = (map_of p ''fallback_reason'' \<noteq> None);
          mode = lower (strip (string_or_empty mode_raw));
          session = strip (string_or_empty session_raw);
          reason = strip (string_or_empty reason_raw);
          trimmed = (\<lambda>v. case v of JStr s \<Rightarrow> s = strip s | _ \<Rightarrow> False) in
      (mode, session, reason,
       if mode = ''external'' then
         (\<not> mode_present \<or> trimmed mode_raw) \<and> \<not> session_present \<and> \<not> reason_present
       else if mode = ''self-primary'' \<or> mode = ''self-fallback'' then
         mode_present \<and> trimmed mode_raw \<and> session_present \<and> trimmed session_raw \<and> re_fullmatch REVIEW_SESSION_RE session \<noteq> None \<and>
         (if mode = ''self-primary'' then \<not> reason_present
          else reason_present \<and> trimmed reason_raw \<and> 20 \<le> length (utf8_encode reason) \<and>
            length (utf8_encode reason) \<le> MAX_FALLBACK_REASON_BYTES \<and> \<not> list_ex is_control reason)
       else False))"

text \<open>The conditions on reviewer, text, axis and verdict that both kinds of evidence share.\<close>

definition review_text_ok :: "evidence \<Rightarrow> bool" where
  "review_text_ok ev \<longleftrightarrow>
     (let p = ev_payload ev; reviewer_raw = string_or_empty (sget p ''reviewer''); reviewer = strip reviewer_raw in
      reviewer \<noteq> [] \<and> reviewer_raw = reviewer \<and> length reviewer \<le> 120 \<and> \<not> list_ex is_control reviewer \<and>
      ev_report_bytes ev \<ge> MIN_REVIEW_REPORT_BYTES \<and> ev_block_count ev = 1 \<and>
      lower (strip (str_or_empty (sget p ''review_axis''))) \<in> set ALLOWED_AXES \<and>
      upper (strip (str_or_empty (sget p ''verdict''))) \<in> {''PASS'', ''BLOCKED'', ''FAIL''} \<and>
      (case sget p ''findings_resolved'' of JBool _ \<Rightarrow> True | _ \<Rightarrow> False))"

definition or_none :: "string \<Rightarrow> string option" where
  "or_none s = (if s = [] then None else Some s)"

definition mk_exact :: "evidence \<Rightarrow> string \<Rightarrow> string option \<Rightarrow> string option \<Rightarrow> string option \<Rightarrow> bool \<Rightarrow> exact_review" where
  "mk_exact ev report mode session reason forwarded =
     (let p = ev_payload ev in
      \<lparr>x_reviewer = strip (string_or_empty (sget p ''reviewer'')), x_report_sha256 = report,
       x_axis = lower (strip (str_or_empty (sget p ''review_axis''))), x_verdict = upper (strip (str_or_empty (sget p ''verdict''))),
       x_resolved = (sget p ''findings_resolved'' = JBool True), x_mode = mode, x_session = session, x_reason = reason,
       x_forwarded = forwarded, x_evidence = ev\<rparr>)"

definition screen_evidence :: "review_bundle \<Rightarrow> risk \<Rightarrow> string list \<Rightarrow> evidence \<Rightarrow> screened" where
  "screen_evidence bnd r attesters ev =
     (let p = ev_payload ev; keys = keys_of p in
      if \<not> attested attesters ev then Unauthorized
      else if list_ex (\<lambda>k. startswith k ''_'') keys \<or> \<not> set REQUIRED_FIELDS \<subseteq> set keys \<or> \<not> set keys \<subseteq> set (REQUIRED_FIELDS @ OPTIONAL_FIELDS)
      then MalformedRecord
      else if plain_int (sget p ''schema_version'') = None \<or> plain_int (sget p ''pr_number'') = None then MalformedRecord
      else if plain_int (sget p ''schema_version'') \<noteq> Some 1 \<or> plain_int (sget p ''pr_number'') \<noteq> Some (rb_pr_number bnd) \<or>
        \<not> py_eq (sget p ''base_sha'') (JStr (rb_base_sha bnd)) \<or> \<not> py_eq (sget p ''head_sha'') (JStr (rb_head_sha bnd)) \<or>
        \<not> py_eq (sget p ''diff_sha256'') (JStr (rb_diff_sha256 bnd)) \<or> upper (py_str (sget p ''risk_class'')) \<noteq> risk_name r
      then Stale
      else
        (let report = strip (str_or_empty (sget p ''report_sha256''));
             (mode, session, reason, self_ok) = self_review_fields p in
         if \<not> review_text_ok ev \<or> re_fullmatch REPORT_SHA256_RE report = None \<or> report \<noteq> ev_report_sha256 ev \<or> \<not> self_ok
         then MalformedRecord
         else Exact (mk_exact ev report (Some mode) (or_none session) (or_none reason) False)))"

definition screen_forwarded :: "review_bundle \<Rightarrow> string list \<Rightarrow> evidence \<Rightarrow> screened" where
  "screen_forwarded bnd attesters ev =
     (let p = ev_payload ev; keys = keys_of p in
      if \<not> attested attesters ev then Unauthorized
      else if list_ex (\<lambda>k. startswith k ''_'') keys \<or> set keys \<noteq> set FORWARDED_FIELDS then MalformedRecord
      else if plain_int (sget p ''schema_version'') = None then MalformedRecord
      else if plain_int (sget p ''schema_version'') \<noteq> Some 1 \<or>
        \<not> py_eq (sget p ''base_sha'') (JStr (rb_base_sha bnd)) \<or> \<not> py_eq (sget p ''head_sha'') (JStr (rb_head_sha bnd)) \<or>
        \<not> py_eq (sget p ''diff_sha256'') (JStr (rb_diff_sha256 bnd))
      then Stale
      else if \<not> review_text_ok ev then MalformedRecord
      else Exact (mk_exact ev (ev_report_sha256 ev) None None None True))"

definition exact_of :: "screened list \<Rightarrow> exact_review list" where
  "exact_of ss = List.map_filter (\<lambda>s. case s of Exact x \<Rightarrow> Some x | _ \<Rightarrow> None) ss"

section \<open>The latest verdict of a reviewer on an axis\<close>

definition review_ordering :: "gov_env \<Rightarrow> exact_review \<Rightarrow> nat \<times> int \<times> nat \<times> nat" where
  "review_ordering env x =
     (let ev = x_evidence x in (github_timestamp env (ev_updated ev), ev_id ev, ev_comment_index ev, ev_block_index ev))"

definition review_key :: "exact_review \<Rightarrow> string \<times> string" where
  "review_key x = (casefold (x_reviewer x), x_axis x)"

fun latest_reviews :: "gov_env \<Rightarrow> exact_review list \<Rightarrow> (string \<times> string, exact_review) dict \<Rightarrow> (string \<times> string, exact_review) dict" where
  "latest_reviews env [] latest = latest"
| "latest_reviews env (x # xs) latest =
     latest_reviews env xs
       (case map_of latest (review_key x) of
          None \<Rightarrow> dict_set (review_key x) x latest
        | Some previous \<Rightarrow>
            if review_ordering env previous \<le> review_ordering env x then dict_set (review_key x) x latest else latest)"

section \<open>The evaluation\<close>

record evaluation =
  va_pass :: bool
  va_risk :: risk
  va_minimum_risk :: risk
  va_attention_required :: bool
  va_attention_decision :: "string option"
  va_required :: nat
  va_accepted_count :: nat
  va_accepted :: "exact_review list"
  va_quick :: "native_review list"
  va_stale :: nat
  va_unauthorized :: nat
  va_malformed :: nat
  va_oversized :: nat
  va_native :: native_result
  va_reasons :: "string list"

definition attention_reasons :: "string option \<Rightarrow> string list option \<Rightarrow> diff_stats \<Rightarrow> string list" where
  "attention_reasons pr_body canonical_product_docs stats =
     (case pr_body of
        None \<Rightarrow> []
      | Some body \<Rightarrow>
          if product_logic_changes (attention_files stats) \<noteq> [] \<and> canonical_product_docs = None
          then [''Attention impact: trusted canonical product docs are unavailable'']
          else map (\<lambda>reason. ''Attention impact: '' @ reason)
            (validate_attention_impact_contract_binding body (attention_files stats)
               (case canonical_product_docs of None \<Rightarrow> [] | Some docs \<Rightarrow> docs)))"

definition risk_reasons :: "risk option \<Rightarrow> diff_stats \<Rightarrow> string list" where
  "risk_reasons declared stats =
     (let r = (case declared of None \<Rightarrow> R3 | Some x \<Rightarrow> x);
          blocking_opaque = snd (partition_opaque_files (ds_opaque_files stats));
          minimum = minimum_risk_for_paths (ds_changed_files stats) in
      (if declared = None then [''PR body must contain exactly one risk marker: <!-- weltgewebe-risk: R0|R1|R2|R3 -->''] else []) @
      (if blocking_opaque \<noteq> [] then [''opaque files outside the reviewable raster-asset policy block the review evidence gate: '' @ join '', '' blocking_opaque] else []) @
      (if r < minimum then [''declared risk '' @ risk_name r @ '' is below path-derived minimum '' @ risk_name minimum] else []) @
      (if r = R0 \<and> \<not> fst (r0_scope_valid stats) then [snd (r0_scope_valid stats)] else []))"

definition blocking_reasons :: "exact_review list \<Rightarrow> native_review list \<Rightarrow> string list" where
  "blocking_reasons latest native_blocking =
     (let blocking = filter (\<lambda>x. x_verdict x \<noteq> ''PASS'') latest in
      (if blocking \<noteq> [] then [''current exact review evidence contains blocking verdicts: '' @
          join '', '' (map (\<lambda>x. x_reviewer x @ ''/'' @ x_axis x @ ''='' @ x_verdict x) blocking)] else []) @
      (if native_blocking \<noteq> [] then [''current-head GitHub reviews request changes: '' @ join '', '' (map nv_reviewer native_blocking)] else []))"

definition accepted_reviews :: "exact_review list \<Rightarrow> exact_review list" where
  "accepted_reviews latest = filter (\<lambda>x. x_verdict x = ''PASS'' \<and> x_resolved x) latest"

definition quick_approvals :: "risk \<Rightarrow> exact_review list \<Rightarrow> native_review list \<Rightarrow> native_review list" where
  "quick_approvals r accepted native_accepted =
     (if r = R1 then filter (\<lambda>n. casefold (nv_reviewer n) \<notin> set (map (\<lambda>x. casefold (x_reviewer x)) accepted)) native_accepted else [])"

definition count_reasons :: "risk \<Rightarrow> nat \<Rightarrow> string list" where
  "count_reasons r accepted_count =
     (if accepted_count < REQUIRED_REVIEWS r
      then [''risk '' @ risk_name r @ '' requires '' @ str_of_nat (REQUIRED_REVIEWS r) @ '' exact PASS reviews, found '' @ str_of_nat accepted_count @
            (if r = R1 then '' (native current-head APPROVED reviews count for R1)'' else [])]
      else [])"

definition sessions_of :: "string \<Rightarrow> exact_review list \<Rightarrow> string set" where
  "sessions_of mode accepted = set (List.map_filter x_session (filter (\<lambda>x. x_mode x = Some mode) accepted))"

definition explicit_self_fallback :: "exact_review list \<Rightarrow> bool" where
  "explicit_self_fallback accepted \<longleftrightarrow>
     card (set (map (\<lambda>x. casefold (x_reviewer x)) accepted)) = 1 \<and>
     sessions_of ''self-primary'' accepted \<noteq> {} \<and> sessions_of ''self-fallback'' accepted \<noteq> {} \<and>
     sessions_of ''self-primary'' accepted \<inter> sessions_of ''self-fallback'' accepted = {} \<and>
     list_all (\<lambda>x. x_reason x \<noteq> None) (filter (\<lambda>x. x_mode x = Some ''self-fallback'') accepted)"

definition diversity_reasons :: "risk \<Rightarrow> exact_review list \<Rightarrow> string list" where
  "diversity_reasons r accepted =
     (let names = set (map (\<lambda>x. casefold (x_reviewer x)) accepted);
          hashes = set (map x_report_sha256 accepted);
          axes = set (map x_axis accepted) in
      (if REQUIRED_REVIEWS r \<ge> 2 then
         (if card names < 2 \<and> \<not> explicit_self_fallback accepted then
            [''R2/R3 require at least two distinct reviewer identities or an explicit self-primary/self-fallback pair with distinct review sessions''] else []) @
         (if card hashes < 2 then [''R2/R3 require at least two distinct review reports''] else []) @
         (if card axes < 2 then [''R2/R3 require at least two distinct review axes''] else [])
       else []) @
      (if r = R3 \<and> axes \<inter> set HIGH_RISK_AXES = {} then
         [''R3 requires at least one security, privacy, data-integrity, concurrency, migration or operations review''] else []))"

definition total_blocks :: "jobject list \<Rightarrow> evidence \<Rightarrow> nat" where
  "total_blocks comments ev =
     (if ev_comment_index ev < length comments then
        (let body = str_or_empty (sget (comments ! ev_comment_index ev) ''body'') in
         length (re_finditer EVIDENCE_START_RE body) + length (re_finditer FORWARDED_EVIDENCE_START_RE body))
      else 0)"

definition recount :: "jobject list \<Rightarrow> evidence \<Rightarrow> evidence" where
  "recount comments ev = ev\<lparr>ev_block_count := total_blocks comments ev\<rparr>"

text \<open>\<^verbatim>\<open>evaluate_evidence\<close> after the evidence blocks have been read, and as a whole.\<close>

definition review_evaluation ::
  "gov_env \<Rightarrow> review_bundle \<Rightarrow> risk option \<Rightarrow> jobject list \<Rightarrow> string list \<Rightarrow> jobject list \<Rightarrow> string option \<Rightarrow> string list option \<Rightarrow> block_scan \<Rightarrow> block_scan \<Rightarrow> evaluation" where
  "review_evaluation env bnd declared comments allowed_attesters reviews pr_body canonical_product_docs blocks forwarded_blocks =
     (let (records, failures, oversized) = blocks;
         (forwarded, fwd_failures, fwd_oversized) = forwarded_blocks;
         stats = rb_stats bnd;
         attesters = map casefold allowed_attesters;
         r = (case declared of None \<Rightarrow> R3 | Some x \<Rightarrow> x);
         screened = map (screen_evidence bnd r attesters \<circ> recount comments) records @
                    map (screen_forwarded bnd attesters \<circ> recount comments) forwarded;
         latest = map snd (latest_reviews env (exact_of screened) []);
         accepted = accepted_reviews latest;
         native = native_review_evidence env reviews (rb_head_sha bnd);
         quick = quick_approvals r accepted (nr_accepted native);
         accepted_count = length accepted + length quick;
         reasons = attention_reasons pr_body canonical_product_docs stats @ risk_reasons declared stats @
           blocking_reasons latest (nr_blocking native) @ count_reasons r accepted_count @ diversity_reasons r accepted in
     \<lparr>va_pass = (reasons = []), va_risk = r, va_minimum_risk = minimum_risk_for_paths (ds_changed_files stats),
      va_attention_required = (pr_body \<noteq> None \<and> product_logic_changes (attention_files stats) \<noteq> []),
      va_attention_decision = (case pr_body of None \<Rightarrow> None | Some body \<Rightarrow> attention_impact_decision body),
      va_required = REQUIRED_REVIEWS r, va_accepted_count = accepted_count,
      va_accepted = sort_key (\<lambda>x. (x_axis x, casefold (x_reviewer x))) accepted,
      va_quick = sort_key (\<lambda>n. casefold (nv_reviewer n)) quick,
      va_stale = length (filter (\<lambda>s. s = Stale) screened), va_unauthorized = length (filter (\<lambda>s. s = Unauthorized) screened),
      va_malformed = failures + fwd_failures + length (filter (\<lambda>s. s = MalformedRecord) screened),
      va_oversized = oversized + fwd_oversized, va_native = native, va_reasons = reasons\<rparr>)"

definition evaluate_evidence ::
  "gov_env \<Rightarrow> review_bundle \<Rightarrow> risk option \<Rightarrow> jobject list \<Rightarrow> string list \<Rightarrow> jobject list \<Rightarrow> string option \<Rightarrow> string list option \<Rightarrow> gov_error + evaluation" where
  "evaluate_evidence env bnd declared comments allowed_attesters reviews pr_body canonical_product_docs =
     bindE (gov_when (allowed_attesters = [] \<or> list_ex (\<lambda>l. re_fullmatch GITHUB_LOGIN_RE l = None) allowed_attesters)
        ''allowed_attesters must be a non-empty set of GitHub logins'') (\<lambda>_.
     bindE (evidence_blocks env comments) (\<lambda>blocks.
     bindE (forwarded_evidence_blocks env comments) (\<lambda>forwarded_blocks.
     Inr (review_evaluation env bnd declared comments allowed_attesters reviews pr_body canonical_product_docs blocks forwarded_blocks))))"

end
