(* ===== verification/Review_Gate.thy ===== *)
theory Review_Gate
  imports Review_Governance
begin

text \<open>
  What the review gate guarantees. \<open>minimum_risk_max\<close>: the risk of a change is the maximum over its paths;
  \<open>numstat_roundtrip\<close>: the parser of Git's statistics reads what Git prints; \<open>evaluation_pass_sound\<close>: what a
  passing evaluation means.
\<close>

section \<open>Risk\<close>

definition risk_of_path :: "string \<Rightarrow> risk" where
  "risk_of_path raw_path =
     (let p = lower raw_path in
      if critical_path p then R3 else if endswith p ''.md'' then R0 else if is_safe_opaque_asset p then R1
      else if code_path p then R2 else R1)"

lemma risk_R0_least [simp]: "R0 \<le> r" and risk_R3_greatest [simp]: "r \<le> R3"
  by (cases r; simp add: less_eq_risk_def)+

lemma max_R3 [simp]: "max r R3 = R3" "max R3 r = R3"
  by (cases r; simp add: max_def less_eq_risk_def)+

lemma max_R0 [simp]: "max r R0 = r" "max R0 r = r"
  by (cases r; simp add: max_def less_eq_risk_def)+

lemma max_le_R2: "r \<le> R2 \<Longrightarrow> max r R2 = R2" "r \<le> R2 \<Longrightarrow> max r R1 \<le> R2"
  by (cases r; simp add: max_def less_eq_risk_def)+

lemma foldl_max_R3: "foldl max R3 rs = R3"
  by (induction rs) simp_all

lemma minimum_risk_loop_max: "m \<le> R2 \<Longrightarrow> minimum_risk_loop m ps = foldl max m (map risk_of_path ps)"
proof (induction ps arbitrary: m)
  case (Cons p ps)
  have "minimum_risk_loop (max m R1) ps = foldl max (max m R1) (map risk_of_path ps)"
    by (rule Cons.IH [OF max_le_R2(2) [OF Cons.prems]])
  moreover have "minimum_risk_loop R2 ps = foldl max (max m R2) (map risk_of_path ps)"
    using Cons by (simp add: max_le_R2)
  ultimately show ?case
    using Cons by (simp add: risk_of_path_def [of p] Let_def foldl_max_R3)
qed simp

lemma foldl_max_Max: "foldl max m rs = Max (insert m (set rs))"
  for m :: "'a::linorder"
proof (induction rs arbitrary: m)
  case (Cons r rs)
  have "Max (insert (max m r) (set rs)) = Max (insert m (insert r (set rs)))"
    by (cases "rs = []") (simp_all add: max.assoc)
  then show ?case using Cons by simp
qed simp

text \<open>
  C29: the minimum risk of a pull request is the highest risk of any of its paths. It depends on the set of
  changed paths only, not on their order, and never decreases when a path is added.
\<close>

theorem minimum_risk_max: "minimum_risk_for_paths ps = Max (insert R0 (risk_of_path ` set ps))"
  using minimum_risk_loop_max [of R0 ps] by (simp add: minimum_risk_for_paths_def foldl_max_Max)

section \<open>Git statistics\<close>

text \<open>A record of \<^verbatim>\<open>git diff --numstat -z\<close>: counts (none for a binary file), old name of a rename, name.\<close>

type_synonym numstat_entry = "(nat \<times> nat) option \<times> string option \<times> string"

definition print_counts :: "(nat \<times> nat) option \<Rightarrow> string" where
  "print_counts c = (case c of
       None \<Rightarrow> ''-'' @ [CHR 0x09] @ ''-'' @ [CHR 0x09]
     | Some (a, d) \<Rightarrow> str_of_nat a @ [CHR 0x09] @ str_of_nat d @ [CHR 0x09])"

definition print_fields :: "numstat_entry \<Rightarrow> string list" where
  "print_fields e = (case e of
       (c, None, p) \<Rightarrow> [print_counts c @ p]
     | (c, Some old, p) \<Rightarrow> [print_counts c, old, p])"

definition print_numstat :: "numstat_entry list \<Rightarrow> string" where
  "print_numstat es = concat (map (\<lambda>f. f @ [CHR 0x00]) (concat (map print_fields es)))"

definition name_ok :: "string \<Rightarrow> bool" where
  "name_ok p \<longleftrightarrow> p \<noteq> [] \<and> CHR 0x00 \<notin> set p"

definition entry_ok :: "numstat_entry \<Rightarrow> bool" where
  "entry_ok e \<longleftrightarrow> name_ok (snd (snd e)) \<and> (case fst (snd e) of None \<Rightarrow> True | Some old \<Rightarrow> name_ok old)"

definition add_entry :: "numstat \<Rightarrow> numstat_entry \<Rightarrow> numstat" where
  "add_entry acc e = (case acc of (a, d, b) \<Rightarrow> case e of
       (None, _, p) \<Rightarrow> (a, d, b @ [fsdecode p])
     | (Some (m, n), _, p) \<Rightarrow> (a + int m, d + int n, b))"

lemma of_char_digit: "k < 10 \<Longrightarrow> of_char (char_of (48 + k)) = (48 + k :: nat)"
  by simp

lemma digits_value_snoc:
  "digits_value acc s = Some v \<Longrightarrow> is_digit c \<Longrightarrow> digits_value acc (s @ [c]) = Some (10 * v + (of_char c - 48))"
  by (induction s arbitrary: acc) (auto split: if_splits)

lemma str_of_nat_value:
  "digits_value 0 (str_of_nat n) = Some n \<and> list_all is_digit (str_of_nat n) \<and> str_of_nat n \<noteq> []"
proof (induction n rule: less_induct)
  case (less n)
  show ?case
  proof (cases "n < 10")
    case True
    then show ?thesis by (simp add: str_of_nat.simps [of n] is_digit_char of_char_digit)
  next
    case False
    then have "digits_value 0 (str_of_nat (n div 10)) = Some (n div 10)" "list_all is_digit (str_of_nat (n div 10))"
      using less [of "n div 10"] by auto
    moreover have eq: "str_of_nat n = str_of_nat (n div 10) @ [char_of (48 + n mod 10)]"
      using False by (simp add: str_of_nat.simps [of n])
    ultimately show ?thesis
      using digits_value_snoc [of 0 "str_of_nat (n div 10)" "n div 10" "char_of (48 + n mod 10)"] is_digit_char [of "n mod 10"]
      by (simp add: eq)
  qed
qed

lemma digit_not_space: "is_digit c \<Longrightarrow> \<not> is_c_space c"
  by (auto simp: is_digit_def in_range_def less_eq_char_def is_c_space_def Let_def)

lemma digit_chars: "is_digit c \<Longrightarrow> c \<noteq> CHR ''-'' \<and> c \<noteq> CHR ''+'' \<and> c \<noteq> CHR 0x09 \<and> c \<noteq> CHR 0x00"
  by (auto simp: is_digit_def in_range_def less_eq_char_def)

lemma strip_by_none: "list_all (\<lambda>c. \<not> p c) s \<Longrightarrow> strip_by p s = s"
proof -
  assume "list_all (\<lambda>c. \<not> p c) s"
  then have "dropWhile p s = s" "dropWhile p (rev s) = rev s"
    by (auto simp: list_all_iff hd_rev intro!: dropWhile_idem_hd)
  then show ?thesis by (simp add: strip_by_def lstrip_by_def rstrip_by_def)
qed

lemma int_of_bytes_str_of_nat [simp]: "int_of_bytes (str_of_nat n) = Some (int n)"
proof -
  obtain c cs where s: "str_of_nat n = c # cs" "is_digit c" "digits_value 0 (c # cs) = Some n" "list_all is_digit (c # cs)"
    using str_of_nat_value [of n] by (cases "str_of_nat n") auto
  have "list_all (\<lambda>c. \<not> is_c_space c) (c # cs)"
    using s(4) by (auto simp: list_all_iff digit_not_space)
  then show ?thesis
    using s digit_chars [of c] by (simp add: int_of_bytes_def strip_by_none unsigned_value_def)
qed

lemma str_of_nat_free: "x \<in> set (str_of_nat n) \<Longrightarrow> is_digit x"
  using str_of_nat_value [of n] by (simp add: list_all_iff)

lemma split_char_max_sep: "c \<notin> set p \<Longrightarrow> split_char_max (Suc n) c (p @ c # s) = p # split_char_max n c s"
  by (induction p) auto

lemma split_char_max_0: "split_char_max 0 c s = [s]"
  by (cases s) auto

lemma split_counts:
  "split_char_max 2 CHR 0x09 (print_counts k @ p) =
     (case k of None \<Rightarrow> [''-'', ''-'', p] | Some (a, d) \<Rightarrow> [str_of_nat a, str_of_nat d, p])"
proof -
  have "CHR 0x09 \<notin> set (str_of_nat a)" for a
    using str_of_nat_free digit_chars by blast
  then show ?thesis
    by (auto simp: print_counts_def numeral_2_eq_2 split_char_max_sep split_char_max_0 split: option.split)
qed

lemma print_counts_nonempty: "print_counts k \<noteq> []"
  by (simp add: print_counts_def split: option.split)

lemma print_fields_nonempty: "print_fields e \<noteq> []"
  by (cases e) (simp add: print_fields_def split: option.split)

lemma str_of_nat_not_dash: "str_of_nat n \<noteq> ''-''"
  using str_of_nat_free [of "CHR ''-''" n] digit_chars [of "CHR ''-''"] by auto

lemma numstat_records_fields:
  "entry_ok e \<Longrightarrow> numstat_records (print_fields e @ rest) acc = numstat_records rest (add_entry acc e)"
  using split_counts [of "fst e" "[]"]
  by (cases e; cases acc)
     (auto simp: print_fields_def split_counts numstat_totals_def add_entry_def entry_ok_def name_ok_def str_of_nat_not_dash
       print_counts_nonempty split: option.splits)

lemma numstat_records_print:
  "list_all entry_ok es \<Longrightarrow> numstat_records (concat (map print_fields es)) acc = Inr (foldl add_entry acc es)"
  by (induction es arbitrary: acc) (simp_all add: numstat_records_fields)

lemma split_char_terminated:
  "list_all (\<lambda>f. c \<notin> set f) fs \<Longrightarrow> split_char c (concat (map (\<lambda>f. f @ [c]) fs)) = fs @ [[]]"
  by (induction fs) (simp_all add: split_char_append_sep)

lemma print_fields_free: "entry_ok e \<Longrightarrow> list_all (\<lambda>f. CHR 0x00 \<notin> set f) (print_fields e)"
proof -
  have "CHR 0x00 \<notin> set (str_of_nat a)" for a
    using str_of_nat_free digit_chars by blast
  moreover assume "entry_ok e"
  ultimately show ?thesis
    by (cases e) (auto simp: print_fields_def print_counts_def entry_ok_def name_ok_def split: option.split)
qed

text \<open>
  C30: the parser of the change statistics reads back exactly what Git prints in its NUL-terminated format: for
  every list of records (plain files, renames, binary files; names without NUL and not empty) it returns the sums of
  the added and deleted lines and the names of the binary files, in order.
\<close>

theorem numstat_roundtrip:
  assumes "list_all entry_ok es"
  shows "parse_numstat_z (print_numstat es) = Inr (foldl add_entry (0, 0, []) es)"
proof (cases "es = []")
  case True
  then show ?thesis by (simp add: print_numstat_def parse_numstat_z_def)
next
  case False
  have "list_all (\<lambda>f. CHR 0x00 \<notin> set f) (concat (map print_fields es))"
    using assms by (induction es) (auto simp: print_fields_free)
  then have "split_char CHR 0x00 (print_numstat es) = concat (map print_fields es) @ [[]]"
    by (simp add: print_numstat_def split_char_terminated)
  moreover have "print_numstat es \<noteq> []"
    using False print_fields_nonempty by (cases es) (simp_all add: print_numstat_def)
  ultimately show ?thesis
    using assms by (simp add: parse_numstat_z_def numstat_records_print)
qed

lemma numstat_roundtrip_witness:
  "parse_numstat_z (print_numstat [(Some (12, 3), None, ''a.py''), (None, None, ''b.png''), (Some (0, 1), Some ''c'', ''d'')]) =
     Inr (12, 4, [''b.png''])"
  using numstat_roundtrip [of "[(Some (12, 3), None, ''a.py''), (None, None, ''b.png''), (Some (0, 1), Some ''c'', ''d'')]"]
  by (simp add: entry_ok_def name_ok_def add_entry_def, code_simp)

section \<open>Where evidence comes from\<close>

lemma scan_blocks_member:
  "scan_blocks env c ci n bi starts = Inr (evs, f, ov) \<Longrightarrow> ev \<in> set evs \<Longrightarrow>
     \<exists>before st payload bi'. (before, st) \<in> set starts \<and> decode_evidence_payload env (rest_of st) = Inr (Inr payload) \<and>
       ev = mk_evidence env c ci bi' n (rev before) payload"
proof (induction env c ci n bi starts arbitrary: evs f ov rule: scan_blocks.induct)
  case (2 env c ci n bi before st starts)
  then obtain decoded evs' f' ov' where d: "decode_evidence_payload env (rest_of st) = Inr decoded"
      "scan_blocks env c ci n (Suc bi) starts = Inr (evs', f', ov')"
    by (auto simp: bindE_eq_Inr)
  then have "ev \<in> set evs' \<or> (\<exists>payload. decoded = Inr payload \<and> ev = mk_evidence env c ci bi n (rev before) payload)"
    using 2(2,3) by (auto split: sum.splits decode_failure.splits)
  then show ?case
  proof
    assume "ev \<in> set evs'"
    from 2(1) [OF d(2) this] show ?thesis unfolding list.set insert_iff by blast
  next
    assume "\<exists>payload. decoded = Inr payload \<and> ev = mk_evidence env c ci bi n (rev before) payload"
    then show ?thesis using d(1) by (intro exI [of _ before] exI [of _ st]) auto
  qed
qed simp

lemma scan_comments_member:
  "scan_comments env marker ci cs = Inr (evs, f, ov) \<Longrightarrow> ev \<in> set evs \<Longrightarrow>
     \<exists>k body before st payload bi. k < length cs \<and> comment_body (cs ! k) = Some body \<and> (before, st) \<in> set (re_finditer marker body) \<and>
       decode_evidence_payload env (rest_of st) = Inr (Inr payload) \<and>
       ev = mk_evidence env (cs ! k) (ci + k) bi (length (re_finditer marker body)) (rev before) payload"
proof (induction cs arbitrary: ci evs f ov)
  case (Cons c cs)
  obtain e1 f1 o1 e2 f2 o2 where
    s1: "(case comment_body c of None \<Rightarrow> Inr ([], 0, 0)
         | Some body \<Rightarrow> (let starts = re_finditer marker body in scan_blocks env c ci (length starts) 0 starts)) = Inr (e1, f1, o1)"
    and s2: "scan_comments env marker (Suc ci) cs = Inr (e2, f2, o2)" and evs: "evs = e1 @ e2"
    using Cons.prems(1) by (auto simp: bindE_eq_Inr)
  show ?case
  proof (cases "ev \<in> set e1")
    case True
    then obtain body where b: "comment_body c = Some body"
        "scan_blocks env c ci (length (re_finditer marker body)) 0 (re_finditer marker body) = Inr (e1, f1, o1)"
      using s1 by (auto simp: Let_def split: option.splits)
    show ?thesis
      using scan_blocks_member [OF b(2) True] b(1) by (intro exI [of _ 0]) auto
  next
    case False
    then have "ev \<in> set e2" using Cons.prems(2) evs by simp
    from Cons.IH [OF s2 this] obtain k where "k < length cs" and
      "\<exists>body before st payload bi. comment_body (cs ! k) = Some body \<and> (before, st) \<in> set (re_finditer marker body) \<and>
       decode_evidence_payload env (rest_of st) = Inr (Inr payload) \<and>
       ev = mk_evidence env (cs ! k) (Suc ci + k) bi (length (re_finditer marker body)) (rev before) payload"
      by blast
    then show ?thesis by (intro exI [of _ "Suc k"]) auto
  qed
qed simp

section \<open>The latest verdict wins\<close>

text \<open>
  \<open>latest_ok\<close>: a dictionary of latest reviews over the reviews \<open>xs\<close> seen so far: each key holds a seen review with
  that key, and no seen review with the key is later than it.
\<close>

definition latest_ok :: "gov_env \<Rightarrow> exact_review set \<Rightarrow> (string \<times> string, exact_review) dict \<Rightarrow> bool" where
  "latest_ok env xs latest \<longleftrightarrow> distinct (map fst latest) \<and>
     (\<forall>(key, y)\<in>set latest. y \<in> xs \<and> review_key y = key) \<and>
     (\<forall>x\<in>xs. \<exists>y. map_of latest (review_key x) = Some y \<and> review_ordering env x \<le> review_ordering env y)"

lemma latest_ok_set:
  assumes "latest_ok env xs latest" and "\<And>y. map_of latest (review_key x) = Some y \<Longrightarrow> review_ordering env y \<le> review_ordering env x"
  shows "latest_ok env (insert x xs) (dict_set (review_key x) x latest)"
proof -
  have "\<exists>y. map_of (dict_set (review_key x) x latest) (review_key z) = Some y \<and> review_ordering env z \<le> review_ordering env y"
    if "z \<in> insert x xs" for z
    using that assms unfolding latest_ok_def update_conv by (cases "review_key z = review_key x") (auto, metis order_trans)
  moreover have "y \<in> insert x xs \<and> review_key y = key" if "(key, y) \<in> set (dict_set (review_key x) x latest)" for key y
    using that assms(1) set_dict_set [of "review_key x" x latest] unfolding latest_ok_def by fastforce
  ultimately show ?thesis
    using assms(1) by (auto simp: latest_ok_def distinct_update)
qed

lemma latest_ok_keep:
  assumes "latest_ok env xs latest" and "map_of latest (review_key x) = Some y" and "review_ordering env x \<le> review_ordering env y"
  shows "latest_ok env (insert x xs) latest"
  using assms unfolding latest_ok_def by fastforce

lemma latest_reviews_ok: "latest_ok env seen latest \<Longrightarrow> latest_ok env (seen \<union> set xs) (latest_reviews env xs latest)"
proof (induction xs arbitrary: seen latest)
  case (Cons x xs)
  let ?latest = "case map_of latest (review_key x) of
      None \<Rightarrow> dict_set (review_key x) x latest
    | Some y \<Rightarrow> if review_ordering env y \<le> review_ordering env x then dict_set (review_key x) x latest else latest"
  have "latest_ok env (insert x seen) ?latest"
    using Cons.prems by (auto split: option.split intro: latest_ok_set latest_ok_keep)
  from Cons.IH [OF this] show ?case by simp
qed simp

section \<open>What exact evidence is\<close>

text \<open>The reviews that count: the comments' evidence blocks that pass the screening.\<close>

definition exact_evidence :: "gov_env \<Rightarrow> review_bundle \<Rightarrow> risk \<Rightarrow> string list \<Rightarrow> jobject list \<Rightarrow> exact_review list" where
  "exact_evidence env bnd r attesters comments =
     (case (evidence_blocks env comments, forwarded_evidence_blocks env comments) of
        (Inr (records, _), Inr (forwarded, _)) \<Rightarrow>
          exact_of (map (screen_evidence bnd r attesters \<circ> recount comments) records @
                    map (screen_forwarded bnd attesters \<circ> recount comments) forwarded)
      | _ \<Rightarrow> [])"

definition marker_of :: "bool \<Rightarrow> re" where
  "marker_of forwarded = (if forwarded then FORWARDED_EVIDENCE_START_RE else EVIDENCE_START_RE)"

text \<open>The payload names this very change.\<close>

definition bound_to :: "review_bundle \<Rightarrow> risk \<Rightarrow> bool \<Rightarrow> jobject \<Rightarrow> bool" where
  "bound_to bnd r forwarded p \<longleftrightarrow>
     sget p ''base_sha'' = JStr (rb_base_sha bnd) \<and> sget p ''head_sha'' = JStr (rb_head_sha bnd) \<and>
     sget p ''diff_sha256'' = JStr (rb_diff_sha256 bnd) \<and>
     (forwarded \<or> sget p ''pr_number'' = JInt (rb_pr_number bnd) \<and> upper (py_str (sget p ''risk_class'')) = risk_name r)"

lemma set_exact_of: "x \<in> set (exact_of ss) \<longleftrightarrow> Exact x \<in> set ss"
  by (auto simp: exact_of_def List.map_filter_def split: screened.splits)

lemma plain_int_Some [simp]: "plain_int v = Some i \<longleftrightarrow> v = JInt i"
  by (simp add: plain_int_def split: json.split)

lemma py_eq_JStr: "py_eq v (JStr s) \<longleftrightarrow> v = JStr s"
  by (cases v) (simp_all split: option.split)

lemma screen_evidence_Exact:
  "screen_evidence bnd r attesters ev = Exact x \<Longrightarrow>
     attested attesters ev \<and> bound_to bnd r False (ev_payload ev) \<and> review_text_ok ev \<and> x_evidence x = ev \<and>
     x_report_sha256 x = ev_report_sha256 ev \<and> \<not> x_forwarded x \<and>
     x = mk_exact ev (x_report_sha256 x) (x_mode x) (x_session x) (x_reason x) False"
  by (auto simp: screen_evidence_def Let_def bound_to_def py_eq_JStr mk_exact_def split: if_splits prod.splits)

lemma screen_forwarded_Exact:
  "screen_forwarded bnd attesters ev = Exact x \<Longrightarrow>
     attested attesters ev \<and> bound_to bnd r True (ev_payload ev) \<and> review_text_ok ev \<and> x_evidence x = ev \<and>
     x_report_sha256 x = ev_report_sha256 ev \<and> x_forwarded x \<and>
     x = mk_exact ev (x_report_sha256 x) (x_mode x) (x_session x) (x_reason x) True"
  by (auto simp: screen_forwarded_def Let_def bound_to_def py_eq_JStr mk_exact_def split: if_splits)

lemma block_body: "comment_body c = Some body \<Longrightarrow> str_or_empty (sget c ''body'') = body"
  by (auto simp: comment_body_def str_or_empty_def py_str_def split: json.splits if_splits)

lemma total_blocks_at:
  "k < length comments \<Longrightarrow> comment_body (comments ! k) = Some body \<Longrightarrow> ev_comment_index ev = k \<Longrightarrow>
     total_blocks comments ev = length (re_finditer EVIDENCE_START_RE body) + length (re_finditer FORWARDED_EVIDENCE_START_RE body)"
  by (simp add: total_blocks_def block_body Let_def)

lemma review_text_fields:
  "review_text_ok ev \<Longrightarrow> x = mk_exact ev report mode session reason forwarded \<Longrightarrow>
     sget (ev_payload ev) ''reviewer'' = JStr (x_reviewer x) \<and> x_reviewer x \<noteq> [] \<and>
     x_axis x = lower (strip (str_or_empty (sget (ev_payload ev) ''review_axis''))) \<and> x_axis x \<in> set ALLOWED_AXES \<and>
     x_verdict x = upper (strip (str_or_empty (sget (ev_payload ev) ''verdict''))) \<and> x_verdict x \<in> {''PASS'', ''BLOCKED'', ''FAIL''} \<and>
     sget (ev_payload ev) ''findings_resolved'' = JBool (x_resolved x) \<and> MIN_REVIEW_REPORT_BYTES \<le> ev_report_bytes ev \<and> ev_block_count ev = 1"
  by (simp add: review_text_ok_def mk_exact_def Let_def string_or_empty_def split: json.splits) metis

lemma exact_evidence_origin:
  assumes "x \<in> set (exact_evidence env bnd r attesters comments)"
  shows "\<exists>ev evs f ov. scan_comments env (marker_of (x_forwarded x)) 0 comments = Inr (evs, f, ov) \<and> ev \<in> set evs \<and>
    attested attesters (recount comments ev) \<and> bound_to bnd r (x_forwarded x) (ev_payload ev) \<and>
    review_text_ok (recount comments ev) \<and> x_report_sha256 x = ev_report_sha256 ev \<and>
    x = mk_exact (recount comments ev) (x_report_sha256 x) (x_mode x) (x_session x) (x_reason x) (x_forwarded x)"
proof -
  obtain records f1 o1 forwarded f2 o2 where blocks: "evidence_blocks env comments = Inr (records, f1, o1)"
      "forwarded_evidence_blocks env comments = Inr (forwarded, f2, o2)"
    and "(\<exists>ev\<in>set records. screen_evidence bnd r attesters (recount comments ev) = Exact x) \<or>
         (\<exists>ev\<in>set forwarded. screen_forwarded bnd attesters (recount comments ev) = Exact x)"
    using assms by (auto simp: exact_evidence_def set_exact_of split: sum.splits) (metis+)
  then show ?thesis
    unfolding evidence_blocks_def forwarded_evidence_blocks_def
    using screen_evidence_Exact screen_forwarded_Exact [of bnd attesters _ x r]
    by (fastforce simp: marker_of_def recount_def)
qed

text \<open>
  C2: a review counts only if it is what it claims. Every review that passes the screening stands in a comment of the
  pull request whose author is an allowed attester with an authorised association; the comment holds exactly one
  evidence block; its payload names this base, head and diff (and, unless forwarded, this pull request and risk
  class); the digest recorded for the report is the digest of the text before the block, which has at least 120
  bytes; reviewer, axis, verdict and resolution are those of the payload.
\<close>

theorem exact_evidence_sound:
  assumes "x \<in> set (exact_evidence env bnd r attesters comments)"
  shows "\<exists>c body before st payload. c \<in> set comments \<and> comment_body c = Some body \<and>
    upper (str_or_empty (sget c ''author_association'')) \<in> set AUTHORIZED_ASSOCIATIONS \<and>
    casefold (strip (str_or_empty (login_of c))) \<in> set attesters \<and>
    length (re_finditer EVIDENCE_START_RE body) + length (re_finditer FORWARDED_EVIDENCE_START_RE body) = 1 \<and>
    re_finditer (marker_of (x_forwarded x)) body = [(before, st)] \<and>
    decode_evidence_payload env (rest_of st) = Inr (Inr payload) \<and> bound_to bnd r (x_forwarded x) payload \<and>
    x_report_sha256 x = ge_sha256 env (utf8_encode (normalized_report_text (rev before))) \<and>
    MIN_REVIEW_REPORT_BYTES \<le> length (utf8_encode (normalized_report_text (rev before))) \<and>
    sget payload ''reviewer'' = JStr (x_reviewer x) \<and> x_reviewer x \<noteq> [] \<and>
    x_axis x = lower (strip (str_or_empty (sget payload ''review_axis''))) \<and> x_axis x \<in> set ALLOWED_AXES \<and>
    x_verdict x = upper (strip (str_or_empty (sget payload ''verdict''))) \<and> x_verdict x \<in> {''PASS'', ''BLOCKED'', ''FAIL''} \<and>
    sget payload ''findings_resolved'' = JBool (x_resolved x)"
proof -
  obtain ev evs f ov where ev: "scan_comments env (marker_of (x_forwarded x)) 0 comments = Inr (evs, f, ov)" "ev \<in> set evs"
    "attested attesters (recount comments ev)" "bound_to bnd r (x_forwarded x) (ev_payload ev)"
    "review_text_ok (recount comments ev)" "x_report_sha256 x = ev_report_sha256 ev"
    "x = mk_exact (recount comments ev) (x_report_sha256 x) (x_mode x) (x_session x) (x_reason x) (x_forwarded x)"
    using exact_evidence_origin [OF assms] by blast
  obtain k body before st payload bi where k: "k < length comments" "comment_body (comments ! k) = Some body"
    "(before, st) \<in> set (re_finditer (marker_of (x_forwarded x)) body)" "decode_evidence_payload env (rest_of st) = Inr (Inr payload)"
    "ev = mk_evidence env (comments ! k) k bi (length (re_finditer (marker_of (x_forwarded x)) body)) (rev before) payload"
    using scan_comments_member [OF ev(1,2)] by auto
  have fields: "ev_payload (recount comments ev) = payload"
    "ev_report_bytes (recount comments ev) = length (utf8_encode (normalized_report_text (rev before)))"
    "ev_block_count (recount comments ev) = length (re_finditer EVIDENCE_START_RE body) + length (re_finditer FORWARDED_EVIDENCE_START_RE body)"
    using total_blocks_at [OF k(1,2), of ev] k(5) by (simp_all add: recount_def mk_evidence_def Let_def)
  have single: "review_text_ok (recount comments ev) \<Longrightarrow> length (re_finditer (marker_of (x_forwarded x)) body) \<le> 1"
    using fields(3) by (auto simp: review_text_ok_def marker_of_def Let_def)
  then have "re_finditer (marker_of (x_forwarded x)) body = [(before, st)]"
    using k(3) ev(5) by (cases "re_finditer (marker_of (x_forwarded x)) body") auto
  then show ?thesis
    using review_text_fields [OF ev(5,7), unfolded fields] ev(3,4,6) k
    by - (rule exI [of _ "comments ! k"], rule exI [of _ body], rule exI [of _ before], rule exI [of _ st],
        rule exI [of _ payload], simp add: attested_def recount_def mk_evidence_def Let_def, metis)
qed

section \<open>What a passing evaluation means\<close>

lemma sessions_of_set: "set a = set b \<Longrightarrow> sessions_of mode a = sessions_of mode b"
  by (auto simp: sessions_of_def List.map_filter_def)

lemma explicit_self_fallback_set: "set a = set b \<Longrightarrow> explicit_self_fallback a = explicit_self_fallback b"
  using sessions_of_set [of a b] by (simp add: explicit_self_fallback_def list_all_iff)

lemma diversity_reasons_set: "set a = set b \<Longrightarrow> diversity_reasons r a = diversity_reasons r b"
  using explicit_self_fallback_set [of a b] by (simp add: diversity_reasons_def Let_def)

lemma evaluate_evidence_unfold:
  assumes "evaluate_evidence env bnd declared comments attesters reviews pr_body docs = Inr v"
  defines "r \<equiv> (case declared of None \<Rightarrow> R3 | Some x \<Rightarrow> x)"
  defines "latest \<equiv> map snd (latest_reviews env (exact_evidence env bnd r (map casefold attesters) comments) [])"
  defines "native \<equiv> native_review_evidence env reviews (rb_head_sha bnd)"
  shows "va_reasons v = attention_reasons pr_body docs (rb_stats bnd) @ risk_reasons declared (rb_stats bnd) @
           blocking_reasons latest (nr_blocking native) @ count_reasons r (length (va_accepted v) + length (va_quick v)) @
           diversity_reasons r (va_accepted v)"
    and "va_pass v \<longleftrightarrow> va_reasons v = []"
    and "va_accepted v = sort_key (\<lambda>x. (x_axis x, casefold (x_reviewer x))) (accepted_reviews latest)"
    and "set (va_quick v) = set (quick_approvals r (va_accepted v) (nr_accepted native))"
proof -
  obtain blocks forwarded_blocks where blocks: "evidence_blocks env comments = Inr blocks"
      "forwarded_evidence_blocks env comments = Inr forwarded_blocks"
    and v: "v = review_evaluation env bnd declared comments attesters reviews pr_body docs blocks forwarded_blocks"
    using assms(1) unfolding evaluate_evidence_def bindE_eq_Inr sum.inject by blast
  obtain records f1 o1 forwarded f2 o2 where b: "blocks = (records, f1, o1)" "forwarded_blocks = (forwarded, f2, o2)"
    by (cases blocks; cases forwarded_blocks) auto
  have exact: "exact_of (map (screen_evidence bnd r (map casefold attesters) \<circ> recount comments) records @
      map (screen_forwarded bnd (map casefold attesters) \<circ> recount comments) forwarded) =
      exact_evidence env bnd r (map casefold attesters) comments"
    by (simp add: exact_evidence_def blocks b)
  note v' = v [unfolded b review_evaluation_def prod.case Let_def, folded r_def, unfolded exact, folded latest_def native_def]
  show acc: "va_accepted v = sort_key (\<lambda>x. (x_axis x, casefold (x_reviewer x))) (accepted_reviews latest)"
    and "va_pass v \<longleftrightarrow> va_reasons v = []"
    by (simp_all only: v' evaluation.simps)
  have quick: "va_quick v = sort_key (\<lambda>n. casefold (nv_reviewer n)) (quick_approvals r (accepted_reviews latest) (nr_accepted native))"
    and reasons: "va_reasons v = attention_reasons pr_body docs (rb_stats bnd) @ risk_reasons declared (rb_stats bnd) @
           blocking_reasons latest (nr_blocking native) @
           count_reasons r (length (accepted_reviews latest) + length (quick_approvals r (accepted_reviews latest) (nr_accepted native))) @
           diversity_reasons r (accepted_reviews latest)"
    by (simp_all only: v' evaluation.simps)
  have set_acc: "set (va_accepted v) = set (accepted_reviews latest)"
    by (simp add: acc)
  then show "set (va_quick v) = set (quick_approvals r (va_accepted v) (nr_accepted native))"
    by (simp add: quick quick_approvals_def)
  have len: "length (va_accepted v) = length (accepted_reviews latest)"
    "length (va_quick v) = length (quick_approvals r (accepted_reviews latest) (nr_accepted native))"
    by (simp_all add: acc quick)
  show "va_reasons v = attention_reasons pr_body docs (rb_stats bnd) @ risk_reasons declared (rb_stats bnd) @
           blocking_reasons latest (nr_blocking native) @ count_reasons r (length (va_accepted v) + length (va_quick v)) @
           diversity_reasons r (va_accepted v)"
    unfolding reasons len diversity_reasons_set [OF set_acc] ..
qed

lemma latest_ok_Nil: "latest_ok env {} []"
  by (simp add: latest_ok_def)

lemma latest_values:
  assumes "latest_ok env xs latest" and "y \<in> set (map snd latest)"
  shows "y \<in> xs"
  using assms by (auto simp: latest_ok_def)

lemma latest_keys_distinct: "latest_ok env xs latest \<Longrightarrow> distinct (map review_key (map snd latest))"
proof -
  assume "latest_ok env xs latest"
  then have "map review_key (map snd latest) = map fst latest" "distinct (map fst latest)"
    by (auto simp: latest_ok_def)
  then show ?thesis by (simp only:)
qed

lemma latest_supersedes:
  "latest_ok env xs latest \<Longrightarrow> x \<in> xs \<Longrightarrow>
     \<exists>y\<in>set (map snd latest). review_key y = review_key x \<and> review_ordering env x \<le> review_ordering env y"
proof -
  assume ok: "latest_ok env xs latest" and "x \<in> xs"
  then obtain y where y: "map_of latest (review_key x) = Some y" "review_ordering env x \<le> review_ordering env y"
    by (auto simp: latest_ok_def)
  then have "(review_key x, y) \<in> set latest" by (simp add: map_of_SomeD)
  with ok y(2) show ?thesis by (force simp: latest_ok_def)
qed

lemma risk_reasons_none:
  "risk_reasons declared stats = [] \<Longrightarrow> \<exists>r. declared = Some r \<and> minimum_risk_for_paths (ds_changed_files stats) \<le> r \<and>
     list_all is_safe_opaque_asset (ds_opaque_files stats) \<and>
     (r = R0 \<longrightarrow> changed_lines stats \<le> 50 \<and> list_all (\<lambda>p. endswith p ''.md'') (ds_changed_files stats))"
  by (cases declared) (auto simp: risk_reasons_def Let_def partition_opaque_files_def r0_scope_valid_def filter_empty_conv list_all_iff
      not_less split: if_splits)

lemma blocking_reasons_none:
  "blocking_reasons latest native_blocking = [] \<longleftrightarrow> list_all (\<lambda>x. x_verdict x = ''PASS'') latest \<and> native_blocking = []"
  by (simp add: blocking_reasons_def Let_def filter_empty_conv list_all_iff)

lemma diversity_reasons_none:
  "diversity_reasons r accepted = [] \<longleftrightarrow>
     (2 \<le> REQUIRED_REVIEWS r \<longrightarrow>
        (2 \<le> card ((\<lambda>x. casefold (x_reviewer x)) ` set accepted) \<or> explicit_self_fallback accepted) \<and>
        2 \<le> card (x_report_sha256 ` set accepted) \<and> 2 \<le> card (x_axis ` set accepted)) \<and>
     (r = R3 \<longrightarrow> (\<exists>x\<in>set accepted. x_axis x \<in> set HIGH_RISK_AXES))"
  by (auto simp: diversity_reasons_def Let_def)

text \<open>
  C1: what a passing evaluation means. The pull request declares a risk class, at least the one its paths demand; at R0
  it changes at most 50 lines of Markdown; opaque files are safe raster assets; no current GitHub review on the head
  asks for changes. The accepted reviews are exact evidence (sound in the sense of the previous property) with verdict
  PASS and resolved findings, one for each reviewer and axis, and there are enough of them (only R1 counts plain GitHub
  approvals). R2 and R3 have two axes, two reports and two reviewers or the explicit self-review pair; R3 has a review
  of a high-risk axis. No exact review that does not say PASS stands: a PASS of the same reviewer and axis, not older,
  supersedes it.
\<close>

theorem evaluation_pass_sound:
  assumes "evaluate_evidence env bnd declared comments attesters reviews pr_body docs = Inr v" and "va_pass v"
  shows "\<exists>r. declared = Some r \<and> minimum_risk_for_paths (ds_changed_files (rb_stats bnd)) \<le> r \<and>
    (r = R0 \<longrightarrow> changed_lines (rb_stats bnd) \<le> 50 \<and> list_all (\<lambda>p. endswith p ''.md'') (ds_changed_files (rb_stats bnd))) \<and>
    list_all is_safe_opaque_asset (ds_opaque_files (rb_stats bnd)) \<and>
    nr_blocking (native_review_evidence env reviews (rb_head_sha bnd)) = [] \<and>
    (\<forall>x\<in>set (va_accepted v). x \<in> set (exact_evidence env bnd r (map casefold attesters) comments) \<and> x_verdict x = ''PASS'' \<and> x_resolved x) \<and>
    distinct (map review_key (va_accepted v)) \<and>
    REQUIRED_REVIEWS r \<le> length (va_accepted v) + length (va_quick v) \<and> (r \<noteq> R1 \<longrightarrow> va_quick v = []) \<and>
    (r \<in> {R2, R3} \<longrightarrow>
       (2 \<le> card ((\<lambda>x. casefold (x_reviewer x)) ` set (va_accepted v)) \<or> explicit_self_fallback (va_accepted v)) \<and>
       2 \<le> card (x_report_sha256 ` set (va_accepted v)) \<and> 2 \<le> card (x_axis ` set (va_accepted v))) \<and>
    (r = R3 \<longrightarrow> (\<exists>x\<in>set (va_accepted v). x_axis x \<in> set HIGH_RISK_AXES)) \<and>
    (\<forall>x\<in>set (exact_evidence env bnd r (map casefold attesters) comments). \<exists>y\<in>set (exact_evidence env bnd r (map casefold attesters) comments).
       review_key y = review_key x \<and> review_ordering env x \<le> review_ordering env y \<and> x_verdict y = ''PASS'')"
proof -
  note e = evaluate_evidence_unfold [OF assms(1)]
  have "risk_reasons declared (rb_stats bnd) = []"
    using e(1,2) assms(2) by simp
  then obtain r where r: "declared = Some r" "minimum_risk_for_paths (ds_changed_files (rb_stats bnd)) \<le> r"
    "list_all is_safe_opaque_asset (ds_opaque_files (rb_stats bnd))"
    "r = R0 \<longrightarrow> changed_lines (rb_stats bnd) \<le> 50 \<and> list_all (\<lambda>p. endswith p ''.md'') (ds_changed_files (rb_stats bnd))"
    using risk_reasons_none by blast
  let ?exact = "exact_evidence env bnd r (map casefold attesters) comments"
  let ?latest = "map snd (latest_reviews env ?exact [])"
  have ok: "latest_ok env (set ?exact) (latest_reviews env ?exact [])"
    using latest_reviews_ok [of env "{}" "[]" ?exact] by (simp add: latest_ok_Nil)
  have none: "blocking_reasons ?latest (nr_blocking (native_review_evidence env reviews (rb_head_sha bnd))) = []"
    "count_reasons r (length (va_accepted v) + length (va_quick v)) = []" "diversity_reasons r (va_accepted v) = []"
    using e(1,2) assms(2) r(1) by simp_all
  have acc: "set (va_accepted v) = set (accepted_reviews ?latest)" "mset (va_accepted v) = mset (accepted_reviews ?latest)"
    using e(3) r(1) by simp_all
  have "distinct (map review_key (accepted_reviews ?latest))"
    using latest_keys_distinct [OF ok] by (simp add: accepted_reviews_def distinct_map_filter)
  then have "distinct (map review_key (va_accepted v))"
    using acc(2) by (metis mset_eq_imp_distinct_iff mset_map)
  moreover have "\<exists>y\<in>set ?exact. review_key y = review_key x \<and> review_ordering env x \<le> review_ordering env y \<and> x_verdict y = ''PASS''"
    if "x \<in> set ?exact" for x
    using latest_supersedes [OF ok that] latest_values [OF ok] none(1) by (auto simp: blocking_reasons_none list_all_iff)
  moreover have "x \<in> set ?exact \<and> x_verdict x = ''PASS'' \<and> x_resolved x" if "x \<in> set (va_accepted v)" for x
    using that acc(1) latest_values [OF ok] by (auto simp: accepted_reviews_def)
  moreover have "r \<noteq> R1 \<longrightarrow> va_quick v = []"
    using e(4) r(1) by (cases "r = R1") (simp_all add: quick_approvals_def)
  moreover have "REQUIRED_REVIEWS r \<le> length (va_accepted v) + length (va_quick v)"
    using none(2) by (simp add: count_reasons_def split: if_splits)
  ultimately show ?thesis
    using r none by (intro exI [of _ r]) (auto simp: blocking_reasons_none diversity_reasons_none)
qed

subsection \<open>A pull request that passes\<close>

text \<open>Two reviews of a change to a script, declared R2.\<close>

definition demo_payload :: "string \<Rightarrow> string \<Rightarrow> string \<Rightarrow> jobject" where
  "demo_payload reviewer axis report =
     [(''schema_version'', JInt 1), (''pr_number'', JInt 7), (''base_sha'', JStr ''b''), (''head_sha'', JStr ''h''),
      (''diff_sha256'', JStr ''d''), (''risk_class'', JStr ''R2''), (''reviewer'', JStr reviewer), (''report_sha256'', JStr report),
      (''review_axis'', JStr axis), (''verdict'', JStr ''PASS''), (''findings_resolved'', JBool True)]"

definition demo_sha256 :: "string \<Rightarrow> string" where
  "demo_sha256 s = replicate 64 (if s = [] \<or> hd s = CHR ''a'' then CHR ''a'' else CHR ''b'')"

definition demo_gov_env :: gov_env where
  "demo_gov_env = \<lparr>
     ge_raw_decode = (\<lambda>s. if startswith s ''{a}'' then Inr (JDict (demo_payload ''ann'' ''correctness'' (replicate 64 CHR ''a'')), 3)
        else if startswith s ''{b}'' then Inr (JDict (demo_payload ''bob'' ''testing'' (replicate 64 CHR ''b'')), 3)
        else Inl (JSONDecodeError ''Expecting value'')),
     ge_fromisoformat = (\<lambda>s. None), ge_sha256 = demo_sha256\<rparr>"

definition demo_tail :: "char \<Rightarrow> string" where
  "demo_tail k = '' {'' @ [k] @ ''} -->''"

definition demo_body :: "char \<Rightarrow> string" where
  "demo_body k = replicate 120 k @ ''<!-- weltgewebe-review-evidence'' @ demo_tail k"

definition demo_comment :: "char \<Rightarrow> jobject" where
  "demo_comment k = [(''body'', JStr (demo_body k)),
     (''author_association'', JStr ''OWNER''), (''user'', JDict [(''login'', JStr ''Alex'')]), (''id'', JInt 1)]"

definition demo_pull :: review_bundle where
  "demo_pull = \<lparr>rb_pr_number = 7, rb_base_sha = ''b'', rb_head_sha = ''h'', rb_merge_base_sha = ''m'', rb_diff_sha256 = ''d'',
     rb_patch_sha256 = ''p'', rb_stats = \<lparr>ds_changed_files = [''scripts/x.py''], ds_additions = 1, ds_deletions = 0,
       ds_binary_files = [], ds_opaque_files = [], ds_attention_changed_files = []\<rparr>\<rparr>"

lemma re_run_Lit: "re_run (Lit s) (pre, s @ rest, g) = [(rev s @ pre, rest, g)]"
  by (induction s arbitrary: pre) (simp_all add: Lit_def)

lemma re_run_LitI: "re_run (LitI s) (pre, s @ rest, g) = [(rev s @ pre, rest, g)]"
  by (induction s arbitrary: pre) (simp_all add: LitI_def)

lemma re_run_LitI_mismatch: "lower_char c \<noteq> lower_char x \<Longrightarrow> re_run (LitI (x # s)) (pre, c # rest, g) = []"
  by (simp add: LitI_def)

lemma re_spaces_one: "\<not> py_isspace c \<Longrightarrow> re_run re_spaces (pre, CHR '' '' # c # rest, g) =
    [(CHR '' '' # pre, c # rest, g), (pre, CHR '' '' # c # rest, g)]"
  by (simp add: re_run.simps(5), simp add: py_isspace_def)

lemma comment_start_mismatch: "CHR ''<'' \<noteq> c \<Longrightarrow> re_run (seqs (Lit ''<!--'' # rs)) (pre, c # rest, g) = []"
  by (simp add: seqs_def Lit_def)

lemma find_at_skip:
  "CHR ''<'' \<notin> set s \<Longrightarrow> re_find_at (seqs (Lit ''<!--'' # rs)) pre (s @ rest) = re_find_at (seqs (Lit ''<!--'' # rs)) (rev s @ pre) rest"
proof (induction s arbitrary: pre)
  case (Cons c s)
  then show ?case by (subst re_find_at.simps) (simp add: comment_start_mismatch)
qed simp

lemma find_at_none: "CHR ''<'' \<notin> set s \<Longrightarrow> re_find_at (seqs (Lit ''<!--'' # rs)) pre s = None"
  using find_at_skip [of s rs pre "[]"] by (simp add: re_find_at.simps seqs_def Lit_def)

lemma demo_run:
  "re_run EVIDENCE_START_RE (pre, ''<!-- weltgewebe-review-evidence'' @ demo_tail k, []) =
     [(rev ''<!-- weltgewebe-review-evidence'' @ pre, demo_tail k, [])]"
  using re_run_Lit [of "''<!--''" pre "'' weltgewebe-review-evidence'' @ demo_tail k" "[]"]
    re_run_LitI [of "''weltgewebe-review-evidence''" "rev ''<!-- '' @ pre" "demo_tail k" "[]"]
  by (simp add: EVIDENCE_START_RE_def seqs_def re_spaces_one re_run_LitI_mismatch py_isspace_def at_word_boundary_def is_word_char_def demo_tail_def lower_char_def)

lemma demo_run_forwarded: "re_run FORWARDED_EVIDENCE_START_RE (pre, ''<!-- weltgewebe-review-evidence'' @ demo_tail k, []) = []"
  using re_run_Lit [of "''<!--''" pre "'' weltgewebe-review-evidence'' @ demo_tail k" "[]"]
  by (simp add: FORWARDED_EVIDENCE_START_RE_def seqs_def re_spaces_one py_isspace_def LitI_def lower_char_def)

lemma demo_blocks:
  assumes "k \<noteq> CHR ''<''"
  shows "re_finditer EVIDENCE_START_RE (demo_body k) =
      [(replicate 120 k, (rev ''<!-- weltgewebe-review-evidence'' @ replicate 120 k, demo_tail k, []))]"
    and "re_finditer FORWARDED_EVIDENCE_START_RE (demo_body k) = []"
proof -
  let ?m = "''<!-- weltgewebe-review-evidence''"
  have "re_find_at EVIDENCE_START_RE [] (demo_body k) = Some (replicate 120 k, (rev ?m @ replicate 120 k, demo_tail k, []))"
    using find_at_skip [of "replicate 120 k" _ "[]" "?m @ demo_tail k"] assms demo_run [of "replicate 120 k" k]
    unfolding demo_body_def EVIDENCE_START_RE_def by (subst (asm) re_find_at.simps) simp
  moreover have "re_find_at EVIDENCE_START_RE (rev ?m @ replicate 120 k) (demo_tail k) = None"
    unfolding EVIDENCE_START_RE_def using assms by (intro find_at_none) (auto simp: demo_tail_def)
  ultimately show "re_finditer EVIDENCE_START_RE (demo_body k) = [(replicate 120 k, (rev ?m @ replicate 120 k, demo_tail k, []))]"
    by (simp add: re_finditer_def re_finditer_from.simps demo_body_def del: replicate.simps)
  have "re_find_at FORWARDED_EVIDENCE_START_RE [] (demo_body k) = None"
    using find_at_skip [of "replicate 120 k" _ "[]" "?m @ demo_tail k"] assms demo_run_forwarded [of "replicate 120 k" k]
      find_at_none [of "tl ?m @ demo_tail k" _ "CHR ''<'' # replicate 120 k"]
    unfolding demo_body_def FORWARDED_EVIDENCE_START_RE_def by (subst (asm) (2) re_find_at.simps) (simp add: demo_tail_def)
  then show "re_finditer FORWARDED_EVIDENCE_START_RE (demo_body k) = []"
    by (simp add: re_finditer_def re_finditer_from.simps)
qed

definition demo_evidence :: "char \<Rightarrow> nat \<Rightarrow> string \<Rightarrow> string \<Rightarrow> evidence" where
  "demo_evidence k i reviewer axis = \<lparr>ev_payload = demo_payload reviewer axis (replicate 64 k), ev_comment_index = i, ev_block_index = 0,
     ev_block_count = 1, ev_report_bytes = 120, ev_report_sha256 = replicate 64 k, ev_association = ''OWNER'', ev_author = JStr ''Alex'',
     ev_url = JNull, ev_id = 1, ev_updated = JStr []\<rparr>"

lemma demo_report:
  "utf8_encode (normalized_report_text (replicate 120 CHR ''a'')) = replicate 120 CHR ''a''"
  "utf8_encode (normalized_report_text (replicate 120 CHR ''b'')) = replicate 120 CHR ''b''"
  by code_simp+

lemma demo_decode:
  "decode_evidence_payload demo_gov_env (demo_tail CHR ''a'') = Inr (Inr (demo_payload ''ann'' ''correctness'' (replicate 64 CHR ''a'')))"
  "decode_evidence_payload demo_gov_env (demo_tail CHR ''b'') = Inr (Inr (demo_payload ''bob'' ''testing'' (replicate 64 CHR ''b'')))"
  by code_simp+

lemma demo_comment_fields:
  "comment_body (demo_comment k) = Some (demo_body k)" "sget (demo_comment k) ''author_association'' = JStr ''OWNER''"
  "login_of (demo_comment k) = JStr ''Alex''" "sget (demo_comment k) ''html_url'' = JNull" "sget (demo_comment k) ''id'' = JInt 1"
  "sget (demo_comment k) ''updated_at'' = JNull" "sget (demo_comment k) ''created_at'' = JNull"
  "str_or_empty (sget (demo_comment k) ''body'') = demo_body k"
  by (simp_all add: demo_comment_def comment_body_def sget_def login_of_def str_or_empty_def py_str_def demo_body_def)

lemma demo_digest: "ge_sha256 demo_gov_env (replicate 120 CHR ''a'') = replicate 64 CHR ''a''"
  "ge_sha256 demo_gov_env (replicate 120 CHR ''b'') = replicate 64 CHR ''b''"
  by (simp_all add: demo_gov_env_def demo_sha256_def)

lemma demo_evidence_blocks:
  "evidence_blocks demo_gov_env [demo_comment CHR ''a'', demo_comment CHR ''b''] =
     Inr ([demo_evidence CHR ''a'' 0 ''ann'' ''correctness'', demo_evidence CHR ''b'' 1 ''bob'' ''testing''], 0, 0)"
  "forwarded_evidence_blocks demo_gov_env [demo_comment CHR ''a'', demo_comment CHR ''b''] = Inr ([], 0, 0)"
  by (simp_all add: evidence_blocks_def forwarded_evidence_blocks_def demo_comment_fields demo_blocks demo_decode mk_evidence_def
      demo_report demo_evidence_def Let_def numeric_id_def plain_int_def str_or_empty_def py_str_def demo_digest upper_def upper_char_def)

lemma demo_recount:
  "recount [demo_comment CHR ''a'', demo_comment CHR ''b''] (demo_evidence CHR ''a'' 0 x y) = demo_evidence CHR ''a'' 0 x y"
  "recount [demo_comment CHR ''a'', demo_comment CHR ''b''] (demo_evidence CHR ''b'' 1 x y) = demo_evidence CHR ''b'' 1 x y"
  by (simp_all add: recount_def demo_evidence_def total_blocks_def demo_comment_fields demo_blocks)

definition demo_exact :: "char \<Rightarrow> nat \<Rightarrow> string \<Rightarrow> string \<Rightarrow> exact_review" where
  "demo_exact k i reviewer axis = mk_exact (demo_evidence k i reviewer axis) (replicate 64 k) (Some ''external'') None None False"

lemma demo_screen:
  "screen_evidence demo_pull R2 [''alex''] (demo_evidence CHR ''a'' 0 ''ann'' ''correctness'') = Exact (demo_exact CHR ''a'' 0 ''ann'' ''correctness'')"
  "screen_evidence demo_pull R2 [''alex''] (demo_evidence CHR ''b'' 1 ''bob'' ''testing'') = Exact (demo_exact CHR ''b'' 1 ''bob'' ''testing'')"
  by code_simp+

lemma demo_exact_evidence:
  "exact_evidence demo_gov_env demo_pull R2 [''alex''] [demo_comment CHR ''a'', demo_comment CHR ''b''] =
     [demo_exact CHR ''a'' 0 ''ann'' ''correctness'', demo_exact CHR ''b'' 1 ''bob'' ''testing'']"
  by (simp add: exact_evidence_def demo_evidence_blocks demo_recount [simplified] demo_screen [simplified] exact_of_def List.map_filter_def)

lemma demo_exact_fields:
  "x_axis (demo_exact CHR ''a'' 0 ''ann'' ''correctness'') = ''correctness''" "x_axis (demo_exact CHR ''b'' 1 ''bob'' ''testing'') = ''testing''"
  "x_verdict (demo_exact CHR ''a'' 0 ''ann'' ''correctness'') = ''PASS''" "x_verdict (demo_exact CHR ''b'' 1 ''bob'' ''testing'') = ''PASS''"
  "x_resolved (demo_exact CHR ''a'' 0 ''ann'' ''correctness'')" "x_resolved (demo_exact CHR ''b'' 1 ''bob'' ''testing'')"
  by code_simp+

lemma demo_latest:
  "map snd (latest_reviews demo_gov_env [demo_exact CHR ''a'' 0 ''ann'' ''correctness'', demo_exact CHR ''b'' 1 ''bob'' ''testing''] []) =
     [demo_exact CHR ''a'' 0 ''ann'' ''correctness'', demo_exact CHR ''b'' 1 ''bob'' ''testing'']"
  by (simp add: review_key_def demo_exact_fields [unfolded One_nat_def])

lemma demo_axis_order: "(''testing'', s) \<le> (''correctness'', t) \<longleftrightarrow> False" "(''correctness'', t) \<le> (''testing'', s) \<longleftrightarrow> True"
  by code_simp+

lemma demo_accepted:
  "sort_key (\<lambda>x. (x_axis x, casefold (x_reviewer x)))
     (accepted_reviews [demo_exact CHR ''a'' 0 ''ann'' ''correctness'', demo_exact CHR ''b'' 1 ''bob'' ''testing'']) =
   [demo_exact CHR ''a'' 0 ''ann'' ''correctness'', demo_exact CHR ''b'' 1 ''bob'' ''testing'']"
  by (simp add: accepted_reviews_def demo_exact_fields [unfolded One_nat_def] demo_axis_order)

lemma demo_reasons:
  "attention_reasons None None (rb_stats demo_pull) = []" "risk_reasons (Some R2) (rb_stats demo_pull) = []"
  "blocking_reasons [demo_exact CHR ''a'' 0 ''ann'' ''correctness'', demo_exact CHR ''b'' 1 ''bob'' ''testing'']
     (nr_blocking (native_review_evidence demo_gov_env [] (rb_head_sha demo_pull))) = []"
  "diversity_reasons R2 [demo_exact CHR ''a'' 0 ''ann'' ''correctness'', demo_exact CHR ''b'' 1 ''bob'' ''testing''] = []"
  by code_simp+

lemma demo_alex: "map casefold [''alex''] = [''alex'']" "re_fullmatch GITHUB_LOGIN_RE ''alex'' \<noteq> None"
  by code_simp+

lemma demo_evaluation:
  "\<exists>v. evaluate_evidence demo_gov_env demo_pull (Some R2) [demo_comment CHR ''a'', demo_comment CHR ''b''] [''alex''] [] None None = Inr v \<and>
     va_pass v"
proof -
  obtain v where v: "evaluate_evidence demo_gov_env demo_pull (Some R2) [demo_comment CHR ''a'', demo_comment CHR ''b''] [''alex''] [] None None = Inr v"
    using demo_alex(2) by (simp add: evaluate_evidence_def demo_evidence_blocks gov_when_def raise_when_def)
  note e = evaluate_evidence_unfold [OF v, unfolded option.case demo_alex(1) demo_exact_evidence demo_latest demo_accepted]
  have "va_reasons v = []"
    using e(1) unfolding e(3) demo_reasons by (simp add: count_reasons_def)
  with v e(2) show ?thesis by blast
qed

lemma evaluation_pass_sound_witness:
  "\<exists>v. evaluate_evidence demo_gov_env demo_pull (Some R2) [demo_comment CHR ''a'', demo_comment CHR ''b''] [''alex''] [] None None = Inr v \<and>
     va_pass v \<and> minimum_risk_for_paths [''scripts/x.py''] \<le> R2 \<and> 2 \<le> card (x_axis ` set (va_accepted v))"
proof -
  obtain v where v: "evaluate_evidence demo_gov_env demo_pull (Some R2) [demo_comment CHR ''a'', demo_comment CHR ''b''] [''alex''] [] None None = Inr v"
    "va_pass v" using demo_evaluation by blast
  from evaluation_pass_sound [OF this] show ?thesis
    using v by (intro exI [of _ v]) (auto simp: demo_pull_def)
qed

lemma exact_evidence_sound_witness:
  "demo_exact CHR ''a'' 0 ''ann'' ''correctness'' \<in>
      set (exact_evidence demo_gov_env demo_pull R2 [''alex''] [demo_comment CHR ''a'', demo_comment CHR ''b'']) \<and>
   (\<exists>c body. c \<in> set [demo_comment CHR ''a'', demo_comment CHR ''b''] \<and> comment_body c = Some body \<and>
      length (re_finditer EVIDENCE_START_RE body) + length (re_finditer FORWARDED_EVIDENCE_START_RE body) = 1)"
proof -
  have x: "demo_exact CHR ''a'' 0 ''ann'' ''correctness'' \<in>
      set (exact_evidence demo_gov_env demo_pull R2 [''alex''] [demo_comment CHR ''a'', demo_comment CHR ''b''])"
    by (simp add: demo_exact_evidence)
  from exact_evidence_sound [OF this] x show ?thesis by blast
qed

end
