(* ===== verification/Review_Command.thy ===== *)
theory Review_Command
  imports Review_Gate
begin

text \<open>
  The commands of \<^verbatim>\<open>scripts/quality/review_governance.py\<close>: the bundle from a local repository or from
  materialised files, the evaluation with its receipt, and the exit codes.

  A command is a \<open>gov\<close>: it maps the output directory to a result (\<open>Inl\<close> an exception that leaves it) and the output
  directory. \<open>gov_host\<close> is what lies outside, as functions of the number of calls so far: what \<^verbatim>\<open>git\<close> answers in text
  or in binary mode (return code, standard output, standard error as text), the time, and which call fails; a
  write that fails leaves the old file or a torn one; \<open>gh_str\<close> is \<^verbatim>\<open>str\<close> of an exception of Python's own. \<open>gov_inputs\<close> is what reading each input file gives.
\<close>

section \<open>Effects\<close>

text \<open>
  What a file of the output directory holds: bytes, the canonical JSON of a value, the review request (the values that
  stand in its German text), or the rest of a write that failed.
\<close>

datatype out_file = Blob string | Canonical json | ReviewRequest "json list" | Torn

record out_dir =
  o_files :: "(string, out_file) dict"
  o_calls :: nat

record gov_host =
  gh_env :: gov_env
  gh_git :: "nat \<Rightarrow> bool \<Rightarrow> string list \<Rightarrow> py_error + int \<times> string \<times> string"
  gh_now :: "nat \<Rightarrow> string"
  gh_fault :: "nat \<Rightarrow> (py_error \<times> bool) option"
  gh_str :: "py_error \<Rightarrow> string"

type_synonym 'a gov = "out_dir \<Rightarrow> (gov_error + 'a) \<times> out_dir"

definition retG :: "'a \<Rightarrow> 'a gov" where
  "retG a d = (Inr a, d)"

definition raiseG :: "gov_error \<Rightarrow> 'a gov" where
  "raiseG e d = (Inl e, d)"

definition liftG :: "gov_error + 'a \<Rightarrow> 'a gov" where
  "liftG r d = (r, d)"

definition bindG :: "'a gov \<Rightarrow> ('a \<Rightarrow> 'b gov) \<Rightarrow> 'b gov" where
  "bindG m f d = (case m d of (Inl e, d') \<Rightarrow> (Inl e, d') | (Inr a, d') \<Rightarrow> f a d')"

definition catchG :: "'a gov \<Rightarrow> (gov_error \<Rightarrow> 'a gov) \<Rightarrow> 'a gov" where
  "catchG m f d = (case m d of (Inl e, d') \<Rightarrow> f e d' | (Inr a, d') \<Rightarrow> (Inr a, d'))"

definition call :: "nat gov" where
  "call d = (Inr (o_calls d), d\<lparr>o_calls := Suc (o_calls d)\<rparr>)"

text \<open>\<^verbatim>\<open>mkdir(parents=True, exist_ok=True)\<close> and \<^verbatim>\<open>print\<close>: only whether they raise matters.\<close>

definition plain_call :: "gov_host \<Rightarrow> unit gov" where
  "plain_call h = bindG call (\<lambda>t. case gh_fault h t of None \<Rightarrow> retG () | Some (e, _) \<Rightarrow> raiseG (GovPy e))"

definition write_artifact :: "gov_host \<Rightarrow> string \<Rightarrow> out_file \<Rightarrow> unit gov" where
  "write_artifact h name a = bindG call (\<lambda>t d. case gh_fault h t of
       None \<Rightarrow> (Inr (), d\<lparr>o_files := dict_set name a (o_files d)\<rparr>)
     | Some (e, torn) \<Rightarrow> (Inl (GovPy e), if torn then d\<lparr>o_files := dict_set name Torn (o_files d)\<rparr> else d))"

section \<open>Git\<close>

definition gov_git :: "gov_host \<Rightarrow> bool \<Rightarrow> string \<Rightarrow> string list \<Rightarrow> string gov" where
  "gov_git h text_mode repo args = bindG call (\<lambda>t.
     case gh_git h t text_mode ([''git'', ''-c'', ''core.pager=cat'', ''-c'', ''pager.diff=false'', ''-c'', ''diff.external='', ''-c'',
         ''diff.trustExitCode=false'', ''-c'', ''core.fsmonitor=false'', ''-C'', repo] @ args) of
       Inl e \<Rightarrow> raiseG (GovPy e)
     | Inr (returncode, out, err) \<Rightarrow>
         if returncode \<noteq> 0
         then raiseG (GovernanceError (''git command failed ('' @ str_of_int returncode @ ''): '' @ strip err))
         else retG out)"

definition resolve_sha :: "gov_host \<Rightarrow> string \<Rightarrow> string \<Rightarrow> string gov" where
  "resolve_sha h repo revision =
     bindG (gov_git h True repo [''rev-parse'', ''--verify'', revision @ ''^{commit}'']) (\<lambda>out. retG (strip out))"

text \<open>\<^verbatim>\<open>tuple(dict.fromkeys(xs))\<close>: the first of equal entries stays.\<close>

definition first_of_each :: "'a list \<Rightarrow> 'a list" where
  "first_of_each xs = rev (remdups (rev xs))"

definition nul_names :: "string \<Rightarrow> string list" where
  "nul_names raw = map fsdecode (filter (\<lambda>part. part \<noteq> []) (split_char CHR 0x00 raw))"

definition git_diff_stats :: "gov_host \<Rightarrow> string \<Rightarrow> string \<Rightarrow> string \<Rightarrow> diff_stats gov" where
  "git_diff_stats h repo base_sha head_sha =
     (let range_spec = base_sha @ ''...'' @ head_sha in
      bindG (gov_git h False repo [''diff'', ''--name-only'', ''-z'', ''--find-renames'', range_spec]) (\<lambda>names_raw.
      bindG (gov_git h False repo [''diff'', ''--name-only'', ''-z'', ''--no-renames'', range_spec]) (\<lambda>attention_names_raw.
      bindG (gov_git h False repo [''diff'', ''--numstat'', ''-z'', ''--find-renames'', range_spec]) (\<lambda>numstat_raw.
      bindG (liftG (parse_numstat_z numstat_raw)) (\<lambda>(additions, deletions, binary_files).
      retG \<lparr>ds_changed_files = nul_names names_raw, ds_additions = additions, ds_deletions = deletions,
            ds_binary_files = binary_files, ds_opaque_files = binary_files,
            ds_attention_changed_files = first_of_each (nul_names attention_names_raw)\<rparr>)))))"

section \<open>Bundles\<close>

definition review_request :: "review_bundle \<Rightarrow> risk option \<Rightarrow> string \<Rightarrow> out_file" where
  "review_request bnd risk_class source =
     (let stats = rb_stats bnd; (reviewable_opaque, blocking_opaque) = partition_opaque_files (ds_opaque_files stats) in
      ReviewRequest [JInt (rb_pr_number bnd), risk_json risk_class, JStr (rb_base_sha bnd), JStr (rb_head_sha bnd), JStr (rb_merge_base_sha bnd),
        JStr (rb_diff_sha256 bnd), JStr source, JInt (int (length (ds_changed_files stats))), JInt (ds_additions stats),
        JInt (ds_deletions stats), strings reviewable_opaque, strings blocking_opaque])"

text \<open>\<^verbatim>\<open>_build_bundle\<close>: the checks, then the four files.\<close>

definition write_bundle ::
  "gov_host \<Rightarrow> int \<Rightarrow> string \<Rightarrow> string \<Rightarrow> string \<Rightarrow> risk option \<Rightarrow> string \<Rightarrow> string \<Rightarrow> diff_stats \<Rightarrow> string \<Rightarrow> review_bundle gov" where
  "write_bundle h pr_number base_sha head_sha merge_base_sha risk_class diff_bytes patch_bytes stats source = (\<lambda>d.
     (let now = gh_now h (o_calls d) in
      bindG (liftG (build_bundle (gh_env h) now pr_number base_sha head_sha merge_base_sha risk_class diff_bytes patch_bytes stats source)) (\<lambda>(bnd, manifest).
      let stem = bundle_stem pr_number head_sha (rb_diff_sha256 bnd) in
      bindG (plain_call h) (\<lambda>_.
      bindG (write_artifact h (stem @ ''.diff'') (Blob diff_bytes)) (\<lambda>_.
      bindG (write_artifact h (stem @ ''.patch'') (Blob patch_bytes)) (\<lambda>_.
      bindG (write_artifact h (stem @ ''.review.json'') (Canonical manifest)) (\<lambda>_.
      bindG (write_artifact h (stem @ ''.review-request.md'') (review_request bnd risk_class source)) (\<lambda>_.
      retG bnd)))))) d))"

definition generate_bundle :: "gov_host \<Rightarrow> string \<Rightarrow> string \<Rightarrow> string \<Rightarrow> int \<Rightarrow> risk option \<Rightarrow> review_bundle gov" where
  "generate_bundle h repo base_revision head_revision pr_number risk_class =
     bindG (resolve_sha h repo base_revision) (\<lambda>base_sha.
     bindG (resolve_sha h repo head_revision) (\<lambda>head_sha.
     bindG (gov_git h True repo [''merge-base'', base_sha, head_sha]) (\<lambda>merge_raw.
     let merge_base = strip merge_raw; range_spec = base_sha @ ''...'' @ head_sha in
     bindG (gov_git h False repo [''diff'', ''--binary'', ''--full-index'', ''--find-renames'', ''--no-ext-diff'', range_spec]) (\<lambda>diff_bytes.
     bindG (gov_git h False repo [''format-patch'', ''--stdout'', ''--binary'', ''--full-index'', ''--no-signature'', merge_base @ ''..'' @ head_sha]) (\<lambda>patch_bytes.
     bindG (git_diff_stats h repo base_sha head_sha) (\<lambda>stats.
     write_bundle h pr_number base_sha head_sha merge_base risk_class diff_bytes patch_bytes stats ''local-git-binary''))))))"

section \<open>Inputs\<close>

text \<open>What \<^verbatim>\<open>read_text\<close>, \<^verbatim>\<open>read_bytes\<close> and \<^verbatim>\<open>json.loads\<close> of \<^verbatim>\<open>read_text\<close> give for each file.\<close>

record gov_inputs =
  gi_body :: "(py_error + string) option"
  gi_metadata :: "py_error + json"
  gi_diff :: "py_error + string"
  gi_patch :: "py_error + string"
  gi_comments :: "py_error + json"
  gi_reviews :: "(py_error + json) option"
  gi_authorities :: "py_error + json"
  gi_manifest :: "py_error + string"

definition of_py :: "py_error + 'a \<Rightarrow> gov_error + 'a" where
  "of_py r = (case r of Inl e \<Rightarrow> Inl (GovPy e) | Inr a \<Rightarrow> Inr a)"

text \<open>\<^verbatim>\<open>_load_json\<close>: an unreadable file or a syntax error is a \<^verbatim>\<open>GovernanceError\<close>; any other exception passes.\<close>

definition gov_load_json :: "string \<Rightarrow> py_error + json \<Rightarrow> gov_error + json" where
  "gov_load_json p r =
     (case r of
        Inl (OSError m) \<Rightarrow> Inl (GovernanceError (''cannot read JSON '' @ p @ '': '' @ m))
      | Inl (JSONDecodeError m) \<Rightarrow> Inl (GovernanceError (''cannot read JSON '' @ p @ '': '' @ m))
      | Inl e \<Rightarrow> Inl (GovPy e)
      | Inr v \<Rightarrow> Inr v)"

definition generate_materialized_bundle :: "gov_host \<Rightarrow> gov_inputs \<Rightarrow> risk option \<Rightarrow> review_bundle gov" where
  "generate_materialized_bundle h inputs risk_class =
     bindG (liftG (bindE (gov_load_json ''metadata'' (gi_metadata inputs)) materialized_metadata)) (\<lambda>(pr_number, base_sha, head_sha, merge_base_sha, stats).
     bindG (liftG (of_py (gi_diff inputs))) (\<lambda>diff_bytes.
     bindG (liftG (of_py (gi_patch inputs))) (\<lambda>patch_bytes.
     write_bundle h pr_number base_sha head_sha merge_base_sha risk_class diff_bytes patch_bytes stats ''github-pull-api'')))"

section \<open>The receipt\<close>

definition opt_json :: "string option \<Rightarrow> json" where
  "opt_json s = (case s of None \<Rightarrow> JNull | Some x \<Rightarrow> JStr x)"

definition review_summary :: "exact_review \<Rightarrow> json" where
  "review_summary x = JDict [(''kind'', JStr (if x_forwarded x then ''forwarded-external-review'' else ''attested-report'')),
     (''reviewer'', JStr (x_reviewer x)), (''report_sha256'', JStr (x_report_sha256 x)), (''review_axis'', JStr (x_axis x)),
     (''review_mode'', JStr (case x_mode x of None \<Rightarrow> ''external'' | Some m \<Rightarrow> m)), (''review_session'', opt_json (x_session x)),
     (''attester'', ev_author (x_evidence x)), (''comment_url'', ev_url (x_evidence x))]"

definition approval_summary :: "native_review \<Rightarrow> json" where
  "approval_summary n = JDict [(''kind'', JStr ''github-approval''), (''reviewer'', JStr (nv_reviewer n)), (''report_sha256'', JNull),
     (''review_axis'', JStr ''github-approval''), (''attester'', JStr (nv_reviewer n)), (''comment_url'', nv_url n)]"

definition evaluation_json :: "review_bundle \<Rightarrow> evaluation \<Rightarrow> jobject" where
  "evaluation_json bnd v =
     (let (reviewable_opaque, blocking_opaque) = partition_opaque_files (ds_opaque_files (rb_stats bnd)) in
      [(''schema_version'', JInt 1), (''kind'', JStr ''weltgewebe-review-evaluation''), (''pass'', JBool (va_pass v)),
       (''risk_class'', JStr (risk_name (va_risk v))), (''minimum_risk_class'', JStr (risk_name (va_minimum_risk v))),
       (''attention_impact_required'', JBool (va_attention_required v)), (''attention_impact_decision'', opt_json (va_attention_decision v)),
       (''binding'', JDict [(''pr_number'', JInt (rb_pr_number bnd)), (''base_sha'', JStr (rb_base_sha bnd)), (''head_sha'', JStr (rb_head_sha bnd)),
          (''merge_base_sha'', JStr (rb_merge_base_sha bnd)), (''diff_sha256'', JStr (rb_diff_sha256 bnd))]),
       (''reviewable_opaque_files'', strings reviewable_opaque), (''blocking_opaque_files'', strings blocking_opaque),
       (''required_review_count'', JInt (int (va_required v))), (''accepted_review_count'', JInt (int (va_accepted_count v))),
       (''accepted_reviews'', JList (map review_summary (va_accepted v) @ map approval_summary (va_quick v))),
       (''stale_evidence_count'', JInt (int (va_stale v))), (''unauthorized_evidence_count'', JInt (int (va_unauthorized v))),
       (''malformed_evidence_count'', JInt (int (va_malformed v))), (''oversized_evidence_count'', JInt (int (va_oversized v))),
       (''stale_native_review_count'', JInt (int (nr_stale (va_native v)))),
       (''unauthorized_native_review_count'', JInt (int (nr_unauthorized (va_native v)))),
       (''malformed_native_review_count'', JInt (int (nr_malformed (va_native v)))), (''reasons'', strings (va_reasons v))])"

definition exc_text :: "gov_host \<Rightarrow> gov_error \<Rightarrow> string" where
  "exc_text h e = (case e of GovernanceError m \<Rightarrow> m | GovPy p \<Rightarrow> gh_str h p)"

definition failure_json :: "string \<Rightarrow> jobject" where
  "failure_json message = [(''schema_version'', JInt 1), (''kind'', JStr ''weltgewebe-review-evaluation''), (''pass'', JBool False),
     (''reasons'', strings [message])]"

definition write_failure :: "gov_host \<Rightarrow> string \<Rightarrow> unit gov" where
  "write_failure h message =
     bindG (plain_call h) (\<lambda>_. write_artifact h ''evaluation.json'' (Canonical (JDict (failure_json message))))"

section \<open>Commands\<close>

definition read_body :: "gov_inputs \<Rightarrow> gov_error + string" where
  "read_body inputs = (case gi_body inputs of None \<Rightarrow> Inr [] | Some r \<Rightarrow> of_py r)"

text \<open>The inputs of the evaluation, in the order they are read.\<close>

definition evaluate_inputs :: "gov_host \<Rightarrow> review_bundle \<Rightarrow> risk option \<Rightarrow> string \<Rightarrow> gov_inputs \<Rightarrow> gov_error + evaluation" where
  "evaluate_inputs h bnd risk_class pr_body inputs =
     bindE (bindE (gov_load_json ''comments'' (gi_comments inputs)) flatten_comments) (\<lambda>comments.
     bindE (case gi_reviews inputs of Some r \<Rightarrow> bindE (gov_load_json ''reviews'' r) flatten_reviews | None \<Rightarrow> Inr []) (\<lambda>reviews.
     bindE (of_py (gi_manifest inputs)) (\<lambda>trusted_manifest.
     bindE (of_py (canonical_product_docs_from_manifest_text trusted_manifest)) (\<lambda>docs.
     bindE (bindE (gov_load_json ''authorities'' (gi_authorities inputs)) load_allowed_attesters) (\<lambda>attesters.
     evaluate_evidence (gh_env h) bnd risk_class comments attesters reviews (Some pr_body) (Some docs))))))"

definition evaluate_and_write :: "gov_host \<Rightarrow> review_bundle \<Rightarrow> risk option \<Rightarrow> string \<Rightarrow> gov_inputs \<Rightarrow> int gov" where
  "evaluate_and_write h bnd risk_class pr_body inputs =
     bindG (liftG (evaluate_inputs h bnd risk_class pr_body inputs)) (\<lambda>v.
     bindG (write_artifact h ''evaluation.json'' (Canonical (JDict (evaluation_json bnd v)))) (\<lambda>_.
     bindG (plain_call h) (\<lambda>_.
     retG (if va_pass v then 0 else 1))))"

definition fail_closed :: "gov_host \<Rightarrow> int gov \<Rightarrow> int gov" where
  "fail_closed h m = catchG m (\<lambda>e.
     bindG (write_failure h (''internal governance failure: '' @ exc_text h e)) (\<lambda>_.
     bindG (plain_call h) (\<lambda>_. retG 2)))"

datatype gov_command =
    BundleCmd string string string int
  | BundleMaterialized
  | EvaluateCmd string string string int
  | EvaluateMaterialized

definition command_bundle :: "gov_host \<Rightarrow> gov_inputs \<Rightarrow> string \<Rightarrow> string \<Rightarrow> string \<Rightarrow> int \<Rightarrow> int gov" where
  "command_bundle h inputs repo base_sha head_sha pr_number =
     bindG (liftG (read_body inputs)) (\<lambda>body.
     bindG (generate_bundle h repo base_sha head_sha pr_number (parse_risk_class body)) (\<lambda>_.
     bindG (plain_call h) (\<lambda>_. retG 0)))"

definition command_bundle_materialized :: "gov_host \<Rightarrow> gov_inputs \<Rightarrow> int gov" where
  "command_bundle_materialized h inputs =
     bindG (liftG (read_body inputs)) (\<lambda>body.
     bindG (generate_materialized_bundle h inputs (parse_risk_class body)) (\<lambda>_.
     bindG (plain_call h) (\<lambda>_. retG 0)))"

definition command_evaluate :: "gov_host \<Rightarrow> gov_inputs \<Rightarrow> string \<Rightarrow> string \<Rightarrow> string \<Rightarrow> int \<Rightarrow> int gov" where
  "command_evaluate h inputs repo base_sha head_sha pr_number = fail_closed h
     (bindG (liftG (read_body inputs)) (\<lambda>body.
      let risk_class = parse_risk_class body in
      bindG (generate_bundle h repo base_sha head_sha pr_number risk_class) (\<lambda>bnd.
      evaluate_and_write h bnd risk_class body inputs)))"

definition command_evaluate_materialized :: "gov_host \<Rightarrow> gov_inputs \<Rightarrow> int gov" where
  "command_evaluate_materialized h inputs = fail_closed h
     (bindG (liftG (read_body inputs)) (\<lambda>body.
      let risk_class = parse_risk_class body in
      bindG (generate_materialized_bundle h inputs risk_class) (\<lambda>bnd.
      evaluate_and_write h bnd risk_class body inputs)))"

fun gov_main :: "gov_host \<Rightarrow> gov_inputs \<Rightarrow> gov_command \<Rightarrow> int gov" where
  "gov_main h inputs (BundleCmd repo base_sha head_sha pr) = command_bundle h inputs repo base_sha head_sha pr"
| "gov_main h inputs BundleMaterialized = command_bundle_materialized h inputs"
| "gov_main h inputs EvaluateMaterialized = command_evaluate_materialized h inputs"
| "gov_main h inputs (EvaluateCmd repo base_sha head_sha pr) = command_evaluate h inputs repo base_sha head_sha pr"

section \<open>Failing closed\<close>

lemma bindG_eq_Inr:
  "bindG m f d = (Inr b, d') \<longleftrightarrow> (\<exists>a d1. m d = (Inr a, d1) \<and> f a d1 = (Inr b, d'))"
  by (auto simp: bindG_def split: prod.splits sum.splits)

lemma liftG_eq [simp]: "liftG r d = (x, d') \<longleftrightarrow> r = x \<and> d' = d"
  by (auto simp: liftG_def)

lemma retG_eq [simp]: "retG a d = (Inr b, d') \<longleftrightarrow> b = a \<and> d' = d"
  by (auto simp: retG_def)

lemma plain_call_files: "plain_call h d = (r, d') \<Longrightarrow> o_files d' = o_files d"
  by (auto simp: plain_call_def bindG_def call_def retG_def raiseG_def split: option.splits)

lemma write_artifact_files:
  "write_artifact h name a d = (Inr (), d') \<Longrightarrow> map_of (o_files d') name = Some a"
  by (auto simp: write_artifact_def bindG_def call_def update_conv split: option.splits)

definition receipt :: "out_dir \<Rightarrow> out_file option" where
  "receipt d = map_of (o_files d) ''evaluation.json''"

lemma evaluate_and_write_receipt:
  assumes "evaluate_and_write h bnd risk_class body inputs d = (Inr code, d')"
  shows "\<exists>v. evaluate_inputs h bnd risk_class body inputs = Inr v \<and> code = (if va_pass v then 0 else 1) \<and>
    receipt d' = Some (Canonical (JDict (evaluation_json bnd v)))"
  using assms by (auto simp: evaluate_and_write_def bindG_eq_Inr receipt_def dest!: write_artifact_files plain_call_files)

lemma write_failure_receipt:
  "write_failure h m d = (Inr u, d') \<Longrightarrow> receipt d' = Some (Canonical (JDict (failure_json m)))"
  by (auto simp: write_failure_def bindG_eq_Inr receipt_def dest!: write_artifact_files)

lemma evaluation_json_pass: "sget (evaluation_json bnd v) ''pass'' = JBool (va_pass v)"
  by (simp add: evaluation_json_def sget_def split: prod.split)

lemma failure_json_pass: "sget (failure_json m) ''pass'' = JBool False"
  by (simp add: failure_json_def sget_def)

lemma fail_closed_cases:
  assumes "fail_closed h m d = (Inr code, d')"
  shows "m d = (Inr code, d') \<or> code = 2 \<and> (\<exists>msg. receipt d' = Some (Canonical (JDict (failure_json msg))))"
  using assms
  by (auto simp: fail_closed_def catchG_def bindG_eq_Inr receipt_def split: prod.splits sum.splits
      dest!: plain_call_files write_failure_receipt [unfolded receipt_def])

text \<open>The reviewed diff lies in the output directory under the name of the bundle, and the bundle carries its digest.\<close>

definition diff_stored :: "gov_host \<Rightarrow> review_bundle \<Rightarrow> out_dir \<Rightarrow> bool" where
  "diff_stored h bnd d \<longleftrightarrow>
     (case map_of (o_files d) (bundle_stem (rb_pr_number bnd) (rb_head_sha bnd) (rb_diff_sha256 bnd) @ ''.diff'') of
        Some (Blob diff) \<Rightarrow> diff \<noteq> [] \<and> rb_diff_sha256 bnd = ge_sha256 (gh_env h) diff
      | _ \<Rightarrow> False)"

lemma write_artifact_other:
  "write_artifact h name a d = (r, d') \<Longrightarrow> n \<noteq> name \<Longrightarrow> map_of (o_files d') n = map_of (o_files d) n"
  by (auto simp: write_artifact_def bindG_def call_def update_conv split: option.splits)

lemma stem_suffix: "bundle_stem p s x @ a = bundle_stem p s x @ b \<longleftrightarrow> a = b"
  by simp

lemma stem_not_receipt: "bundle_stem p s x @ a \<noteq> ''evaluation.json''"
  by (simp add: bundle_stem_def)

lemma build_bundle_binding:
  "build_bundle env now pr base head mb r diff patch stats source = Inr (bnd, manifest) \<Longrightarrow>
     rb_pr_number bnd = pr \<and> rb_head_sha bnd = head \<and> rb_diff_sha256 bnd = ge_sha256 env diff \<and> diff \<noteq> []"
  by (auto simp: build_bundle_def bindE_eq_Inr Let_def gov_when_def raise_when_def split: if_splits prod.splits)

lemma write_bundle_stored:
  assumes "write_bundle h pr base head mb r diff patch stats source d = (Inr bnd, d')"
  shows "diff_stored h bnd d'"
proof -
  obtain manifest d1 d2 d3 d4 u1 u2 u3 u4 where
    b: "build_bundle (gh_env h) (gh_now h (o_calls d)) pr base head mb r diff patch stats source = Inr (bnd, manifest)"
    and w: "write_artifact h (bundle_stem pr head (rb_diff_sha256 bnd) @ ''.diff'') (Blob diff) d1 = (Inr u1, d2)"
      "write_artifact h (bundle_stem pr head (rb_diff_sha256 bnd) @ ''.patch'') (Blob patch) d2 = (Inr u2, d3)"
      "write_artifact h (bundle_stem pr head (rb_diff_sha256 bnd) @ ''.review.json'') (Canonical manifest) d3 = (Inr u3, d4)"
      "write_artifact h (bundle_stem pr head (rb_diff_sha256 bnd) @ ''.review-request.md'') (review_request bnd r source) d4 = (Inr u4, d')"
    using assms by (auto simp: write_bundle_def bindG_eq_Inr Let_def)
  have "map_of (o_files d') (bundle_stem pr head (rb_diff_sha256 bnd) @ ''.diff'') = Some (Blob diff)"
    using write_artifact_files [of h _ _ d1 d2] w(1) write_artifact_other [OF w(2)] write_artifact_other [OF w(3)] write_artifact_other [OF w(4)]
    by simp
  with build_bundle_binding [OF b] show ?thesis by (simp add: diff_stored_def)
qed

lemma generate_bundle_stored:
  "generate_bundle h repo base head pr r d = (Inr bnd, d') \<Longrightarrow> diff_stored h bnd d'"
  by (auto simp: generate_bundle_def bindG_eq_Inr Let_def dest: write_bundle_stored)

lemma generate_materialized_bundle_stored:
  "generate_materialized_bundle h inputs r d = (Inr bnd, d') \<Longrightarrow> diff_stored h bnd d'"
  by (auto simp: generate_materialized_bundle_def bindG_eq_Inr dest: write_bundle_stored)

lemma evaluate_and_write_stored:
  "evaluate_and_write h bnd r body inputs d = (Inr code, d') \<Longrightarrow> diff_stored h bnd d \<Longrightarrow> diff_stored h bnd d'"
proof -
  assume "evaluate_and_write h bnd r body inputs d = (Inr code, d')" and stored: "diff_stored h bnd d"
  then obtain v u d1 where "write_artifact h ''evaluation.json'' (Canonical (JDict (evaluation_json bnd v))) d = (Inr u, d1)"
    and "o_files d' = o_files d1"
    by (auto simp: evaluate_and_write_def bindG_eq_Inr dest: plain_call_files)
  with stored show ?thesis
    using write_artifact_other [OF _ stem_not_receipt] by (simp add: diff_stored_def)
qed

lemma evaluate_body_receipt:
  assumes "bindG (liftG (read_body inputs)) (\<lambda>body.
      bindG (generate (parse_risk_class body)) (\<lambda>bnd. evaluate_and_write h bnd (parse_risk_class body) body inputs)) d = (Inr code, d')"
    and "\<And>r bnd d1. generate r d = (Inr bnd, d1) \<Longrightarrow> diff_stored h bnd d1"
  shows "\<exists>body bnd v. read_body inputs = Inr body \<and> evaluate_inputs h bnd (parse_risk_class body) body inputs = Inr v \<and>
    code = (if va_pass v then 0 else 1) \<and> receipt d' = Some (Canonical (JDict (evaluation_json bnd v))) \<and> diff_stored h bnd d'"
proof -
  obtain body bnd d1 where body: "read_body inputs = Inr body" and g: "generate (parse_risk_class body) d = (Inr bnd, d1)"
    and e: "evaluate_and_write h bnd (parse_risk_class body) body inputs d1 = (Inr code, d')"
    using assms(1) by (auto simp: bindG_eq_Inr)
  show ?thesis
    using body evaluate_and_write_receipt [OF e] evaluate_and_write_stored [OF e assms(2) [OF g]] by blast
qed

text \<open>
  C8: the gate fails closed. When an evaluating command returns, its exit code is 0, 1 or 2 and the file
  \<^verbatim>\<open>evaluation.json\<close> it leaves says \<^verbatim>\<open>"pass": true\<close> exactly for exit code 0, whatever raised or failed on the way. Exit
  code 0 or 1 means that the evidence was evaluated for the declared risk class and that file is the receipt of this
  evaluation; the diff whose digest it names lies beside it.
\<close>

theorem review_gate_fail_closed:
  assumes "gov_main h inputs cmd d = (Inr code, d')"
    and "case cmd of EvaluateCmd _ _ _ _ \<Rightarrow> True | EvaluateMaterialized \<Rightarrow> True | _ \<Rightarrow> False"
  shows "code \<in> {0, 1, 2} \<and>
    (\<exists>j. receipt d' = Some (Canonical (JDict j)) \<and> sget j ''pass'' = JBool (code = 0)) \<and>
    (code \<noteq> 2 \<longrightarrow> (\<exists>body bnd v. read_body inputs = Inr body \<and> evaluate_inputs h bnd (parse_risk_class body) body inputs = Inr v \<and>
       (va_pass v \<longleftrightarrow> code = 0) \<and> receipt d' = Some (Canonical (JDict (evaluation_json bnd v))) \<and> diff_stored h bnd d'))"
proof -
  let ?ok = "\<exists>body bnd v. read_body inputs = Inr body \<and> evaluate_inputs h bnd (parse_risk_class body) body inputs = Inr v \<and>
       code = (if va_pass v then 0 else 1) \<and> receipt d' = Some (Canonical (JDict (evaluation_json bnd v))) \<and> diff_stored h bnd d'"
  let ?generate = "\<lambda>r. case cmd of EvaluateCmd repo base head pr \<Rightarrow> generate_bundle h repo base head pr r
      | _ \<Rightarrow> generate_materialized_bundle h inputs r"
  have stored: "diff_stored h bnd d1" if "?generate r d0 = (Inr bnd, d1)" for r d0 bnd d1
    using that by (auto split: gov_command.splits dest: generate_bundle_stored generate_materialized_bundle_stored)
  have run: "fail_closed h (bindG (liftG (read_body inputs)) (\<lambda>body.
      bindG (?generate (parse_risk_class body)) (\<lambda>bnd. evaluate_and_write h bnd (parse_risk_class body) body inputs))) d = (Inr code, d')"
    using assms by (cases cmd) (simp_all add: command_evaluate_def command_evaluate_materialized_def Let_def)
  have "?ok \<or> code = 2 \<and> (\<exists>msg. receipt d' = Some (Canonical (JDict (failure_json msg))))"
    using fail_closed_cases [OF run]
  proof
    assume "bindG (liftG (read_body inputs)) (\<lambda>body.
      bindG (?generate (parse_risk_class body)) (\<lambda>bnd. evaluate_and_write h bnd (parse_risk_class body) body inputs)) d = (Inr code, d')"
    then have ?ok by (rule evaluate_body_receipt) (rule stored)
    then show ?thesis by blast
  qed blast
  then show ?thesis
    by (elim disjE exE conjE) (auto simp: evaluation_json_pass failure_json_pass)
qed

text \<open>A documentation change of class R0, materialised from the pull request.\<close>

definition demo_host :: gov_host where
  "demo_host = \<lparr>gh_env = \<lparr>ge_raw_decode = (\<lambda>s. Inl (JSONDecodeError ''Expecting value'')), ge_fromisoformat = (\<lambda>s. None),
       ge_sha256 = (\<lambda>s. replicate 64 CHR ''a'')\<rparr>,
     gh_git = (\<lambda>t text args. Inl (OSError ''No such file or directory'')), gh_now = (\<lambda>t. ''2026-01-02T03:04:05+00:00''),
     gh_fault = (\<lambda>t. None), gh_str = (\<lambda>e. ''error'')\<rparr>"

definition demo_inputs :: gov_inputs where
  "demo_inputs = \<lparr>gi_body = Some (Inr ''<!--weltgewebe-risk:R0-->''),
     gi_metadata = Inr (JDict [(''schema_version'', JInt 1), (''pr_number'', JInt 7), (''base_sha'', JStr (replicate 40 CHR ''a'')),
       (''head_sha'', JStr (replicate 40 CHR ''b'')), (''merge_base_sha'', JStr (replicate 40 CHR ''c'')), (''changed_file_count'', JInt 1),
       (''changed_files'', JList [JStr ''a.md'']), (''additions'', JInt 1), (''deletions'', JInt 0), (''opaque_files'', JList [])]),
     gi_diff = Inr ''diff --git a/a.md b/a.md'', gi_patch = Inr ''From b'', gi_comments = Inr (JList []), gi_reviews = None,
     gi_authorities = Inr (JDict [(''schema_version'', JInt 1), (''allowed_attesters'', JList [JStr ''alex''])]),
     gi_manifest = Inr (''  product:'' @ [CHR 0x0A] @ ''    path: p'' @ [CHR 0x0A] @ ''    canonical_docs:'' @ [CHR 0x0A] @ ''      - d'')\<rparr>"

lemma re_run_Lit_Cons: "re_run (Lit (x # s)) (pre, c # rest, g) = (if c = x then re_run (Lit s) (c # pre, rest, g) else [])"
  by (simp add: Lit_def)

lemma re_run_LitI_Cons:
  "re_run (LitI (x # s)) (pre, c # rest, g) = (if lower_char c = lower_char x then re_run (LitI s) (c # pre, rest, g) else [])"
  by (simp add: LitI_def)

lemma re_run_lit_ends: "re_run (Lit []) st = [st]" "re_run (LitI []) st = [st]" "re_run (Lit (x # s)) (pre, [], g) = []"
  "re_run (LitI (x # s)) (pre, [], g) = []"
  by (simp_all add: Lit_def LitI_def)

lemma re_spaces_none: "\<not> py_isspace c \<Longrightarrow> re_run re_spaces (pre, c # rest, g) = [(pre, c # rest, g)]"
  by (simp add: re_run.simps(5))

lemmas marker_simps = re_run_Lit_Cons re_run_LitI_Cons re_run_lit_ends re_spaces_none py_isspace_def lower_char_def seqs_def

lemma demo_risk_match: "re_run RISK_RE ([], ''<!--weltgewebe-risk:R0-->'', []) = [(rev ''<!--weltgewebe-risk:R0-->'', [], [(1, ''R0'')])]"
  by (simp add: RISK_RE_def marker_simps in_range_def less_eq_char_def)

lemma demo_risk_end: "re_run RISK_RE (pre, [], []) = []"
  by (simp add: RISK_RE_def marker_simps)

lemma demo_risk: "parse_risk_class ''<!--weltgewebe-risk:R0-->'' = Some R0"
  by (simp add: parse_risk_class_def findall1_def re_finditer_def re_finditer_from.simps re_find_at.simps demo_risk_match demo_risk_end
      re_group_def upper_def upper_char_def)

abbreviation demo_stats :: diff_stats where
  "demo_stats \<equiv> \<lparr>ds_changed_files = [''a.md''], ds_additions = 1, ds_deletions = 0, ds_binary_files = [], ds_opaque_files = [],
     ds_attention_changed_files = [''a.md'']\<rparr>"

lemma demo_metadata: "materialized_metadata (case gi_metadata demo_inputs of Inr j \<Rightarrow> j | Inl _ \<Rightarrow> JNull) =
    Inr (7, replicate 40 CHR ''a'', replicate 40 CHR ''b'', replicate 40 CHR ''c'', demo_stats)"
  by code_simp

lemma demo_checks:
  "validate_binding_shas 7 (replicate 40 CHR ''a'') (replicate 40 CHR ''b'') (replicate 40 CHR ''c'') = Inr ()"
  "validate_stats demo_stats = Inr ()"
  "length (filter (\<lambda>line. startswith line ''diff --git '') (bytes_lines [] ''diff --git a/a.md b/a.md'')) = 1"
  by code_simp+

lemma demo_build: "\<exists>bnd manifest. build_bundle (gh_env demo_host) now 7 (replicate 40 CHR ''a'') (replicate 40 CHR ''b'') (replicate 40 CHR ''c'') (Some R0)
    ''diff --git a/a.md b/a.md'' ''From b'' demo_stats ''github-pull-api'' = Inr (bnd, manifest) \<and> rb_stats bnd = demo_stats"
  unfolding build_bundle_def Let_def demo_checks by (simp add: gov_when_def raise_when_def MAX_ARTIFACT_BYTES_def partition_opaque_files_def)

lemma demo_inputs_read:
  "bindE (gov_load_json ''authorities'' (gi_authorities demo_inputs)) load_allowed_attesters = Inr [''alex'']"
  "bindE (of_py (gi_manifest demo_inputs)) (\<lambda>m. of_py (canonical_product_docs_from_manifest_text m)) = Inr [''p/d'']"
  by code_simp+

lemma demo_no_reasons:
  "attention_reasons (Some body) (Some [''p/d'']) demo_stats = []" "risk_reasons (Some R0) demo_stats = []"
  by (simp add: attention_reasons_def validate_attention_impact_contract_binding_def validate_attention_impact_markers_def
       product_logic_changes_def attention_files_def PRODUCT_LOGIC_PREFIXES_def startswith_def) code_simp

lemma demo_effects: "gh_fault demo_host t = None"
  by (simp add: demo_host_def)

lemma plain_call_ok: "gh_fault h (o_calls d) = None \<Longrightarrow> plain_call h d = (Inr (), d\<lparr>o_calls := Suc (o_calls d)\<rparr>)"
  by (simp add: plain_call_def bindG_def call_def retG_def)

lemma write_artifact_ok: "gh_fault h (o_calls d) = None \<Longrightarrow>
    write_artifact h name a d = (Inr (), d\<lparr>o_calls := Suc (o_calls d), o_files := dict_set name a (o_files d)\<rparr>)"
  by (simp add: write_artifact_def bindG_def call_def)

lemma demo_generated:
  "\<exists>bnd d'. generate_materialized_bundle demo_host demo_inputs (Some R0) d = (Inr bnd, d') \<and> rb_stats bnd = demo_stats"
proof -
  obtain bnd manifest where b: "build_bundle (gh_env demo_host) (gh_now demo_host (o_calls d)) 7 (replicate 40 CHR ''a'') (replicate 40 CHR ''b'')
      (replicate 40 CHR ''c'') (Some R0) ''diff --git a/a.md b/a.md'' ''From b'' demo_stats ''github-pull-api'' = Inr (bnd, manifest)" "rb_stats bnd = demo_stats"
    using demo_build by blast
  have m: "gov_load_json ''metadata'' (gi_metadata demo_inputs) = Inr (case gi_metadata demo_inputs of Inr j \<Rightarrow> j | Inl _ \<Rightarrow> JNull)"
    by (simp add: gov_load_json_def demo_inputs_def)
  have f: "of_py (gi_diff demo_inputs) = Inr ''diff --git a/a.md b/a.md''" "of_py (gi_patch demo_inputs) = Inr ''From b''"
    by (simp_all add: of_py_def demo_inputs_def)
  have "\<exists>d'. write_bundle demo_host 7 (replicate 40 CHR ''a'') (replicate 40 CHR ''b'') (replicate 40 CHR ''c'') (Some R0)
      ''diff --git a/a.md b/a.md'' ''From b'' demo_stats ''github-pull-api'' d = (Inr bnd, d')"
    unfolding write_bundle_def Let_def b(1) by (simp add: bindG_def liftG_def plain_call_ok write_artifact_ok demo_effects retG_def)
  then show ?thesis
    using b(2) by (auto simp: generate_materialized_bundle_def m demo_metadata f bindG_def liftG_def)
qed

lemma demo_evaluated: "rb_stats bnd = demo_stats \<Longrightarrow>
    \<exists>v. evaluate_inputs demo_host bnd (Some R0) body demo_inputs = Inr v \<and> va_pass v"
proof -
  assume stats: "rb_stats bnd = demo_stats"
  have c: "bindE (gov_load_json ''comments'' (gi_comments demo_inputs)) flatten_comments = Inr []" "gi_reviews demo_inputs = None"
    by (simp_all add: demo_inputs_def gov_load_json_def flatten_comments_def)
  have eq: "evaluate_inputs demo_host bnd (Some R0) body demo_inputs =
      evaluate_evidence (gh_env demo_host) bnd (Some R0) [] [''alex''] [] (Some body) (Some [''p/d''])"
    using demo_inputs_read(2) by (simp add: evaluate_inputs_def c demo_inputs_read(1) bindE_eq_Inr) (auto simp: bindE_eq_Inr)
  obtain v where v: "evaluate_evidence (gh_env demo_host) bnd (Some R0) [] [''alex''] [] (Some body) (Some [''p/d'']) = Inr v"
    using demo_alex(2) by (simp add: evaluate_evidence_def evidence_blocks_def forwarded_evidence_blocks_def gov_when_def raise_when_def)
  have "va_reasons v = []"
    unfolding evaluate_evidence_unfold(1) [OF v] stats
    by (simp add: demo_no_reasons exact_evidence_def evidence_blocks_def forwarded_evidence_blocks_def exact_of_def List.map_filter_def
        blocking_reasons_def native_review_evidence_def count_reasons_def diversity_reasons_def)
  then show ?thesis using eq v evaluate_evidence_unfold(2) [OF v] by simp
qed

lemma demo_command: "\<exists>d'. gov_main demo_host demo_inputs EvaluateMaterialized d = (Inr 0, d')"
proof -
  obtain bnd d1 where g: "generate_materialized_bundle demo_host demo_inputs (Some R0) d = (Inr bnd, d1)" "rb_stats bnd = demo_stats"
    using demo_generated by blast
  obtain v where v: "evaluate_inputs demo_host bnd (Some R0) ''<!--weltgewebe-risk:R0-->'' demo_inputs = Inr v" "va_pass v"
    using demo_evaluated [OF g(2)] by blast
  have body: "read_body demo_inputs = Inr ''<!--weltgewebe-risk:R0-->''"
    by (simp add: read_body_def of_py_def demo_inputs_def)
  have "\<exists>d'. evaluate_and_write demo_host bnd (Some R0) ''<!--weltgewebe-risk:R0-->'' demo_inputs d1 = (Inr 0, d')"
    using v by (simp add: evaluate_and_write_def bindG_def liftG_def retG_def write_artifact_ok plain_call_ok demo_effects)
  then show ?thesis
    by (auto simp: command_evaluate_materialized_def fail_closed_def catchG_def bindG_def liftG_def body demo_risk g(1) Let_def)
qed

lemma review_gate_fail_closed_witness:
  "\<exists>d' j. gov_main demo_host demo_inputs EvaluateMaterialized \<lparr>o_files = [], o_calls = 0\<rparr> = (Inr 0, d') \<and>
     receipt d' = Some (Canonical (JDict j)) \<and> sget j ''pass'' = JBool True"
proof -
  obtain d' where d': "gov_main demo_host demo_inputs EvaluateMaterialized \<lparr>o_files = [], o_calls = 0\<rparr> = (Inr 0, d')"
    using demo_command by blast
  from review_gate_fail_closed [OF this] d' show ?thesis by auto
qed

end
