(* ===== verification/Deploy_Archive.thy ===== *)
theory Deploy_Archive
  imports Repo_Fs Py_Regex
begin

unbundle bit_operations_syntax

text \<open>
  \<^verbatim>\<open>scripts/ops/validate_web_deploy_archive.py\<close>: the check of a web build before it is unpacked on the server.

  \<^verbatim>\<open>tarfile\<close> is seen through what it yields: the members in their order with name, type, mode, size and pax headers, and
  the error, if any, that ends the iteration. \<open>archive_accept_iff\<close> says exactly which archives are accepted.
\<close>

section \<open>Constants\<close>

definition DEFAULT_MAX_COMPRESSED_BYTES :: int where "DEFAULT_MAX_COMPRESSED_BYTES = 256 * 1024 * 1024"
definition DEFAULT_MAX_EXPANDED_BYTES :: int where "DEFAULT_MAX_EXPANDED_BYTES = 512 * 1024 * 1024"
definition DEFAULT_MAX_FILE_BYTES :: int where "DEFAULT_MAX_FILE_BYTES = 64 * 1024 * 1024"
definition DEFAULT_MAX_MEMBERS :: int where "DEFAULT_MAX_MEMBERS = 5000"
definition DEFAULT_MAX_PATH_BYTES :: nat where "DEFAULT_MAX_PATH_BYTES = 1024"
definition DEFAULT_MAX_COMPONENT_BYTES :: nat where "DEFAULT_MAX_COMPONENT_BYTES = 255"
definition DEFAULT_MAX_DEPTH :: nat where "DEFAULT_MAX_DEPTH = 32"

definition ALLOWED_MEMBER_PAX_HEADERS :: "string list" where
  "ALLOWED_MEMBER_PAX_HEADERS = [''mtime'']"

definition PAX_TIME_RE :: re where
  "PAX_TIME_RE = seqs [Bol, Opt (Lit ''-''), Plus (Chr is_digit), Opt (Seq (Lit ''.'') (Plus (Chr is_digit))), Eol]"

definition REQUIRED_REGULAR_FILES :: "string list" where
  "REQUIRED_REGULAR_FILES = [''build/_app/version.json'', ''build/index.html'']"

section \<open>Archives\<close>

datatype archive_error = ArchiveValidationError string | ArchiveValueError string | ArchiveEscape string

datatype member_type = RegularFile | Directory | OtherMember

record tar_member =
  tm_name :: string
  tm_type :: member_type
  tm_mode :: int
  tm_size :: int
  tm_pax :: "(string, string) dict"

text \<open>
  An archive file: \<^verbatim>\<open>is_symlink\<close>, \<^verbatim>\<open>is_file\<close>, its size, and what \<^verbatim>\<open>tarfile.open\<close> and the iteration give. \<open>ar_failure\<close> is
  the exception after the last member that could be read: one that the program catches (\<^verbatim>\<open>TarError\<close>, \<^verbatim>\<open>OSError\<close>) or another.
\<close>

record archive_file =
  ar_path :: string
  ar_symlink :: bool
  ar_regular :: bool
  ar_size :: int
  ar_open_error :: "archive_error option"
  ar_global_pax :: bool
  ar_members :: "tar_member list"
  ar_failure :: "archive_error option"

record archive_limits =
  max_compressed_bytes :: int
  max_expanded_bytes :: int
  max_file_bytes :: int
  max_members :: int

record archive_summary =
  as_schema_version :: int
  as_archive :: string
  as_compressed_bytes :: int
  as_expanded_bytes :: int
  as_member_count :: nat
  as_largest_file_bytes :: int

definition archive_when :: "bool \<Rightarrow> string \<Rightarrow> archive_error + unit" where
  "archive_when c msg = raise_when c (ArchiveValidationError msg)"

section \<open>Names\<close>

definition member_candidate :: "tar_member \<Rightarrow> string" where
  "member_candidate m =
     (if tm_type m = Directory \<and> endswith (tm_name m) ''/'' then butlast (tm_name m) else tm_name m)"

definition posix_str :: "string \<Rightarrow> string" where
  "posix_str s = (if path_parts s = [] then ''.'' else join ''/'' (path_parts s))"

text \<open>\<^verbatim>\<open>_canonical_member_name\<close>; \<^verbatim>\<open>PurePosixPath\<close> is only built for a candidate that is relative.\<close>

definition canonical_member_name :: "tar_member \<Rightarrow> archive_error + string" where
  "canonical_member_name m =
     (let name = tm_name m; candidate = member_candidate m; parts = path_parts candidate in
      bindE (archive_when (name = []) ''archive member has an empty name'') (\<lambda>_.
      bindE (archive_when (CHR 0x5C \<in> set name \<or> list_ex is_control name) (''unsafe archive path characters: '' @ py_repr (JStr name))) (\<lambda>_.
      bindE (archive_when (length (utf8_encode name) > DEFAULT_MAX_PATH_BYTES) (''archive path is too long: '' @ py_repr (JStr name))) (\<lambda>_.
      bindE (archive_when (candidate = [] \<or> startswith candidate ''/'') (''unexpected archive path: '' @ name)) (\<lambda>_.
      bindE (archive_when (contains ''//'' candidate \<or> startswith candidate ''./'' \<or> contains ''/./'' candidate)
         (''non-canonical archive path: '' @ name)) (\<lambda>_.
      bindE (archive_when (posix_str candidate \<noteq> candidate) (''non-canonical archive path: '' @ name)) (\<lambda>_.
      bindE (archive_when (parts = [] \<or> hd parts \<noteq> ''build'') (''unexpected archive path: '' @ name)) (\<lambda>_.
      bindE (archive_when (length parts > DEFAULT_MAX_DEPTH) (''archive path is too deep: '' @ name)) (\<lambda>_.
      bindE (archive_when (list_ex (\<lambda>part. part \<in> {'''', ''.'', ''..''}) parts) (''unsafe archive path: '' @ name)) (\<lambda>_.
      bindE (archive_when (list_ex (\<lambda>part. length (utf8_encode part) > DEFAULT_MAX_COMPONENT_BYTES) parts)
         (''archive path component is too long: '' @ name)) (\<lambda>_.
      Inr (posix_str candidate))))))))))))"

section \<open>The members\<close>

record archive_state =
  a_seen :: "string list"
  a_regular :: "string list"
  a_expanded :: int
  a_largest :: int
  a_count :: nat

definition member_checks :: "archive_limits \<Rightarrow> tar_member \<Rightarrow> string \<Rightarrow> archive_state \<Rightarrow> archive_error + unit" where
  "member_checks limits m canonical s =
     (let unsupported_pax = filter (\<lambda>k. k \<notin> set ALLOWED_MEMBER_PAX_HEADERS) (keys_of (tm_pax m)) in
      bindE (archive_when (unsupported_pax \<noteq> [])
        (''archive member has unsupported pax headers: '' @ canonical @ '': '' @ py_repr (JList (map JStr (sort unsupported_pax))))) (\<lambda>_.
      bindE (archive_when (case map_of (tm_pax m) ''mtime'' of None \<Rightarrow> False
          | Some pax_mtime \<Rightarrow> length pax_mtime > 64 \<or> re_fullmatch PAX_TIME_RE pax_mtime = None)
        (''archive member has invalid pax mtime: '' @ canonical)) (\<lambda>_.
      bindE (archive_when (canonical \<in> set (a_seen s)) (''duplicate archive path: '' @ canonical)) (\<lambda>_.
      bindE (archive_when (tm_type m = OtherMember) (''unsupported archive member type: '' @ canonical)) (\<lambda>_.
      bindE (archive_when (tm_mode m AND 0x0E12 \<noteq> 0) (''elevated or writable permission bits in archive: '' @ canonical)) (\<lambda>_.
      archive_when (tm_type m = Directory \<and> tm_size m \<noteq> 0) (''directory member has non-zero size: '' @ canonical)))))))"

definition regular_step :: "archive_limits \<Rightarrow> tar_member \<Rightarrow> string \<Rightarrow> archive_state \<Rightarrow> archive_error + archive_state" where
  "regular_step limits m canonical s =
     (if tm_type m \<noteq> RegularFile then Inr s
      else
        bindE (archive_when (tm_size m < 0) (''archive member has negative size: '' @ canonical)) (\<lambda>_.
        bindE (archive_when (tm_size m > max_file_bytes limits) (''archive member exceeds per-file limit: '' @ canonical)) (\<lambda>_.
        let s' = s\<lparr>a_regular := a_regular s @ [canonical], a_largest := max (a_largest s) (tm_size m),
                   a_expanded := a_expanded s + tm_size m\<rparr> in
        bindE (archive_when (a_expanded s' > max_expanded_bytes limits) ''archive exceeds expanded limit'') (\<lambda>_. Inr s'))))"

definition member_step :: "archive_limits \<Rightarrow> archive_state \<Rightarrow> tar_member \<Rightarrow> archive_error + archive_state" where
  "member_step limits s m =
     (let s1 = s\<lparr>a_count := Suc (a_count s)\<rparr> in
      bindE (archive_when (int (a_count s1) > max_members limits) ''archive has too many members'') (\<lambda>_.
      bindE (canonical_member_name m) (\<lambda>canonical.
      bindE (member_checks limits m canonical s1) (\<lambda>_.
      regular_step limits m canonical (s1\<lparr>a_seen := a_seen s1 @ [canonical]\<rparr>)))))"

text \<open>\<^verbatim>\<open>except (tarfile.TarError, OSError)\<close>: the caught failures are represented by the error they become.\<close>

definition read_members :: "archive_limits \<Rightarrow> archive_file \<Rightarrow> archive_error + archive_state" where
  "read_members limits f =
     (case ar_open_error f of
        Some e \<Rightarrow> Inl e
      | None \<Rightarrow>
          bindE (archive_when (ar_global_pax f) ''archive has unsupported global pax headers'') (\<lambda>_.
          bindE (foldE (member_step limits) \<lparr>a_seen = [], a_regular = [], a_expanded = 0, a_largest = 0, a_count = 0\<rparr> (ar_members f)) (\<lambda>s.
          case ar_failure f of Some e \<Rightarrow> Inl e | None \<Rightarrow> Inr s)))"

definition validate_archive :: "archive_limits \<Rightarrow> archive_file \<Rightarrow> archive_error + archive_summary" where
  "validate_archive limits f =
     bindE (forE (\<lambda>(name, v). raise_when (v \<le> 0) (ArchiveValueError (name @ '' must be positive'')))
       [(''max_compressed_bytes'', max_compressed_bytes limits), (''max_expanded_bytes'', max_expanded_bytes limits),
        (''max_file_bytes'', max_file_bytes limits), (''max_members'', max_members limits)]) (\<lambda>_.
     bindE (archive_when (ar_symlink f \<or> \<not> ar_regular f) ''archive must be a non-symlink regular file'') (\<lambda>_.
     bindE (archive_when (ar_size f \<le> 0) ''archive is empty'') (\<lambda>_.
     bindE (archive_when (ar_size f > max_compressed_bytes limits)
       (''archive exceeds compressed limit: '' @ str_of_int (ar_size f) @ '' > '' @ str_of_int (max_compressed_bytes limits))) (\<lambda>_.
     bindE (read_members limits f) (\<lambda>s.
     bindE (archive_when (a_count s = 0) ''archive has no members'') (\<lambda>_.
     let missing = filter (\<lambda>p. p \<notin> set (a_regular s)) REQUIRED_REGULAR_FILES in
     bindE (archive_when (missing \<noteq> []) (''archive is missing required regular files: '' @ join '', '' missing)) (\<lambda>_.
     Inr \<lparr>as_schema_version = 2, as_archive = ar_path f, as_compressed_bytes = ar_size f, as_expanded_bytes = a_expanded s,
          as_member_count = a_count s, as_largest_file_bytes = a_largest s\<rparr>)))))))"

text \<open>The command: 0 with a summary, 1 with an error; any other exception leaves it.\<close>

definition archive_main :: "archive_limits \<Rightarrow> archive_file \<Rightarrow> string + (archive_error + archive_summary) \<times> int" where
  "archive_main limits f =
     (case validate_archive limits f of
        Inl (ArchiveEscape e) \<Rightarrow> Inl e
      | Inl e \<Rightarrow> Inr (Inl e, 1)
      | Inr summary \<Rightarrow> Inr (Inr summary, 0))"

section \<open>Which archives are accepted\<close>

definition safe_member_path :: "string \<Rightarrow> bool" where
  "safe_member_path p \<longleftrightarrow>
     (let parts = split_char CHR ''/'' p in
      hd parts = ''build'' \<and> length parts \<le> DEFAULT_MAX_DEPTH \<and>
      list_all (\<lambda>part. part \<notin> {'''', ''.'', ''..''} \<and> length (utf8_encode part) \<le> DEFAULT_MAX_COMPONENT_BYTES) parts)"

definition safe_name_bytes :: "string \<Rightarrow> bool" where
  "safe_name_bytes name \<longleftrightarrow> CHR 0x5C \<notin> set name \<and> \<not> list_ex is_control name \<and> length (utf8_encode name) \<le> DEFAULT_MAX_PATH_BYTES"

abbreviation plain_parts :: "string \<Rightarrow> bool" where
  "plain_parts s \<equiv> list_all (\<lambda>p. p \<noteq> '''' \<and> p \<noteq> ''.'') (split_char CHR ''/'' s)"

lemma path_parts_split: "plain_parts s \<Longrightarrow> path_parts s = split_char CHR ''/'' s"
  by (simp add: path_parts_def list_all_iff filter_id_conv)

lemma posix_str_canonical: "s \<noteq> ''.'' \<Longrightarrow> posix_str s = s \<longleftrightarrow> plain_parts s"
proof
  assume s: "s \<noteq> ''.''" "posix_str s = s"
  then have ne: "path_parts s \<noteq> []" and j: "join ''/'' (path_parts s) = s"
    by (auto simp: posix_str_def split: if_splits)
  have "split_char CHR ''/'' (join ''/'' (path_parts s)) = path_parts s"
    using ne path_parts_parts by (intro split_char_join) auto
  then show "plain_parts s"
    using j path_parts_parts by (auto simp: list_all_iff)
next
  assume "plain_parts s"
  then show "posix_str s = s" by (simp add: posix_str_def path_parts_split)
qed

lemma split_at_slash: "set (split_char CHR ''/'' (a @ CHR ''/'' # b)) = set (split_char CHR ''/'' a) \<union> set (split_char CHR ''/'' b)"
  by (simp add: split_char_at)

lemma canonical_excludes:
  assumes "plain_parts s"
  shows "s \<noteq> []" "\<not> startswith s ''/''" "\<not> contains ''//'' s" "\<not> startswith s ''./''" "\<not> contains ''/./'' s" "s \<noteq> ''.''"
proof -
  have parts: "[] \<notin> set (split_char CHR ''/'' s)" "''.'' \<notin> set (split_char CHR ''/'' s)"
    using assms by (fast dest: iffD1 [OF list_all_iff])+
  show "s \<noteq> []" "s \<noteq> ''.''" using parts by fastforce+
  have "False" if "s = CHR ''/'' # b" for b
    using parts(1) that by simp
  then show "\<not> startswith s ''/''" by (auto simp only: startswith_iff append_Cons append_Nil)
  have "False" if "s = ''.'' @ CHR ''/'' # b" for b
    using parts(2) split_at_slash [of "''.''" b] that by simp
  then show "\<not> startswith s ''./''" by (auto simp only: startswith_iff append_Cons append_Nil)
  have "False" if "s = a @ CHR ''/'' # CHR ''/'' # b" for a b
    using parts split_at_slash [of a "CHR ''/'' # b"] that by simp
  then show "\<not> contains ''//'' s" by (auto simp: contains_iff)
  have "False" if "s = a @ CHR ''/'' # ''.'' @ CHR ''/'' # b" for a b
    using parts split_at_slash [of a "''.'' @ CHR ''/'' # b"] split_at_slash [of "''.''" b] that by simp
  then show "\<not> contains ''/./'' s" by (auto simp: contains_iff)
qed

lemma archive_when_bind [simp]: "bindE (archive_when c msg) f = Inr x \<longleftrightarrow> \<not> c \<and> f () = Inr x"
  by (auto simp: archive_when_def bindE_eq_Inr)

lemma archive_when_Inr [simp]: "archive_when c msg = Inr u \<longleftrightarrow> \<not> c"
  by (simp add: archive_when_def)

lemma canonical_member_name_iff:
  "canonical_member_name m = Inr c \<longleftrightarrow> c = member_candidate m \<and> tm_name m \<noteq> [] \<and> safe_name_bytes (tm_name m) \<and> safe_member_path c"
proof (cases "plain_parts (member_candidate m)")
  case True
  note ex = canonical_excludes [OF True]
  show ?thesis
    unfolding canonical_member_name_def Let_def archive_when_bind path_parts_split [OF True]
    using ex posix_str_canonical [OF ex(6)] True
    by (auto simp: safe_name_bytes_def safe_member_path_def Let_def list_all_iff list_ex_iff not_less)
next
  case False
  then have "\<not> safe_member_path (member_candidate m)"
    by (auto simp: safe_member_path_def Let_def list_all_iff)
  moreover have "canonical_member_name m \<noteq> Inr c"
    unfolding canonical_member_name_def Let_def archive_when_bind
    using False posix_str_canonical [of "member_candidate m"]
    by (cases "member_candidate m = ''.''") (auto simp: path_parts_def)
  ultimately show ?thesis by auto
qed

definition pax_ok :: "(string, string) dict \<Rightarrow> bool" where
  "pax_ok pax \<longleftrightarrow> set (keys_of pax) \<subseteq> set ALLOWED_MEMBER_PAX_HEADERS \<and>
     (case map_of pax ''mtime'' of None \<Rightarrow> True | Some t \<Rightarrow> length t \<le> 64 \<and> re_fullmatch PAX_TIME_RE t \<noteq> None)"

text \<open>A member on its own: a plain path below \<^verbatim>\<open>build\<close>, a directory or a regular file of permitted size and mode.\<close>

definition member_ok :: "archive_limits \<Rightarrow> tar_member \<Rightarrow> bool" where
  "member_ok limits m \<longleftrightarrow> tm_name m \<noteq> [] \<and> safe_name_bytes (tm_name m) \<and> safe_member_path (member_candidate m) \<and> pax_ok (tm_pax m) \<and>
     tm_mode m AND 0x0E12 = 0 \<and>
     (case tm_type m of
        RegularFile \<Rightarrow> 0 \<le> tm_size m \<and> tm_size m \<le> max_file_bytes limits
      | Directory \<Rightarrow> tm_size m = 0
      | OtherMember \<Rightarrow> False)"

definition regular_members :: "tar_member list \<Rightarrow> tar_member list" where
  "regular_members ms = filter (\<lambda>m. tm_type m = RegularFile) ms"

definition expanded_total :: "tar_member list \<Rightarrow> int" where
  "expanded_total ms = sum_list (map tm_size (regular_members ms))"

text \<open>The state after the members \<open>ms\<close>.\<close>

definition advance :: "archive_state \<Rightarrow> tar_member list \<Rightarrow> archive_state" where
  "advance s ms = \<lparr>a_seen = a_seen s @ map member_candidate ms, a_regular = a_regular s @ map member_candidate (regular_members ms),
     a_expanded = a_expanded s + expanded_total ms, a_largest = foldl max (a_largest s) (map tm_size (regular_members ms)),
     a_count = a_count s + length ms\<rparr>"

definition within_limits :: "archive_limits \<Rightarrow> archive_state \<Rightarrow> bool" where
  "within_limits limits s \<longleftrightarrow> int (a_count s) \<le> max_members limits \<and> a_expanded s \<le> max_expanded_bytes limits"

lemma filter_unsupported: "filter (\<lambda>k. k \<notin> A) ks = [] \<longleftrightarrow> set ks \<subseteq> A"
  by (auto simp: filter_empty_conv)

lemma member_checks_iff:
  "member_checks limits m c s = Inr () \<longleftrightarrow>
     pax_ok (tm_pax m) \<and> c \<notin> set (a_seen s) \<and> tm_type m \<noteq> OtherMember \<and> tm_mode m AND 0x0E12 = 0 \<and> (tm_type m = Directory \<longrightarrow> tm_size m = 0)"
  unfolding member_checks_def Let_def archive_when_bind filter_unsupported
  by (auto simp: pax_ok_def archive_when_def not_less split: option.splits)

lemma regular_members_simps [simp]:
  "regular_members [] = []"
  "regular_members (m # ms) = (if tm_type m = RegularFile then m # regular_members ms else regular_members ms)"
  by (simp_all add: regular_members_def)

lemma expanded_total_simps [simp]:
  "expanded_total [] = 0" "expanded_total (m # ms) = (if tm_type m = RegularFile then tm_size m else 0) + expanded_total ms"
  by (simp_all add: expanded_total_def)

lemma advance_simps [simp]: "advance s [] = s" "advance (advance s [m]) ms = advance s (m # ms)"
  by (simp_all add: advance_def)

lemma regular_step_iff:
  "a_expanded s \<le> max_expanded_bytes limits \<Longrightarrow> regular_step limits m c s = Inr s' \<longleftrightarrow>
     (if tm_type m = RegularFile then 0 \<le> tm_size m \<and> tm_size m \<le> max_file_bytes limits \<and> a_expanded s + tm_size m \<le> max_expanded_bytes limits \<and>
        s' = s\<lparr>a_regular := a_regular s @ [c], a_largest := max (a_largest s) (tm_size m), a_expanded := a_expanded s + tm_size m\<rparr>
      else s' = s)"
  unfolding regular_step_def Let_def archive_when_bind by (auto simp: not_less)

lemma member_step_iff:
  assumes "within_limits limits s"
  shows "member_step limits s m = Inr s' \<longleftrightarrow>
    s' = advance s [m] \<and> member_ok limits m \<and> member_candidate m \<notin> set (a_seen s) \<and> within_limits limits s'"
proof -
  have "a_expanded s \<le> max_expanded_bytes limits" using assms by (simp add: within_limits_def)
  then show ?thesis
    unfolding member_step_def Let_def archive_when_bind bindE_eq_Inr canonical_member_name_iff
    by (cases "tm_type m") (auto simp: member_checks_iff regular_step_iff member_ok_def within_limits_def advance_def not_less)
qed

lemma expanded_total_nonneg: "list_all (member_ok limits) ms \<Longrightarrow> 0 \<le> expanded_total ms"
  by (induction ms) (auto simp: member_ok_def split: member_type.splits)

lemma within_limits_prefix:
  assumes "list_all (member_ok limits) ms" and "within_limits limits (advance s (m # ms))"
  shows "within_limits limits (advance s [m])"
  using assms expanded_total_nonneg [OF assms(1)] by (simp add: within_limits_def advance_def)

lemma members_fold_iff:
  "within_limits limits s \<Longrightarrow> foldE (member_step limits) s ms = Inr s' \<longleftrightarrow>
     s' = advance s ms \<and> list_all (member_ok limits) ms \<and> distinct (map member_candidate ms) \<and>
     set (map member_candidate ms) \<inter> set (a_seen s) = {} \<and> within_limits limits s'"
proof (induction ms arbitrary: s)
  case (Cons m ms)
  have seen: "set (a_seen (advance s [m])) = insert (member_candidate m) (set (a_seen s))"
    by (auto simp: advance_def)
  show ?case
  proof (cases "within_limits limits (advance s [m])")
    case True
    then show ?thesis
      by (auto simp: bindE_eq_Inr member_step_iff [OF Cons.prems] Cons.IH [OF True] seen)
  next
    case False
    then show ?thesis
      using within_limits_prefix [of limits ms s m] by (auto simp: bindE_eq_Inr member_step_iff [OF Cons.prems])
  qed
qed auto

section \<open>Properties\<close>

definition limits_positive :: "archive_limits \<Rightarrow> bool" where
  "limits_positive limits \<longleftrightarrow>
     0 < max_compressed_bytes limits \<and> 0 < max_expanded_bytes limits \<and> 0 < max_file_bytes limits \<and> 0 < max_members limits"

definition archive_ok :: "archive_limits \<Rightarrow> archive_file \<Rightarrow> bool" where
  "archive_ok limits f \<longleftrightarrow> limits_positive limits \<and>
     \<not> ar_symlink f \<and> ar_regular f \<and> 0 < ar_size f \<and> ar_size f \<le> max_compressed_bytes limits \<and>
     ar_open_error f = None \<and> \<not> ar_global_pax f \<and> ar_failure f = None \<and>
     ar_members f \<noteq> [] \<and> int (length (ar_members f)) \<le> max_members limits \<and>
     list_all (member_ok limits) (ar_members f) \<and> distinct (map member_candidate (ar_members f)) \<and>
     expanded_total (ar_members f) \<le> max_expanded_bytes limits \<and>
     set REQUIRED_REGULAR_FILES \<subseteq> set (map member_candidate (regular_members (ar_members f)))"

lemma read_members_iff:
  assumes "limits_positive limits"
  shows "read_members limits f = Inr s \<longleftrightarrow>
    ar_open_error f = None \<and> \<not> ar_global_pax f \<and> ar_failure f = None \<and>
    s = advance \<lparr>a_seen = [], a_regular = [], a_expanded = 0, a_largest = 0, a_count = 0\<rparr> (ar_members f) \<and>
    list_all (member_ok limits) (ar_members f) \<and> distinct (map member_candidate (ar_members f)) \<and> within_limits limits s"
proof -
  have "within_limits limits \<lparr>a_seen = [], a_regular = [], a_expanded = 0, a_largest = 0, a_count = 0\<rparr>"
    using assms by (simp add: within_limits_def limits_positive_def)
  from members_fold_iff [OF this] show ?thesis
    by (auto simp: read_members_def bindE_eq_Inr split: option.splits)
qed

lemma limits_checked: "forE (\<lambda>(name, v). raise_when (v \<le> 0) (ArchiveValueError (name @ '' must be positive'')))
     [(''max_compressed_bytes'', max_compressed_bytes limits), (''max_expanded_bytes'', max_expanded_bytes limits),
      (''max_file_bytes'', max_file_bytes limits), (''max_members'', max_members limits)] = Inr u \<longleftrightarrow> limits_positive limits"
  by (auto simp: limits_positive_def bindE_eq_Inr not_le)

lemma archive_accept_iff_aux:
  "validate_archive limits f = Inr summary \<longleftrightarrow> archive_ok limits f \<and>
     summary = \<lparr>as_schema_version = 2, as_archive = ar_path f, as_compressed_bytes = ar_size f,
       as_expanded_bytes = expanded_total (ar_members f), as_member_count = length (ar_members f),
       as_largest_file_bytes = foldl max 0 (map tm_size (regular_members (ar_members f)))\<rparr>"
proof (cases "limits_positive limits")
  case True
  then show ?thesis
    unfolding validate_archive_def archive_when_bind bindE_eq_Inr [of "read_members limits f"] read_members_iff [OF True]
      bindE_eq_Inr [of "forE _ _"] limits_checked Let_def filter_unsupported
    by (auto simp: archive_ok_def within_limits_def advance_def not_le not_less)
next
  case False
  then show ?thesis
    unfolding validate_archive_def bindE_eq_Inr [of "forE _ _"] limits_checked by (simp add: archive_ok_def)
qed

text \<open>
  C18: exactly the bounded trees of plain files below \<^verbatim>\<open>build\<close> are accepted. The check succeeds if and only if the
  archive is a regular file within the compressed limit that can be read to its end, and its members are directories and regular files
  with distinct canonical paths below \<^verbatim>\<open>build\<close> (no empty, \<^verbatim>\<open>.\<close> or \<^verbatim>\<open>..\<close> component, no backslash, no control
  character, bounded depth and lengths), without set-id, sticky or group and world write bits, within the limits on number, size and
  total size, and with the two required files among them; the summary then reports exactly these totals.
\<close>

theorem archive_accept_iff:
  "validate_archive limits f = Inr summary \<longleftrightarrow> archive_ok limits f \<and>
     summary = \<lparr>as_schema_version = 2, as_archive = ar_path f, as_compressed_bytes = ar_size f,
       as_expanded_bytes = expanded_total (ar_members f), as_member_count = length (ar_members f),
       as_largest_file_bytes = foldl max 0 (map tm_size (regular_members (ar_members f)))\<rparr>"
  by (rule archive_accept_iff_aux)

lemma path_parts_candidate: "safe_member_path p \<Longrightarrow> path_parts p = split_char CHR ''/'' p"
  by (rule path_parts_split) (auto simp: safe_member_path_def Let_def list_all_iff)

lemma expanded_total_le:
  "list_all (member_ok limits) ms \<Longrightarrow> expanded_total ms \<le> int (length ms) * max_file_bytes limits \<or> max_file_bytes limits < 0"
proof (induction ms)
  case (Cons m ms)
  then show ?case
    by (auto simp: member_ok_def algebra_simps split: member_type.splits)
qed simp

text \<open>
  C20: unpacking an accepted archive below a directory stays below it and is bounded: the parts of every member's path begin
  with \<^verbatim>\<open>build\<close> and contain no \<^verbatim>\<open>..\<close>, so \<open>doc_root @ parts\<close> lies inside \<open>doc_root / build\<close> without collapsing; the
  total written is at most the expanded limit and at most the number of members times the limit per file.
\<close>

theorem archive_unpack_bounded:
  assumes "validate_archive limits f = Inr summary"
  shows "(\<forall>m\<in>set (ar_members f). inside (doc_root @ [''build'']) (collapse (rev doc_root) (path_parts (member_candidate m)))) \<and>
    as_expanded_bytes summary \<le> max_expanded_bytes limits \<and>
    as_expanded_bytes summary \<le> int (as_member_count summary) * max_file_bytes limits \<and>
    int (as_member_count summary) \<le> max_members limits"
proof -
  have ok: "archive_ok limits f" and s: "as_expanded_bytes summary = expanded_total (ar_members f)" "as_member_count summary = length (ar_members f)"
    using assms by (auto simp: archive_accept_iff_aux)
  have "inside (doc_root @ [''build'']) (collapse (rev doc_root) (path_parts (member_candidate m)))" if "m \<in> set (ar_members f)" for m
  proof -
    have safe: "safe_member_path (member_candidate m)"
      using ok that by (auto simp: archive_ok_def list_all_iff member_ok_def)
    then obtain rest where parts: "path_parts (member_candidate m) = ''build'' # rest" "''..'' \<notin> set (''build'' # rest)"
      using path_parts_candidate [OF safe]
      by (cases "split_char CHR ''/'' (member_candidate m)") (auto simp: safe_member_path_def Let_def list_all_iff)
    have "collapse acc ps = rev acc @ ps" if "''..'' \<notin> set ps" for acc ps
      using that by (induction acc ps rule: collapse.induct) auto
    then show ?thesis using parts by (simp add: inside_iff)
  qed
  moreover have "expanded_total (ar_members f) \<le> int (length (ar_members f)) * max_file_bytes limits"
    using ok expanded_total_le [of limits "ar_members f"] by (auto simp: archive_ok_def limits_positive_def)
  ultimately show ?thesis
    using ok s by (auto simp: archive_ok_def)
qed

text \<open>A web build with a directory and the two required files.\<close>

definition demo_archive :: archive_file where
  "demo_archive = \<lparr>ar_path = ''web.tar.gz'', ar_symlink = False, ar_regular = True, ar_size = 10, ar_open_error = None, ar_global_pax = False,
     ar_members = [\<lparr>tm_name = ''build/'', tm_type = Directory, tm_mode = 493, tm_size = 0, tm_pax = []\<rparr>,
       \<lparr>tm_name = ''build/index.html'', tm_type = RegularFile, tm_mode = 420, tm_size = 5, tm_pax = [(''mtime'', ''1.5'')]\<rparr>,
       \<lparr>tm_name = ''build/_app/version.json'', tm_type = RegularFile, tm_mode = 420, tm_size = 7, tm_pax = []\<rparr>],
     ar_failure = None\<rparr>"

definition default_limits :: archive_limits where
  "default_limits = \<lparr>max_compressed_bytes = DEFAULT_MAX_COMPRESSED_BYTES, max_expanded_bytes = DEFAULT_MAX_EXPANDED_BYTES,
     max_file_bytes = DEFAULT_MAX_FILE_BYTES, max_members = DEFAULT_MAX_MEMBERS\<rparr>"

lemma archive_unpack_bounded_witness:
  "\<exists>summary. validate_archive default_limits demo_archive = Inr summary \<and> as_expanded_bytes summary = 12 \<and>
     inside [''srv'', ''build''] (collapse [''srv''] (path_parts ''build/index.html''))"
proof -
  have names: "list_all (\<lambda>m. tm_name m \<noteq> [] \<and> safe_name_bytes (tm_name m) \<and> safe_member_path (member_candidate m)) (ar_members demo_archive)"
    by code_simp
  have pax: "re_fullmatch PAX_TIME_RE ''1.5'' \<noteq> None"
    by code_simp
  have "archive_ok default_limits demo_archive"
    using names pax
    by (simp add: archive_ok_def default_limits_def demo_archive_def limits_positive_def member_ok_def pax_ok_def member_candidate_def
        ALLOWED_MEMBER_PAX_HEADERS_def REQUIRED_REGULAR_FILES_def endswith_def startswith_def DEFAULT_MAX_COMPRESSED_BYTES_def
        DEFAULT_MAX_EXPANDED_BYTES_def DEFAULT_MAX_FILE_BYTES_def DEFAULT_MAX_MEMBERS_def)
  then obtain summary where run: "validate_archive default_limits demo_archive = Inr summary" "as_expanded_bytes summary = 12"
    by (simp add: archive_accept_iff_aux) (simp add: demo_archive_def)
  from archive_unpack_bounded [OF run(1), of "[''srv'']"] run show ?thesis
    by (auto simp: demo_archive_def member_candidate_def)
qed

end
