(* ===== verification/Env_Reconcile.thy ===== *)
theory Env_Reconcile
  imports Repo_Fs Py_Regex Py_Json Prefix_Code
begin

text \<open>
  \<^verbatim>\<open>scripts/ops/reconcile_public_login_smtp_env.py\<close>, the text it works on: reading an environment file, choosing and
  canonicalising the approved settings of the source, building the reconciled destination, and the plan that an operator
  confirms by its digest.
\<close>

section \<open>Constants\<close>

definition APPROVED_KEYS :: "string list" where
  "APPROVED_KEYS = [''APP_BASE_URL'', ''AUTH_PUBLIC_LOGIN'', ''AUTH_LOG_MAGIC_TOKEN'', ''SMTP_HOST'', ''SMTP_PORT'', ''SMTP_AUTH'',
     ''SMTP_USER'', ''SMTP_PASS'', ''SMTP_FROM'']"

definition REQUIRED_SOURCE_KEYS :: "string list" where
  "REQUIRED_SOURCE_KEYS = [''AUTH_PUBLIC_LOGIN'', ''SMTP_HOST'', ''SMTP_PORT'', ''SMTP_AUTH'', ''SMTP_USER'', ''SMTP_PASS'', ''SMTP_FROM'']"

definition TLS_PORTS :: "nat list" where
  "TLS_PORTS = [465, 587, 2525]"

definition CANONICAL_APP_BASE_URL :: string where
  "CANONICAL_APP_BASE_URL = ''https://commonthing.net''"

definition ALLOWED_SMTP_FROM_OVERRIDES :: "string list" where
  "ALLOWED_SMTP_FROM_OVERRIDES = [''noreply@login.commonthing.net'', ''noreply@login.weltgewebe.net'']"

definition RECONCILE_MARKER :: string where
  "RECONCILE_MARKER = ''# Reconciled canonical app-base, public-login and SMTP keys.''"

definition PLAN_DOMAIN :: string where
  "PLAN_DOMAIN = ''weltgewebe-public-login-smtp-env-plan-v2'' @ [CHR 0x00]"

definition PLAN_SHA256_RE :: re where
  "PLAN_SHA256_RE = Rep 64 (Chr is_lower_hex)"

definition ASCII_PORT_RE :: re where
  "ASCII_PORT_RE = RepBetween 1 5 (Chr is_digit)"

text \<open>The line separators that are refused; U+2028 and U+2029 are outside the alphabet.\<close>

definition INVALID_LINE_CHARS :: "char list" where
  "INVALID_LINE_CHARS = [CHR 0x0D, CHR 0x0B, CHR 0x0C, CHR 0x1C, CHR 0x1D, CHR 0x1E, CHR 0x85]"

section \<open>Environment files\<close>

type_synonym reconcile_error = string

record env_document =
  en_lines :: "string list"
  en_values :: "(string, string) dict"

text \<open>\<^verbatim>\<open>s.split("=", 1)[0]\<close> and \<^verbatim>\<open>[1]\<close>, for a string with an equals sign.\<close>

definition before_eq :: "string \<Rightarrow> string" where
  "before_eq s = takeWhile (\<lambda>c. c \<noteq> CHR ''='') s"

definition after_eq :: "string \<Rightarrow> string" where
  "after_eq s = drop 1 (dropWhile (\<lambda>c. c \<noteq> CHR ''='') s)"

definition key_from_line :: "string \<Rightarrow> string option" where
  "key_from_line raw =
     (let stripped = strip raw in
      if stripped = [] \<or> startswith stripped ''#'' \<or> CHR ''='' \<notin> set stripped then None
      else
        (let left = strip (before_eq stripped);
             left' = (if startswith left ''export '' then strip (drop 7 left) else left) in
         if left' = [] then None else Some left'))"

definition env_step :: "string \<Rightarrow> (string, string) dict \<Rightarrow> string \<Rightarrow> reconcile_error + (string, string) dict" where
  "env_step label values raw =
     (case key_from_line raw of
        None \<Rightarrow> Inr values
      | Some key \<Rightarrow>
          if key \<in> set (keys_of values) then Inl (''duplicate key in '' @ label @ '': '' @ key)
          else Inr (dict_set key (strip (after_eq (strip raw))) values))"

definition parse_env :: "string \<Rightarrow> string \<Rightarrow> reconcile_error + env_document" where
  "parse_env label content =
     bindE (raise_when (list_ex (\<lambda>c. c \<in> set content) INVALID_LINE_CHARS) (label @ '' contains an unsupported line separator'')) (\<lambda>_.
     let lines = split_char CHR 0x0A content in
     bindE (foldE (env_step label) [] lines) (\<lambda>values.
     Inr \<lparr>en_lines = lines, en_values = values\<rparr>))"

section \<open>The source\<close>

definition is_quote :: "char \<Rightarrow> bool" where
  "is_quote c \<longleftrightarrow> c = CHR 0x27 \<or> c = CHR 0x22"

definition logical_scalar :: "string \<Rightarrow> string \<Rightarrow> reconcile_error + string" where
  "logical_scalar raw key =
     (let v = strip raw in
      if v = [] then Inr []
      else if is_quote (hd v) then
        (if length v < 2 \<or> last v \<noteq> hd v then Inl (''malformed quoted value for key: '' @ key) else Inr (strip (butlast (tl v))))
      else if is_quote (last v) then Inl (''malformed quoted value for key: '' @ key)
      else Inr v)"

definition value_of :: "(string, string) dict \<Rightarrow> string \<Rightarrow> string" where
  "value_of values key = (case map_of values key of Some v \<Rightarrow> v | None \<Rightarrow> [])"

definition decimal :: "string \<Rightarrow> nat" where
  "decimal s = foldl (\<lambda>n c. 10 * n + (of_char c - 48)) 0 s"

definition text_value :: "(string, string) dict \<Rightarrow> string \<Rightarrow> reconcile_error + string \<times> string" where
  "text_value values key =
     (let raw_value = strip (value_of values key) in
      bindE (logical_scalar raw_value key) (\<lambda>v.
      bindE (raise_when (v = []) (key @ '' is empty in the source'')) (\<lambda>_. Inr (key, raw_value))))"

definition validate_source :: "(string, string) dict \<Rightarrow> string option \<Rightarrow> reconcile_error + (string, string) dict" where
  "validate_source values smtp_from_override =
     (let missing = filter (\<lambda>k. k \<notin> set (keys_of values)) REQUIRED_SOURCE_KEYS in
      bindE (raise_when (missing \<noteq> []) (''required approved source keys missing: '' @ join '', '' missing)) (\<lambda>_.
      bindE (logical_scalar (value_of values ''AUTH_PUBLIC_LOGIN'') ''AUTH_PUBLIC_LOGIN'') (\<lambda>public_login.
      bindE (raise_when (\<not> (public_login = ''1'' \<or> lower public_login = ''true'')) ''AUTH_PUBLIC_LOGIN is not enabled in the source'') (\<lambda>_.
      bindE (logical_scalar (case map_of values ''AUTH_LOG_MAGIC_TOKEN'' of Some v \<Rightarrow> v | None \<Rightarrow> ''0'') ''AUTH_LOG_MAGIC_TOKEN'') (\<lambda>magic_log.
      bindE (raise_when (\<not> (magic_log = ''0'' \<or> lower magic_log = ''false'')) ''AUTH_LOG_MAGIC_TOKEN is not disabled in the source'') (\<lambda>_.
      bindE (logical_scalar (value_of values ''SMTP_AUTH'') ''SMTP_AUTH'') (\<lambda>smtp_auth.
      bindE (raise_when (lower smtp_auth \<noteq> ''on'') ''SMTP_AUTH must be exactly 'on' in the source'') (\<lambda>_.
      bindE (logical_scalar (value_of values ''SMTP_PORT'') ''SMTP_PORT'') (\<lambda>port_text.
      bindE (raise_when (re_fullmatch ASCII_PORT_RE port_text = None) ''SMTP_PORT must contain ASCII digits only'') (\<lambda>_.
      bindE (raise_when (decimal port_text \<notin> set TLS_PORTS) ''SMTP_PORT is not an approved TLS submission port'') (\<lambda>_.
      bindE (mapE (text_value values) [''SMTP_HOST'', ''SMTP_USER'', ''SMTP_PASS'', ''SMTP_FROM'']) (\<lambda>texts.
      bindE (raise_when (case smtp_from_override of None \<Rightarrow> False | Some o' \<Rightarrow> o' \<notin> set ALLOWED_SMTP_FROM_OVERRIDES)
         ''SMTP_FROM override is not an approved sender'') (\<lambda>_.
      Inr [(''APP_BASE_URL'', CANONICAL_APP_BASE_URL), (''AUTH_PUBLIC_LOGIN'', ''1''), (''AUTH_LOG_MAGIC_TOKEN'', ''0''),
           (''SMTP_HOST'', value_of texts ''SMTP_HOST''), (''SMTP_PORT'', str_of_nat (decimal port_text)), (''SMTP_AUTH'', ''on''),
           (''SMTP_USER'', value_of texts ''SMTP_USER''), (''SMTP_PASS'', value_of texts ''SMTP_PASS''),
           (''SMTP_FROM'', case smtp_from_override of None \<Rightarrow> value_of texts ''SMTP_FROM'' | Some o' \<Rightarrow> o')])))))))))))))"

section \<open>The destination\<close>

definition changed_keys :: "env_document \<Rightarrow> (string, string) dict \<Rightarrow> string list" where
  "changed_keys destination selected = filter (\<lambda>k. map_of (en_values destination) k \<noteq> Some (value_of selected k)) APPROVED_KEYS"

definition drop_trailing_empty :: "string list \<Rightarrow> string list" where
  "drop_trailing_empty xs = rev (dropWhile (\<lambda>l. l = []) (rev xs))"

definition kept_lines :: "(string, string) dict \<Rightarrow> string list \<Rightarrow> string list" where
  "kept_lines selected lines = drop_trailing_empty
     (filter (\<lambda>line. (case key_from_line line of None \<Rightarrow> True | Some k \<Rightarrow> k \<notin> set (keys_of selected)) \<and> strip line \<noteq> RECONCILE_MARKER) lines)"

definition assignment :: "(string, string) dict \<Rightarrow> string \<Rightarrow> string" where
  "assignment selected key = key @ ''='' @ value_of selected key"

definition build_reconciled_content :: "string \<Rightarrow> (string, string) dict \<Rightarrow> reconcile_error + string" where
  "build_reconciled_content destination_text selected =
     bindE (parse_env ''destination'' destination_text) (\<lambda>destination.
     Inr (join [CHR 0x0A] (kept_lines selected (en_lines destination) @ [[], RECONCILE_MARKER] @ map (assignment selected) APPROVED_KEYS) @ [CHR 0x0A]))"

section \<open>The plan\<close>

record plan_stat =
  ps_dev :: int
  ps_ino :: int
  ps_uid :: int
  ps_gid :: int
  ps_mode :: int

record plan_inputs =
  pl_source_path :: string
  pl_destination_path :: string
  pl_backup_dir :: string
  pl_source_text :: string
  pl_destination_text :: string
  pl_planned_content :: string
  pl_source_stat :: plan_stat
  pl_destination_stat :: plan_stat
  pl_backup_stat :: plan_stat

definition update_plan_field :: "string \<times> string \<Rightarrow> string" where
  "update_plan_field f = be 4 (length (utf8_encode (fst f))) @ utf8_encode (fst f) @ be 8 (length (snd f)) @ snd f"

text \<open>\<^verbatim>\<open>stat.S_IMODE\<close> keeps the lowest twelve bits.\<close>

definition stat_plan_fields :: "string \<Rightarrow> plan_stat \<Rightarrow> (string \<times> string) list" where
  "stat_plan_fields prefix st =
     map (\<lambda>(name, v). (prefix @ ''_'' @ name, str_of_int v))
       [(''device'', ps_dev st), (''inode'', ps_ino st), (''uid'', ps_uid st), (''gid'', ps_gid st), (''mode'', ps_mode st mod 4096)]"

definition plan_fields :: "plan_inputs \<Rightarrow> (string \<times> string) list" where
  "plan_fields p =
     [(''source_path'', pl_source_path p), (''destination_path'', pl_destination_path p), (''backup_dir'', pl_backup_dir p),
      (''source_text'', utf8_encode (pl_source_text p)), (''destination_text'', utf8_encode (pl_destination_text p)),
      (''planned_content'', utf8_encode (pl_planned_content p))] @
     stat_plan_fields ''source'' (pl_source_stat p) @ stat_plan_fields ''destination'' (pl_destination_stat p) @
     stat_plan_fields ''backup_dir'' (pl_backup_stat p)"

definition plan_message :: "plan_inputs \<Rightarrow> string" where
  "plan_message p = PLAN_DOMAIN @ concat (map update_plan_field (plan_fields p))"

definition plan_sha256 :: "(string \<Rightarrow> string) \<Rightarrow> plan_inputs \<Rightarrow> string" where
  "plan_sha256 sha256 p = sha256 (plan_message p)"

definition validate_expected_plan :: "string option \<Rightarrow> reconcile_error + string" where
  "validate_expected_plan expected =
     (case expected of
        None \<Rightarrow> Inl ''--apply requires --expected-plan-sha256 from dry-run''
      | Some e \<Rightarrow> (let normalized = lower (strip e) in
          bindE (raise_when (re_fullmatch PLAN_SHA256_RE normalized = None) ''expected plan SHA-256 is invalid'') (\<lambda>_. Inr normalized)))"

section \<open>Reading back\<close>

text \<open>The assignments of a file, line by line.\<close>

definition line_pair :: "string \<Rightarrow> (string \<times> string) option" where
  "line_pair raw = map_option (\<lambda>k. (k, strip (after_eq (strip raw)))) (key_from_line raw)"

definition line_pairs :: "string list \<Rightarrow> (string, string) dict" where
  "line_pairs lines = List.map_filter line_pair lines"

lemma line_pairs_simps [simp]:
  "line_pairs [] = []" "line_pairs (l # ls) = (case line_pair l of None \<Rightarrow> line_pairs ls | Some p \<Rightarrow> p # line_pairs ls)"
  "line_pairs (ls @ ms) = line_pairs ls @ line_pairs ms"
  by (simp_all add: line_pairs_def List.map_filter_def split: option.split)

lemma update_new: "k \<notin> fst ` set d \<Longrightarrow> dict_set k v d = d @ [(k, v)]"
  by (induction d) auto

lemma env_fold:
  "foldE (env_step label) vs ls = Inr r \<longleftrightarrow>
     r = vs @ line_pairs ls \<and> distinct (map fst (line_pairs ls)) \<and> fst ` set vs \<inter> fst ` set (line_pairs ls) = {}"
proof (induction ls arbitrary: vs)
  case (Cons l ls)
  show ?case
  proof (cases "key_from_line l")
    case None
    then show ?thesis using Cons by (simp add: env_step_def line_pair_def)
  next
    case (Some k)
    then show ?thesis using Cons by (auto simp: env_step_def line_pair_def update_new)
  qed
qed auto

definition line_char :: "char \<Rightarrow> bool" where
  "line_char c \<longleftrightarrow> c \<noteq> CHR 0x0A \<and> c \<notin> set INVALID_LINE_CHARS"

lemma split_char_chars: "(\<exists>l\<in>set (split_char s content). c \<in> set l) \<longleftrightarrow> c \<in> set content \<and> c \<noteq> s"
proof (induction content)
  case (Cons x xs)
  show ?case
  proof (cases "x = s")
    case False
    obtain p ps where "split_char s xs = p # ps" by (cases "split_char s xs") auto
    then show ?thesis using Cons False by auto
  qed (use Cons in auto)
qed simp

lemma line_chars_iff:
  "list_all (\<lambda>l. list_all line_char l) (split_char CHR 0x0A content) \<longleftrightarrow> \<not> list_ex (\<lambda>c. c \<in> set content) INVALID_LINE_CHARS"
proof -
  have "CHR 0x0A \<notin> set INVALID_LINE_CHARS" by (simp add: INVALID_LINE_CHARS_def)
  moreover have "list_all (\<lambda>l. list_all line_char l) (split_char CHR 0x0A content) \<longleftrightarrow>
      (\<forall>c. (\<exists>l\<in>set (split_char CHR 0x0A content). c \<in> set l) \<longrightarrow> line_char c)"
    by (auto simp: list_all_iff)
  ultimately show ?thesis
    unfolding split_char_chars by (auto simp: line_char_def list_ex_iff)
qed

lemma parse_env_iff:
  "parse_env label content = Inr doc \<longleftrightarrow>
     list_all (\<lambda>l. list_all line_char l) (split_char CHR 0x0A content) \<and> distinct (map fst (line_pairs (split_char CHR 0x0A content))) \<and>
     doc = \<lparr>en_lines = split_char CHR 0x0A content, en_values = line_pairs (split_char CHR 0x0A content)\<rparr>"
  unfolding line_chars_iff by (auto simp: parse_env_def bindE_eq_Inr Let_def env_fold)
section \<open>The reconciled file\<close>

text \<open>A value that can stand behind an equals sign on one line and be read back.\<close>

definition clean_value :: "string \<Rightarrow> bool" where
  "clean_value v \<longleftrightarrow> strip v = v \<and> list_all line_char v"

lemma set_strip: "set (strip v) \<subseteq> set v"
  by (auto simp: strip_def strip_by_def rstrip_by_def lstrip_by_def dest!: set_dropWhileD)

lemma set_after_eq: "set (after_eq s) \<subseteq> set s"
  by (auto simp: after_eq_def dest: in_set_dropD set_dropWhileD)

lemma line_pair_clean: "line_pair l = Some (k, v) \<Longrightarrow> list_all line_char l \<Longrightarrow> clean_value v"
  using set_strip [of l] set_after_eq [of "strip l"] set_strip [of "after_eq (strip l)"]
  by (auto simp: line_pair_def clean_value_def list_all_iff)

lemma line_pairs_member: "p \<in> set (line_pairs ls) \<Longrightarrow> \<exists>l\<in>set ls. line_pair l = Some p"
  by (induction ls) (auto split: option.splits)

lemma parse_env_clean: "parse_env label content = Inr doc \<Longrightarrow> (k, v) \<in> set (en_values doc) \<Longrightarrow> clean_value v"
  by (auto simp: parse_env_iff list_all_iff dest!: line_pairs_member intro!: line_pair_clean)

lemma value_of_clean: "(\<And>k v. (k, v) \<in> set vs \<Longrightarrow> clean_value v) \<Longrightarrow> clean_value (value_of vs key)"
  by (auto simp: value_of_def clean_value_def split: option.split dest: map_of_SomeD)

definition plain_key :: "string \<Rightarrow> bool" where
  "plain_key k \<longleftrightarrow> k \<noteq> [] \<and> list_all (\<lambda>c. \<not> py_isspace c \<and> c \<noteq> CHR ''='' \<and> line_char c) k \<and> hd k \<noteq> CHR ''#'' \<and> \<not> startswith k ''export ''"

lemma approved_plain: "list_all plain_key APPROVED_KEYS"
  by code_simp

lemma strip_unchanged: "s \<noteq> [] \<Longrightarrow> \<not> py_isspace (hd s) \<Longrightarrow> \<not> py_isspace (last s) \<Longrightarrow> strip s = s"
  unfolding strip_def by (rule strip_by_fix) auto

lemma strip_assignment:
  assumes "plain_key k" "clean_value v"
  shows "strip (k @ ''='' @ v) = k @ ''='' @ v"
proof (rule strip_unchanged)
  show "\<not> py_isspace (hd (k @ ''='' @ v))"
    using assms(1) by (cases k) (auto simp: plain_key_def)
  show "\<not> py_isspace (last (k @ ''='' @ v))"
  proof (cases "v = []")
    case True
    then show ?thesis by (simp add: py_isspace_def)
  next
    case False
    then have "\<not> py_isspace (last v)"
      using assms(2) strip_by_last [of py_isspace v] by (simp add: clean_value_def strip_def)
    with False show ?thesis by simp
  qed
qed simp

lemma line_pair_assignment:
  assumes "plain_key k" "clean_value v"
  shows "line_pair (k @ ''='' @ v) = Some (k, v)"
proof -
  have no: "\<forall>c\<in>set k. c \<noteq> CHR ''=''" and space: "\<forall>c\<in>set k. \<not> py_isspace c" and ne: "k \<noteq> []" and hash: "hd k \<noteq> CHR ''#''"
    using assms(1) by (auto simp: plain_key_def list_all_iff)
  have "before_eq (k @ ''='' @ v) = k" "after_eq (k @ ''='' @ v) = v"
    using no by (simp_all add: before_eq_def after_eq_def takeWhile_append2 dropWhile_append2)
  moreover have "strip k = k"
    using space ne by (intro strip_unchanged) auto
  moreover have "\<not> startswith (k @ ''='' @ v) ''#''"
    using ne hash by (cases k) (auto simp: startswith_def)
  ultimately show ?thesis
    using assms ne strip_assignment [OF assms] by (simp add: line_pair_def key_from_line_def Let_def plain_key_def clean_value_def)
qed
lemma logical_scalar_nonempty: "logical_scalar raw key = Inr v \<Longrightarrow> v \<noteq> [] \<Longrightarrow> strip raw \<noteq> []"
  by (auto simp: logical_scalar_def split: if_splits)

lemma str_of_nat_char: "c \<in> set (str_of_nat n) \<Longrightarrow> is_ascii_digit c"
  using str_of_nat_digits [of n] by (simp add: list_all_iff)

lemma digit_clean: "list_all is_ascii_digit s \<Longrightarrow> clean_value s"
proof -
  have "\<not> py_isspace c \<and> line_char c" if "is_ascii_digit c" for c
    using that by (auto simp: is_ascii_digit_def py_isspace_def line_char_def INVALID_LINE_CHARS_def Let_def)
  then show "list_all is_ascii_digit s \<Longrightarrow> clean_value s"
    unfolding clean_value_def strip_def by (auto simp: list_all_iff intro!: strip_by_fix)
qed

lemma override_clean: "list_all clean_value ALLOWED_SMTP_FROM_OVERRIDES" "clean_value CANONICAL_APP_BASE_URL"
  "clean_value ''1''" "clean_value ''0''" "clean_value ''on''"
  by code_simp+

lemma text_value_clean: "text_value vs key = Inr (k, v) \<Longrightarrow> clean_value (value_of vs key) \<Longrightarrow> k = key \<and> clean_value v"
  by (auto simp: text_value_def Let_def bindE_eq_Inr clean_value_def)

lemma mapE_text_values:
  "mapE (text_value vs) ks = Inr texts \<Longrightarrow> (\<And>k. clean_value (value_of vs k)) \<Longrightarrow> (k, v) \<in> set texts \<Longrightarrow> clean_value v"
  by (induction ks arbitrary: texts) (auto simp: bindE_eq_Inr, metis text_value_clean)

text \<open>What \<^verbatim>\<open>validate_source\<close> selects: a value for each approved key, in their order, each clean.\<close>

definition selection_ok :: "(string, string) dict \<Rightarrow> bool" where
  "selection_ok selected \<longleftrightarrow> map fst selected = APPROVED_KEYS \<and> list_all (\<lambda>(k, v). clean_value v) selected"

lemma validate_source_ok:
  assumes "validate_source vs smtp_from = Inr selected" and clean: "\<And>k v. (k, v) \<in> set vs \<Longrightarrow> clean_value v"
  shows "selection_ok selected"
proof -
  obtain port texts where texts: "mapE (text_value vs) [''SMTP_HOST'', ''SMTP_USER'', ''SMTP_PASS'', ''SMTP_FROM''] = Inr texts"
    and approved: "\<not> (case smtp_from of None \<Rightarrow> False | Some s \<Rightarrow> s \<notin> set ALLOWED_SMTP_FROM_OVERRIDES)"
    and sel: "selected = [(''APP_BASE_URL'', CANONICAL_APP_BASE_URL), (''AUTH_PUBLIC_LOGIN'', ''1''), (''AUTH_LOG_MAGIC_TOKEN'', ''0''),
           (''SMTP_HOST'', value_of texts ''SMTP_HOST''), (''SMTP_PORT'', str_of_nat (decimal port)), (''SMTP_AUTH'', ''on''),
           (''SMTP_USER'', value_of texts ''SMTP_USER''), (''SMTP_PASS'', value_of texts ''SMTP_PASS''),
           (''SMTP_FROM'', case smtp_from of None \<Rightarrow> value_of texts ''SMTP_FROM'' | Some s \<Rightarrow> s)]"
    using assms(1) unfolding validate_source_def Let_def bindE_eq_Inr raise_when_Inr sum.inject by blast
  have tc: "clean_value (value_of texts k)" for k
    by (rule value_of_clean) (rule mapE_text_values [OF texts value_of_clean [OF clean]])
  have "clean_value (case smtp_from of None \<Rightarrow> value_of texts ''SMTP_FROM'' | Some s \<Rightarrow> s)"
    using approved override_clean(1) tc by (auto simp: list_all_iff split: option.split)
  then show ?thesis
    using tc override_clean digit_clean [OF str_of_nat_digits] by (simp add: sel selection_ok_def APPROVED_KEYS_def)
qed
abbreviation drops :: "(string, string) dict \<Rightarrow> string \<Rightarrow> bool" where
  "drops selected line \<equiv> (case key_from_line line of None \<Rightarrow> False | Some k \<Rightarrow> k \<in> set (keys_of selected)) \<or> strip line = RECONCILE_MARKER"

lemma drop_trailing_props:
  "set (drop_trailing_empty xs) \<subseteq> set xs" "drop_trailing_empty (xs @ [[]]) = drop_trailing_empty xs"
  "drop_trailing_empty (drop_trailing_empty xs) = drop_trailing_empty xs"
  by (auto simp: drop_trailing_empty_def dest: set_dropWhileD intro: dropWhile_idem_hd)

lemma drop_trailing_idem: "\<exists>n. xs = drop_trailing_empty xs @ replicate n []"
proof (induction xs rule: rev_induct)
  case (snoc x xs)
  show ?case
  proof (cases "x = []")
    case True
    then obtain n where "xs = drop_trailing_empty xs @ replicate n []" using snoc by blast
    then have "xs @ [x] = drop_trailing_empty (xs @ [x]) @ replicate (Suc n) []"
      using True by (metis append_assoc drop_trailing_props(2) replicate_Suc replicate_append_same)
    then show ?thesis by blast
  next
    case False
    then show ?thesis by (intro exI [of _ 0]) (simp add: drop_trailing_empty_def)
  qed
qed (simp add: drop_trailing_empty_def)

lemma line_pairs_empty_lines: "line_pairs (replicate n []) = []"
  by (induction n) (simp_all add: line_pair_def key_from_line_def)

lemma line_pairs_drop_trailing: "line_pairs (drop_trailing_empty xs) = line_pairs xs"
  using drop_trailing_idem [of xs] line_pairs_empty_lines by (metis append_Nil2 line_pairs_simps(3))

lemma marker_no_pair: "line_pair l = Some p \<Longrightarrow> strip l \<noteq> RECONCILE_MARKER"
  by (auto simp: line_pair_def key_from_line_def RECONCILE_MARKER_def startswith_def Let_def)

lemma kept_lines_alt: "kept_lines selected ls = drop_trailing_empty (filter (\<lambda>l. \<not> drops selected l) ls)"
  by (simp add: kept_lines_def) (rule arg_cong [where f = drop_trailing_empty], rule filter_cong, auto split: option.split)

lemma line_pairs_kept: "line_pairs (kept_lines selected ls) = filter (\<lambda>(k, v). k \<notin> set (keys_of selected)) (line_pairs ls)"
proof -
  have "line_pairs (filter (\<lambda>l. \<not> drops selected l) ls) = filter (\<lambda>(k, v). k \<notin> set (keys_of selected)) (line_pairs ls)"
  proof (induction ls)
    case (Cons l ls)
    then show ?case
      using marker_no_pair [of l] by (cases "key_from_line l") (auto simp: line_pair_def)
  qed simp
  then show ?thesis by (simp only: kept_lines_alt line_pairs_drop_trailing)
qed

lemma value_of_selected:
  assumes "distinct (map fst sel)"
  shows "map (\<lambda>k. (k, value_of sel k)) (map fst sel) = sel"
proof -
  have "(fst p, value_of sel (fst p)) = p" if "p \<in> set sel" for p
    using assms that by (cases p) (simp add: value_of_def)
  then show ?thesis by (simp add: map_idI)
qed

lemma line_pairs_assignments:
  assumes "selection_ok selected"
  shows "line_pairs (map (assignment selected) APPROVED_KEYS) = selected"
proof -
  have "clean_value (value_of selected k)" for k
    by (rule value_of_clean) (use assms in \<open>auto simp: selection_ok_def list_all_iff\<close>)
  then have "line_pairs (map (assignment selected) ks) = map (\<lambda>k. (k, value_of selected k)) ks" if "list_all plain_key ks" for ks
    using that by (induction ks) (auto simp: assignment_def line_pair_assignment [simplified])
  moreover have "distinct APPROVED_KEYS" by (simp add: APPROVED_KEYS_def)
  ultimately show ?thesis
    using assms approved_plain value_of_selected [of selected] by (simp add: selection_ok_def)
qed
lemma join_snoc: "xs \<noteq> [] \<Longrightarrow> join sep (xs @ [x]) = join sep xs @ sep @ x"
proof (induction xs)
  case (Cons a xs)
  then show ?case by (cases "xs = []") (simp_all add: join_Cons)
qed simp

lemma kept_lines_subset: "set (kept_lines selected ls) \<subseteq> set ls"
  using drop_trailing_props(1) by (fastforce simp: kept_lines_def)

lemma line_char_newline: "list_all line_char l \<Longrightarrow> CHR 0x0A \<notin> set l"
  by (auto simp: list_all_iff line_char_def)

lemma marker_chars: "list_all line_char RECONCILE_MARKER"
  by code_simp

lemma assignment_chars: "selection_ok selected \<Longrightarrow> k \<in> set APPROVED_KEYS \<Longrightarrow> list_all line_char (assignment selected k)"
proof -
  assume ok: "selection_ok selected" and "k \<in> set APPROVED_KEYS"
  then have "list_all line_char k"
    using approved_plain by (auto simp: list_all_iff plain_key_def)
  moreover have "clean_value (value_of selected k)"
    by (rule value_of_clean) (use ok in \<open>auto simp: selection_ok_def list_all_iff\<close>)
  moreover have "line_char CHR ''=''" by (simp add: line_char_def INVALID_LINE_CHARS_def)
  ultimately show ?thesis by (simp add: assignment_def clean_value_def)
qed

lemma reconciled_lines:
  assumes "build_reconciled_content dest selected = Inr content" and "selection_ok selected"
  shows "\<exists>d. parse_env ''destination'' dest = Inr d \<and>
    split_char CHR 0x0A content = kept_lines selected (en_lines d) @ [[], RECONCILE_MARKER] @ map (assignment selected) APPROVED_KEYS @ [[]] \<and>
    list_all (\<lambda>l. list_all line_char l) (split_char CHR 0x0A content)"
proof -
  obtain d where d: "parse_env ''destination'' dest = Inr d"
    and content: "content = join [CHR 0x0A] (kept_lines selected (en_lines d) @ [[], RECONCILE_MARKER] @ map (assignment selected) APPROVED_KEYS) @ [CHR 0x0A]"
    using assms(1) by (auto simp: build_reconciled_content_def bindE_eq_Inr)
  let ?lines = "kept_lines selected (en_lines d) @ [[], RECONCILE_MARKER] @ map (assignment selected) APPROVED_KEYS"
  have chars: "list_all (\<lambda>l. list_all line_char l) (?lines @ [[]])"
    using d kept_lines_subset [of selected "en_lines d"] assignment_chars [OF assms(2)] marker_chars
    by (auto simp: parse_env_iff list_all_iff [where P = "\<lambda>l. list_all line_char l"])
  have "content = join [CHR 0x0A] (?lines @ [[]])"
    using join_snoc [of ?lines "[CHR 0x0A]" "[]"] content by simp
  then have "split_char CHR 0x0A content = ?lines @ [[]]"
    using chars line_char_newline by (simp only:) (rule split_char_join, auto simp: list_all_iff [where P = "\<lambda>l. list_all line_char l"])
  with d chars show ?thesis by auto
qed

lemma drop_trailing_append_empties: "drop_trailing_empty (kept_lines selected ls @ [[], []]) = kept_lines selected ls"
  using drop_trailing_props(2) [of "kept_lines selected ls @ [[]]"] drop_trailing_props(2) [of "kept_lines selected ls"]
    drop_trailing_props(3) by (simp add: kept_lines_def)

lemma assignment_dropped: "selection_ok selected \<Longrightarrow> k \<in> set APPROVED_KEYS \<Longrightarrow> drops selected (assignment selected k)"
proof -
  assume ok: "selection_ok selected" and k: "k \<in> set APPROVED_KEYS"
  have "clean_value (value_of selected k)"
    by (rule value_of_clean) (use ok in \<open>auto simp: selection_ok_def list_all_iff\<close>)
  then have "key_from_line (assignment selected k) = Some k"
    using line_pair_assignment [of k] k approved_plain by (auto simp: list_all_iff assignment_def line_pair_def)
  then show ?thesis using ok k by (simp add: selection_ok_def)
qed

lemma kept_lines_again:
  assumes "selection_ok selected"
  shows "kept_lines selected (kept_lines selected ls @ [[], RECONCILE_MARKER] @ map (assignment selected) APPROVED_KEYS @ [[]]) = kept_lines selected ls"
proof -
  have stripped: "strip RECONCILE_MARKER = RECONCILE_MARKER" "RECONCILE_MARKER \<noteq> []" by code_simp+
  then have marker: "drops selected RECONCILE_MARKER" "\<not> drops selected []"
    by (simp_all add: key_from_line_def)
  have kept: "filter (\<lambda>l. \<not> drops selected l) (kept_lines selected ls) = kept_lines selected ls"
    using drop_trailing_props(1) [of "filter (\<lambda>l. \<not> drops selected l) ls"] by (auto simp: kept_lines_alt filter_id_conv)
  have "filter (\<lambda>l. \<not> drops selected l) (map (assignment selected) APPROVED_KEYS) = []"
    using assignment_dropped [OF assms] by (auto simp: filter_empty_conv)
  with marker kept show ?thesis
    using drop_trailing_append_empties [of selected ls] by (simp only: kept_lines_alt [of selected "_ @ _"] filter_append) (simp add: stripped)
qed
section \<open>Properties\<close>

lemma reconciled_again:
  assumes "build_reconciled_content dest selected = Inr content" and ok: "selection_ok selected"
  shows "\<exists>d. parse_env ''destination'' dest = Inr d \<and>
    parse_env label content = Inr \<lparr>en_lines = split_char CHR 0x0A content,
      en_values = filter (\<lambda>(k, v). k \<notin> set APPROVED_KEYS) (en_values d) @ selected\<rparr> \<and>
    build_reconciled_content content selected = Inr content"
proof -
  obtain d where d: "parse_env ''destination'' dest = Inr d"
    and lines: "split_char CHR 0x0A content = kept_lines selected (en_lines d) @ [[], RECONCILE_MARKER] @ map (assignment selected) APPROVED_KEYS @ [[]]"
    and chars: "list_all (\<lambda>l. list_all line_char l) (split_char CHR 0x0A content)"
    using reconciled_lines [OF assms] by blast
  have keys: "keys_of selected = APPROVED_KEYS" using ok by (simp add: selection_ok_def)
  have empty: "line_pair [] = None" "line_pair RECONCILE_MARKER = None" by code_simp+
  have pairs: "line_pairs (split_char CHR 0x0A content) = filter (\<lambda>(k, v). k \<notin> set APPROVED_KEYS) (en_values d) @ selected"
    using d line_pairs_assignments [OF ok] by (simp add: lines line_pairs_kept keys empty parse_env_iff)
  have "distinct (map fst (en_values d))" using d by (auto simp: parse_env_iff)
  then have "distinct (map fst (filter (\<lambda>(k, v). k \<notin> set APPROVED_KEYS) (en_values d) @ selected))"
    by (auto simp: keys distinct_map_filter) (auto simp: APPROVED_KEYS_def)
  then have parsed: "parse_env l content = Inr \<lparr>en_lines = split_char CHR 0x0A content,
      en_values = filter (\<lambda>(k, v). k \<notin> set APPROVED_KEYS) (en_values d) @ selected\<rparr>" for l
    using chars by (simp add: parse_env_iff pairs)
  have "build_reconciled_content content selected = build_reconciled_content dest selected"
    by (simp add: build_reconciled_content_def parsed d lines kept_lines_again [OF ok, simplified])
  with d parsed assms(1) show ?thesis by auto
qed

text \<open>
  C19: the reconciled file says what was planned. Whatever the destination held, if the source is valid then the new
  file can be read, gives every approved key exactly the selected value and every other key exactly the value it had
  before; comparing it again reports no change, and reconciling it again gives the same bytes.
\<close>

theorem reconcile_roundtrip:
  assumes "parse_env ''source'' source = Inr s" and "validate_source (en_values s) smtp_from_override = Inr selected"
    and "build_reconciled_content destination selected = Inr content"
  shows "\<exists>d new. parse_env ''destination'' destination = Inr d \<and> parse_env ''destination'' content = Inr new \<and>
    list_all (\<lambda>k. map_of (en_values new) k = Some (value_of selected k)) APPROVED_KEYS \<and>
    (\<forall>k. k \<notin> set APPROVED_KEYS \<longrightarrow> map_of (en_values new) k = map_of (en_values d) k) \<and>
    changed_keys new selected = [] \<and> build_reconciled_content content selected = Inr content"
proof -
  have ok: "selection_ok selected"
    using validate_source_ok [OF assms(2)] parse_env_clean [OF assms(1)] by blast
  then have keys: "fst ` set selected = set APPROVED_KEYS" unfolding selection_ok_def by (metis list.set_map)
  obtain d where d: "parse_env ''destination'' destination = Inr d"
    and new: "parse_env ''destination'' content = Inr \<lparr>en_lines = split_char CHR 0x0A content,
      en_values = filter (\<lambda>(k, v). k \<notin> set APPROVED_KEYS) (en_values d) @ selected\<rparr>"
    and again: "build_reconciled_content content selected = Inr content"
    using reconciled_again [OF assms(3) ok] by blast
  have old: "map_of (filter (\<lambda>(k, v). k \<notin> set APPROVED_KEYS) vs) k = (if k \<in> set APPROVED_KEYS then None else map_of vs k)" for vs :: "(string, string) dict" and k
    by (induction vs) auto
  have at: "map_of selected k = Some (value_of selected k)" if "k \<in> set APPROVED_KEYS" for k
    using that keys by (auto simp: value_of_def map_of_eq_None_iff split: option.split)
  have none: "map_of selected k = None" if "k \<notin> set APPROVED_KEYS" for k
    using that keys by (simp add: map_of_eq_None_iff)
  show ?thesis
    using d new again at none
    by (intro exI [of _ d] exI [of _ "\<lparr>en_lines = split_char CHR 0x0A content, en_values = _\<rparr>"])
       (auto simp: map_add_def old list_all_iff changed_keys_def filter_empty_conv split: option.split)
qed

definition example_source :: string where
  "example_source = join [CHR 0x0A] [''AUTH_PUBLIC_LOGIN=true'', ''export SMTP_HOST = h'', ''SMTP_PORT=\"587\"'', ''SMTP_AUTH=On'', ''SMTP_USER=u'',
     ''SMTP_PASS=p=q'', ''SMTP_FROM=f'', ''A=2'']"

definition example_destination :: string where
  "example_destination = join [CHR 0x0A] [''A=1'', ''SMTP_PORT=25'', ''# n'', '''', '''']"

definition example_selected :: "(string, string) dict" where
  "example_selected = [(''APP_BASE_URL'', ''https://commonthing.net''), (''AUTH_PUBLIC_LOGIN'', ''1''), (''AUTH_LOG_MAGIC_TOKEN'', ''0''),
     (''SMTP_HOST'', ''h''), (''SMTP_PORT'', ''587''), (''SMTP_AUTH'', ''on''), (''SMTP_USER'', ''u''), (''SMTP_PASS'', ''p=q''), (''SMTP_FROM'', ''f'')]"

definition example_content :: string where
  "example_content = join [CHR 0x0A] [''A=1'', ''# n'', '''', ''# Reconciled canonical app-base, public-login and SMTP keys.'',
     ''APP_BASE_URL=https://commonthing.net'', ''AUTH_PUBLIC_LOGIN=1'', ''AUTH_LOG_MAGIC_TOKEN=0'', ''SMTP_HOST=h'', ''SMTP_PORT=587'',
     ''SMTP_AUTH=on'', ''SMTP_USER=u'', ''SMTP_PASS=p=q'', ''SMTP_FROM=f'', '''']"

lemma example_run:
  "(case parse_env ''source'' example_source of Inl _ \<Rightarrow> False | Inr s \<Rightarrow> validate_source (en_values s) None = Inr example_selected)"
  "build_reconciled_content example_destination example_selected = Inr example_content"
  by code_simp+


theorem reconcile_roundtrip_witness:
  "\<exists>d new. parse_env ''destination'' example_destination = Inr d \<and> parse_env ''destination'' example_content = Inr new \<and>
    map_of (en_values new) ''A'' = map_of (en_values d) ''A'' \<and> changed_keys new example_selected = [] \<and>
    build_reconciled_content example_content example_selected = Inr example_content"
proof -
  obtain s where "parse_env ''source'' example_source = Inr s" "validate_source (en_values s) None = Inr example_selected"
    using example_run(1) by (auto split: sum.splits)
  from reconcile_roundtrip [OF this example_run(2)] obtain d new where
    "parse_env ''destination'' example_destination = Inr d" "parse_env ''destination'' example_content = Inr new"
    "\<And>k. k \<notin> set APPROVED_KEYS \<Longrightarrow> map_of (en_values new) k = map_of (en_values d) k"
    "changed_keys new example_selected = []" "build_reconciled_content example_content example_selected = Inr example_content"
    by blast
  moreover have "''A'' \<notin> set APPROVED_KEYS" by code_simp
  ultimately show ?thesis by blast
qed

section \<open>What the digest binds\<close>

lemma update_plan_field_alt: "update_plan_field f = labelled_part 4 8 (utf8_encode (fst f), snd f)"
  by (simp add: update_plan_field_def labelled_part_def sized_part_def)

definition field_ok :: "string \<times> string \<Rightarrow> bool" where
  "field_ok f \<longleftrightarrow> length (utf8_encode (fst f)) < 2 ^ 32 \<and> length (snd f) < 2 ^ 64"

interpretation plan_code: prefix_code update_plan_field field_ok
proof
  show "f = g \<and> x = y" if "update_plan_field f @ x = update_plan_field g @ y" "field_ok f" "field_ok g" for f g x y
  proof -
    have "(utf8_encode (fst f), snd f) = (utf8_encode (fst g), snd g) \<and> x = y"
      by (rule labelled_part_prefix [of 4 8]) (use that in \<open>simp_all add: update_plan_field_alt field_ok_def labelled_ok_def\<close>)
    then show ?thesis using utf8_encode_inj by (auto simp: prod_eq_iff)
  qed
  show "update_plan_field f \<noteq> []" for f
    by (auto simp: update_plan_field_def dest: arg_cong [of _ _ length])
qed

text \<open>The values the plan hashes fit the eight length bytes in front of them.\<close>

definition plan_sized :: "plan_inputs \<Rightarrow> bool" where
  "plan_sized p \<longleftrightarrow> list_all (\<lambda>f. length (snd f) < 2 ^ 64) (plan_fields p)"

lemma plan_labels: "list_all (\<lambda>f. length (utf8_encode (fst f)) < 2 ^ 32) (plan_fields p)"
  by (simp add: plan_fields_def stat_plan_fields_def utf8_encode_def utf8_char_def)

lemma plan_fields_ok: "plan_sized p \<Longrightarrow> list_all field_ok (plan_fields p)"
  using plan_labels [of p] by (simp add: plan_sized_def field_ok_def list_all_iff)

lemma str_of_int_inj: "str_of_int m = str_of_int n \<longleftrightarrow> m = n"
  using str_of_int_readable [of m "[]" n "[]"] by (auto simp: ends_value_def)

text \<open>What the plan keeps of a file's status.\<close>

definition plan_view :: "plan_stat \<Rightarrow> plan_stat" where
  "plan_view st = st\<lparr>ps_mode := ps_mode st mod 4096\<rparr>"

lemma stat_plan_fields_inj: "stat_plan_fields prefix s = stat_plan_fields prefix t \<longleftrightarrow> plan_view s = plan_view t"
  by (cases s; cases t) (auto simp: stat_plan_fields_def plan_view_def str_of_int_inj)

lemma length_stat_plan_fields [simp]: "length (stat_plan_fields prefix s) = 5"
  by (simp add: stat_plan_fields_def)

text \<open>
  C21: the plan digest binds everything the operator confirmed. Two plans that hash the same bytes have the same three paths, the
  same source, destination and planned texts, and the same device, inode, owner and permission bits of the source, the
  destination and the backup directory: no two different plans share a message, whatever the paths or files contain.
\<close>

theorem plan_injective:
  assumes "plan_message p = plan_message q" "plan_sized p" "plan_sized q"
  shows "pl_source_path p = pl_source_path q \<and> pl_destination_path p = pl_destination_path q \<and> pl_backup_dir p = pl_backup_dir q \<and>
    pl_source_text p = pl_source_text q \<and> pl_destination_text p = pl_destination_text q \<and> pl_planned_content p = pl_planned_content q \<and>
    plan_view (pl_source_stat p) = plan_view (pl_source_stat q) \<and> plan_view (pl_destination_stat p) = plan_view (pl_destination_stat q) \<and>
    plan_view (pl_backup_stat p) = plan_view (pl_backup_stat q)"
proof -
  have "plan_fields p = plan_fields q"
    by (rule plan_code.concat_inj) (use assms plan_fields_ok in \<open>simp_all add: plan_message_def\<close>)
  then show ?thesis
    by (simp add: plan_fields_def stat_plan_fields_inj) (metis utf8_encode_inj)
qed

definition example_plan :: "string \<Rightarrow> plan_inputs" where
  "example_plan content =
     (let st = \<lparr>ps_dev = 1, ps_ino = 2, ps_uid = 0, ps_gid = 0, ps_mode = 33152\<rparr> in
      \<lparr>pl_source_path = ''/a'', pl_destination_path = ''/b'', pl_backup_dir = ''/c'', pl_source_text = ''A=1'', pl_destination_text = ''B=2'',
       pl_planned_content = content, pl_source_stat = st, pl_destination_stat = st, pl_backup_stat = st\<rparr>)"

theorem plan_injective_witness: "plan_message (example_plan ''A=1'') \<noteq> plan_message (example_plan ''A=2'')"
proof -
  have "plan_sized (example_plan s)" if "length (utf8_encode s) < 2 ^ 64" for s
    using that by (simp add: plan_sized_def plan_fields_def stat_plan_fields_def example_plan_def Let_def utf8_encode_def utf8_char_def str_of_int_def str_of_nat.simps)
  then have "plan_sized (example_plan ''A=1'')" "plan_sized (example_plan ''A=2'')"
    by (simp_all add: utf8_encode_def utf8_char_def)
  moreover have "pl_planned_content (example_plan ''A=1'') \<noteq> pl_planned_content (example_plan ''A=2'')"
    by (simp add: example_plan_def Let_def)
  ultimately show ?thesis using plan_injective by blast
qed

end
