(* ===== verification/Env_World.thy ===== *)
theory Env_World
  imports Env_Reconcile
begin

text \<open>
  The operating system under \<^verbatim>\<open>scripts/ops/reconcile_public_login_smtp_env.py\<close>, and the monad its effects are written in.

  \<^item> The file system has inodes (status and bytes) and directory entries, from a directory's inode and a name to an
    inode. A descriptor is an inode, so it survives a rename, and one inode may have several names. \<^verbatim>\<open>/\<close> is inode 0.
  \<^item> \<open>env_sys\<close> is everything outside the program, as functions of the number of system calls so far: which call
    fails and how, or kills the process (\<open>Dies\<close>); how much of an interrupted write reached the file; what other
    processes do to the file system before the call, given whether this process holds the lock; whether the lock is
    free; the clock; new inode numbers; names; and SHA-256.
  \<^item> A process that is killed runs no handler: \<open>Killed\<close> passes through \<open>tryX\<close> and \<open>finallyX\<close>.

  Closing a descriptor is not a step of its own, except that closing the lock's releases the lock. \<^verbatim>\<open>fsync\<close> may fail
  and has no other effect: the model has process death, not power loss.
\<close>

section \<open>Worlds\<close>

datatype env_exc = ReconcileError string | SecureMetadataError string | SecurePayloadError string | ValueErr string | OSErr string | FileNotFoundErr string | OtherExc string

datatype 'a outcome = Done 'a | Raised env_exc | Killed

datatype fault = NoFault | Fails env_exc | Dies

record inode =
  in_stat :: plan_stat
  in_bytes :: string

record env_fs =
  ef_entries :: "(nat \<times> string, nat) dict"
  ef_inodes :: "(nat, inode) dict"

record env_sys =
  es_fault :: "nat \<Rightarrow> fault"
  es_written :: "nat \<Rightarrow> nat"
  es_others :: "bool \<Rightarrow> nat \<Rightarrow> env_fs \<Rightarrow> env_fs"
  es_lock_free :: "nat \<Rightarrow> bool"
  es_clock :: "nat \<Rightarrow> int"
  es_ino :: "nat \<Rightarrow> int"
  es_umask :: int
  es_euid :: int
  es_egid :: int
  es_pid :: nat
  es_utc :: "nat \<Rightarrow> string"
  es_token :: "nat \<Rightarrow> string"
  es_sha256 :: "string \<Rightarrow> string"

record env_world =
  ew_time :: nat
  ew_now :: int
  ew_fs :: env_fs
  ew_locked :: bool

type_synonym 'a env_io = "env_world \<Rightarrow> 'a outcome \<times> env_world"

definition retX :: "'a \<Rightarrow> 'a env_io" where
  "retX a w = (Done a, w)"

definition raiseX :: "env_exc \<Rightarrow> 'a env_io" where
  "raiseX e w = (Raised e, w)"

definition bindX :: "'a env_io \<Rightarrow> ('a \<Rightarrow> 'b env_io) \<Rightarrow> 'b env_io" where
  "bindX m f w = (case m w of (Done a, w') \<Rightarrow> f a w' | (Raised e, w') \<Rightarrow> (Raised e, w') | (Killed, w') \<Rightarrow> (Killed, w'))"

definition liftX :: "reconcile_error + 'a \<Rightarrow> 'a env_io" where
  "liftX r = (case r of Inl msg \<Rightarrow> raiseX (ReconcileError msg) | Inr a \<Rightarrow> retX a)"

definition whenX :: "bool \<Rightarrow> string \<Rightarrow> unit env_io" where
  "whenX c msg = (if c then raiseX (ReconcileError msg) else retX ())"

text \<open>\<^verbatim>\<open>except BaseException\<close>, with the handler deciding what to raise again.\<close>

definition tryX :: "'a env_io \<Rightarrow> (env_exc \<Rightarrow> 'a env_io) \<Rightarrow> 'a env_io" where
  "tryX m h w = (case m w of (Done a, w') \<Rightarrow> (Done a, w') | (Raised e, w') \<Rightarrow> h e w' | (Killed, w') \<Rightarrow> (Killed, w'))"

text \<open>\<^verbatim>\<open>try: m finally: fin\<close>\<close>

definition finallyX :: "'a env_io \<Rightarrow> unit env_io \<Rightarrow> 'a env_io" where
  "finallyX m fin w =
     (case m w of
        (Done a, w') \<Rightarrow> bindX fin (\<lambda>_. retX a) w'
      | (Raised e, w') \<Rightarrow> bindX fin (\<lambda>_. raiseX e) w'
      | (Killed, w') \<Rightarrow> (Killed, w'))"

fun forX :: "('a \<Rightarrow> unit env_io) \<Rightarrow> 'a list \<Rightarrow> unit env_io" where
  "forX f [] = retX ()"
| "forX f (x # xs) = bindX (f x) (\<lambda>_. forX f xs)"

fun is_os_error :: "env_exc \<Rightarrow> bool" where
  "is_os_error (OSErr _) = True"
| "is_os_error (FileNotFoundErr _) = True"
| "is_os_error _ = False"

text \<open>\<^verbatim>\<open>except OSError as exc: raise ReconcileError(msg) from exc\<close>\<close>

definition os_errorX :: "string \<Rightarrow> 'a env_io \<Rightarrow> 'a env_io" where
  "os_errorX msg m = tryX m (\<lambda>e. raiseX (if is_os_error e then ReconcileError msg else e))"

text \<open>\<^verbatim>\<open>except FileNotFoundError: pass\<close>\<close>

definition ignore_missingX :: "unit env_io \<Rightarrow> unit env_io" where
  "ignore_missingX m = tryX m (\<lambda>e. case e of FileNotFoundErr _ \<Rightarrow> retX () | _ \<Rightarrow> raiseX e)"

section \<open>System calls\<close>

text \<open>
  One system call: other processes first; then it fails or the process dies, leaving \<open>spoil\<close> of the file system,
  or it acts.
\<close>

definition sysX :: "env_sys \<Rightarrow> (nat \<Rightarrow> env_fs \<Rightarrow> env_fs) \<Rightarrow> (nat \<Rightarrow> env_fs \<Rightarrow> (env_exc + 'a) \<times> env_fs) \<Rightarrow> 'a env_io" where
  "sysX env spoil act w =
     (let t = ew_time w; f = es_others env (ew_locked w) t (ew_fs w); w1 = w\<lparr>ew_time := Suc t\<rparr> in
      case es_fault env t of
        Dies \<Rightarrow> (Killed, w1\<lparr>ew_fs := spoil t f\<rparr>)
      | Fails e \<Rightarrow> (Raised e, w1\<lparr>ew_fs := spoil t f\<rparr>)
      | NoFault \<Rightarrow>
          (case act t f of
             (Inl e, f') \<Rightarrow> (Raised e, w1\<lparr>ew_fs := f'\<rparr>)
           | (Inr a, f') \<Rightarrow> (Done a, w1\<lparr>ew_fs := f'\<rparr>)))"

definition sys_read :: "env_sys \<Rightarrow> (nat \<Rightarrow> env_fs \<Rightarrow> env_exc + 'a) \<Rightarrow> 'a env_io" where
  "sys_read env look = sysX env (\<lambda>t f. f) (\<lambda>t f. (look t f, f))"

definition inode_at :: "nat \<times> string \<Rightarrow> env_fs \<Rightarrow> (nat \<times> inode) option" where
  "inode_at k f = (case map_of (ef_entries f) k of None \<Rightarrow> None | Some i \<Rightarrow> map_option (Pair i) (map_of (ef_inodes f) i))"

definition imode :: "int \<Rightarrow> int" where
  "imode m = m mod 4096"

definition mode_kind :: "int \<Rightarrow> int" where
  "mode_kind m = (m div 4096) mod 16"

definition is_regular :: "plan_stat \<Rightarrow> bool" where
  "is_regular st \<longleftrightarrow> mode_kind (ps_mode st) = 8"

definition is_directory :: "plan_stat \<Rightarrow> bool" where
  "is_directory st \<longleftrightarrow> mode_kind (ps_mode st) = 4"

definition is_link :: "plan_stat \<Rightarrow> bool" where
  "is_link st \<longleftrightarrow> mode_kind (ps_mode st) = 10"

text \<open>\<^verbatim>\<open>os.open\<close> with \<^verbatim>\<open>O_DIRECTORY | O_NOFOLLOW\<close>, and with \<^verbatim>\<open>O_NOFOLLOW\<close> alone, for reading.\<close>

definition os_open_root :: "env_sys \<Rightarrow> nat env_io" where
  "os_open_root env = sys_read env (\<lambda>t f. if map_of (ef_inodes f) 0 = None then Inl (OSErr ''No root directory'') else Inr 0)"

definition os_open_dir_at :: "env_sys \<Rightarrow> nat \<Rightarrow> string \<Rightarrow> nat env_io" where
  "os_open_dir_at env dir name = sys_read env (\<lambda>t f.
     case inode_at (dir, name) f of
       None \<Rightarrow> Inl (FileNotFoundErr name)
     | Some (i, nd) \<Rightarrow> if is_directory (in_stat nd) then Inr i else Inl (OSErr ''Not a directory''))"

definition os_open_at :: "env_sys \<Rightarrow> nat \<Rightarrow> string \<Rightarrow> nat env_io" where
  "os_open_at env dir name = sys_read env (\<lambda>t f.
     case inode_at (dir, name) f of
       None \<Rightarrow> Inl (FileNotFoundErr name)
     | Some (i, nd) \<Rightarrow> if is_link (in_stat nd) then Inl (OSErr ''Too many levels of symbolic links'') else Inr i)"

definition os_fstat :: "env_sys \<Rightarrow> nat \<Rightarrow> plan_stat env_io" where
  "os_fstat env fd = sys_read env (\<lambda>t f. case map_of (ef_inodes f) fd of None \<Rightarrow> Inl (OSErr ''Stale file handle'') | Some nd \<Rightarrow> Inr (in_stat nd))"

definition os_read :: "env_sys \<Rightarrow> nat \<Rightarrow> string env_io" where
  "os_read env fd = sys_read env (\<lambda>t f. case map_of (ef_inodes f) fd of None \<Rightarrow> Inl (OSErr ''Stale file handle'') | Some nd \<Rightarrow> Inr (in_bytes nd))"

definition names_in :: "nat \<Rightarrow> env_fs \<Rightarrow> string list" where
  "names_in dir f = map snd (filter (\<lambda>k. fst k = dir) (map fst (ef_entries f)))"

definition dir_listdir :: "env_sys \<Rightarrow> nat \<Rightarrow> string list env_io" where
  "dir_listdir env dir = sys_read env (\<lambda>t f. Inr (names_in dir f))"

definition os_fsync :: "env_sys \<Rightarrow> unit env_io" where
  "os_fsync env = sys_read env (\<lambda>t f. Inr ())"

subsection \<open>Writing\<close>

text \<open>An inode number that neither an inode nor a directory entry uses.\<close>

definition fresh_inode :: "env_fs \<Rightarrow> nat" where
  "fresh_inode f = Suc (foldr max (map fst (ef_inodes f) @ map snd (ef_entries f)) 0)"

definition parent_dev :: "nat \<Rightarrow> env_fs \<Rightarrow> int" where
  "parent_dev dir f = (case map_of (ef_inodes f) dir of None \<Rightarrow> 0 | Some nd \<Rightarrow> ps_dev (in_stat nd))"

text \<open>A new empty regular file of mode 0600, less the umask.\<close>

definition created_file :: "env_sys \<Rightarrow> nat \<Rightarrow> nat \<Rightarrow> env_fs \<Rightarrow> inode" where
  "created_file env t dir f =
     \<lparr>in_stat = \<lparr>ps_dev = parent_dev dir f, ps_ino = es_ino env t, ps_uid = es_euid env, ps_gid = es_egid env,
                ps_mode = 8 * 4096 + (384 - (and 384 (es_umask env)))\<rparr>, in_bytes = []\<rparr>"

definition add_file :: "env_sys \<Rightarrow> nat \<Rightarrow> nat \<times> string \<Rightarrow> env_fs \<Rightarrow> env_fs" where
  "add_file env t k f =
     \<lparr>ef_entries = dict_set k (fresh_inode f) (ef_entries f),
      ef_inodes = dict_set (fresh_inode f) (created_file env t (fst k) f) (ef_inodes f)\<rparr>"

text \<open>\<^verbatim>\<open>O_WRONLY | O_CREAT | O_EXCL | O_NOFOLLOW\<close>\<close>

definition os_create_at :: "env_sys \<Rightarrow> nat \<Rightarrow> string \<Rightarrow> nat env_io" where
  "os_create_at env dir name = sysX env (\<lambda>t f. f) (\<lambda>t f.
     if map_of (ef_entries f) (dir, name) \<noteq> None then (Inl (OSErr ''File exists''), f)
     else (Inr (fresh_inode f), add_file env t (dir, name) f))"

text \<open>\<^verbatim>\<open>O_RDWR | O_CREAT | O_NOFOLLOW\<close>\<close>

definition os_open_or_create_at :: "env_sys \<Rightarrow> nat \<Rightarrow> string \<Rightarrow> nat env_io" where
  "os_open_or_create_at env dir name = sysX env (\<lambda>t f. f) (\<lambda>t f.
     if map_of (ef_entries f) (dir, name) = None then (Inr (fresh_inode f), add_file env t (dir, name) f)
     else
       (case inode_at (dir, name) f of
          None \<Rightarrow> (Inl (FileNotFoundErr name), f)
        | Some (i, nd) \<Rightarrow>
            if is_link (in_stat nd) then (Inl (OSErr ''Too many levels of symbolic links''), f)
            else if is_directory (in_stat nd) then (Inl (OSErr ''Is a directory''), f)
            else (Inr i, f)))"

definition map_inode :: "nat \<Rightarrow> (inode \<Rightarrow> inode) \<Rightarrow> env_fs \<Rightarrow> env_fs" where
  "map_inode fd g f = (case map_of (ef_inodes f) fd of None \<Rightarrow> f | Some nd \<Rightarrow> f\<lparr>ef_inodes := dict_set fd (g nd) (ef_inodes f)\<rparr>)"

text \<open>\<^verbatim>\<open>write\<close> with \<^verbatim>\<open>flush\<close>, to an empty file: a failure leaves a part of the content.\<close>

definition os_write :: "env_sys \<Rightarrow> nat \<Rightarrow> string \<Rightarrow> unit env_io" where
  "os_write env fd content = sysX env
     (\<lambda>t. map_inode fd (\<lambda>nd. nd\<lparr>in_bytes := take (es_written env t) content\<rparr>))
     (\<lambda>t f. (Inr (), map_inode fd (\<lambda>nd. nd\<lparr>in_bytes := content\<rparr>) f))"

definition os_fchown :: "env_sys \<Rightarrow> nat \<Rightarrow> int \<Rightarrow> int \<Rightarrow> unit env_io" where
  "os_fchown env fd uid gid = sysX env (\<lambda>t f. f)
     (\<lambda>t f. (Inr (), map_inode fd (\<lambda>nd. nd\<lparr>in_stat := (in_stat nd)\<lparr>ps_uid := uid, ps_gid := gid\<rparr>\<rparr>) f))"

definition os_fchmod :: "env_sys \<Rightarrow> nat \<Rightarrow> int \<Rightarrow> unit env_io" where
  "os_fchmod env fd m = sysX env (\<lambda>t f. f)
     (\<lambda>t f. (Inr (), map_inode fd (\<lambda>nd. nd\<lparr>in_stat := (in_stat nd)\<lparr>ps_mode := mode_kind (ps_mode (in_stat nd)) * 4096 + m\<rparr>\<rparr>) f))"

definition os_unlink_at :: "env_sys \<Rightarrow> nat \<Rightarrow> string \<Rightarrow> unit env_io" where
  "os_unlink_at env dir name = sysX env (\<lambda>t f. f) (\<lambda>t f.
     if map_of (ef_entries f) (dir, name) = None then (Inl (FileNotFoundErr name), f)
     else (Inr (), f\<lparr>ef_entries := AList.delete (dir, name) (ef_entries f)\<rparr>))"

text \<open>\<^verbatim>\<open>os.replace\<close> within one directory; two names of one inode stay as they are.\<close>

definition os_replace_at :: "env_sys \<Rightarrow> nat \<Rightarrow> string \<Rightarrow> string \<Rightarrow> unit env_io" where
  "os_replace_at env dir source target = sysX env (\<lambda>t f. f) (\<lambda>t f.
     case map_of (ef_entries f) (dir, source) of
       None \<Rightarrow> (Inl (FileNotFoundErr source), f)
     | Some i \<Rightarrow>
         if map_of (ef_entries f) (dir, target) = Some i then (Inr (), f)
         else if (case inode_at (dir, target) f of None \<Rightarrow> False | Some (j, nd) \<Rightarrow> is_directory (in_stat nd)) then (Inl (OSErr ''Is a directory''), f)
         else (Inr (), f\<lparr>ef_entries := dict_set (dir, target) i (AList.delete (dir, source) (ef_entries f))\<rparr>))"

subsection \<open>The lock and the clock\<close>

text \<open>\<^verbatim>\<open>flock(LOCK_EX | LOCK_NB)\<close>: whether the lock was free; then this process has it.\<close>

definition os_flock :: "env_sys \<Rightarrow> bool env_io" where
  "os_flock env = bindX (sys_read env (\<lambda>t f. Inr (es_lock_free env t))) (\<lambda>free w. (Done free, w\<lparr>ew_locked := free\<rparr>))"

definition release_lock :: "unit env_io" where
  "release_lock w = (Done (), w\<lparr>ew_locked := False\<rparr>)"

text \<open>\<^verbatim>\<open>time.monotonic\<close> in microseconds, and \<^verbatim>\<open>time.sleep\<close>, which lasts at least as long as asked.\<close>

definition monotonic :: "env_sys \<Rightarrow> env_world \<Rightarrow> int \<times> env_world" where
  "monotonic env w = (let now = max (ew_now w) (es_clock env (ew_time w)) in (now, w\<lparr>ew_time := Suc (ew_time w), ew_now := now\<rparr>))"

definition sleep :: "env_sys \<Rightarrow> int \<Rightarrow> unit env_io" where
  "sleep env d = bindX (sys_read env (\<lambda>t f. Inr ())) (\<lambda>_ w. (Done (), w\<lparr>ew_now := ew_now w + d\<rparr>))"

text \<open>A value that other code supplies: a time stamp, a random name.\<close>

definition observe :: "env_sys \<Rightarrow> (nat \<Rightarrow> 'a) \<Rightarrow> 'a env_io" where
  "observe env g = sys_read env (\<lambda>t f. Inr (g t))"


section \<open>Reasoning about runs\<close>

text \<open>
  \<open>wp m Q w\<close>: running \<open>m\<close> from \<open>w\<close> ends with an outcome and a world that satisfy \<open>Q\<close>, whatever the outcome is.
  \<open>keeps I m\<close>: \<open>m\<close> preserves \<open>I\<close> on every outcome.
\<close>

definition wp :: "'a env_io \<Rightarrow> ('a outcome \<Rightarrow> env_world \<Rightarrow> bool) \<Rightarrow> env_world \<Rightarrow> bool" where
  "wp m Q w \<longleftrightarrow> Q (fst (m w)) (snd (m w))"

named_theorems wps \<open>the conditions under which a run satisfies a postcondition\<close>

lemma wp_ret [wps]: "wp (retX a) Q w = Q (Done a) w"
  by (simp add: wp_def retX_def)

lemma wp_raise [wps]: "wp (raiseX e) Q w = Q (Raised e) w"
  by (simp add: wp_def raiseX_def)

lemma wp_bind [wps]:
  "wp (bindX m f) Q w = wp m (\<lambda>r w'. case r of Done a \<Rightarrow> wp (f a) Q w' | Raised e \<Rightarrow> Q (Raised e) w' | Killed \<Rightarrow> Q Killed w') w"
  by (auto simp: wp_def bindX_def split: prod.split outcome.split)

lemma wp_try [wps]:
  "wp (tryX m h) Q w = wp m (\<lambda>r w'. case r of Done a \<Rightarrow> Q (Done a) w' | Raised e \<Rightarrow> wp (h e) Q w' | Killed \<Rightarrow> Q Killed w') w"
  by (auto simp: wp_def tryX_def split: prod.split outcome.split)

lemma wp_finally [wps]:
  "wp (finallyX m fin) Q w = wp m (\<lambda>r w'. case r of Done a \<Rightarrow> wp (bindX fin (\<lambda>_. retX a)) Q w'
     | Raised e \<Rightarrow> wp (bindX fin (\<lambda>_. raiseX e)) Q w' | Killed \<Rightarrow> Q Killed w') w"
  by (auto simp: wp_def finallyX_def split: prod.split outcome.split)

lemma wp_lift [wps]: "wp (liftX r) Q w = (case r of Inl msg \<Rightarrow> Q (Raised (ReconcileError msg)) w | Inr a \<Rightarrow> Q (Done a) w)"
  by (simp add: wps liftX_def split: sum.split)

lemma wp_when [wps]: "wp (whenX c msg) Q w = (if c then Q (Raised (ReconcileError msg)) w else Q (Done ()) w)"
  by (simp add: wps whenX_def)

lemma wp_mono: "wp m Q w \<Longrightarrow> (\<And>r w'. Q r w' \<Longrightarrow> Q' r w') \<Longrightarrow> wp m Q' w"
  by (simp add: wp_def)

lemma wp_bindI:
  "wp m M w \<Longrightarrow> (\<And>a w'. M (Done a) w' \<Longrightarrow> wp (f a) Q w') \<Longrightarrow> (\<And>e w'. M (Raised e) w' \<Longrightarrow> Q (Raised e) w') \<Longrightarrow>
     (\<And>w'. M Killed w' \<Longrightarrow> Q Killed w') \<Longrightarrow> wp (bindX m f) Q w"
  unfolding wp_bind by (erule wp_mono) (auto split: outcome.split)

text \<open>A handler that cleans up and raises again adds no way to return.\<close>

lemma wp_try_reraise:
  "wp m (\<lambda>r w'. \<forall>a. r = Done a \<longrightarrow> Q a w') w \<Longrightarrow> wp (tryX m (\<lambda>e. bindX (c e) (\<lambda>_. raiseX e))) (\<lambda>r w'. \<forall>a. r = Done a \<longrightarrow> Q a w') w"
  by (auto simp: wp_def tryX_def bindX_def raiseX_def split: prod.splits outcome.splits)

text \<open>Runs that return, read backwards.\<close>

named_theorems returns \<open>how a run that returned went\<close>

lemma bindX_returns [returns]: "bindX m f w = (Done b, w'') \<longleftrightarrow> (\<exists>a w'. m w = (Done a, w') \<and> f a w' = (Done b, w''))"
  by (auto simp: bindX_def split: prod.splits outcome.splits)

lemma simple_returns [returns]:
  "retX a w = (Done b, w') \<longleftrightarrow> b = a \<and> w' = w" "raiseX e w = (Done b, w') \<longleftrightarrow> False"
  "whenX c msg w = (Done u, w') \<longleftrightarrow> \<not> c \<and> w' = w" "liftX r w = (Done b, w') \<longleftrightarrow> r = Inr b \<and> w' = w"
  by (auto simp: retX_def raiseX_def whenX_def liftX_def split: sum.split)

lemma os_errorX_returns [returns]: "os_errorX msg m w = (Done a, w') \<longleftrightarrow> m w = (Done a, w')"
  by (auto simp: os_errorX_def tryX_def raiseX_def split: prod.splits outcome.splits)

lemma reraise_returns [returns]: "tryX m (\<lambda>e. bindX (c e) (\<lambda>_. raiseX e)) w = (Done a, w') \<longleftrightarrow> m w = (Done a, w')"
  by (auto simp: tryX_def bindX_def raiseX_def split: prod.splits outcome.splits)

lemma finallyX_returns: "finallyX m fin w = (Done a, w'') \<longleftrightarrow> (\<exists>w'. m w = (Done a, w') \<and> fin w' = (Done (), w''))"
  by (auto simp: finallyX_def bindX_def retX_def raiseX_def split: prod.splits outcome.splits)

lemma wp_returns: "wp m (\<lambda>r w'. \<forall>a. r = Done a \<longrightarrow> Q a w') w \<longleftrightarrow> (\<forall>a w'. m w = (Done a, w') \<longrightarrow> Q a w')"
  by (auto simp: wp_def) (metis prod.collapse)

lemma wpD: "wp m Q w \<Longrightarrow> m w = (r, w') \<Longrightarrow> Q r w'"
  by (simp add: wp_def)

lemma wp_conj: "wp m Q w \<Longrightarrow> wp m Q' w \<Longrightarrow> wp m (\<lambda>r w'. Q r w' \<and> Q' r w') w"
  by (simp add: wp_def)

definition keeps :: "(env_world \<Rightarrow> bool) \<Rightarrow> 'a env_io \<Rightarrow> bool" where
  "keeps I m \<longleftrightarrow> (\<forall>w. I w \<longrightarrow> wp m (\<lambda>_. I) w)"

lemma keepsD: "keeps I m \<Longrightarrow> I w \<Longrightarrow> wp m (\<lambda>_. I) w"
  by (simp add: keeps_def)

named_theorems keeping \<open>what preserves an invariant\<close>

lemma keeps_ret [keeping]: "keeps I (retX a)"
  by (simp add: keeps_def wps)

lemma keeps_raise [keeping]: "keeps I (raiseX e)"
  by (simp add: keeps_def wps)

lemma keeps_bind [keeping]: "keeps I m \<Longrightarrow> (\<And>a. keeps I (f a)) \<Longrightarrow> keeps I (bindX m f)"
  unfolding keeps_def wp_bind by (intro allI impI, rule wp_mono, blast) (simp split: outcome.split)

lemma keeps_try [keeping]: "keeps I m \<Longrightarrow> (\<And>e. keeps I (h e)) \<Longrightarrow> keeps I (tryX m h)"
  unfolding keeps_def wp_try by (intro allI impI, rule wp_mono, blast) (simp split: outcome.split)

lemma keeps_lift [keeping]: "keeps I (liftX r)"
  by (simp add: keeps_def wps split: sum.split)

lemma keeps_when [keeping]: "keeps I (whenX c msg)"
  by (simp add: keeps_def wps)

lemma keeps_if [keeping]: "(c \<Longrightarrow> keeps I m) \<Longrightarrow> (\<not> c \<Longrightarrow> keeps I m') \<Longrightarrow> keeps I (if c then m else m')"
  by simp

lemma keeps_option [keeping]: "(r = None \<Longrightarrow> keeps I m) \<Longrightarrow> (\<And>a. r = Some a \<Longrightarrow> keeps I (f a)) \<Longrightarrow> keeps I (case r of None \<Rightarrow> m | Some a \<Rightarrow> f a)"
  by (cases r) simp_all

lemma keeps_prod [keeping]: "(\<And>a b. p = (a, b) \<Longrightarrow> keeps I (f a b)) \<Longrightarrow> keeps I (case p of (a, b) \<Rightarrow> f a b)"
  by (cases p) simp

lemma keeps_let [keeping]: "keeps I (f a) \<Longrightarrow> keeps I (let x = a in f x)"
  by simp

lemma keeps_os_error [keeping]: "keeps I m \<Longrightarrow> keeps I (os_errorX msg m)"
  unfolding os_errorX_def by (intro keeping)

lemma keeps_ignore_missing [keeping]: "keeps I m \<Longrightarrow> keeps I (ignore_missingX m)"
  unfolding ignore_missingX_def by (intro keeping) (auto split: env_exc.split intro: keeping)

lemma keeps_for [keeping]: "(\<And>x. x \<in> set xs \<Longrightarrow> keeps I (f x)) \<Longrightarrow> keeps I (forX f xs)"
  by (induction xs) (auto intro!: keeping)

text \<open>A system call: what the other processes, a failure and the call itself do.\<close>

lemma wp_sys:
  "wp (sysX env spoil act) Q w =
     (let t = ew_time w; f = es_others env (ew_locked w) t (ew_fs w); upd = (\<lambda>g. w\<lparr>ew_time := Suc t, ew_fs := g\<rparr>) in
      case es_fault env t of
        Dies \<Rightarrow> Q Killed (upd (spoil t f))
      | Fails e \<Rightarrow> Q (Raised e) (upd (spoil t f))
      | NoFault \<Rightarrow> Q (case fst (act t f) of Inl e \<Rightarrow> Raised e | Inr a \<Rightarrow> Done a) (upd (snd (act t f))))"
  by (simp add: wp_def sysX_def Let_def split: fault.split prod.split sum.split)

text \<open>Calls that only look keep whatever the other processes keep.\<close>

definition fs_stable :: "env_sys \<Rightarrow> (env_world \<Rightarrow> bool) \<Rightarrow> bool" where
  "fs_stable env I \<longleftrightarrow> (\<forall>w t. I w \<longrightarrow> I (w\<lparr>ew_time := t, ew_fs := es_others env (ew_locked w) (ew_time w) (ew_fs w)\<rparr>))"

lemma keeps_sys_read [keeping]: "fs_stable env I \<Longrightarrow> keeps I (sys_read env look)"
  by (auto simp: keeps_def fs_stable_def sys_read_def wp_sys Let_def split: fault.split)

lemma keeps_reads [keeping]:
  assumes "fs_stable env I"
  shows "keeps I (os_open_root env)" "keeps I (os_open_dir_at env dir name)" "keeps I (os_open_at env dir name)" "keeps I (os_fstat env fd)"
    "keeps I (os_read env fd)" "keeps I (dir_listdir env dir)" "keeps I (os_fsync env)" "keeps I (observe env g)"
  unfolding os_open_root_def os_open_dir_at_def os_open_at_def os_fstat_def os_read_def dir_listdir_def os_fsync_def observe_def
  by (rule keeps_sys_read [OF assms])+

section \<open>Names and contents\<close>

definition file_content :: "nat \<times> string \<Rightarrow> env_fs \<Rightarrow> string option" where
  "file_content k f = map_option (\<lambda>(i, nd). in_bytes nd) (inode_at k f)"

lemma fresh_inode_new:
  "map_of (ef_entries f) k \<noteq> Some (fresh_inode f)" "map_of (ef_inodes f) (fresh_inode f) = None"
proof -
  have le: "n \<le> foldr max ns 0" if "n \<in> set ns" for n :: nat and ns
    using that by (induction ns) auto
  show "map_of (ef_entries f) k \<noteq> Some (fresh_inode f)"
  proof
    assume "map_of (ef_entries f) k = Some (fresh_inode f)"
    then have "(k, fresh_inode f) \<in> set (ef_entries f)" by (rule map_of_SomeD)
    then have "fresh_inode f \<in> set (map fst (ef_inodes f) @ map snd (ef_entries f))" by force
    from le [OF this] show False by (simp add: fresh_inode_def)
  qed
  show "map_of (ef_inodes f) (fresh_inode f) = None"
  proof (rule ccontr)
    assume "map_of (ef_inodes f) (fresh_inode f) \<noteq> None"
    then obtain nd where "(fresh_inode f, nd) \<in> set (ef_inodes f)" by (auto dest: map_of_SomeD)
    then have "fresh_inode f \<in> set (map fst (ef_inodes f) @ map snd (ef_entries f))" by force
    from le [OF this] show False by (simp add: fresh_inode_def)
  qed
qed

lemma file_content_add_file: "file_content k (add_file env t k' f) = (if k = k' then Some [] else file_content k f)"
  using fresh_inode_new(1) [of f k]
  by (auto simp: file_content_def inode_at_def add_file_def update_conv' created_file_def option.map_comp comp_def split: option.split)

lemma file_content_delete: "file_content k (f\<lparr>ef_entries := AList.delete k' (ef_entries f)\<rparr>) = (if k = k' then None else file_content k f)"
  by (auto simp: file_content_def inode_at_def delete_conv' split: option.split)

lemma file_content_map_inode: "map_of (ef_entries f) k \<noteq> Some fd \<Longrightarrow> file_content k (map_inode fd g f) = file_content k f"
  by (auto simp: file_content_def inode_at_def map_inode_def update_conv' split: option.split)

lemma file_content_replace:
  assumes "map_of (ef_entries f) src = Some i" "src \<noteq> dst"
  shows "file_content k (f\<lparr>ef_entries := dict_set dst i (AList.delete src (ef_entries f))\<rparr>) =
    (if k = dst then file_content src f else if k = src then None else file_content k f)"
  using assms by (auto simp: file_content_def inode_at_def update_conv' delete_conv' split: option.split)

lemma entries_map_inode [simp]: "ef_entries (map_inode fd g f) = ef_entries f"
  by (simp add: map_inode_def split: option.split)

section \<open>What a run may touch\<close>

text \<open>
  A property of the file system that depends only on the content behind the names that are not the program's \<open>own\<close>.
  Creating, filling and removing its own files keeps such a property, as long as the file that is written has no other
  name.
\<close>

definition own_inode :: "(nat \<times> string \<Rightarrow> bool) \<Rightarrow> nat \<Rightarrow> env_fs \<Rightarrow> bool" where
  "own_inode own fd f \<longleftrightarrow> (\<forall>k. map_of (ef_entries f) k = Some fd \<longrightarrow> own k)"

definition with_lock :: "(env_fs \<Rightarrow> bool) \<Rightarrow> (bool \<Rightarrow> bool) \<Rightarrow> env_world \<Rightarrow> bool" where
  "with_lock I R w \<longleftrightarrow> I (ew_fs w) \<and> R (ew_locked w)"

lemma own_inode_add_file: "own k \<Longrightarrow> own_inode own (fresh_inode f) (add_file env t k f)"
  using fresh_inode_new(1) [of f] by (auto simp: own_inode_def add_file_def update_conv')

lemma own_inode_delete: "own_inode own fd f \<Longrightarrow> own_inode own fd (f\<lparr>ef_entries := AList.delete k (ef_entries f)\<rparr>)"
  by (auto simp: own_inode_def delete_conv')

lemma own_inode_map_inode [simp]: "own_inode own fd (map_inode fd' g f) = own_inode own fd f"
  by (simp add: own_inode_def)

locale frame =
  fixes own :: "nat \<times> string \<Rightarrow> bool" and I :: "env_fs \<Rightarrow> bool"
  assumes stable: "I f \<Longrightarrow> (\<And>k. \<not> own k \<Longrightarrow> file_content k f' = file_content k f) \<Longrightarrow> I f'"
begin

lemma add_own: "I f \<Longrightarrow> own k \<Longrightarrow> I (add_file env t k f)"
  by (erule stable) (auto simp: file_content_add_file)

lemma delete_own: "I f \<Longrightarrow> own k \<Longrightarrow> I (f\<lparr>ef_entries := AList.delete k (ef_entries f)\<rparr>)"
  by (erule stable) (auto simp: file_content_delete)

lemma fill_own: "I f \<Longrightarrow> own_inode own fd f \<Longrightarrow> I (map_inode fd g f)"
  by (erule stable) (metis file_content_map_inode own_inode_def)

lemma keeps_create: "fs_stable env (with_lock I R) \<Longrightarrow> own (dir, name) \<Longrightarrow> keeps (with_lock I R) (os_create_at env dir name)"
  by (auto simp: keeps_def os_create_at_def wp_sys Let_def fs_stable_def with_lock_def intro: add_own split: fault.split)

lemma keeps_open_or_create:
  "fs_stable env (with_lock I R) \<Longrightarrow> own (dir, name) \<Longrightarrow> keeps (with_lock I R) (os_open_or_create_at env dir name)"
  by (auto simp: keeps_def os_open_or_create_at_def wp_sys Let_def fs_stable_def with_lock_def intro: add_own split: fault.split option.split)

lemma keeps_unlink: "fs_stable env (with_lock I R) \<Longrightarrow> own (dir, name) \<Longrightarrow> keeps (with_lock I R) (os_unlink_at env dir name)"
  by (auto simp: keeps_def os_unlink_at_def wp_sys Let_def fs_stable_def with_lock_def intro: delete_own split: fault.split)

end

text \<open>The instance the programs are judged by: a condition on each name and its content.\<close>

definition each_file :: "(nat \<times> string \<Rightarrow> bool) \<Rightarrow> (nat \<times> string \<Rightarrow> string option \<Rightarrow> bool) \<Rightarrow> env_fs \<Rightarrow> bool" where
  "each_file own P f \<longleftrightarrow> (\<forall>k. own k \<or> P k (file_content k f))"

interpretation files: frame own "each_file own P" for own P
  by unfold_locales (metis each_file_def)

text \<open>A file together with the privacy of its inode is such a property too, while it is being written.\<close>

lemma keeps_fill:
  assumes "frame own I" and "fs_stable env (with_lock (\<lambda>f. I f \<and> own_inode own fd f) R)"
  shows "keeps (with_lock (\<lambda>f. I f \<and> own_inode own fd f) R) (os_write env fd data)"
    "keeps (with_lock (\<lambda>f. I f \<and> own_inode own fd f) R) (os_fchown env fd uid gid)"
    "keeps (with_lock (\<lambda>f. I f \<and> own_inode own fd f) R) (os_fchmod env fd m)"
  using assms(2) frame.fill_own [OF assms(1)]
  by (auto simp: keeps_def os_write_def os_fchown_def os_fchmod_def wp_sys Let_def fs_stable_def with_lock_def split: fault.split)

text \<open>How the clock moves: sleeping adds the time slept, looking at it never turns it back.\<close>

lemma sleep_now: "sleep env d w = (Done a, w') \<Longrightarrow> ew_now w' = ew_now w + d"
  by (auto simp: sleep_def bindX_def sys_read_def sysX_def Let_def split: fault.splits)

lemma monotonic_now: "monotonic env w = (now, w') \<Longrightarrow> ew_now w' = now \<and> ew_now w \<le> now"
  by (auto simp: monotonic_def Let_def)

end
