(* ===== verification/Env_Apply.thy ===== *)
theory Env_Apply
  imports Env_World
begin

text \<open>
  \<^verbatim>\<open>scripts/ops/reconcile_public_login_smtp_env.py\<close>, the part with effects: opening trusted directories, reading, the
  lock, the verified backup, the atomic replacement and the command. The properties say what the command does to the
  file system whatever fails and whenever it is killed.
\<close>

section \<open>Opening and reading\<close>

record py_path =
  pp_absolute :: bool
  pp_parts :: path

definition py_path_str :: "py_path \<Rightarrow> string" where
  "py_path_str p = (if pp_absolute p then path_str (pp_parts p) else join ''/'' (pp_parts p))"

definition normalize_absolute_path :: "py_path \<Rightarrow> string \<Rightarrow> reconcile_error + path" where
  "normalize_absolute_path p label =
     bindE (raise_when (\<not> pp_absolute p) (label @ '' path must be absolute'')) (\<lambda>_.
     bindE (raise_when (list_ex (\<lambda>part. part = ''.'' \<or> part = ''..'') (pp_parts p)) (label @ '' path must be normalized'')) (\<lambda>_.
     Inr (pp_parts p)))"

definition validate_root_owned_stat :: "plan_stat \<Rightarrow> string \<Rightarrow> unit env_io" where
  "validate_root_owned_stat st label =
     bindX (whenX (ps_uid st \<noteq> 0) (label @ '' must be root-owned'')) (\<lambda>_.
     whenX (and (imode (ps_mode st)) 18 \<noteq> 0) (label @ '' must not be writable by group or others''))"

definition octal4 :: "int \<Rightarrow> string" where
  "octal4 m = (let s = octal (nat m) in replicate (4 - length s) CHR ''0'' @ s)"

definition trust_directory :: "env_sys \<Rightarrow> nat \<Rightarrow> bool \<Rightarrow> string \<Rightarrow> string \<Rightarrow> unit env_io" where
  "trust_directory env fd require_root not_directory label =
     bindX (os_fstat env fd) (\<lambda>st.
     bindX (whenX (\<not> is_directory st) not_directory) (\<lambda>_.
     if require_root then validate_root_owned_stat st label else retX ()))"

fun open_parts :: "env_sys \<Rightarrow> string \<Rightarrow> string \<Rightarrow> bool \<Rightarrow> path \<Rightarrow> nat \<Rightarrow> nat env_io" where
  "open_parts env label shown require_root [] fd = retX fd"
| "open_parts env label shown require_root (part # parts) fd =
     bindX (os_errorX (''unable to open '' @ label @ '' safely: '' @ shown) (os_open_dir_at env fd part)) (\<lambda>next_fd.
     bindX (trust_directory env next_fd require_root (label @ '' is not a directory: '' @ shown) label) (\<lambda>_.
     open_parts env label shown require_root parts next_fd))"

definition open_trusted_directory :: "env_sys \<Rightarrow> path \<Rightarrow> string \<Rightarrow> bool \<Rightarrow> int option \<Rightarrow> nat env_io" where
  "open_trusted_directory env parts label require_root exact_mode =
     bindX (os_open_root env) (\<lambda>root_fd.
     bindX (trust_directory env root_fd require_root ''filesystem root is not a directory'' ''filesystem root'') (\<lambda>_.
     bindX (open_parts env label (path_str parts) require_root parts root_fd) (\<lambda>fd.
     bindX (os_fstat env fd) (\<lambda>st.
     bindX (case exact_mode of None \<Rightarrow> retX () | Some m \<Rightarrow> whenX (imode (ps_mode st) \<noteq> m) (label @ '' must have mode '' @ octal4 m)) (\<lambda>_.
     retX fd)))))"

record opened_env =
  oe_raw :: string
  oe_text :: string
  oe_stat :: plan_stat

definition read_regular_at :: "env_sys \<Rightarrow> nat \<Rightarrow> string \<Rightarrow> string \<Rightarrow> bool \<Rightarrow> opened_env env_io" where
  "read_regular_at env parent_fd name label require_root =
     bindX (whenX (name = [] \<or> CHR ''/'' \<in> set name \<or> name = ''.'' \<or> name = ''..'') (''invalid '' @ label @ '' filename'')) (\<lambda>_.
     bindX (os_errorX (''unable to open '' @ label @ '' safely'') (os_open_at env parent_fd name)) (\<lambda>fd.
     bindX (os_fstat env fd) (\<lambda>st.
     bindX (whenX (\<not> is_regular st) (label @ '' is not a regular file'')) (\<lambda>_.
     bindX (if require_root then validate_root_owned_stat st label else retX ()) (\<lambda>_.
     bindX (os_read env fd) (\<lambda>raw.
     case utf8_decode raw of
       None \<Rightarrow> raiseX (ReconcileError (label @ '' is not valid UTF-8''))
     | Some content \<Rightarrow> retX \<lparr>oe_raw = raw, oe_text = content, oe_stat = st\<rparr>))))))"

definition same_file :: "plan_stat \<Rightarrow> plan_stat \<Rightarrow> bool" where
  "same_file left right \<longleftrightarrow> ps_dev left = ps_dev right \<and> ps_ino left = ps_ino right"

section \<open>Writing\<close>

definition fill_exclusive_at :: "env_sys \<Rightarrow> nat \<Rightarrow> string \<Rightarrow> string \<Rightarrow> int \<Rightarrow> int \<Rightarrow> nat \<Rightarrow> plan_stat env_io" where
  "fill_exclusive_at env dir_fd name content uid gid fd =
     tryX
       (bindX (os_write env fd content) (\<lambda>_.
        bindX (os_fchown env fd uid gid) (\<lambda>_.
        bindX (os_fchmod env fd 384) (\<lambda>_.
        bindX (os_fsync env) (\<lambda>_.
        os_fstat env fd)))))
       (\<lambda>e. bindX (ignore_missingX (bindX (os_unlink_at env dir_fd name) (\<lambda>_. os_fsync env))) (\<lambda>_. raiseX e))"

definition write_file_exclusive_at :: "env_sys \<Rightarrow> nat \<Rightarrow> string \<Rightarrow> string \<Rightarrow> int \<Rightarrow> int \<Rightarrow> plan_stat env_io" where
  "write_file_exclusive_at env dir_fd name content uid gid =
     bindX (os_create_at env dir_fd name) (fill_exclusive_at env dir_fd name content uid gid)"

definition orphan_safe :: "plan_stat \<Rightarrow> int \<Rightarrow> int \<Rightarrow> bool" where
  "orphan_safe st uid gid \<longleftrightarrow> is_regular st \<and> ps_uid st = uid \<and> ps_gid st = gid \<and> imode (ps_mode st) = 384"

definition cleanup_orphan :: "env_sys \<Rightarrow> nat \<Rightarrow> string \<Rightarrow> int \<Rightarrow> int \<Rightarrow> string \<Rightarrow> unit env_io" where
  "cleanup_orphan env dir_fd prefix uid gid name =
     (if \<not> startswith name prefix then retX ()
      else
        bindX (tryX (bindX (os_open_at env dir_fd name) (\<lambda>fd. retX (Some fd))) (\<lambda>e. if is_os_error e then retX None else raiseX e)) (\<lambda>opened.
        case opened of
          None \<Rightarrow> retX ()
        | Some fd \<Rightarrow>
            bindX (os_fstat env fd) (\<lambda>st. if orphan_safe st uid gid then os_unlink_at env dir_fd name else retX ())))"

definition cleanup_orphan_temps :: "env_sys \<Rightarrow> nat \<Rightarrow> string \<Rightarrow> int \<Rightarrow> int \<Rightarrow> unit env_io" where
  "cleanup_orphan_temps env dir_fd prefix uid gid =
     bindX (dir_listdir env dir_fd) (\<lambda>names.
     bindX (forX (cleanup_orphan env dir_fd prefix uid gid) names) (\<lambda>_. os_fsync env))"

section \<open>The lock\<close>

text \<open>Fifteen seconds, and one twentieth of a second, in microseconds.\<close>

definition LOCK_TIMEOUT :: int where
  "LOCK_TIMEOUT = 15000000"

definition LOCK_RETRY :: int where
  "LOCK_RETRY = 50000"

lemma flock_now: "os_flock env w = (r, w') \<Longrightarrow> ew_now w' = ew_now w"
  by (auto simp: os_flock_def bindX_def sys_read_def sysX_def Let_def split: fault.splits)

function acquire_loop :: "env_sys \<Rightarrow> int \<Rightarrow> unit env_io" where
  "acquire_loop env deadline w =
     (case os_flock env w of
        (Raised e, w1) \<Rightarrow> (Raised e, w1)
      | (Killed, w1) \<Rightarrow> (Killed, w1)
      | (Done free, w1) \<Rightarrow>
          if free then (Done (), w1)
          else
            (case monotonic env w1 of (now, w2) \<Rightarrow>
              if deadline - now \<le> 0 then (Raised (ReconcileError ''timed out waiting for reconciliation lock''), w2)
              else
                (case sleep env (min LOCK_RETRY (deadline - now)) w2 of
                   (Raised e, w3) \<Rightarrow> (Raised e, w3)
                 | (Killed, w3) \<Rightarrow> (Killed, w3)
                 | (Done _, w3) \<Rightarrow> acquire_loop env deadline w3)))"
  by pat_completeness auto
termination
  by (relation "measure (\<lambda>(env, deadline, w). nat (deadline - ew_now w))")
     (auto dest!: flock_now [OF sym] sleep_now [OF sym] monotonic_now [OF sym] simp: LOCK_RETRY_def)

declare acquire_loop.simps [simp del]

definition acquire_exclusive_lock :: "env_sys \<Rightarrow> unit env_io" where
  "acquire_exclusive_lock env w = (case monotonic env w of (now, w1) \<Rightarrow> acquire_loop env (now + LOCK_TIMEOUT) w1)"

section \<open>The reconciliation\<close>

record reconcile_args =
  ra_source :: py_path
  ra_destination :: py_path
  ra_backup_dir :: py_path
  ra_apply :: bool
  ra_expected :: "string option"
  ra_smtp_from :: "string option"
  ra_require_root :: bool

record applied_info =
  ai_backup :: string
  ai_mode :: string
  ai_owner_uid :: int
  ai_owner_gid :: int

record reconcile_result =
  rr_destination :: string
  rr_updated_keys :: "string list"
  rr_plan_sha256 :: string
  rr_status :: string
  rr_applied :: "applied_info option"

text \<open>The descriptors and the normalised paths a run works with.\<close>

record reconcile_ctx =
  cx_args :: reconcile_args
  cx_source :: path
  cx_destination :: path
  cx_backup :: path
  cx_source_dir :: nat
  cx_destination_dir :: nat
  cx_backup_dir :: nat

definition cx_name :: "reconcile_ctx \<Rightarrow> string" where
  "cx_name cx = last (cx_destination cx)"

definition read_source :: "env_sys \<Rightarrow> reconcile_args \<Rightarrow> nat \<Rightarrow> path \<Rightarrow> opened_env env_io" where
  "read_source env a dir source = read_regular_at env dir (last source) ''source'' (ra_require_root a)"

definition read_destination :: "env_sys \<Rightarrow> reconcile_args \<Rightarrow> nat \<Rightarrow> path \<Rightarrow> opened_env env_io" where
  "read_destination env a dir destination = read_regular_at env dir (last destination) ''destination'' (ra_require_root a)"

text \<open>What is planned for the two files as they were read.\<close>

record reconcile_plan =
  pn_inputs :: plan_inputs
  pn_sha256 :: string
  pn_changed :: "string list"

definition plan_content :: "reconcile_ctx \<Rightarrow> opened_env \<Rightarrow> opened_env \<Rightarrow> reconcile_error + string \<times> string list" where
  "plan_content cx src dst =
     bindE (parse_env ''source'' (oe_text src)) (\<lambda>s.
     bindE (validate_source (en_values s) (ra_smtp_from (cx_args cx))) (\<lambda>selected.
     bindE (parse_env ''destination'' (oe_text dst)) (\<lambda>d.
     bindE (build_reconciled_content (oe_text dst) selected) (\<lambda>content.
     Inr (content, changed_keys d selected)))))"

definition make_plan :: "env_sys \<Rightarrow> reconcile_ctx \<Rightarrow> opened_env \<Rightarrow> opened_env \<Rightarrow> plan_stat \<Rightarrow> string \<times> string list \<Rightarrow> reconcile_plan" where
  "make_plan env cx src dst backup_stat planned =
     (let p = \<lparr>pl_source_path = path_str (cx_source cx), pl_destination_path = path_str (cx_destination cx), pl_backup_dir = path_str (cx_backup cx),
               pl_source_text = oe_text src, pl_destination_text = oe_text dst, pl_planned_content = fst planned,
               pl_source_stat = oe_stat src, pl_destination_stat = oe_stat dst, pl_backup_stat = backup_stat\<rparr>
      in \<lparr>pn_inputs = p, pn_sha256 = plan_sha256 (es_sha256 env) p, pn_changed = snd planned\<rparr>)"

definition pn_content :: "reconcile_plan \<Rightarrow> string" where
  "pn_content n = pl_planned_content (pn_inputs n)"

definition result_of :: "reconcile_ctx \<Rightarrow> reconcile_plan \<Rightarrow> string \<Rightarrow> applied_info option \<Rightarrow> reconcile_result" where
  "result_of cx n status applied =
     \<lparr>rr_destination = path_str (cx_destination cx), rr_updated_keys = pn_changed n, rr_plan_sha256 = pn_sha256 n,
      rr_status = status, rr_applied = applied\<rparr>"

subsection \<open>Under the lock\<close>

definition open_lock :: "env_sys \<Rightarrow> reconcile_ctx \<Rightarrow> unit env_io" where
  "open_lock env cx =
     bindX (os_open_or_create_at env (cx_destination_dir cx) (''.'' @ cx_name cx @ ''.reconcile.lock'')) (\<lambda>lock_fd.
     bindX (os_fstat env lock_fd) (\<lambda>st.
     bindX (whenX (\<not> is_regular st) ''reconciliation lock is not a regular file'') (\<lambda>_.
     bindX (if ra_require_root (cx_args cx) then validate_root_owned_stat st ''reconciliation lock'' else retX ()) (\<lambda>_.
     acquire_exclusive_lock env))))"

text \<open>The files are read again and must be the ones the plan was made for.\<close>

definition read_again :: "env_sys \<Rightarrow> reconcile_ctx \<Rightarrow> opened_env \<Rightarrow> opened_env \<Rightarrow> (opened_env \<times> opened_env) env_io" where
  "read_again env cx src dst =
     bindX (read_source env (cx_args cx) (cx_source_dir cx) (cx_source cx)) (\<lambda>src'.
     bindX (read_destination env (cx_args cx) (cx_destination_dir cx) (cx_destination cx)) (\<lambda>dst'.
     bindX (whenX (\<not> same_file (oe_stat src) (oe_stat src')) ''source file identity changed during reconciliation'') (\<lambda>_.
     bindX (whenX (\<not> same_file (oe_stat dst) (oe_stat dst')) ''destination file identity changed during reconciliation'') (\<lambda>_.
     bindX (whenX (same_file (oe_stat src') (oe_stat dst')) ''source and destination must be different files'') (\<lambda>_.
     bindX (whenX (oe_text src \<noteq> oe_text src') ''source content changed during reconciliation'') (\<lambda>_.
     bindX (whenX (oe_text dst \<noteq> oe_text dst') ''destination content changed during reconciliation'') (\<lambda>_.
     retX (src', dst'))))))))"

definition locked_plan :: "env_sys \<Rightarrow> reconcile_ctx \<Rightarrow> reconcile_plan \<Rightarrow> string \<Rightarrow> opened_env \<Rightarrow> opened_env \<Rightarrow> reconcile_plan env_io" where
  "locked_plan env cx n expected src dst =
     bindX (liftX (plan_content cx src dst)) (\<lambda>planned.
     bindX (os_fstat env (cx_backup_dir cx)) (\<lambda>backup_stat.
     let n' = make_plan env cx src dst backup_stat planned in
     bindX (whenX (pn_sha256 n' \<noteq> pn_sha256 n) ''reconciliation plan changed after lock'') (\<lambda>_.
     bindX (whenX (expected \<noteq> pn_sha256 n') ''expected plan SHA-256 changed after lock'') (\<lambda>_.
     retX n'))))"

definition backup_mismatch :: "opened_env \<Rightarrow> opened_env \<Rightarrow> bool" where
  "backup_mismatch saved dst \<longleftrightarrow>
     oe_raw saved \<noteq> oe_raw dst \<or> ps_uid (oe_stat saved) \<noteq> ps_uid (oe_stat dst) \<or> ps_gid (oe_stat saved) \<noteq> ps_gid (oe_stat dst) \<or>
     imode (ps_mode (oe_stat saved)) \<noteq> 384"

definition verify_backup :: "env_sys \<Rightarrow> reconcile_ctx \<Rightarrow> string \<Rightarrow> opened_env \<Rightarrow> unit env_io" where
  "verify_backup env cx name dst =
     tryX
       (bindX (read_regular_at env (cx_backup_dir cx) name ''backup'' (ra_require_root (cx_args cx))) (\<lambda>saved.
        whenX (backup_mismatch saved dst) ''backup verification failed before destination replace''))
       (\<lambda>e. bindX (ignore_missingX (bindX (os_unlink_at env (cx_backup_dir cx) name) (\<lambda>_. os_fsync env))) (\<lambda>_. raiseX e))"

definition write_backup :: "env_sys \<Rightarrow> reconcile_ctx \<Rightarrow> opened_env \<Rightarrow> string env_io" where
  "write_backup env cx dst =
     bindX (observe env (es_utc env)) (\<lambda>timestamp.
     let name = cx_name cx @ ''.bak-'' @ timestamp @ ''-'' @ str_of_nat (es_pid env) in
     bindX (write_file_exclusive_at env (cx_backup_dir cx) name (oe_raw dst) (ps_uid (oe_stat dst)) (ps_gid (oe_stat dst))) (\<lambda>_.
     bindX (os_fsync env) (\<lambda>_.
     bindX (verify_backup env cx name dst) (\<lambda>_.
     retX name))))"

definition temp_prefix :: "string \<Rightarrow> string" where
  "temp_prefix name = ''.'' @ name @ ''.reconcile-''"

definition replace_destination :: "env_sys \<Rightarrow> reconcile_ctx \<Rightarrow> opened_env \<Rightarrow> string \<Rightarrow> unit env_io" where
  "replace_destination env cx dst content =
     bindX (cleanup_orphan_temps env (cx_destination_dir cx) (temp_prefix (cx_name cx)) (ps_uid (oe_stat dst)) (ps_gid (oe_stat dst))) (\<lambda>_.
     bindX (observe env (es_token env)) (\<lambda>token.
     let temp_name = temp_prefix (cx_name cx) @ token in
     bindX (write_file_exclusive_at env (cx_destination_dir cx) temp_name (utf8_encode content) (ps_uid (oe_stat dst)) (ps_gid (oe_stat dst))) (\<lambda>_.
     bindX (tryX (os_replace_at env (cx_destination_dir cx) temp_name (cx_name cx))
              (\<lambda>e. bindX (os_unlink_at env (cx_destination_dir cx) temp_name) (\<lambda>_. raiseX e))) (\<lambda>_.
     os_fsync env))))"

definition apply_locked :: "env_sys \<Rightarrow> reconcile_ctx \<Rightarrow> reconcile_plan \<Rightarrow> string \<Rightarrow> opened_env \<Rightarrow> opened_env \<Rightarrow> reconcile_result env_io" where
  "apply_locked env cx n expected src dst =
     bindX (read_again env cx src dst) (\<lambda>(src', dst').
     bindX (locked_plan env cx n expected src' dst') (\<lambda>n'.
     bindX (write_backup env cx dst') (\<lambda>backup_name.
     bindX (replace_destination env cx dst' (pn_content n')) (\<lambda>_.
     bindX (read_destination env (cx_args cx) (cx_destination_dir cx) (cx_destination cx)) (\<lambda>final.
     bindX (whenX (oe_text final \<noteq> pn_content n') ''destination verification failed after atomic replace'') (\<lambda>_.
     retX (result_of cx n' ''reconciled'' (Some
       \<lparr>ai_backup = path_str (cx_backup cx @ [backup_name]), ai_mode = octal4 (imode (ps_mode (oe_stat final))),
        ai_owner_uid = ps_uid (oe_stat final), ai_owner_gid = ps_gid (oe_stat final)\<rparr>))))))))"

subsection \<open>The whole run\<close>

definition open_inputs :: "env_sys \<Rightarrow> reconcile_args \<Rightarrow> path \<Rightarrow> path \<Rightarrow> path \<Rightarrow> (reconcile_ctx \<times> opened_env \<times> opened_env \<times> plan_stat) env_io" where
  "open_inputs env a source destination backup =
     bindX (open_trusted_directory env (butlast source) ''source parent directory'' (ra_require_root a) None) (\<lambda>source_dir.
     bindX (open_trusted_directory env (butlast destination) ''destination parent directory'' (ra_require_root a) None) (\<lambda>destination_dir.
     bindX (read_source env a source_dir source) (\<lambda>src.
     bindX (read_destination env a destination_dir destination) (\<lambda>dst.
     bindX (whenX (same_file (oe_stat src) (oe_stat dst)) ''source and destination must be different files'') (\<lambda>_.
     bindX (open_trusted_directory env backup ''backup directory'' (ra_require_root a) (Some 448)) (\<lambda>backup_dir.
     bindX (os_fstat env backup_dir) (\<lambda>backup_stat.
     retX (\<lparr>cx_args = a, cx_source = source, cx_destination = destination, cx_backup = backup, cx_source_dir = source_dir,
            cx_destination_dir = destination_dir, cx_backup_dir = backup_dir\<rparr>, src, dst, backup_stat))))))))"

definition check_expected :: "reconcile_args \<Rightarrow> reconcile_plan \<Rightarrow> reconcile_error + string" where
  "check_expected a n =
     (if ra_apply a then
        bindE (validate_expected_plan (ra_expected a)) (\<lambda>expected.
        bindE (raise_when (expected \<noteq> pn_sha256 n) ''expected plan SHA-256 does not match current inputs'') (\<lambda>_. Inr expected))
      else Inr [])"

definition reconcile_opened :: "env_sys \<Rightarrow> reconcile_args \<Rightarrow> path \<Rightarrow> path \<Rightarrow> path \<Rightarrow> reconcile_result env_io" where
  "reconcile_opened env a source destination backup =
     bindX (open_inputs env a source destination backup) (\<lambda>(cx, src, dst, backup_stat).
     bindX (liftX (plan_content cx src dst)) (\<lambda>planned.
     let n = make_plan env cx src dst backup_stat planned in
     bindX (liftX (check_expected a n)) (\<lambda>expected.
     if pn_content n = oe_text dst then retX (result_of cx n ''already_reconciled'' None)
     else if \<not> ra_apply a then retX (result_of cx n ''planned'' None)
     else bindX (open_lock env cx) (\<lambda>_. apply_locked env cx n expected src dst))))"

definition reconcile :: "env_sys \<Rightarrow> reconcile_args \<Rightarrow> reconcile_result env_io" where
  "reconcile env a =
     bindX (liftX (normalize_absolute_path (ra_source a) ''source'')) (\<lambda>source.
     bindX (liftX (normalize_absolute_path (ra_destination a) ''destination'')) (\<lambda>destination.
     bindX (liftX (normalize_absolute_path (ra_backup_dir a) ''backup directory'')) (\<lambda>backup.
     bindX (whenX (source = [] \<or> destination = []) ''source and destination must name regular files'') (\<lambda>_.
     bindX (whenX (ra_require_root a \<and> es_euid env \<noteq> 0) ''dry-run and apply require root'') (\<lambda>_.
     finallyX (reconcile_opened env a source destination backup) release_lock)))))"

section \<open>The command\<close>

definition result_json :: "reconcile_result \<Rightarrow> jobject" where
  "result_json r =
     [(''destination'', JStr (rr_destination r)), (''updated_keys'', JList (map JStr (rr_updated_keys r))), (''values_redacted'', JBool True),
      (''plan_sha256'', JStr (rr_plan_sha256 r)), (''status'', JStr (rr_status r)), (''applied'', JBool (rr_applied r \<noteq> None))] @
     (case rr_applied r of
        None \<Rightarrow> []
      | Some i \<Rightarrow> [(''backup'', JStr (ai_backup i)), (''mode'', JStr (ai_mode i)), (''owner_uid'', JInt (ai_owner_uid i)), (''owner_gid'', JInt (ai_owner_gid i))])"

definition result_lines :: "reconcile_result \<Rightarrow> string list" where
  "result_lines r =
     [''Status: '' @ rr_status r, ''Destination: '' @ rr_destination r, ''Updated keys: '' @ join '', '' (rr_updated_keys r),
      ''Plan SHA-256: '' @ rr_plan_sha256 r] @
     (case rr_applied r of None \<Rightarrow> [] | Some i \<Rightarrow> [''Backup: '' @ ai_backup i])"

text \<open>Exit code, what is printed (the result as a JSON object, or lines) and the error line; any other exception leaves the command.\<close>

definition reconcile_main :: "env_sys \<Rightarrow> reconcile_args \<Rightarrow> bool \<Rightarrow> (int \<times> (jobject + string list) \<times> string option) env_io" where
  "reconcile_main env a json_output w =
     (let failed = (\<lambda>msg. (2, Inr [], Some (''ERROR: '' @ msg))) in
      case reconcile env a w of
        (Done r, w') \<Rightarrow> (Done (0, if json_output then Inl (result_json r) else Inr (result_lines r), None), w')
      | (Raised (ReconcileError msg), w') \<Rightarrow> (Done (failed msg), w')
      | (Raised (OSErr msg), w') \<Rightarrow> (Done (failed msg), w')
      | (Raised (FileNotFoundErr msg), w') \<Rightarrow> (Done (failed msg), w')
      | (Raised e, w') \<Rightarrow> (Raised e, w')
      | (Killed, w') \<Rightarrow> (Killed, w'))"

end
