(* ===== verification/Env_Atomic.thy ===== *)
theory Env_Atomic
  imports Env_Apply
begin

text \<open>
  What a reconciliation does to the file system, for every way the system calls can fail, the process can be killed and
  other processes can interfere until the lock is held.
\<close>

section \<open>Steps under the lock\<close>

text \<open>Other processes respect the lock.\<close>

definition quiet :: "env_sys \<Rightarrow> bool" where
  "quiet env \<longleftrightarrow> (\<forall>t f. es_others env True t f = f)"

abbreviation locked :: "(env_fs \<Rightarrow> bool) \<Rightarrow> env_world \<Rightarrow> bool" where
  "locked I \<equiv> with_lock I (\<lambda>b. b)"

lemma quiet_stable [intro]: "quiet env \<Longrightarrow> fs_stable env (locked I)"
  by (simp add: quiet_def fs_stable_def with_lock_def)

context frame
begin

lemma wp_create:
  assumes "quiet env" "own (dir, name)" "locked I w"
  shows "wp (os_create_at env dir name) (\<lambda>r w'. locked I w' \<and>
    (\<forall>fd. r = Done fd \<longrightarrow> locked (\<lambda>f. I f \<and> own_inode own fd f \<and> map_of (ef_entries f) (dir, name) = Some fd \<and> map_of (ef_inodes f) fd \<noteq> None) w')) w"
  using assms add_own own_inode_add_file [of own "(dir, name)"]
  by (auto simp: os_create_at_def wp_sys Let_def with_lock_def quiet_def split: fault.split)
     (simp_all add: add_file_def update_conv')

lemma keeps_unlink_filled:
  "quiet env \<Longrightarrow> own (dir, name) \<Longrightarrow> keeps (locked (\<lambda>f. I f \<and> own_inode own fd f)) (os_unlink_at env dir name)"
  by (auto simp: keeps_def os_unlink_at_def wp_sys Let_def with_lock_def quiet_def intro: delete_own own_inode_delete split: fault.split)

lemma keeps_fill_exclusive:
  "quiet env \<Longrightarrow> own (dir, name) \<Longrightarrow> keeps (locked (\<lambda>f. I f \<and> own_inode own fd f)) (fill_exclusive_at env dir name data uid gid fd)"
  unfolding fill_exclusive_at_def by (intro keeping keeps_fill keeps_unlink_filled frame_axioms quiet_stable)

lemma keeps_write_exclusive:
  assumes "quiet env" "own (dir, name)"
  shows "keeps (locked I) (write_file_exclusive_at env dir name data uid gid)"
  unfolding keeps_def write_file_exclusive_at_def
proof (intro allI impI)
  fix w assume "locked I w"
  note create = wp_create [OF assms this]
  show "wp (bindX (os_create_at env dir name) (fill_exclusive_at env dir name data uid gid)) (\<lambda>_. locked I) w"
    by (rule wp_bindI [OF create])
       (auto intro: wp_mono [OF keepsD [OF keeps_fill_exclusive [OF assms]]] simp: with_lock_def)
qed

text \<open>When it returns, the file has exactly the content.\<close>

lemma wp_write_exclusive:
  assumes "quiet env" "own (dir, name)" "locked I w"
  shows "wp (write_file_exclusive_at env dir name data uid gid)
    (\<lambda>r w'. locked I w' \<and> (\<forall>st. r = Done st \<longrightarrow> file_content (dir, name) (ew_fs w') = Some data)) w"
proof -
  let ?G = "\<lambda>fd f. map_of (ef_entries f) (dir, name) = Some fd \<and> map_of (ef_inodes f) fd \<noteq> None"
  let ?H = "\<lambda>fd f. map_of (ef_entries f) (dir, name) = Some fd \<and> map_option in_bytes (map_of (ef_inodes f) fd) = Some data"
  have tail: "keeps (locked (?H fd)) (os_fchown env fd uid gid)" "keeps (locked (?H fd)) (os_fchmod env fd 384)" for fd
    using assms(1) by (auto simp: keeps_def os_fchown_def os_fchmod_def wp_sys Let_def with_lock_def quiet_def map_inode_def update_conv' split: fault.split option.split)
  have written: "locked (?G fd) u \<Longrightarrow> wp (os_write env fd data) (\<lambda>r u'. r = Done () \<longrightarrow> locked (?H fd) u') u" for fd u
    using assms(1) by (auto simp: os_write_def wp_sys Let_def with_lock_def quiet_def map_inode_def update_conv' split: fault.split)
  have "keeps (locked (?H fd)) (bindX (os_fchown env fd uid gid) (\<lambda>_. bindX (os_fchmod env fd 384) (\<lambda>_. bindX (os_fsync env) (\<lambda>_. os_fstat env fd))))" for fd
    by (intro keeping tail quiet_stable assms)
  note rest = keepsD [OF this]
  have fill: "locked (?G fd) u \<Longrightarrow> wp (fill_exclusive_at env dir name data uid gid fd) (\<lambda>r u'. \<forall>st. r = Done st \<longrightarrow> locked (?H fd) u') u" for fd u
    unfolding fill_exclusive_at_def
    by (rule wp_try_reraise, rule wp_bindI [OF written]) (auto intro: wp_mono [OF rest])
  have "wp (write_file_exclusive_at env dir name data uid gid) (\<lambda>r w'. \<forall>st. r = Done st \<longrightarrow> file_content (dir, name) (ew_fs w') = Some data) w"
    unfolding write_file_exclusive_at_def
    by (rule wp_bindI [OF wp_create [OF assms]])
       (auto intro!: wp_mono [OF fill] simp: with_lock_def file_content_def inode_at_def split: option.splits)
  then show ?thesis
    using keepsD [OF keeps_write_exclusive [OF assms(1,2)] assms(3)] by (rule wp_conj [rotated])
qed

lemma keeps_cleanup:
  assumes "quiet env" "\<And>n. startswith n prefix \<Longrightarrow> own (dir, n)"
  shows "keeps (locked I) (cleanup_orphan_temps env dir prefix uid gid)"
  unfolding cleanup_orphan_temps_def cleanup_orphan_def
  by (intro keeping keeps_unlink quiet_stable assms) simp_all

lemma keeps_verify_backup:
  "quiet env \<Longrightarrow> own (cx_backup_dir cx, name) \<Longrightarrow> keeps (locked I) (verify_backup env cx name dst)"
  unfolding verify_backup_def read_regular_at_def validate_root_owned_stat_def by (intro keeping keeps_unlink quiet_stable)

end

section \<open>Steps that only look\<close>

lemma keeps_validate_root [keeping]: "keeps J (validate_root_owned_stat st label)"
  unfolding validate_root_owned_stat_def by (intro keeping)

lemma keeps_trust [keeping]: "fs_stable env J \<Longrightarrow> keeps J (trust_directory env fd require_root msg label)"
  unfolding trust_directory_def by (intro keeping)

lemma keeps_open_parts [keeping]: "fs_stable env J \<Longrightarrow> keeps J (open_parts env label shown require_root parts fd)"
  by (induction parts arbitrary: fd) (auto intro!: keeping)

lemma keeps_open_trusted [keeping]: "fs_stable env J \<Longrightarrow> keeps J (open_trusted_directory env parts label require_root exact_mode)"
  unfolding open_trusted_directory_def by (intro keeping)

lemma keeps_read_regular [keeping]: "fs_stable env J \<Longrightarrow> keeps J (read_regular_at env dir name label require_root)"
  unfolding read_regular_at_def by (intro keeping)

lemma keeps_read_files [keeping]:
  assumes "fs_stable env J"
  shows "keeps J (read_source env a dir source)" "keeps J (read_destination env a dir destination)"
  unfolding read_source_def read_destination_def by (intro keeping assms)+

lemma keeps_open_inputs [keeping]: "fs_stable env J \<Longrightarrow> keeps J (open_inputs env a source destination backup)"
  unfolding open_inputs_def by (intro keeping)

lemma keeps_read_again [keeping]: "fs_stable env J \<Longrightarrow> keeps J (read_again env cx src dst)"
  unfolding read_again_def by (intro keeping)

lemma keeps_locked_plan [keeping]: "fs_stable env J \<Longrightarrow> keeps J (locked_plan env cx n expected src dst)"
  unfolding locked_plan_def Let_def by (intro keeping)

text \<open>Under the lock a file that is read is the file that is there.\<close>

lemma sys_read_returns:
  "quiet env \<Longrightarrow> ew_locked w \<Longrightarrow>
     sys_read env look w = (Done a, w') \<longleftrightarrow> es_fault env (ew_time w) = NoFault \<and> look (ew_time w) (ew_fs w) = Inr a \<and> w' = w\<lparr>ew_time := Suc (ew_time w)\<rparr>"
  by (auto simp: sys_read_def sysX_def Let_def quiet_def split: fault.split sum.split)

lemma validate_root_returns: "validate_root_owned_stat st label w = (Done u, w') \<Longrightarrow> w' = w"
  by (auto simp: validate_root_owned_stat_def returns)

lemma read_regular_returns:
  assumes "quiet env" "ew_locked w" "read_regular_at env dir name label require_root w = (Done opened, w')"
  shows "file_content (dir, name) (ew_fs w) = Some (oe_raw opened) \<and> utf8_decode (oe_raw opened) = Some (oe_text opened) \<and>
    ew_fs w' = ew_fs w \<and> ew_locked w'"
  using assms
  by (auto simp: read_regular_at_def returns sys_read_returns os_open_at_def os_fstat_def os_read_def file_content_def inode_at_def
      split: option.splits if_splits dest!: validate_root_returns)

section \<open>The names a run uses for itself\<close>

definition own_name :: "string \<Rightarrow> nat \<times> string \<Rightarrow> bool" where
  "own_name name k \<longleftrightarrow>
     snd k = ''.'' @ name @ ''.reconcile.lock'' \<or> startswith (snd k) (temp_prefix name) \<or> startswith (snd k) (name @ ''.bak-'')"

lemma destination_not_own: "\<not> own_name name (dir, name)"
  by (auto simp: own_name_def startswith_iff temp_prefix_def dest: arg_cong [of _ _ length])

lemma backup_not_temp: "\<not> startswith (name @ ''.bak-'' @ z) (temp_prefix name)" "name @ ''.bak-'' @ z \<noteq> name"
proof
  assume "startswith (name @ ''.bak-'' @ z) (temp_prefix name)"
  then obtain y where "name @ ''.bak-'' @ z = ''.'' @ name @ ''.reconcile-'' @ y" by (auto simp: startswith_iff temp_prefix_def)
  from arg_cong [where f = "\<lambda>s. s ! Suc (length name)", OF this] show False by (simp add: nth_append)
qed simp

section \<open>The replacement\<close>

text \<open>The destination gets the new content, or everything stays as it was.\<close>

definition or_planned :: "(nat \<times> string \<Rightarrow> string option \<Rightarrow> bool) \<Rightarrow> nat \<times> string \<Rightarrow> string \<Rightarrow> nat \<times> string \<Rightarrow> string option \<Rightarrow> bool" where
  "or_planned P target new k c \<longleftrightarrow> P k c \<or> k = target \<and> c = Some new"

lemma each_file_or_planned: "each_file own P f \<Longrightarrow> each_file own (or_planned P target new) f"
  by (auto simp: each_file_def or_planned_def)

lemma wp_replace:
  assumes "quiet env" "own (dir, src)" "\<not> own (dir, dst)" "locked (each_file own P) w" "file_content (dir, src) (ew_fs w) = Some new"
  shows "wp (os_replace_at env dir src dst) (\<lambda>_. locked (each_file own (or_planned P (dir, dst) new))) w"
proof -
  have "(dir, src) \<noteq> (dir, dst)" using assms(2,3) by metis
  then have "each_file own (or_planned P (dir, dst) new) (ew_fs w\<lparr>ef_entries := dict_set (dir, dst) i (AList.delete (dir, src) (ef_entries (ew_fs w)))\<rparr>)"
    if "map_of (ef_entries (ew_fs w)) (dir, src) = Some i" for i
    using assms that by (auto simp: each_file_def or_planned_def file_content_replace with_lock_def)
  then show ?thesis
    using assms(1,4) each_file_or_planned [of own P "ew_fs w"]
    by (auto simp: os_replace_at_def wp_sys Let_def quiet_def with_lock_def split: fault.split option.split)
qed

lemma wp_replace_destination:
  assumes "quiet env" "locked (each_file own P) w" and own: "\<And>n. startswith n (temp_prefix (cx_name cx)) \<Longrightarrow> own (cx_destination_dir cx, n)"
    and target: "\<not> own (cx_destination_dir cx, cx_name cx)"
  shows "wp (replace_destination env cx dst planned)
    (\<lambda>_. locked (each_file own (or_planned P (cx_destination_dir cx, cx_name cx) (utf8_encode planned)))) w"
proof -
  let ?dd = "cx_destination_dir cx"
  let ?I = "each_file own P" and ?I' = "each_file own (or_planned P (?dd, cx_name cx) (utf8_encode planned))"
  have weaken: "locked ?I u \<Longrightarrow> locked ?I' u" for u by (auto simp: with_lock_def each_file_or_planned)
  have temp: "own (?dd, temp_prefix (cx_name cx) @ t)" for t by (rule own) simp
  have tail: "wp (bindX (tryX (os_replace_at env ?dd (temp_prefix (cx_name cx) @ t) (cx_name cx))
        (\<lambda>e. bindX (os_unlink_at env ?dd (temp_prefix (cx_name cx) @ t)) (\<lambda>_. raiseX e))) (\<lambda>_. os_fsync env)) (\<lambda>_. locked ?I') u"
    if "locked ?I u" "file_content (?dd, temp_prefix (cx_name cx) @ t) (ew_fs u) = Some (utf8_encode planned)" for t u
  proof -
    have fsync: "keeps (locked ?I') (os_fsync env)" and undo: "keeps (locked ?I') (bindX (os_unlink_at env ?dd (temp_prefix (cx_name cx) @ t)) (\<lambda>_. raiseX e))" for e
      by (intro keeping files.keeps_unlink quiet_stable assms(1) temp)+
    have "wp (tryX (os_replace_at env ?dd (temp_prefix (cx_name cx) @ t) (cx_name cx))
        (\<lambda>e. bindX (os_unlink_at env ?dd (temp_prefix (cx_name cx) @ t)) (\<lambda>_. raiseX e))) (\<lambda>_. locked ?I') u"
      unfolding wp_try
      by (rule wp_mono [OF wp_replace [OF assms(1) temp target that]]) (simp split: outcome.split add: keepsD [OF undo])
    then show ?thesis by (rule wp_bindI) (simp_all add: keepsD [OF fsync])
  qed
  have cleanup: "keeps (locked ?I) (cleanup_orphan_temps env ?dd (temp_prefix (cx_name cx)) uid gid)" for uid gid
    by (rule files.keeps_cleanup [OF assms(1)]) (rule own)
  show ?thesis
    unfolding replace_destination_def Let_def
  proof (rule wp_bindI [OF keepsD [OF cleanup assms(2)]], goal_cases)
    case (1 a w1)
    show ?case
    proof (rule wp_bindI [OF keepsD [OF keeps_reads(8) [OF quiet_stable [OF assms(1)]] 1]], goal_cases)
      case (1 t w2)
      show ?case
        by (rule wp_bindI [OF files.wp_write_exclusive [OF assms(1) temp 1]]) (auto intro: tail weaken)
    qed (auto intro: weaken)
  qed (auto intro: weaken)
qed

section \<open>The lock\<close>

abbreviation unlocked :: "(env_fs \<Rightarrow> bool) \<Rightarrow> env_world \<Rightarrow> bool" where
  "unlocked I \<equiv> with_lock I (\<lambda>_. True)"

lemma wp_flock:
  assumes "fs_stable env (unlocked I)" "unlocked I w"
  shows "wp (os_flock env) (\<lambda>r w'. unlocked I w' \<and> (r = Done True \<longrightarrow> ew_locked w')) w"
  using assms by (auto simp: os_flock_def wp_def bindX_def sys_read_def sysX_def Let_def fs_stable_def with_lock_def split: fault.split)

lemma wp_sleep: "fs_stable env (unlocked I) \<Longrightarrow> unlocked I w \<Longrightarrow> wp (sleep env d) (\<lambda>_. unlocked I) w"
  by (auto simp: sleep_def wp_def bindX_def sys_read_def sysX_def Let_def fs_stable_def with_lock_def split: fault.split)

lemma unlocked_monotonic: "monotonic env w = (now, w') \<Longrightarrow> unlocked I w \<Longrightarrow> unlocked I w'"
  by (auto simp: monotonic_def Let_def with_lock_def)

lemma wp_acquire_loop:
  assumes "fs_stable env (unlocked I)"
  shows "unlocked I w \<Longrightarrow> wp (acquire_loop env deadline) (\<lambda>r w'. unlocked I w' \<and> (r = Done () \<longrightarrow> ew_locked w')) w"
  using assms
proof (induction env deadline w rule: acquire_loop.induct)
  case (1 env deadline w)
  obtain r1 w1 where flock: "os_flock env w = (r1, w1)" by (cases "os_flock env w")
  then have I1: "unlocked I w1" "r1 = Done True \<Longrightarrow> ew_locked w1" using wpD [OF wp_flock [OF 1(3,2)] flock] by simp_all
  obtain now w2 where clock: "monotonic env w1 = (now, w2)" by (cases "monotonic env w1")
  then have I2: "unlocked I w2" using I1 unlocked_monotonic by blast
  obtain r3 w3 where slept: "sleep env (min LOCK_RETRY (deadline - now)) w2 = (r3, w3)" by (cases "sleep env (min LOCK_RETRY (deadline - now)) w2")
  then have I3: "unlocked I w3" using wpD [OF wp_sleep [OF 1(3) I2] slept] by simp
  note IH = 1(1) [OF flock [symmetric] _ _ clock [symmetric] _ slept [symmetric] _ I3 1(3)]
  have step: "acquire_loop env deadline w = (case r1 of Raised e \<Rightarrow> (Raised e, w1) | Killed \<Rightarrow> (Killed, w1) | Done free \<Rightarrow>
      if free then (Done (), w1) else if deadline - now \<le> 0 then (Raised (ReconcileError ''timed out waiting for reconciliation lock''), w2)
      else (case r3 of Raised e \<Rightarrow> (Raised e, w3) | Killed \<Rightarrow> (Killed, w3) | Done _ \<Rightarrow> acquire_loop env deadline w3))"
    by (subst acquire_loop.simps) (simp only: flock clock slept prod.case)
  show ?case
  proof (cases "\<exists>u. r1 = Done False \<and> 0 < deadline - now \<and> r3 = Done u")
    case True
    then show ?thesis using IH by (auto simp: wp_def step)
  next
    case False
    then show ?thesis using I1 I2 I3 by (auto simp: wp_def step split: outcome.split)
  qed
qed

lemma wp_acquire:
  assumes "fs_stable env (unlocked I)" "unlocked I w"
  shows "wp (acquire_exclusive_lock env) (\<lambda>r w'. unlocked I w' \<and> (r = Done () \<longrightarrow> ew_locked w')) w"
proof -
  obtain now w1 where clock: "monotonic env w = (now, w1)" by (cases "monotonic env w")
  show ?thesis
    using wp_acquire_loop [OF assms(1) unlocked_monotonic [OF clock assms(2)], of "now + LOCK_TIMEOUT"]
    by (simp add: wp_def acquire_exclusive_lock_def clock)
qed

lemma wp_open_lock:
  assumes "frame own I" "fs_stable env (unlocked I)" "own (cx_destination_dir cx, ''.'' @ cx_name cx @ ''.reconcile.lock'')" "unlocked I w"
  shows "wp (open_lock env cx) (\<lambda>r w'. unlocked I w' \<and> (r = Done () \<longrightarrow> locked I w')) w"
proof -
  have prefix: "keeps (unlocked I) (os_open_or_create_at env (cx_destination_dir cx) (''.'' @ cx_name cx @ ''.reconcile.lock''))"
    by (rule frame.keeps_open_or_create [OF assms(1-3)])
  have look: "keeps (unlocked I) (os_fstat env fd)" for fd by (intro keeping assms(2))
  have trust: "keeps (unlocked I) (if b then validate_root_owned_stat st msg else retX ())" for b st msg by (intro keeping)
  have acquire: "unlocked I u \<Longrightarrow> wp (acquire_exclusive_lock env) (\<lambda>r w'. unlocked I w' \<and> (r = Done () \<longrightarrow> locked I w')) u" for u
    by (rule wp_mono [OF wp_acquire [OF assms(2)]]) (auto simp: with_lock_def)
  show ?thesis
    unfolding open_lock_def
    by (rule wp_bindI [OF keepsD [OF prefix assms(4)]], rule wp_bindI [OF keepsD [OF look]], assumption,
        rule wp_bindI [OF keepsD [OF keeps_when]], assumption, rule wp_bindI [OF keepsD [OF trust]], assumption)
       (auto intro: acquire)
qed

section \<open>The plan that was confirmed\<close>

definition confirmed :: "env_sys \<Rightarrow> reconcile_args \<Rightarrow> plan_inputs \<Rightarrow> bool" where
  "confirmed env a p \<longleftrightarrow>
     ra_apply a \<and> (\<exists>e. ra_expected a = Some e \<and> lower (strip e) = plan_sha256 (es_sha256 env) p) \<and>
     pl_source_path p = path_str (pp_parts (ra_source a)) \<and> pl_destination_path p = path_str (pp_parts (ra_destination a)) \<and>
     pl_backup_dir p = path_str (pp_parts (ra_backup_dir a)) \<and>
     (\<exists>s selected. parse_env ''source'' (pl_source_text p) = Inr s \<and> validate_source (en_values s) (ra_smtp_from a) = Inr selected \<and>
        build_reconciled_content (pl_destination_text p) selected = Inr (pl_planned_content p))"

definition cx_for :: "reconcile_args \<Rightarrow> reconcile_ctx \<Rightarrow> bool" where
  "cx_for a cx \<longleftrightarrow> cx_args cx = a \<and> cx_source cx = pp_parts (ra_source a) \<and> cx_destination cx = pp_parts (ra_destination a) \<and>
     cx_backup cx = pp_parts (ra_backup_dir a)"

lemma confirmed_plan:
  assumes "cx_for a cx" "ra_apply a" "ra_expected a = Some e" "plan_content cx src dst = Inr planned"
    and "lower (strip e) = pn_sha256 (make_plan env cx src dst backup_stat planned)"
  shows "confirmed env a (pn_inputs (make_plan env cx src dst backup_stat planned))"
  using assms by (auto simp: confirmed_def cx_for_def make_plan_def plan_content_def Let_def bindE_eq_Inr)

lemma locked_plan_returns:
  assumes "locked_plan env cx n expected src dst w = (Done n', w')"
  shows "\<exists>planned backup_stat. plan_content cx src dst = Inr planned \<and> n' = make_plan env cx src dst backup_stat planned \<and> expected = pn_sha256 n'"
  using assms by (auto simp: locked_plan_def Let_def returns)

lemma make_plan_texts [simp]:
  "pl_destination_text (pn_inputs (make_plan env cx src dst bs planned)) = oe_text dst"
  "pn_content (make_plan env cx src dst bs planned) = pl_planned_content (pn_inputs (make_plan env cx src dst bs planned))"
  by (simp_all add: make_plan_def pn_content_def Let_def)

lemma read_again_returns:
  assumes "quiet env" "ew_locked w" "read_again env cx src dst w = (Done (src', dst'), w')"
  shows "file_content (cx_destination_dir cx, cx_name cx) (ew_fs w) = Some (oe_raw dst') \<and> utf8_decode (oe_raw dst') = Some (oe_text dst') \<and>
    ew_fs w' = ew_fs w \<and> ew_locked w'"
proof -
  obtain w1 w2 where 1: "read_source env (cx_args cx) (cx_source_dir cx) (cx_source cx) w = (Done src', w1)"
    and 2: "read_destination env (cx_args cx) (cx_destination_dir cx) (cx_destination cx) w1 = (Done dst', w2)" "w' = w2"
    using assms(3) by (auto simp: read_again_def returns)
  have "ew_fs w1 = ew_fs w" "ew_locked w1"
    using read_regular_returns [OF assms(1,2) 1 [unfolded read_source_def]] by simp_all
  then show ?thesis
    using read_regular_returns [OF assms(1) _ 2(1) [unfolded read_destination_def]] 2(2) by (simp add: cx_name_def)
qed

lemma keeps_write_backup:
  assumes "quiet env"
  shows "keeps (locked (each_file (own_name (cx_name cx)) P)) (write_backup env cx dst)"
  unfolding write_backup_def Let_def
  by (intro keeping files.keeps_write_exclusive files.keeps_verify_backup quiet_stable assms)
     (simp_all add: own_name_def startswith_iff)

section \<open>The whole run\<close>

text \<open>What holds of the files after a run: nothing but the run's own files changed, or the confirmed plan was carried out as well.\<close>

definition run_effect :: "env_sys \<Rightarrow> reconcile_args \<Rightarrow> (nat \<times> string \<Rightarrow> string option \<Rightarrow> bool) \<Rightarrow> env_fs \<Rightarrow> bool" where
  "run_effect env a P f \<longleftrightarrow>
     (let name = last (pp_parts (ra_destination a)) in
      each_file (own_name name) P f \<or>
      (\<exists>p dir old. confirmed env a p \<and> utf8_decode old = Some (pl_destination_text p) \<and> P (dir, name) (Some old) \<and>
         each_file (own_name name) (or_planned P (dir, name) (utf8_encode (pl_planned_content p))) f))"

lemma cx_for_name: "cx_for a cx \<Longrightarrow> cx_name cx = last (pp_parts (ra_destination a))"
  by (simp add: cx_for_def cx_name_def)

lemma run_effect_unchanged: "with_lock (each_file (own_name (cx_name cx)) P) R w \<Longrightarrow> cx_for a cx \<Longrightarrow> run_effect env a P (ew_fs w)"
  by (simp add: run_effect_def with_lock_def cx_for_name Let_def)

lemma wp_carry_out:
  assumes "quiet env" "cx_for a cx" "confirmed env a (pn_inputs n)" "locked (each_file (own_name (cx_name cx)) P) w"
    and "P (cx_destination_dir cx, cx_name cx) (Some old)" "utf8_decode old = Some (pl_destination_text (pn_inputs n))"
  shows "wp (bindX (replace_destination env cx dst (pn_content n)) (\<lambda>_.
       bindX (read_destination env (cx_args cx) (cx_destination_dir cx) (cx_destination cx)) (\<lambda>final.
       bindX (whenX (oe_text final \<noteq> pn_content n) msg) (\<lambda>_. retX (res final))))) (\<lambda>_ w'. run_effect env a P (ew_fs w')) w"
proof -
  let ?I' = "each_file (own_name (cx_name cx)) (or_planned P (cx_destination_dir cx, cx_name cx) (utf8_encode (pn_content n)))"
  have effect: "run_effect env a P (ew_fs v)" if "locked ?I' v" for v
    using that assms(2,3,5,6) by (auto simp: run_effect_def with_lock_def cx_for_name [symmetric] Let_def pn_content_def)
  have look: "keeps (locked ?I') (bindX (read_destination env (cx_args cx) (cx_destination_dir cx) (cx_destination cx)) (\<lambda>final.
     bindX (whenX (oe_text final \<noteq> pn_content n) msg) (\<lambda>_. retX (res final))))"
    by (intro keeping quiet_stable assms(1))
  show ?thesis
    by (rule wp_bindI [OF wp_replace_destination [OF assms(1,4)]])
       (auto simp: own_name_def [of _ "(_, _)"] destination_not_own [unfolded own_name_def, simplified] intro: effect wp_mono [OF keepsD [OF look]])
qed

lemma wp_apply_locked:
  assumes "quiet env" "cx_for a cx" "ra_apply a" "ra_expected a = Some e" "expected = lower (strip e)"
    and "locked (each_file (own_name (cx_name cx)) P) w"
  shows "wp (apply_locked env cx n expected src dst) (\<lambda>_ w'. run_effect env a P (ew_fs w')) w"
proof -
  let ?I = "each_file (own_name (cx_name cx)) P"
  note unchanged = run_effect_unchanged [OF _ assms(2)]
  have looks: "keeps (locked ?I) (read_again env cx src dst)" "keeps (locked ?I) (locked_plan env cx n expected src' dst')" for src' dst'
    by (intro keeping quiet_stable assms(1))+
  have again: "wp (read_again env cx src dst) (\<lambda>r w'. locked ?I w' \<and> (\<forall>d. r = Done d \<longrightarrow>
      P (cx_destination_dir cx, cx_name cx) (Some (oe_raw (snd d))) \<and> utf8_decode (oe_raw (snd d)) = Some (oe_text (snd d)))) w"
  proof (rule wp_conj)
    show "wp (read_again env cx src dst) (\<lambda>_. locked ?I) w" by (rule keepsD [OF looks(1) assms(6)])
    have "P (cx_destination_dir cx, cx_name cx) (file_content (cx_destination_dir cx, cx_name cx) (ew_fs w))" "ew_locked w"
      using assms(6) destination_not_own by (auto simp: with_lock_def each_file_def)
    then show "wp (read_again env cx src dst) (\<lambda>r w'. \<forall>d. r = Done d \<longrightarrow>
        P (cx_destination_dir cx, cx_name cx) (Some (oe_raw (snd d))) \<and> utf8_decode (oe_raw (snd d)) = Some (oe_text (snd d))) w"
      unfolding wp_returns using read_again_returns [OF assms(1)] by (metis prod.collapse)
  qed
  have plan: "wp (locked_plan env cx n expected src' dst') (\<lambda>r w'. locked ?I w' \<and> (\<forall>n'. r = Done n' \<longrightarrow>
      (\<exists>planned bs. plan_content cx src' dst' = Inr planned \<and> n' = make_plan env cx src' dst' bs planned \<and> expected = pn_sha256 n'))) u"
    if "locked ?I u" for u src' dst'
    by (rule wp_conj, rule keepsD [OF looks(2) that]) (use locked_plan_returns in \<open>auto simp: wp_returns\<close>)
  show ?thesis
    unfolding apply_locked_def
  proof (rule wp_bindI [OF again], goal_cases)
    case (1 d w1)
    obtain src' dst' where d: "d = (src', dst')" by (cases d)
    show ?case unfolding d prod.case
    proof (rule wp_bindI [OF plan [of w1 src' dst']], goal_cases)
      case (2 n' w2)
      show ?case
        using 1 2 d confirmed_plan [OF assms(2-4)] assms(5)
        by (intro wp_bindI [OF keepsD [OF keeps_write_backup [OF assms(1)]]])
           (auto intro!: wp_carry_out [OF assms(1,2)] intro: unchanged)
    qed (use 1 in \<open>auto intro: unchanged\<close>)
  qed (auto intro: unchanged)
qed

lemma open_inputs_returns:
  "open_inputs env a source destination backup w = (Done (cx, src, dst, bs), w') \<Longrightarrow>
     cx_args cx = a \<and> cx_source cx = source \<and> cx_destination cx = destination \<and> cx_backup cx = backup"
  by (auto simp: open_inputs_def returns)

lemma check_expected_apply:
  "check_expected a n = Inr expected \<Longrightarrow> ra_apply a \<Longrightarrow> \<exists>e. ra_expected a = Some e \<and> expected = lower (strip e) \<and> expected = pn_sha256 n"
  by (auto simp: check_expected_def validate_expected_plan_def bindE_eq_Inr Let_def split: option.splits)

lemma normalize_parts: "normalize_absolute_path p label = Inr parts \<Longrightarrow> parts = pp_parts p"
  by (auto simp: normalize_absolute_path_def bindE_eq_Inr)

lemma wp_finally_release: "wp m (\<lambda>_ w'. Q (ew_fs w')) w \<Longrightarrow> wp (finallyX m release_lock) (\<lambda>_ w'. Q (ew_fs w')) w"
  by (auto simp: wp_def finallyX_def bindX_def release_lock_def retX_def raiseX_def split: prod.split outcome.split)

text \<open>What runs inside the three normalised paths decides the run.\<close>

lemma wp_reconcile:
  assumes "\<And>source destination backup. source = pp_parts (ra_source a) \<Longrightarrow> destination = pp_parts (ra_destination a) \<Longrightarrow>
      backup = pp_parts (ra_backup_dir a) \<Longrightarrow> wp (reconcile_opened env a source destination backup) (\<lambda>_ w'. Q (ew_fs w')) w"
    and "Q (ew_fs w)"
  shows "wp (reconcile env a) (\<lambda>_ w'. Q (ew_fs w')) w"
  unfolding reconcile_def using assms
  by (auto simp: wp_bind wp_lift wp_when dest!: normalize_parts intro!: wp_finally_release split: sum.split)

lemma wp_reconcile_opened:
  assumes "quiet env" "I = each_file (own_name (last (pp_parts (ra_destination a)))) P" "fs_stable env (unlocked I)" "unlocked I w"
  shows "wp (reconcile_opened env a (pp_parts (ra_source a)) (pp_parts (ra_destination a)) (pp_parts (ra_backup_dir a)))
    (\<lambda>_ w'. run_effect env a P (ew_fs w')) w"
proof -
  have unchanged: "unlocked I u \<Longrightarrow> run_effect env a P (ew_fs u)" for u
    by (simp add: run_effect_def with_lock_def assms(2) Let_def)
  have inputs: "wp (open_inputs env a (pp_parts (ra_source a)) (pp_parts (ra_destination a)) (pp_parts (ra_backup_dir a)))
      (\<lambda>r w'. unlocked I w' \<and> (\<forall>x. r = Done x \<longrightarrow> cx_for a (fst x))) w"
    by (rule wp_conj, rule keepsD [OF keeps_open_inputs [OF assms(3)] assms(4)])
       (unfold wp_returns, auto simp: cx_for_def dest: open_inputs_returns)
  have locking: "wp (bindX (open_lock env cx) (\<lambda>_. apply_locked env cx n expected src dst)) (\<lambda>_ w'. run_effect env a P (ew_fs w')) u"
    if "unlocked I u" "cx_for a cx" "check_expected a n = Inr expected" "ra_apply a" for u cx n expected src dst
  proof -
    have I: "I = each_file (own_name (cx_name cx)) P" using that(2) by (simp add: assms(2) cx_for_name)
    have lock: "own_name (cx_name cx) (cx_destination_dir cx, ''.'' @ cx_name cx @ ''.reconcile.lock'')" by (simp add: own_name_def)
    from check_expected_apply [OF that(3,4)] obtain e where "ra_expected a = Some e" "expected = lower (strip e)" by blast
    note locked = wp_apply_locked [OF assms(1) that(2,4) this]
    have "frame (own_name (cx_name cx)) I" unfolding I by (rule files.frame_axioms)
    from wp_open_lock [of "own_name (cx_name cx)" I, OF this assms(3) lock that(1)] show ?thesis
      by (rule wp_bindI) (auto simp: I [symmetric] intro: locked [folded I] unchanged)
  qed
  show ?thesis
    unfolding reconcile_opened_def
    by (rule wp_bindI [OF inputs]) (auto simp: wp_lift wp_bind [of "liftX _"] wp_ret Let_def intro: unchanged locking split: prod.split sum.split)
qed

section \<open>What a completed run leaves\<close>

lemma stays_locked: "keeps (locked (each_file own (\<lambda>_ _. True))) m \<Longrightarrow> ew_locked w \<Longrightarrow> m w = (r, w') \<Longrightarrow> ew_locked w'"
  using keepsD [of "locked (each_file own (\<lambda>_ _. True))" m w] by (auto simp: wp_def with_lock_def each_file_def)

lemma verify_backup_returns:
  assumes "quiet env" "ew_locked w" "verify_backup env cx name dst w = (Done u, w')"
  shows "file_content (cx_backup_dir cx, name) (ew_fs w') = Some (oe_raw dst) \<and> ew_locked w'"
proof -
  obtain saved where "read_regular_at env (cx_backup_dir cx) name ''backup'' (ra_require_root (cx_args cx)) w = (Done saved, w')"
    and "\<not> backup_mismatch saved dst"
    using assms(3) by (auto simp: verify_backup_def returns)
  then show ?thesis using read_regular_returns [OF assms(1,2)] by (fastforce simp: backup_mismatch_def)
qed

lemma write_backup_returns:
  assumes "quiet env" "ew_locked w" "write_backup env cx dst w = (Done name, w')"
  shows "(\<exists>z. name = cx_name cx @ ''.bak-'' @ z) \<and> file_content (cx_backup_dir cx, name) (ew_fs w') = Some (oe_raw dst) \<and> ew_locked w'"
proof -
  let ?name = "\<lambda>t. cx_name cx @ ''.bak-'' @ t @ ''-'' @ str_of_nat (es_pid env)"
  let ?prefix = "\<lambda>t. bindX (write_file_exclusive_at env (cx_backup_dir cx) (?name t) (oe_raw dst) (ps_uid (oe_stat dst)) (ps_gid (oe_stat dst))) (\<lambda>_. os_fsync env)"
  obtain t w1 st w2 w3 where 1: "observe env (es_utc env) w = (Done t, w1)"
    and 2: "write_file_exclusive_at env (cx_backup_dir cx) (?name t) (oe_raw dst) (ps_uid (oe_stat dst)) (ps_gid (oe_stat dst)) w1 = (Done st, w2)"
    and 3: "os_fsync env w2 = (Done (), w3)" and 4: "verify_backup env cx (?name t) dst w3 = (Done (), w')" "name = ?name t"
    using assms(3) by (auto simp: write_backup_def Let_def returns)
  have "keeps (locked (each_file (\<lambda>_. True) (\<lambda>_ _. True))) (bindX (observe env (es_utc env)) (\<lambda>_. ?prefix t))"
    by (intro keeping files.keeps_write_exclusive quiet_stable assms(1)) simp
  then have "ew_locked w3"
    by (rule stays_locked [OF _ assms(2), where r = "Done ()"]) (use 1 2 3 in \<open>auto simp: returns\<close>)
  then show ?thesis using verify_backup_returns [OF assms(1) _ 4(1)] 4(2) by auto
qed

lemma replace_destination_keeps_backup:
  assumes "quiet env" "ew_locked w" "replace_destination env cx dst planned w = (r, w')"
    and "file_content (dir, cx_name cx @ ''.bak-'' @ z) (ew_fs w) = Some old"
  shows "file_content (dir, cx_name cx @ ''.bak-'' @ z) (ew_fs w') = Some old \<and> ew_locked w'"
proof -
  let ?own = "\<lambda>k. startswith (snd k) (temp_prefix (cx_name cx))" and ?P = "\<lambda>k c. k = (dir, cx_name cx @ ''.bak-'' @ z) \<longrightarrow> c = Some old"
  have "locked (each_file ?own ?P) w" using assms by (auto simp: with_lock_def each_file_def)
  moreover have "\<not> ?own (d, cx_name cx)" for d using destination_not_own by (auto simp: own_name_def)
  ultimately have "locked (each_file ?own (or_planned ?P (cx_destination_dir cx, cx_name cx) (utf8_encode planned))) w'"
    using wpD [OF wp_replace_destination [of env ?own ?P w cx] assms(3)] assms(1) by simp
  then show ?thesis
    using backup_not_temp [of "cx_name cx" z] by (auto simp: with_lock_def each_file_def or_planned_def)
qed

text \<open>The receipt of a completed run, as an abstract relation between the plan and the file system it leaves.\<close>

definition carried_out :: "env_sys \<Rightarrow> reconcile_args \<Rightarrow> reconcile_result \<Rightarrow> applied_info \<Rightarrow> env_fs \<Rightarrow> bool" where
  "carried_out env a r info f \<longleftrightarrow>
     (\<exists>p dir backup_dir backup old new. confirmed env a p \<and> rr_plan_sha256 r = plan_sha256 (es_sha256 env) p \<and>
        file_content (dir, last (pp_parts (ra_destination a))) f = Some new \<and> utf8_decode new = Some (pl_planned_content p) \<and>
        ai_backup info = path_str (pp_parts (ra_backup_dir a) @ [backup]) \<and> file_content (backup_dir, backup) f = Some old \<and>
        utf8_decode old = Some (pl_destination_text p))"

lemma apply_locked_returns:
  assumes "quiet env" "ew_locked w" "cx_for a cx" "ra_apply a" "ra_expected a = Some e" "expected = lower (strip e)"
    and "apply_locked env cx n expected src dst w = (Done r, w')"
  shows "\<exists>info. rr_applied r = Some info \<and> carried_out env a r info (ew_fs w')"
proof -
  obtain src' dst' w1 n' w2 backup w3 u w4 final where again: "read_again env cx src dst w = (Done (src', dst'), w1)"
    and plan: "locked_plan env cx n expected src' dst' w1 = (Done n', w2)" and saved: "write_backup env cx dst' w2 = (Done backup, w3)"
    and swap: "replace_destination env cx dst' (pn_content n') w3 = (Done u, w4)"
    and last: "read_destination env (cx_args cx) (cx_destination_dir cx) (cx_destination cx) w4 = (Done final, w')" "oe_text final = pn_content n'"
    and r: "r = result_of cx n' ''reconciled'' (Some \<lparr>ai_backup = path_str (cx_backup cx @ [backup]),
        ai_mode = octal4 (imode (ps_mode (oe_stat final))), ai_owner_uid = ps_uid (oe_stat final), ai_owner_gid = ps_gid (oe_stat final)\<rparr>)"
    using assms(7) by (auto simp: apply_locked_def returns)
  note 1 = read_again_returns [OF assms(1,2) again]
  obtain planned bs where n': "plan_content cx src' dst' = Inr planned" "n' = make_plan env cx src' dst' bs planned" "expected = pn_sha256 n'"
    using locked_plan_returns [OF plan] by blast
  have "keeps (locked (each_file (\<lambda>_. True) (\<lambda>_ _. True))) (locked_plan env cx n expected src' dst')"
    by (intro keeping quiet_stable assms(1))
  from stays_locked [OF this _ plan] 1 have 2: "ew_locked w2" by simp
  obtain z where 3: "backup = cx_name cx @ ''.bak-'' @ z" "file_content (cx_backup_dir cx, backup) (ew_fs w3) = Some (oe_raw dst')" "ew_locked w3"
    using write_backup_returns [OF assms(1) 2 saved] by blast
  note 4 = replace_destination_keeps_backup [OF assms(1) 3(3) swap 3(2) [unfolded 3(1)]]
  note 5 = read_regular_returns [OF assms(1) _ last(1) [unfolded read_destination_def]]
  have "confirmed env a (pn_inputs n')" using confirmed_plan [OF assms(3-5) n'(1)] n'(2,3) assms(6) by simp
  moreover have "file_content (cx_backup_dir cx, backup) (ew_fs w') = Some (oe_raw dst')" using 4 5 3(1) by simp
  moreover have "file_content (cx_destination_dir cx, cx_name cx) (ew_fs w') = Some (oe_raw final)" using 4 5 by (simp add: cx_name_def)
  moreover have "pn_sha256 n' = plan_sha256 (es_sha256 env) (pn_inputs n')" "pl_planned_content (pn_inputs n') = oe_text final"
      "pl_destination_text (pn_inputs n') = oe_text dst'"
    using n'(2) last(2) by (simp_all add: make_plan_def Let_def pn_content_def)
  moreover have "path_str (cx_backup cx @ [backup]) = path_str (pp_parts (ra_backup_dir a) @ [backup])" "cx_name cx = List.last (pp_parts (ra_destination a))"
    using assms(3) by (simp_all add: cx_for_def cx_name_def)
  ultimately have "carried_out env a r (the (rr_applied r)) (ew_fs w')"
    unfolding carried_out_def using 1 4 5
    by (intro exI [of _ "pn_inputs n'"] exI [of _ "cx_destination_dir cx"] exI [of _ "cx_backup_dir cx"] exI [of _ backup]
        exI [of _ "oe_raw dst'"] exI [of _ "oe_raw final"] conjI) (simp_all add: r result_of_def)
  then show ?thesis by (simp add: r result_of_def)
qed

lemma open_lock_returns:
  assumes "open_lock env cx w = (Done (), w')"
  shows "ew_locked w'"
proof -
  let ?I = "each_file (\<lambda>_. True) (\<lambda>_ _. True)"
  have "fs_stable env (unlocked ?I)" "unlocked ?I w" by (simp_all add: fs_stable_def with_lock_def each_file_def)
  from wpD [OF wp_open_lock [OF files.frame_axioms this(1) TrueI this(2)] assms] show ?thesis by (simp add: with_lock_def)
qed

section \<open>A concrete machine\<close>

definition example_dir :: "int \<Rightarrow> int \<Rightarrow> inode" where
  "example_dir ino m = \<lparr>in_stat = \<lparr>ps_dev = 1, ps_ino = ino, ps_uid = 0, ps_gid = 0, ps_mode = 16384 + m\<rparr>, in_bytes = []\<rparr>"

definition example_st :: "int \<Rightarrow> plan_stat" where
  "example_st ino = \<lparr>ps_dev = 1, ps_ino = ino, ps_uid = 0, ps_gid = 7, ps_mode = 32768 + 384\<rparr>"

definition example_file :: "int \<Rightarrow> string \<Rightarrow> inode" where
  "example_file ino data = \<lparr>in_stat = example_st ino, in_bytes = data\<rparr>"

definition example_world :: env_world where
  "example_world =
     \<lparr>ew_time = 0, ew_now = 0,
      ew_fs = \<lparr>ef_entries = [((0, ''o''), 1), ((0, ''b''), 2), ((1, ''s''), 3), ((1, ''d''), 4), ((1, ''.d.reconcile-0''), 5)],
        ef_inodes = [(0, example_dir 10 493), (1, example_dir 11 493), (2, example_dir 12 448), (3, example_file 13 example_source),
          (4, example_file 14 example_destination), (5, example_file 15 ''A=1'')]\<rparr>, ew_locked = False\<rparr>"

definition example_digest :: string where
  "example_digest = replicate 64 CHR ''a''"

text \<open>No failures, except possibly the death of the process at one call.\<close>

definition example_sys :: "nat option \<Rightarrow> env_sys" where
  "example_sys dies =
     \<lparr>es_fault = (\<lambda>t. if Some t = dies then Dies else NoFault), es_written = (\<lambda>t. 3), es_others = (\<lambda>b t f. f), es_lock_free = (\<lambda>t. True),
      es_clock = (\<lambda>t. 0), es_ino = (\<lambda>t. 100 + int t), es_umask = 18, es_euid = 0, es_egid = 0, es_pid = 4, es_utc = (\<lambda>t. ''T''),
      es_token = (\<lambda>t. ''1''), es_sha256 = (\<lambda>s. example_digest)\<rparr>"

definition example_args :: "bool \<Rightarrow> reconcile_args" where
  "example_args do_apply =
     \<lparr>ra_source = \<lparr>pp_absolute = True, pp_parts = [''o'', ''s'']\<rparr>, ra_destination = \<lparr>pp_absolute = True, pp_parts = [''o'', ''d'']\<rparr>,
      ra_backup_dir = \<lparr>pp_absolute = True, pp_parts = [''b'']\<rparr>, ra_apply = do_apply, ra_expected = Some (upper example_digest),
      ra_smtp_from = None, ra_require_root = True\<rparr>"

definition example_info :: applied_info where
  "example_info = \<lparr>ai_backup = ''/b/d.bak-T-4'', ai_mode = ''0600'', ai_owner_uid = 0, ai_owner_gid = 7\<rparr>"


lemma example_texts:
  "utf8_decode example_source = Some example_source" "utf8_decode example_destination = Some example_destination"
  "utf8_decode example_content = Some example_content" "utf8_encode example_content = example_content" "example_content \<noteq> example_destination"
  by code_simp+

lemma example_values:
  "validate_expected_plan (Some (upper example_digest)) = Inr example_digest" "str_of_nat 4 = ''4''" "octal4 384 = ''0600''"
  by code_simp+

lemma example_plan_content:
  assumes "oe_text src = example_source" "oe_text dst = example_destination" "ra_smtp_from (cx_args cx) = None"
  shows "plan_content cx src dst = Inr (example_content, APPROVED_KEYS)"
proof -
  obtain s where s: "parse_env ''source'' example_source = Inr s" "validate_source (en_values s) None = Inr example_selected"
    using example_run(1) by (auto split: sum.splits)
  obtain d where d: "parse_env ''destination'' example_destination = Inr d"
    using example_run(2) by (auto simp: build_reconciled_content_def bindE_eq_Inr)
  have "case parse_env ''destination'' example_destination of Inl _ \<Rightarrow> False | Inr d \<Rightarrow> changed_keys d example_selected = APPROVED_KEYS" by code_simp
  with s d show ?thesis by (simp add: plan_content_def bindE_def assms example_run(2))
qed

lemmas system_defs = sys_read_def sysX_def os_open_root_def os_open_dir_at_def os_open_at_def os_fstat_def os_read_def dir_listdir_def os_fsync_def observe_def
  inode_at_def os_open_or_create_at_def os_create_at_def add_file_def fresh_inode_def created_file_def parent_dev_def
  os_write_def os_fchown_def os_fchmod_def os_unlink_at_def os_replace_at_def map_inode_def names_in_def os_flock_def monotonic_def release_lock_def
  is_regular_def is_directory_def is_link_def mode_kind_def imode_def

lemmas program_defs = bindX_def retX_def raiseX_def whenX_def tryX_def finallyX_def liftX_def os_errorX_def ignore_missingX_def
  trust_directory_def validate_root_owned_stat_def open_trusted_directory_def read_regular_at_def read_source_def read_destination_def same_file_def
  open_inputs_def fill_exclusive_at_def write_file_exclusive_at_def orphan_safe_def cleanup_orphan_def cleanup_orphan_temps_def
  acquire_exclusive_lock_def acquire_loop.simps open_lock_def read_again_def locked_plan_def backup_mismatch_def verify_backup_def write_backup_def
  temp_prefix_def replace_destination_def apply_locked_def check_expected_def reconcile_opened_def reconcile_def
  normalize_absolute_path_def bindE_def raise_when_def make_plan_def plan_sha256_def pn_content_def result_of_def cx_name_def path_str_def

lemma example_st_facts:
  "(ps_mode (example_st i) div 4096) mod 16 = 8" "ps_mode (example_st i) mod 4096 = 384"
  "ps_dev (example_st i) = 1" "ps_ino (example_st i) = i" "ps_uid (example_st i) = 0" "ps_gid (example_st i) = 7"
  by (simp_all add: example_st_def)

lemmas example_defs = example_world_def example_sys_def example_args_def example_dir_def example_info_def example_file_def example_st_facts

lemma example_run_applied:
  "(case reconcile (example_sys None) (example_args True) example_world of
      (Done r, w) \<Rightarrow> rr_applied r = Some example_info \<and> file_content (1, ''d'') (ew_fs w) = Some example_content \<and>
        file_content (2, ''d.bak-T-4'') (ew_fs w) = Some example_destination \<and> length (ef_entries (ew_fs w)) = 6
    | _ \<Rightarrow> False)"
  by (simp add: system_defs program_defs example_defs Let_def example_texts example_values example_plan_content startswith_def file_content_def)

section \<open>Properties\<close>

text \<open>
  C4: the reconciliation is atomic and keeps to its plan. Take any condition on files that other processes keep, and let
  them respect the lock. Whatever system call fails, and wherever the process is killed, afterwards every file that is not
  one of the run's own (the lock, temporaries, backups) still satisfies the condition, or in one directory the file with
  the destination's name has exactly the planned content, which is the reconciliation of the content that satisfied it
  and whose plan hash the operator confirmed.
\<close>

theorem reconcile_atomic:
  assumes "quiet env"
    and "\<And>t f. each_file (own_name (last (pp_parts (ra_destination a)))) P f \<Longrightarrow>
           each_file (own_name (last (pp_parts (ra_destination a)))) P (es_others env False t f)"
    and "each_file (own_name (last (pp_parts (ra_destination a)))) P (ew_fs w)"
  shows "run_effect env a P (ew_fs (snd (reconcile env a w)))"
proof -
  let ?I = "each_file (own_name (last (pp_parts (ra_destination a)))) P"
  have "es_others env b t f = f \<or> b = False" for b t f using assms(1) by (auto simp: quiet_def)
  then have stable: "fs_stable env (unlocked ?I)" using assms(2) by (auto simp: fs_stable_def with_lock_def) metis
  have "run_effect env a P (ew_fs w)" using assms(3) by (simp add: run_effect_def Let_def)
  then have "wp (reconcile env a) (\<lambda>_ w'. run_effect env a P (ew_fs w')) w"
    using wp_reconcile_opened [OF assms(1) refl stable] assms(3) by (intro wp_reconcile) (simp_all add: with_lock_def)
  then show ?thesis by (simp add: wp_def)
qed

theorem reconcile_atomic_witness:
  "\<forall>d. run_effect (example_sys (Some d)) (example_args True) (\<lambda>k c. c = file_content k (ew_fs example_world))
     (ew_fs (snd (reconcile (example_sys (Some d)) (example_args True) example_world)))"
  by (rule allI, rule reconcile_atomic) (simp_all add: quiet_def example_sys_def each_file_def)



text \<open>
  C37: without \<^verbatim>\<open>--apply\<close> nothing is written: whatever other processes keep true of the file system is still true after a
  dry run, on every outcome.
\<close>

theorem dry_run_writes_nothing:
  assumes "\<not> ra_apply a" "\<And>b t f. Q f \<Longrightarrow> Q (es_others env b t f)" "Q (ew_fs w)"
  shows "Q (ew_fs (snd (reconcile env a w)))"
proof -
  have stable: "fs_stable env (unlocked Q)" using assms(2) by (auto simp: fs_stable_def with_lock_def)
  have "keeps (unlocked Q) (reconcile_opened env a source destination backup)" for source destination backup
    unfolding reconcile_opened_def Let_def by (intro keeping stable) (use assms(1) in simp_all)
  then have "wp (reconcile_opened env a source destination backup) (\<lambda>_ w'. Q (ew_fs w')) w" for source destination backup
    by (rule wp_mono [OF keepsD]) (use assms(3) in \<open>auto simp: with_lock_def\<close>)
  then have "wp (reconcile env a) (\<lambda>_ w'. Q (ew_fs w')) w"
    using assms(3) by (intro wp_reconcile)
  then show ?thesis by (simp add: wp_def)
qed

theorem dry_run_writes_nothing_witness:
  "ew_fs (snd (reconcile (example_sys None) (example_args False) example_world)) = ew_fs example_world"
  by (rule dry_run_writes_nothing [where Q = "\<lambda>f. f = ew_fs example_world"]) (simp_all add: example_sys_def example_args_def)

end
