(* ===== verification/Secure_Receipt.thy ===== *)
theory Secure_Receipt
  imports Env_World
begin

unbundle bit_operations_syntax

text \<open>
  \<^verbatim>\<open>scripts/ops/weltgewebe_secure_receipt_io.py\<close>: bounded reading and atomic writing of JSON receipts, on the file system of
  \<open>Env_World\<close>. What opening the parent path finds is the parameter \<open>lookup\<close> (intermediate symbolic links are the operating
  system's matter; the last component is not followed); \<^verbatim>\<open>json.loads\<close> and \<^verbatim>\<open>json.dumps\<close> are parameters.
\<close>

section \<open>Constants and errors\<close>

definition DEFAULT_MAX_BYTES :: int where
  "DEFAULT_MAX_BYTES = 1024 * 1024"

definition failX :: "bool \<Rightarrow> env_exc \<Rightarrow> unit env_io" where
  "failX c e = (if c then raiseX e else retX ())"

fun exc_str :: "env_exc \<Rightarrow> string" where
  "exc_str (ReconcileError m) = m"
| "exc_str (SecureMetadataError m) = m"
| "exc_str (SecurePayloadError m) = m"
| "exc_str (ValueErr m) = m"
| "exc_str (OSErr m) = m"
| "exc_str (FileNotFoundErr m) = m"
| "exc_str (OtherExc m) = m"

definition reject_duplicate_json_keys :: "(string \<times> json) list \<Rightarrow> env_exc + jobject" where
  "reject_duplicate_json_keys pairs =
     foldE (\<lambda>payload (key, v).
        if key \<in> set (keys_of payload) then Inl (SecurePayloadError (''receipt payload contains duplicate key: '' @ key))
        else Inr (dict_set key v payload)) [] pairs"

section \<open>System calls\<close>

text \<open>\<^verbatim>\<open>st_nlink\<close> of a file: how many names it has; \<^verbatim>\<open>st_size\<close> is the length of its bytes.\<close>

definition link_count :: "nat \<Rightarrow> env_fs \<Rightarrow> nat" where
  "link_count i f = length (filter (\<lambda>k. map_of (ef_entries f) k = Some i) (remdups (map fst (ef_entries f))))"

record file_status =
  fs_stat :: plan_stat
  fs_nlink :: nat
  fs_size :: int

definition os_fstat_file :: "env_sys \<Rightarrow> nat \<Rightarrow> file_status env_io" where
  "os_fstat_file env fd = sys_read env (\<lambda>t f.
     case map_of (ef_inodes f) fd of
       None \<Rightarrow> Inl (OSErr ''Stale file handle'')
     | Some nd \<Rightarrow> Inr \<lparr>fs_stat = in_stat nd, fs_nlink = link_count fd f, fs_size = int (length (in_bytes nd))\<rparr>)"

text \<open>
  \<^verbatim>\<open>os.read(fd, n)\<close> at a position: at most \<open>n\<close> bytes, possibly fewer, and none only at the end of the file.
\<close>

definition os_read_at :: "env_sys \<Rightarrow> nat \<Rightarrow> nat \<Rightarrow> nat \<Rightarrow> string env_io" where
  "os_read_at env fd pos n = sys_read env (\<lambda>t f.
     case map_of (ef_inodes f) fd of
       None \<Rightarrow> Inl (OSErr ''Stale file handle'')
     | Some nd \<Rightarrow> Inr (take (min n (max 1 (es_written env t))) (drop pos (in_bytes nd))))"

definition overwrite_at :: "nat \<Rightarrow> string \<Rightarrow> string \<Rightarrow> string" where
  "overwrite_at pos data old = take pos (old @ replicate (pos - length old) CHR 0x00) @ data @ drop (pos + length data) old"

text \<open>\<^verbatim>\<open>os.write(fd, data)\<close> at a position: the number of bytes written, which may be small; a failure may leave a part.\<close>

definition os_write_at :: "env_sys \<Rightarrow> nat \<Rightarrow> nat \<Rightarrow> string \<Rightarrow> nat env_io" where
  "os_write_at env fd pos data =
     (let part = (\<lambda>t. take (es_written env t) data) in
      sysX env
        (\<lambda>t. map_inode fd (\<lambda>nd. nd\<lparr>in_bytes := overwrite_at pos (part t) (in_bytes nd)\<rparr>))
        (\<lambda>t f. (Inr (length (part t)), map_inode fd (\<lambda>nd. nd\<lparr>in_bytes := overwrite_at pos (part t) (in_bytes nd)\<rparr>) f)))"

section \<open>Directories\<close>

definition open_secure_directory :: "env_sys \<Rightarrow> (env_fs \<Rightarrow> env_exc + nat) \<Rightarrow> string \<Rightarrow> int \<Rightarrow> int \<Rightarrow> nat env_io" where
  "open_secure_directory env lookup shown expected_uid forbidden_mode_bits =
     bindX (tryX (sys_read env (\<lambda>t. lookup)) (\<lambda>e. raiseX (if is_os_error e
        then SecureMetadataError (''receipt directory cannot be opened safely: '' @ shown @ '': '' @ exc_str e) else e))) (\<lambda>directory_fd.
     bindX (os_fstat env directory_fd) (\<lambda>metadata.
     bindX (failX (\<not> is_directory metadata) (SecureMetadataError (''receipt directory is not a directory: '' @ shown))) (\<lambda>_.
     bindX (failX (ps_uid metadata \<noteq> expected_uid) (SecureMetadataError (''receipt directory has unexpected owner: '' @ shown))) (\<lambda>_.
     bindX (failX (ps_mode metadata AND forbidden_mode_bits \<noteq> 0) (SecureMetadataError (''receipt directory has unsafe mode: '' @ shown))) (\<lambda>_.
     retX directory_fd)))))"

definition validate_secure_directory :: "env_sys \<Rightarrow> (env_fs \<Rightarrow> env_exc + nat) \<Rightarrow> string \<Rightarrow> int \<Rightarrow> int \<Rightarrow> unit env_io" where
  "validate_secure_directory env lookup shown expected_uid forbidden_mode_bits =
     bindX (open_secure_directory env lookup shown expected_uid forbidden_mode_bits) (\<lambda>_. retX ())"

section \<open>Reading\<close>

definition READ_CHUNK :: nat where
  "READ_CHUNK = 65536"

lemma os_read_at_chunk: "os_read_at env fd pos n w = (Done chunk, w') \<Longrightarrow> length chunk \<le> n"
  by (auto simp: os_read_at_def sys_read_def sysX_def Let_def split: fault.splits option.splits)

text \<open>\<^verbatim>\<open>while remaining > 0\<close>: every round takes at least one byte off what remains.\<close>

function read_loop :: "env_sys \<Rightarrow> nat \<Rightarrow> nat \<Rightarrow> string \<Rightarrow> string env_io" where
  "read_loop env fd remaining acc w =
     (if remaining = 0 then (Done acc, w)
      else
        (case os_read_at env fd (length acc) (min READ_CHUNK remaining) w of
           (Raised e, w1) \<Rightarrow> (Raised e, w1)
         | (Killed, w1) \<Rightarrow> (Killed, w1)
         | (Done chunk, w1) \<Rightarrow>
             if chunk = [] then (Done acc, w1)
             else read_loop env fd (remaining - length chunk) (acc @ chunk) w1))"
  by pat_completeness auto
termination
  by (relation "measure (\<lambda>(env, fd, remaining, acc, w). remaining)") auto

declare read_loop.simps [simp del]

definition check_receipt_file :: "string \<Rightarrow> int \<Rightarrow> int \<Rightarrow> int \<Rightarrow> file_status \<Rightarrow> unit env_io" where
  "check_receipt_file shown expected_uid forbidden_mode_bits max_bytes metadata =
     bindX (failX (\<not> is_regular (fs_stat metadata)) (SecureMetadataError (''receipt is not a regular file: '' @ shown))) (\<lambda>_.
     bindX (failX (ps_uid (fs_stat metadata) \<noteq> expected_uid) (SecureMetadataError (''receipt has unexpected owner: '' @ shown))) (\<lambda>_.
     bindX (failX (ps_mode (fs_stat metadata) AND forbidden_mode_bits \<noteq> 0) (SecureMetadataError (''receipt has unsafe mode: '' @ shown))) (\<lambda>_.
     bindX (failX (fs_nlink metadata \<noteq> 1) (SecureMetadataError (''receipt has unexpected link count: '' @ shown))) (\<lambda>_.
     failX (fs_size metadata > max_bytes) (SecureMetadataError (''receipt exceeds the byte limit: '' @ shown))))))"

text \<open>The bytes of a receipt, or None for a missing one that may be missing.\<close>

definition read_receipt_bytes ::
  "env_sys \<Rightarrow> (env_fs \<Rightarrow> env_exc + nat) \<Rightarrow> string \<Rightarrow> string \<Rightarrow> string \<Rightarrow> int \<Rightarrow> int \<Rightarrow> int \<Rightarrow> bool \<Rightarrow> string option env_io" where
  "read_receipt_bytes env lookup parent name shown expected_uid forbidden_mode_bits max_bytes missing_ok =
     bindX (failX (max_bytes \<le> 0) (ValueErr ''max_bytes must be positive'')) (\<lambda>_.
     bindX (open_secure_directory env lookup parent expected_uid forbidden_mode_bits) (\<lambda>directory_fd.
     bindX (tryX (bindX (os_open_at env directory_fd name) (\<lambda>fd. retX (Some fd))) (\<lambda>e.
        case e of
          FileNotFoundErr _ \<Rightarrow> if missing_ok then retX None else raiseX e
        | _ \<Rightarrow> raiseX (if is_os_error e then SecureMetadataError (''receipt cannot be opened safely: '' @ shown @ '': '' @ exc_str e) else e))) (\<lambda>opened.
     case opened of
       None \<Rightarrow> retX None
     | Some file_fd \<Rightarrow>
         bindX (os_fstat_file env file_fd) (\<lambda>metadata.
         bindX (check_receipt_file shown expected_uid forbidden_mode_bits max_bytes metadata) (\<lambda>_.
         bindX (read_loop env file_fd (nat (max_bytes + 1)) []) (\<lambda>raw.
         bindX (failX (int (length raw) > max_bytes) (SecureMetadataError (''receipt exceeds the byte limit: '' @ shown))) (\<lambda>_.
         retX (Some raw))))))))"

text \<open>
  \<^verbatim>\<open>json.loads\<close> gives a value, a syntax error as a message, or what the hook raised.
\<close>

type_synonym json_reader = "((string \<times> json) list \<Rightarrow> env_exc + jobject) \<Rightarrow> string \<Rightarrow> (string + env_exc) + json"

definition decode_receipt :: "json_reader \<Rightarrow> string \<Rightarrow> bool \<Rightarrow> string \<Rightarrow> env_exc + json" where
  "decode_receipt loads shown require_object raw =
     (let invalid = (\<lambda>msg. SecurePayloadError (''receipt payload is invalid: '' @ shown @ '': '' @ msg)) in
      case utf8_decode raw of
        None \<Rightarrow> Inl (invalid ''not UTF-8'')
      | Some decoded \<Rightarrow>
          (case loads reject_duplicate_json_keys decoded of
             Inl (Inl msg) \<Rightarrow> Inl (invalid msg)
           | Inl (Inr e) \<Rightarrow> Inl e
           | Inr payload \<Rightarrow>
               if require_object \<and> \<not> is_dict payload then Inl (SecurePayloadError (''receipt payload is not an object: '' @ shown))
               else Inr payload))"

definition read_secure_json ::
  "env_sys \<Rightarrow> json_reader \<Rightarrow> (env_fs \<Rightarrow> env_exc + nat) \<Rightarrow> string \<Rightarrow> string \<Rightarrow> string \<Rightarrow> int \<Rightarrow> int \<Rightarrow> int \<Rightarrow> bool \<Rightarrow> bool \<Rightarrow> json option env_io" where
  "read_secure_json env loads lookup parent name shown expected_uid forbidden_mode_bits max_bytes missing_ok require_object =
     bindX (read_receipt_bytes env lookup parent name shown expected_uid forbidden_mode_bits max_bytes missing_ok) (\<lambda>read.
     case read of
       None \<Rightarrow> retX None
     | Some raw \<Rightarrow> (case decode_receipt loads shown require_object raw of Inl e \<Rightarrow> raiseX e | Inr payload \<Rightarrow> retX (Some payload)))"

section \<open>Writing\<close>

function write_loop :: "env_sys \<Rightarrow> nat \<Rightarrow> string \<Rightarrow> nat \<Rightarrow> unit env_io" where
  "write_loop env fd encoded offset w =
     (if length encoded \<le> offset then (Done (), w)
      else
        (case os_write_at env fd offset (drop offset encoded) w of
           (Raised e, w1) \<Rightarrow> (Raised e, w1)
         | (Killed, w1) \<Rightarrow> (Killed, w1)
         | (Done written, w1) \<Rightarrow>
             if written = 0 then (Raised (OSErr ''short write while storing receipt''), w1)
             else write_loop env fd encoded (offset + written) w1))"
  by pat_completeness auto
termination
  by (relation "measure (\<lambda>(env, fd, encoded, offset, w). length encoded - offset)") auto

declare write_loop.simps [simp del]

definition check_temporary :: "int \<Rightarrow> file_status \<Rightarrow> unit env_io" where
  "check_temporary expected_uid metadata =
     bindX (failX (\<not> is_regular (fs_stat metadata)) (SecureMetadataError ''temporary receipt is not a regular file'')) (\<lambda>_.
     bindX (failX (ps_uid (fs_stat metadata) \<noteq> expected_uid) (SecureMetadataError ''temporary receipt has unexpected owner'')) (\<lambda>_.
     bindX (failX (fs_nlink metadata \<noteq> 1) (SecureMetadataError ''temporary receipt has unexpected link count'')) (\<lambda>_.
     failX (ps_mode (fs_stat metadata) AND 511 \<noteq> 384) (SecureMetadataError ''temporary receipt has unexpected mode''))))"

definition store_temporary :: "env_sys \<Rightarrow> nat \<Rightarrow> string \<Rightarrow> int \<Rightarrow> unit env_io" where
  "store_temporary env fd encoded expected_uid =
     bindX (os_fchmod env fd 384) (\<lambda>_.
     bindX (write_loop env fd encoded 0) (\<lambda>_.
     bindX (os_fsync env) (\<lambda>_.
     bindX (os_fstat_file env fd) (check_temporary expected_uid))))"

definition temporary_name :: "env_sys \<Rightarrow> string \<Rightarrow> string \<Rightarrow> string" where
  "temporary_name env name token = ''.'' @ name @ ''.'' @ str_of_nat (es_pid env) @ ''.'' @ token @ ''.tmp''"

text \<open>The bytes of a payload, or why it has none.\<close>

definition encode_receipt :: "(json \<Rightarrow> string + string) \<Rightarrow> json \<Rightarrow> int \<Rightarrow> env_exc + string" where
  "encode_receipt dumps payload max_bytes =
     (case dumps payload of
        Inl msg \<Rightarrow> Inl (SecurePayloadError (''receipt payload is not serializable: '' @ msg))
      | Inr printed \<Rightarrow>
          (let encoded = utf8_encode (printed @ [CHR 0x0A]) in
           if int (length encoded) > max_bytes then Inl (SecurePayloadError ''receipt payload exceeds the byte limit'') else Inr encoded))"

text \<open>Replacing the receipt, once its bytes and its directory are there.\<close>

definition replace_receipt :: "env_sys \<Rightarrow> nat \<Rightarrow> string \<Rightarrow> string \<Rightarrow> int \<Rightarrow> unit env_io" where
  "replace_receipt env directory_fd name encoded expected_uid =
     bindX (observe env (es_token env)) (\<lambda>token.
     let temporary = temporary_name env name token in
     bindX (os_create_at env directory_fd temporary) (\<lambda>fd.
     bindX (tryX
        (bindX (store_temporary env fd encoded expected_uid) (\<lambda>_. os_replace_at env directory_fd temporary name))
        (\<lambda>e. bindX (ignore_missingX (os_unlink_at env directory_fd temporary)) (\<lambda>_. raiseX e))) (\<lambda>_.
     os_fsync env)))"

definition write_secure_json ::
  "env_sys \<Rightarrow> (json \<Rightarrow> string + string) \<Rightarrow> (env_fs \<Rightarrow> env_exc + nat) \<Rightarrow> string \<Rightarrow> string \<Rightarrow> json \<Rightarrow> int \<Rightarrow> int \<Rightarrow> int \<Rightarrow> int \<Rightarrow> unit env_io" where
  "write_secure_json env dumps lookup parent name payload expected_uid forbidden_directory_mode_bits mode max_bytes =
     bindX (failX (mode \<noteq> 384) (ValueErr ''secure receipts require mode 0600'')) (\<lambda>_.
     bindX (failX (max_bytes \<le> 0) (ValueErr ''max_bytes must be positive'')) (\<lambda>_.
     case encode_receipt dumps payload max_bytes of
       Inl e \<Rightarrow> raiseX e
     | Inr encoded \<Rightarrow>
         bindX (open_secure_directory env lookup parent expected_uid forbidden_directory_mode_bits) (\<lambda>directory_fd.
         replace_receipt env directory_fd name encoded expected_uid)))"

section \<open>Other processes\<close>

text \<open>
  Other processes keep the condition, and leave the files alone that only the writer's own names lead to: the names carry
  its process identifier.
\<close>

definition leaves_own :: "env_sys \<Rightarrow> (nat \<times> string \<Rightarrow> bool) \<Rightarrow> bool" where
  "leaves_own env own \<longleftrightarrow> (\<forall>b t f k i. own k \<and> map_of (ef_entries f) k = Some i \<and> own_inode own i f \<longrightarrow>
     map_of (ef_entries (es_others env b t f)) k = Some i \<and> own_inode own i (es_others env b t f) \<and>
     map_of (ef_inodes (es_others env b t f)) i = map_of (ef_inodes f) i)"

definition keeps_files :: "env_sys \<Rightarrow> (nat \<times> string \<Rightarrow> bool) \<Rightarrow> (nat \<times> string \<Rightarrow> string option \<Rightarrow> bool) \<Rightarrow> bool" where
  "keeps_files env own P \<longleftrightarrow> (\<forall>b t f. each_file own P f \<longrightarrow> each_file own P (es_others env b t f))"

abbreviation throughout :: "(env_fs \<Rightarrow> bool) \<Rightarrow> env_world \<Rightarrow> bool" where
  "throughout I \<equiv> with_lock I (\<lambda>_. True)"

text \<open>A temporary file that only its own name leads to, with the bytes written so far.\<close>

definition holding :: "(nat \<times> string \<Rightarrow> bool) \<Rightarrow> (nat \<times> string \<Rightarrow> string option \<Rightarrow> bool) \<Rightarrow> nat \<times> string \<Rightarrow> nat \<Rightarrow> string \<Rightarrow> env_fs \<Rightarrow> bool" where
  "holding own P k fd b f \<longleftrightarrow> each_file own P f \<and> own_inode own fd f \<and> map_of (ef_entries f) k = Some fd \<and>
     map_option in_bytes (map_of (ef_inodes f) fd) = Some b"

lemma stable_files: "keeps_files env own P \<Longrightarrow> fs_stable env (throughout (each_file own P))"
  by (simp add: fs_stable_def with_lock_def keeps_files_def)

lemma stable_holding: "keeps_files env own P \<Longrightarrow> leaves_own env own \<Longrightarrow> own k \<Longrightarrow> fs_stable env (throughout (holding own P k fd b))"
  unfolding fs_stable_def with_lock_def holding_def keeps_files_def leaves_own_def by (cases k) (simp, metis)

lemma holding_files: "throughout (holding own P k fd b) w \<Longrightarrow> throughout (each_file own P) w"
  by (simp add: with_lock_def holding_def)

lemma holding_map_inode:
  assumes "holding own P k fd b f" "\<And>nd. in_bytes (g nd) = h (in_bytes nd)"
  shows "holding own P k fd (h b) (map_inode fd g f)"
  using assms files.fill_own [of own P f fd g] by (auto simp: holding_def map_inode_def update_conv' own_inode_def split: option.splits)

section \<open>The writer\<close>

lemma wp_create_temporary:
  assumes "keeps_files env own P" "own (dir, name)" "throughout (each_file own P) w"
  shows "wp (os_create_at env dir name) (\<lambda>r w'. throughout (each_file own P) w' \<and> (\<forall>fd. r = Done fd \<longrightarrow> throughout (holding own P (dir, name) fd []) w')) w"
  using assms files.add_own [of own P _ "(dir, name)"] own_inode_add_file [of own "(dir, name)"]
  by (auto simp: os_create_at_def wp_sys Let_def with_lock_def keeps_files_def holding_def split: fault.split)
     (simp_all add: add_file_def update_conv' created_file_def)

lemma keeps_fchmod_holding:
  "fs_stable env (throughout (holding own P k fd b)) \<Longrightarrow> keeps (throughout (holding own P k fd b)) (os_fchmod env fd m)"
  using holding_map_inode [where h = "\<lambda>b. b"]
  by (auto simp: keeps_def os_fchmod_def wp_sys Let_def fs_stable_def with_lock_def split: fault.split)

lemma overwrite_at_next: "pos \<le> length e \<Longrightarrow> overwrite_at pos (take k (drop pos e)) (take pos e) = take (pos + length (take k (drop pos e))) e"
  by (auto simp: overwrite_at_def min_def take_add)

lemma wp_write_at:
  assumes "fs_stable env (throughout (holding own P k fd (take pos e)))" "throughout (holding own P k fd (take pos e)) w" "pos \<le> length e"
  shows "wp (os_write_at env fd pos (drop pos e)) (\<lambda>r w'. throughout (each_file own P) w' \<and>
    (\<forall>n. r = Done n \<longrightarrow> pos + n \<le> length e \<and> throughout (holding own P k fd (take (pos + n) e)) w')) w"
proof -
  let ?f = "es_others env (ew_locked w) (ew_time w) (ew_fs w)" and ?part = "take (es_written env (ew_time w)) (drop pos e)"
  have "holding own P k fd (take pos e) ?f" using assms(1,2) by (auto simp: fs_stable_def with_lock_def)
  then have "holding own P k fd (overwrite_at pos ?part (take pos e)) (map_inode fd (\<lambda>nd. nd\<lparr>in_bytes := overwrite_at pos ?part (in_bytes nd)\<rparr>) ?f)"
    by (rule holding_map_inode) simp
  then have next_held: "holding own P k fd (take (pos + length ?part) e) (map_inode fd (\<lambda>nd. nd\<lparr>in_bytes := overwrite_at pos ?part (in_bytes nd)\<rparr>) ?f)"
    unfolding overwrite_at_next [OF assms(3)] .
  have "pos + length ?part \<le> length e" using assms(3) by simp
  with next_held show ?thesis
    by (auto simp: os_write_at_def wp_sys Let_def with_lock_def split: fault.split) (auto simp: holding_def)
qed

lemma wp_write_loop:
  assumes "keeps_files env own P" "leaves_own env own" "own k"
  shows "throughout (holding own P k fd (take pos e)) w \<Longrightarrow> pos \<le> length e \<Longrightarrow>
    wp (write_loop env fd e pos) (\<lambda>r w'. throughout (each_file own P) w' \<and> (r = Done () \<longrightarrow> throughout (holding own P k fd e) w')) w"
  using assms
proof (induction env fd e pos w rule: write_loop.induct)
  case (1 env fd e pos w)
  show ?case
  proof (cases "pos = length e")
    case True
    then show ?thesis using 1(2) holding_files by (subst wp_def) (auto simp: write_loop.simps)
  next
    case False
    then have pos: "\<not> length e \<le> pos" using 1(3) by simp
    obtain r w1 where step: "os_write_at env fd pos (drop pos e) w = (r, w1)" by (cases "os_write_at env fd pos (drop pos e) w")
    note W = wpD [OF wp_write_at [OF stable_holding [OF 1(4-6)] 1(2,3)] step]
    have loop: "write_loop env fd e pos w = (case r of Raised x \<Rightarrow> (Raised x, w1) | Killed \<Rightarrow> (Killed, w1) | Done n \<Rightarrow>
        if n = 0 then (Raised (OSErr ''short write while storing receipt''), w1) else write_loop env fd e (pos + n) w1)"
      by (subst write_loop.simps) (simp only: pos step if_False prod.case)
    show ?thesis
    proof (cases "\<exists>n. r = Done n \<and> n \<noteq> 0")
      case True
      then obtain n where n: "r = Done n" "n \<noteq> 0" by blast
      have "wp (write_loop env fd e (pos + n)) (\<lambda>r w'. throughout (each_file own P) w' \<and> (r = Done () \<longrightarrow> throughout (holding own P k fd e) w')) w1"
        by (rule 1(1) [OF pos step [symmetric] n(1,2)]) (use W n 1(4-6) in auto)
      then show ?thesis using n by (simp add: wp_def loop)
    next
      case False
      then show ?thesis using W by (auto simp: wp_def loop split: outcome.split)
    qed
  qed
qed

definition own_temporary :: "env_sys \<Rightarrow> string \<Rightarrow> nat \<times> string \<Rightarrow> bool" where
  "own_temporary env name k \<longleftrightarrow> (\<exists>token. snd k = temporary_name env name token)"

lemma receipt_not_own: "\<not> own_temporary env name (dir, name)"
  by (auto simp: own_temporary_def temporary_name_def dest: arg_cong [of _ _ length])

lemma keeps_check_temporary [keeping]: "keeps I (check_temporary uid metadata)"
  unfolding check_temporary_def failX_def by (intro keeping)

lemma keeps_open_secure [keeping]: "fs_stable env I \<Longrightarrow> keeps I (open_secure_directory env lookup shown uid bits)"
  unfolding open_secure_directory_def failX_def by (intro keeping)

lemma wp_store_temporary:
  assumes "keeps_files env own P" "leaves_own env own" "own k" "throughout (holding own P k fd []) w"
  shows "wp (store_temporary env fd e uid) (\<lambda>r w'. throughout (each_file own P) w' \<and> (r = Done () \<longrightarrow> throughout (holding own P k fd e) w')) w"
proof -
  note stable = stable_holding [OF assms(1-3)]
  have look: "keeps (throughout (holding own P k fd e)) (bindX (os_fsync env) (\<lambda>_. bindX (os_fstat_file env fd) (check_temporary uid)))"
    unfolding os_fstat_file_def by (intro keeping stable)
  have written: "wp (write_loop env fd e 0) (\<lambda>r w'. throughout (each_file own P) w' \<and> (r = Done () \<longrightarrow> throughout (holding own P k fd e) w')) u"
    if "throughout (holding own P k fd []) u" for u
    by (rule wp_write_loop [OF assms(1-3)]) (use that in simp_all)
  show ?thesis
    unfolding store_temporary_def
  proof (rule wp_bindI [OF keepsD [OF keeps_fchmod_holding [OF stable] assms(4)]], goal_cases)
    case (1 u w1)
    show ?case
      by (rule wp_bindI [OF written [OF 1]]) (auto intro: wp_mono [OF keepsD [OF look]] holding_files)
  qed (auto intro: holding_files)
qed

lemma wp_replace_held:
  assumes "fs_stable env (throughout (holding own P (dir, src) fd e))" "own (dir, src)" "\<not> own (dir, dst)" "P (dir, dst) (Some e)"
    and "throughout (holding own P (dir, src) fd e) w"
  shows "wp (os_replace_at env dir src dst) (\<lambda>_. throughout (each_file own P)) w"
proof -
  let ?f = "es_others env (ew_locked w) (ew_time w) (ew_fs w)"
  have held: "holding own P (dir, src) fd e ?f" using assms(1,5) by (auto simp: fs_stable_def with_lock_def)
  then have content: "file_content (dir, src) ?f = Some e" "each_file own P ?f" by (auto simp: holding_def file_content_def inode_at_def)
  have "(dir, src) \<noteq> (dir, dst)" using assms(2,3) by metis
  with held content have "each_file own P (?f\<lparr>ef_entries := dict_set (dir, dst) fd (AList.delete (dir, src) (ef_entries ?f))\<rparr>)"
    using assms(2,4) by (auto simp: each_file_def file_content_replace holding_def)
  with held content(2) show ?thesis
    by (auto simp: os_replace_at_def wp_sys Let_def with_lock_def holding_def split: fault.split option.split)
qed

lemma wp_replace_receipt:
  assumes "keeps_files env (own_temporary env name) P" "leaves_own env (own_temporary env name)" "P (dir, name) (Some e)"
    and "throughout (each_file (own_temporary env name) P) w"
  shows "wp (replace_receipt env dir name e uid) (\<lambda>_. throughout (each_file (own_temporary env name) P)) w"
proof -
  let ?own = "own_temporary env name" and ?I = "each_file (own_temporary env name) P"
  note stable = stable_files [OF assms(1)]
  have own: "?own (dir, temporary_name env name token)" for token by (auto simp: own_temporary_def)
  have undo: "keeps (throughout ?I) (bindX (ignore_missingX (os_unlink_at env dir (temporary_name env name token))) (\<lambda>_. raiseX x))" for token x
    by (intro keeping files.keeps_unlink stable own)
  have fsync: "keeps (throughout ?I) (os_fsync env)" by (intro keeping stable)
  have body: "wp (tryX (bindX (store_temporary env fd e uid) (\<lambda>_. os_replace_at env dir (temporary_name env name token) name))
      (\<lambda>x. bindX (ignore_missingX (os_unlink_at env dir (temporary_name env name token))) (\<lambda>_. raiseX x))) (\<lambda>_. throughout ?I) u"
    if "throughout (holding ?own P (dir, temporary_name env name token) fd []) u" for u fd token
  proof -
    have "wp (bindX (store_temporary env fd e uid) (\<lambda>_. os_replace_at env dir (temporary_name env name token) name)) (\<lambda>_. throughout ?I) u"
      by (rule wp_bindI [OF wp_store_temporary [OF assms(1,2) own that]])
         (auto intro: wp_replace_held [where fd = fd, OF stable_holding [OF assms(1,2) own] own receipt_not_own assms(3)])
    then show ?thesis unfolding wp_try by (rule wp_mono) (simp split: outcome.split add: keepsD [OF undo])
  qed
  show ?thesis
    unfolding replace_receipt_def Let_def
  proof (rule wp_bindI [OF keepsD [OF keeps_reads(8) [OF stable] assms(4)]], goal_cases)
    case (1 token w1)
    show ?case
      by (rule wp_bindI [OF wp_create_temporary [OF assms(1) own 1]], rule wp_bindI [OF body]) (auto intro: keepsD [OF fsync])
  qed simp_all
qed

section \<open>Reading back\<close>

text \<open>No failures and no other processes.\<close>

definition calm_sys :: "env_sys \<Rightarrow> bool" where
  "calm_sys env \<longleftrightarrow> (\<forall>t. es_fault env t = NoFault) \<and> (\<forall>b t f. es_others env b t f = f)"

lemma calm_sysX: "calm_sys env \<Longrightarrow> sysX env spoil act w = (case fst (act (ew_time w) (ew_fs w)) of Inl e \<Rightarrow> Raised e | Inr a \<Rightarrow> Done a,
    w\<lparr>ew_time := Suc (ew_time w), ew_fs := snd (act (ew_time w) (ew_fs w))\<rparr>)"
  by (simp add: sysX_def calm_sys_def Let_def split: prod.split sum.split)

lemma calm_sys_read: "calm_sys env \<Longrightarrow> sys_read env look w = (case look (ew_time w) (ew_fs w) of Inl e \<Rightarrow> Raised e | Inr a \<Rightarrow> Done a,
    w\<lparr>ew_time := Suc (ew_time w)\<rparr>)"
  by (simp add: sys_read_def calm_sysX)

lemma failX_returns [returns]: "failX c e w = (Done u, w') \<longleftrightarrow> \<not> c \<and> w' = w"
  by (auto simp: failX_def returns)

text \<open>The file system of before, with one new file: its name, inode and content.\<close>

definition with_new :: "env_fs \<Rightarrow> nat \<times> string \<Rightarrow> nat \<Rightarrow> inode \<Rightarrow> env_fs \<Rightarrow> bool" where
  "with_new f0 k fd nd f \<longleftrightarrow> (\<forall>j. map_of (ef_entries f) j = (if j = k then Some fd else map_of (ef_entries f0) j)) \<and>
     (\<forall>i. map_of (ef_inodes f) i = (if i = fd then Some nd else map_of (ef_inodes f0) i)) \<and>
     map_of (ef_inodes f0) fd = None \<and> (\<forall>j. map_of (ef_entries f0) j \<noteq> Some fd)"

lemma with_new_map_inode: "with_new f0 k fd nd f \<Longrightarrow> with_new f0 k fd (g nd) (map_inode fd g f)"
  by (auto simp: with_new_def map_inode_def update_conv' split: option.split)

lemma create_returns:
  assumes "calm_sys env" "os_create_at env dir name w = (Done fd, w')"
  shows "\<exists>nd. with_new (ew_fs w) (dir, name) fd nd (ew_fs w') \<and> in_bytes nd = []"
  using assms fresh_inode_new [of "ew_fs w"]
  by (auto simp: os_create_at_def calm_sysX with_new_def add_file_def update_conv' created_file_def split: if_splits)

lemma write_loop_returns:
  assumes "calm_sys env"
  shows "write_loop env fd e pos w = (Done (), w') \<Longrightarrow> with_new f0 k fd nd (ew_fs w) \<Longrightarrow> in_bytes nd = take pos e \<Longrightarrow> pos \<le> length e \<Longrightarrow>
    \<exists>nd'. with_new f0 k fd nd' (ew_fs w') \<and> in_bytes nd' = e \<and> in_stat nd' = in_stat nd"
  using assms
proof (induction env fd e pos w arbitrary: nd rule: write_loop.induct)
  case (1 env fd e pos w)
  show ?case
  proof (cases "length e \<le> pos")
    case True
    then show ?thesis using 1(2-5) by (auto simp: write_loop.simps [of env fd e pos w])
  next
    case False
    let ?part = "take (es_written env (ew_time w)) (drop pos e)"
    let ?g = "\<lambda>nd. nd\<lparr>in_bytes := overwrite_at pos ?part (in_bytes nd)\<rparr>"
    let ?w1 = "w\<lparr>ew_time := Suc (ew_time w), ew_fs := map_inode fd ?g (ew_fs w)\<rparr>"
    have step: "os_write_at env fd pos (drop pos e) w = (Done (length ?part), ?w1)"
      using 1(6) by (simp add: os_write_at_def calm_sysX Let_def)
    have "write_loop env fd e pos w = (if length ?part = 0 then (Raised (OSErr ''short write while storing receipt''), ?w1)
        else write_loop env fd e (pos + length ?part) ?w1)"
      by (subst write_loop.simps) (simp only: False step if_False prod.case outcome.case)
    with 1(2) have loop: "length ?part \<noteq> 0" "write_loop env fd e (pos + length ?part) ?w1 = (Done (), w')"
      by (simp_all only: split: if_splits) simp_all
    have "with_new f0 k fd (?g nd) (ew_fs ?w1)" using with_new_map_inode [OF 1(3), of ?g] by simp
    from 1(1) [OF False step [symmetric] refl loop(1,2) this] show ?thesis
      using 1(4-6) overwrite_at_next [OF 1(5), of "es_written env (ew_time w)"] by simp
  qed
qed

lemma take_extend:
  assumes "acc = take (length acc) b"
  shows "acc @ take m (drop (length acc) b) = take (length (acc @ take m (drop (length acc) b))) b"
proof -
  obtain n where "acc = take n b" "n \<le> length b" using assms by (metis length_take min.cobounded1)
  then show ?thesis by (auto simp: take_add min_def)
qed

lemma read_loop_calm:
  assumes "calm_sys env"
  shows "map_of (ef_inodes (ew_fs w)) fd = Some nd \<Longrightarrow> acc = take (length acc) (in_bytes nd) \<Longrightarrow> length (in_bytes nd) < remaining + length acc \<Longrightarrow>
    \<exists>w'. read_loop env fd remaining acc w = (Done (in_bytes nd), w')"
  using assms
proof (induction env fd remaining acc w rule: read_loop.induct)
  case (1 env fd remaining acc w)
  have acc: "length acc \<le> length (in_bytes nd)" using 1(3) by (metis length_take min.cobounded1)
  then have rem: "remaining \<noteq> 0" using 1(4) by simp
  let ?chunk = "take (min (min READ_CHUNK remaining) (max 1 (es_written env (ew_time w)))) (drop (length acc) (in_bytes nd))"
  have step: "os_read_at env fd (length acc) (min READ_CHUNK remaining) w = (Done ?chunk, w\<lparr>ew_time := Suc (ew_time w)\<rparr>)"
    using 1(2,5) by (simp add: os_read_at_def calm_sys_read)
  have loop: "read_loop env fd remaining acc w = (if ?chunk = [] then (Done acc, w\<lparr>ew_time := Suc (ew_time w)\<rparr>)
      else read_loop env fd (remaining - length ?chunk) (acc @ ?chunk) (w\<lparr>ew_time := Suc (ew_time w)\<rparr>))"
    by (subst read_loop.simps) (simp only: rem step if_False prod.case outcome.case)
  show ?case
  proof (cases "?chunk = []")
    case True
    then have "length (in_bytes nd) \<le> length acc" using rem by (auto simp: READ_CHUNK_def)
    with 1(3) have "acc = in_bytes nd" by (metis take_all)
    then show ?thesis unfolding loop if_P [OF True] by blast
  next
    case False
    have "length ?chunk \<le> remaining" by simp
    then have more: "length (in_bytes nd) < remaining - length ?chunk + length (acc @ ?chunk)"
      using 1(4) unfolding length_append by linarith
    have fd: "map_of (ef_inodes (ew_fs (w\<lparr>ew_time := Suc (ew_time w)\<rparr>))) fd = Some nd" using 1(2) by simp
    show ?thesis
      unfolding loop if_not_P [OF False] by (rule 1(1) [OF rem step [symmetric] refl False fd take_extend [OF 1(3)] more 1(5)])
  qed
qed

lemma link_count_card: "link_count i f = card {k. map_of (ef_entries f) k = Some i}"
proof -
  have "{k. map_of (ef_entries f) k = Some i} = set (filter (\<lambda>k. map_of (ef_entries f) k = Some i) (remdups (map fst (ef_entries f))))"
    by (auto simp: dom_map_of_conv_image_fst [symmetric])
  then show ?thesis by (simp only: link_count_def) (metis distinct_card distinct_filter distinct_remdups)
qed

text \<open>After the replacement the receipt's name leads to the new file, and nothing else does.\<close>

definition installed :: "env_fs \<Rightarrow> nat \<times> string \<Rightarrow> nat \<Rightarrow> inode \<Rightarrow> env_fs \<Rightarrow> bool" where
  "installed f0 k fd nd f \<longleftrightarrow> map_of (ef_entries f) k = Some fd \<and> map_of (ef_inodes f) fd = Some nd \<and> link_count fd f = 1 \<and>
     (\<forall>i. map_of (ef_inodes f0) i \<noteq> None \<longrightarrow> map_of (ef_inodes f) i = map_of (ef_inodes f0) i)"

lemma replace_installs:
  assumes "calm_sys env" "os_replace_at env dir src dst w = (Done (), w')" "with_new f0 (dir, src) fd nd (ew_fs w)" "src \<noteq> dst"
  shows "installed f0 (dir, dst) fd nd (ew_fs w')"
proof -
  let ?f = "ew_fs w"
  have fs: "ew_fs w' = ?f\<lparr>ef_entries := dict_set (dir, dst) fd (AList.delete (dir, src) (ef_entries ?f))\<rparr>"
    using assms by (auto simp: os_replace_at_def calm_sysX with_new_def split: option.splits if_splits sum.splits)
  have only: "map_of (ef_entries ?f) k = Some fd \<longleftrightarrow> k = (dir, src)" for k
    using assms(3) by (auto simp: with_new_def simp del: split_paired_All)
  have "map_of (ef_entries (ew_fs w')) k = Some fd \<longleftrightarrow> k = (dir, dst)" for k
    using only [of k] by (auto simp: fs update_conv' delete_conv')
  then have "{k. map_of (ef_entries (ew_fs w')) k = Some fd} = {(dir, dst)}" by blast
  then have "link_count fd (ew_fs w') = 1" by (simp only: link_count_card) simp
  then show ?thesis using assms(3) by (auto simp: installed_def fs update_conv' with_new_def)
qed

lemma store_temporary_returns:
  assumes "calm_sys env" "store_temporary env fd e uid w = (Done (), w')" "with_new f0 k fd nd (ew_fs w)" "in_bytes nd = []"
  shows "\<exists>nd'. with_new f0 k fd nd' (ew_fs w') \<and> in_bytes nd' = e \<and> is_regular (in_stat nd') \<and> ps_uid (in_stat nd') = uid \<and> ps_mode (in_stat nd') AND 511 = 384"
proof -
  let ?g = "\<lambda>nd. nd\<lparr>in_stat := (in_stat nd)\<lparr>ps_mode := mode_kind (ps_mode (in_stat nd)) * 4096 + 384\<rparr>\<rparr>"
  obtain w1 w2 w3 w4 status where 1: "os_fchmod env fd 384 w = (Done (), w1)" and 2: "write_loop env fd e 0 w1 = (Done (), w2)"
    and 3: "os_fsync env w2 = (Done (), w3)" and 4: "os_fstat_file env fd w3 = (Done status, w4)" and 5: "check_temporary uid status w4 = (Done (), w')"
    using assms(2) by (auto simp: store_temporary_def returns)
  have "ew_fs w1 = map_inode fd ?g (ew_fs w)" using 1 assms(1) by (auto simp: os_fchmod_def calm_sysX)
  then have "with_new f0 k fd (?g nd) (ew_fs w1)" using with_new_map_inode [OF assms(3), of ?g] by simp
  from write_loop_returns [OF assms(1) 2 this] assms(4) obtain nd' where nd': "with_new f0 k fd nd' (ew_fs w2)" "in_bytes nd' = e" by auto
  have w: "ew_fs w3 = ew_fs w2" "ew_fs w4 = ew_fs w2" "fs_stat status = in_stat nd'"
    using 3 4 assms(1) nd'(1) by (auto simp: os_fsync_def os_fstat_file_def calm_sys_read with_new_def split: option.splits sum.splits)
  have "w' = w4 \<and> is_regular (in_stat nd') \<and> ps_uid (in_stat nd') = uid \<and> ps_mode (in_stat nd') AND 511 = 384"
    using 5 w(3) by (auto simp: check_temporary_def returns)
  then show ?thesis using nd' w by auto
qed

lemma replace_receipt_returns:
  assumes "calm_sys env" "replace_receipt env dir name e uid w = (Done (), w')"
  shows "\<exists>fd nd. installed (ew_fs w) (dir, name) fd nd (ew_fs w') \<and> in_bytes nd = e \<and> is_regular (in_stat nd) \<and> ps_uid (in_stat nd) = uid \<and>
    ps_mode (in_stat nd) AND 511 = 384"
proof -
  obtain token w1 fd w2 w3 w4 where 1: "observe env (es_token env) w = (Done token, w1)"
    and 2: "os_create_at env dir (temporary_name env name token) w1 = (Done fd, w2)" and 3: "store_temporary env fd e uid w2 = (Done (), w3)"
    and 4: "os_replace_at env dir (temporary_name env name token) name w3 = (Done (), w4)" and 5: "os_fsync env w4 = (Done (), w')"
    using assms(2) by (auto simp: replace_receipt_def Let_def returns)
  have w: "ew_fs w1 = ew_fs w" "ew_fs w' = ew_fs w4" using 1 5 assms(1) by (auto simp: observe_def os_fsync_def calm_sys_read)
  obtain nd where "with_new (ew_fs w) (dir, temporary_name env name token) fd nd (ew_fs w2)" "in_bytes nd = []"
    using create_returns [OF assms(1) 2] w by auto
  from store_temporary_returns [OF assms(1) 3 this] obtain nd' where
    "with_new (ew_fs w) (dir, temporary_name env name token) fd nd' (ew_fs w3)" and nd': "in_bytes nd' = e" "is_regular (in_stat nd')"
    "ps_uid (in_stat nd') = uid" "ps_mode (in_stat nd') AND 511 = 384" by blast
  moreover have "temporary_name env name token \<noteq> name" by (auto simp: temporary_name_def dest: arg_cong [of _ _ length])
  ultimately have "installed (ew_fs w) (dir, name) fd nd' (ew_fs w4)" using replace_installs [OF assms(1) 4] by blast
  with nd' w show ?thesis by auto
qed

lemma open_secure_returns:
  assumes "calm_sys env" "open_secure_directory env lookup shown uid bits w = (Done dir, w')"
  shows "ew_fs w' = ew_fs w \<and> lookup (ew_fs w) = Inr dir \<and> (\<exists>nd. map_of (ef_inodes (ew_fs w)) dir = Some nd \<and> is_directory (in_stat nd) \<and>
    ps_uid (in_stat nd) = uid \<and> ps_mode (in_stat nd) AND bits = 0)"
  using assms
  by (auto simp: open_secure_directory_def returns tryX_def raiseX_def calm_sys_read os_fstat_def split: prod.splits outcome.splits sum.splits option.splits)

lemma open_secure_calm:
  assumes "calm_sys env" "lookup (ew_fs w) = Inr dir" "map_of (ef_inodes (ew_fs w)) dir = Some nd" "is_directory (in_stat nd)"
    "ps_uid (in_stat nd) = uid" "ps_mode (in_stat nd) AND bits = 0"
  shows "\<exists>w'. open_secure_directory env lookup shown uid bits w = (Done dir, w') \<and> ew_fs w' = ew_fs w"
  using assms by (simp add: open_secure_directory_def bindX_def tryX_def failX_def retX_def calm_sys_read os_fstat_def)

section \<open>A concrete machine\<close>

text \<open>A directory with one receipt; reads and writes move three bytes at a time, and the process may die at one call.\<close>

definition receipt_sys :: "nat option \<Rightarrow> env_sys" where
  "receipt_sys dies =
     \<lparr>es_fault = (\<lambda>t. if Some t = dies then Dies else NoFault), es_written = (\<lambda>t. 3), es_others = (\<lambda>b t f. f), es_lock_free = (\<lambda>t. True),
      es_clock = (\<lambda>t. 0), es_ino = (\<lambda>t. 100), es_umask = 18, es_euid = 0, es_egid = 0, es_pid = 4, es_utc = (\<lambda>t. []), es_token = (\<lambda>t. ''a''),
      es_sha256 = (\<lambda>s. s)\<rparr>"

definition receipt_world :: env_world where
  "receipt_world =
     \<lparr>ew_time = 0, ew_now = 0,
      ew_fs = \<lparr>ef_entries = [((1, ''r''), 2)],
        ef_inodes = [(1, \<lparr>in_stat = \<lparr>ps_dev = 1, ps_ino = 10, ps_uid = 0, ps_gid = 0, ps_mode = 16384 + 493\<rparr>, in_bytes = []\<rparr>),
          (2, \<lparr>in_stat = \<lparr>ps_dev = 1, ps_ino = 11, ps_uid = 0, ps_gid = 0, ps_mode = 32768 + 384\<rparr>, in_bytes = ''old''\<rparr>)]\<rparr>, ew_locked = False\<rparr>"

abbreviation write_example :: "nat option \<Rightarrow> unit env_io" where
  "write_example dies \<equiv> write_secure_json (receipt_sys dies) (\<lambda>v. Inr ''{}'') (\<lambda>f. Inr 1) ''/d'' ''r'' (JDict []) 0 18 384 1024"

lemma receipt_run: "fst (write_example None receipt_world) = Done ()"
  by code_simp

lemma receipt_encoded: "encode_receipt (\<lambda>v. Inr ''{}'') (JDict []) 1024 = Inr ''{}\<newline>''"
  by code_simp

section \<open>Properties\<close>

text \<open>
  C26: a receipt is replaced atomically. Take any condition on files that the new receipt satisfies and that other processes
  keep, while they leave the writer's temporary names alone. Whatever system call fails, however short the writes are and
  wherever the process is killed, every file but the writer's temporaries satisfies the condition after the call if it did
  before: with the condition that a receipt has its old or its new bytes, no reader ever sees anything else.
\<close>

theorem receipt_atomic:
  assumes "keeps_files env (own_temporary env name) P" "leaves_own env (own_temporary env name)"
    and "\<And>encoded dir. encode_receipt dumps payload max_bytes = Inr encoded \<Longrightarrow> P (dir, name) (Some encoded)"
    and "each_file (own_temporary env name) P (ew_fs w)"
  shows "each_file (own_temporary env name) P (ew_fs (snd (write_secure_json env dumps lookup parent name payload uid bits mode max_bytes w)))"
proof -
  let ?I = "throughout (each_file (own_temporary env name) P)"
  note stable = stable_files [OF assms(1)]
  have "keeps ?I (replace_receipt env dir name encoded uid)" if "encode_receipt dumps payload max_bytes = Inr encoded" for encoded dir
    unfolding keeps_def using wp_replace_receipt [OF assms(1,2) assms(3) [OF that]] by blast
  then have "keeps ?I (write_secure_json env dumps lookup parent name payload uid bits mode max_bytes)"
    unfolding write_secure_json_def failX_def by (intro keeping stable) (auto split: sum.split intro!: keeping stable)
  from keepsD [OF this, of w] show ?thesis using assms(4) by (simp add: wp_def with_lock_def)
qed

theorem receipt_atomic_witness:
  "\<forall>d. each_file (own_temporary (receipt_sys (Some d)) ''r'') (\<lambda>k c. k = (1, ''r'') \<longrightarrow> c = Some ''old'' \<or> c = Some ''{}\<newline>'')
     (ew_fs (snd (write_example (Some d) receipt_world)))"
  by (rule allI, rule receipt_atomic)
     (auto simp: keeps_files_def leaves_own_def receipt_sys_def each_file_def receipt_encoded receipt_world_def file_content_def inode_at_def)

text \<open>
  C27: a receipt that was written can be read. On a machine without failures and other processes, once \<^verbatim>\<open>write_secure_json\<close> has
  returned, \<^verbatim>\<open>read_secure_json\<close> with the same owner and limit passes all its checks and decodes exactly the bytes that were
  written, however the reads and writes are split.
\<close>

theorem receipt_readback:
  assumes "calm_sys env" "write_secure_json env dumps lookup parent name payload uid 18 384 max_bytes w = (Done (), w')"
    and "lookup (ew_fs w') = lookup (ew_fs w)"
  shows "\<exists>encoded. encode_receipt dumps payload max_bytes = Inr encoded \<and>
    fst (read_secure_json env loads lookup parent name shown uid 18 max_bytes missing_ok require_object w') =
      (case decode_receipt loads shown require_object encoded of Inl e \<Rightarrow> Raised e | Inr v \<Rightarrow> Done (Some v))"
proof -
  obtain e dir w1 where e: "encode_receipt dumps payload max_bytes = Inr e" "0 < max_bytes"
    and opened: "open_secure_directory env lookup parent uid 18 w = (Done dir, w1)" and replaced: "replace_receipt env dir name e uid w1 = (Done (), w')"
    using assms(2) by (auto simp: write_secure_json_def returns split: sum.splits)
  obtain dnd where dir: "ew_fs w1 = ew_fs w" "lookup (ew_fs w') = Inr dir" "map_of (ef_inodes (ew_fs w1)) dir = Some dnd" "is_directory (in_stat dnd)"
    "ps_uid (in_stat dnd) = uid" "ps_mode (in_stat dnd) AND 18 = 0"
    using open_secure_returns [OF assms(1) opened] assms(3) by auto
  obtain fd nd where nd: "installed (ew_fs w1) (dir, name) fd nd (ew_fs w')" "in_bytes nd = e" "is_regular (in_stat nd)" "ps_uid (in_stat nd) = uid"
    "ps_mode (in_stat nd) AND 511 = 384"
    using replace_receipt_returns [OF assms(1) replaced] by blast
  have "map_of (ef_inodes (ew_fs w')) dir = Some dnd" using nd(1) dir(3) by (simp add: installed_def)
  from open_secure_calm [of env lookup w' dir dnd uid 18, OF assms(1) dir(2) this dir(4-6)] obtain w2 where w2: "open_secure_directory env lookup parent uid 18 w' = (Done dir, w2)" "ew_fs w2 = ew_fs w'"
    by blast
  have "ps_mode (in_stat nd) AND 18 = (ps_mode (in_stat nd) AND 511) AND 18" by (simp add: and.assoc)
  then have mode: "ps_mode (in_stat nd) AND 18 = 0" by (simp add: nd(5))
  have size: "int (length e) \<le> max_bytes" using e(1) by (auto simp: encode_receipt_def Let_def split: sum.splits if_splits)
  then have fits: "length e < nat (max_bytes + 1)" by linarith
  have link: "\<not> is_link (in_stat nd)" using nd(3) by (simp add: is_regular_def is_link_def)
  obtain w3 where read: "read_loop env fd (nat (max_bytes + 1)) [] (w2\<lparr>ew_time := Suc (Suc (ew_time w2))\<rparr>) = (Done e, w3)"
    using read_loop_calm [OF assms(1), of "w2\<lparr>ew_time := Suc (Suc (ew_time w2))\<rparr>" fd nd "[]" "nat (max_bytes + 1)"] nd(1,2) w2(2) fits
    by (auto simp: installed_def)
  have "read_receipt_bytes env lookup parent name shown uid 18 max_bytes missing_ok w' = (Done (Some e), w3)"
    using assms(1) nd w2 mode size e(2) link read
    by (simp add: read_receipt_bytes_def check_receipt_file_def bindX_def tryX_def failX_def retX_def installed_def os_open_at_def inode_at_def
        os_fstat_file_def calm_sys_read)
  then show ?thesis
    using e(1) by (auto simp: read_secure_json_def bindX_def retX_def raiseX_def split: sum.split)
qed

theorem receipt_readback_witness:
  "\<exists>w'. write_example None receipt_world = (Done (), w') \<and>
     fst (read_secure_json (receipt_sys None) (\<lambda>hook s. Inr (JDict [])) (\<lambda>f. Inr 1) ''/d'' ''r'' ''/d/r'' 0 18 1024 False True w') = Done (Some (JDict []))"
proof -
  obtain w' where run: "write_example None receipt_world = (Done (), w')" using receipt_run by (metis prod.collapse)
  have "calm_sys (receipt_sys None)" by (simp add: calm_sys_def receipt_sys_def)
  from receipt_readback [OF this run refl, of "\<lambda>hook s. Inr (JDict [])" "''/d/r''" False True] run show ?thesis
    by (auto simp: receipt_encoded decode_receipt_def utf8_decode.simps)
qed

end
