(* ===== verification/Release_Verify.thy ===== *)
theory Release_Verify
  imports Secure_Receipt Py_Regex
begin

text \<open>
  \<^verbatim>\<open>scripts/ops/verify_public_release_commit.py\<close>: fetching the public version documents, evaluating them against the expected
  commit, writing the receipt through \<open>Secure_Receipt\<close>, and polling until the release is visible.

  What \<^verbatim>\<open>urlopen\<close> and reading the answer give is the parameter \<open>http\<close>, a function of the time and the address; \<^verbatim>\<open>json.loads\<close> and
  \<^verbatim>\<open>json.dumps\<close> are parameters.
\<close>

section \<open>Constants\<close>

definition DEFAULT_FRONTEND_URL :: string where "DEFAULT_FRONTEND_URL = ''https://commonthing.net/_app/version.json''"
definition DEFAULT_API_URL :: string where "DEFAULT_API_URL = ''https://commonthing.net/api/version''"
definition DEFAULT_MAX_RESPONSE_BYTES :: int where "DEFAULT_MAX_RESPONSE_BYTES = 1024 * 1024"
definition COMMIT_RE :: re where "COMMIT_RE = class_block 40 is_lower_hex"
definition SHA256_RE :: re where "SHA256_RE = class_block 64 is_lower_hex"
definition MAX_SAFE_INTEGER :: int where "MAX_SAFE_INTEGER = 2 ^ 53 - 1"
definition UNATTESTED_PROVENANCE :: string where "UNATTESTED_PROVENANCE = ''unattested''"
definition LIMITED_PASS_STATUS :: string where "LIMITED_PASS_STATUS = ''consistency_pass_unattested''"
definition LIMITED_PASS_SCOPE :: string where "LIMITED_PASS_SCOPE = ''identity_and_declared_artifact_consistency''"

definition ARTIFACT_TREE_KEYS :: "string list" where
  "ARTIFACT_TREE_KEYS = [''compile_revision'', ''file_count'', ''provenance'', ''schema_version'', ''sha256'']"

section \<open>Results\<close>

record artifact_tree_result =
  at_schema_version :: "int option"
  at_sha256 :: "string option"
  at_file_count :: "int option"
  at_compile_revision :: "string option"
  at_provenance :: "string option"
  at_error :: "string option"

record endpoint_result =
  ep_url :: string
  ep_status :: int
  ep_commit :: "string option"
  ep_version :: "string option"
  ep_headers :: "(string, string) dict"
  ep_error :: "string option"
  ep_artifact_tree :: "artifact_tree_result option"

record verification_result =
  vr_schema_version :: int
  vr_expected_commit :: string
  vr_verified_at :: string
  vr_pass :: bool
  vr_status :: string
  vr_pass_scope :: string
  vr_identity_verified :: bool
  vr_artifact_tree_declaration_verified :: bool
  vr_attestation_verified :: bool
  vr_provenance_status :: string
  vr_reasons :: "string list"
  vr_limitations :: "string list"
  vr_frontend :: endpoint_result
  vr_api :: endpoint_result

section \<open>Reading a response\<close>

definition validate_commit :: "string \<Rightarrow> string + string" where
  "validate_commit v =
     (let candidate = strip v in
      if re_fullmatch COMMIT_RE candidate = None then Inl ''expected commit must be a full 40-character lowercase hexadecimal SHA''
      else Inr candidate)"

definition strict_object_pairs :: "(string \<times> json) list \<Rightarrow> string + jobject" where
  "strict_object_pairs pairs =
     foldE (\<lambda>result (key, v). if key \<in> set (keys_of result) then Inl (''duplicate JSON key: '' @ key) else Inr (dict_set key v result)) [] pairs"

definition reject_nonfinite_constant :: "string \<Rightarrow> string + json" where
  "reject_nonfinite_constant v = Inl (''non-finite JSON number: '' @ v)"

definition add_header :: "(string, string) dict \<Rightarrow> string \<times> string \<Rightarrow> (string, string) dict" where
  "add_header normalized item =
     (let key = lower (fst item) in
      dict_set key (case dict_get normalized key of
          Some existing \<Rightarrow> if existing = [] then snd item else existing @ '', '' @ snd item
        | None \<Rightarrow> snd item) normalized)"

definition normalize_headers :: "(string \<times> string) list \<Rightarrow> (string, string) dict" where
  "normalize_headers items = foldl add_header [] items"

text \<open>A response: status, header fields, final address, \<^verbatim>\<open>Content-Length\<close>, and the body there is to read.\<close>

record http_response =
  hr_status :: int
  hr_items :: "(string \<times> string) list"
  hr_final_url :: string
  hr_content_length :: "string option"
  hr_body :: string

text \<open>
  \<^verbatim>\<open>HTTPError\<close> with code, header fields and reason; \<^verbatim>\<open>URLError\<close>, \<^verbatim>\<open>TimeoutError\<close> or \<^verbatim>\<open>OSError\<close>, also while reading; and what is not
  caught, such as the \<^verbatim>\<open>HTTPException\<close> of a malformed answer.
\<close>

datatype http_outcome = Response http_response | HttpError int "(string \<times> string) list" string | Unreachable string | Malformed string

definition read_bounded :: "http_response \<Rightarrow> int \<Rightarrow> string + string" where
  "read_bounded response max_response_bytes =
     bindE (case hr_content_length response of
         None \<Rightarrow> Inr ()
       | Some content_length \<Rightarrow>
           (case int_of_bytes (strip content_length) of
              None \<Rightarrow> Inl ''invalid Content-Length header''
            | Some declared \<Rightarrow>
                raise_when (declared < 0 \<or> declared > max_response_bytes)
                  (''response exceeds byte limit: '' @ str_of_int declared @ '' > '' @ str_of_int max_response_bytes))) (\<lambda>_.
     let raw = take (nat (max_response_bytes + 1)) (hr_body response) in
     bindE (raise_when (int (length raw) > max_response_bytes)
       (''response exceeds byte limit: more than '' @ str_of_int max_response_bytes @ '' bytes'')) (\<lambda>_. Inr raw))"

fun int_field :: "json option \<Rightarrow> int option" where
  "int_field (Some (JInt i)) = Some i"
| "int_field _ = None"

fun text_field :: "json option \<Rightarrow> string option" where
  "text_field (Some (JStr s)) = Some s"
| "text_field _ = None"

definition tree_errors :: "jobject \<Rightarrow> string list" where
  "tree_errors raw =
     (let missing_keys = filter (\<lambda>k. k \<notin> set (keys_of raw)) ARTIFACT_TREE_KEYS;
          unknown_keys = sort (filter (\<lambda>k. k \<notin> set ARTIFACT_TREE_KEYS) (keys_of raw));
          sha256 = text_field (dict_get raw ''sha256''); file_count = int_field (dict_get raw ''file_count'');
          compile_revision = text_field (dict_get raw ''compile_revision''); provenance = text_field (dict_get raw ''provenance'') in
      (if missing_keys \<noteq> [] then [''missing fields: '' @ join '', '' missing_keys] else []) @
      (if unknown_keys \<noteq> [] then [''unknown fields: '' @ join '', '' unknown_keys] else []) @
      (if int_field (dict_get raw ''schema_version'') \<noteq> Some 1 then [''schema_version must equal 1''] else []) @
      (if (case sha256 of None \<Rightarrow> True | Some s \<Rightarrow> re_fullmatch SHA256_RE s = None) then [''sha256 must be a full lowercase SHA-256 digest''] else []) @
      (if (case file_count of None \<Rightarrow> True | Some n \<Rightarrow> \<not> (1 \<le> n \<and> n \<le> MAX_SAFE_INTEGER)) then [''file_count must be a positive safe integer''] else []) @
      (if (case compile_revision of None \<Rightarrow> True | Some s \<Rightarrow> re_fullmatch COMMIT_RE s = None) then [''compile_revision must be a full lowercase Git commit SHA''] else []) @
      (if (case provenance of None \<Rightarrow> True | Some s \<Rightarrow> s = []) then [''provenance must be a non-empty string''] else []))"

definition parse_artifact_tree :: "jobject \<Rightarrow> artifact_tree_result option" where
  "parse_artifact_tree payload =
     (case dict_get payload ''artifact_tree'' of
        None \<Rightarrow> None
      | Some (JDict raw) \<Rightarrow> Some
          \<lparr>at_schema_version = int_field (dict_get raw ''schema_version''), at_sha256 = text_field (dict_get raw ''sha256''),
           at_file_count = int_field (dict_get raw ''file_count''), at_compile_revision = text_field (dict_get raw ''compile_revision''),
           at_provenance = text_field (dict_get raw ''provenance''),
           at_error = (if tree_errors raw = [] then None else Some (join ''; '' (tree_errors raw)))\<rparr>
      | Some _ \<Rightarrow> Some \<lparr>at_schema_version = None, at_sha256 = None, at_file_count = None, at_compile_revision = None,
           at_provenance = None, at_error = Some ''artifact_tree is not an object''\<rparr>)"

text \<open>\<^verbatim>\<open>json.loads\<close> on bytes: a value, or the message of an error the program catches.\<close>

type_synonym bytes_reader = "((string \<times> json) list \<Rightarrow> string + jobject) \<Rightarrow> (string \<Rightarrow> string + json) \<Rightarrow> string \<Rightarrow> string + json"

definition failed_endpoint :: "string \<Rightarrow> int \<Rightarrow> (string, string) dict \<Rightarrow> string \<Rightarrow> endpoint_result" where
  "failed_endpoint url status headers msg =
     \<lparr>ep_url = url, ep_status = status, ep_commit = None, ep_version = None, ep_headers = headers, ep_error = Some msg, ep_artifact_tree = None\<rparr>"

definition parsed_endpoint :: "bytes_reader \<Rightarrow> string \<Rightarrow> int \<Rightarrow> (string, string) dict \<Rightarrow> string \<Rightarrow> endpoint_result" where
  "parsed_endpoint loads url status headers raw =
     (case loads strict_object_pairs reject_nonfinite_constant raw of
        Inl msg \<Rightarrow> failed_endpoint url status headers (''invalid JSON: '' @ msg)
      | Inr (JDict payload) \<Rightarrow>
          \<lparr>ep_url = url, ep_status = status, ep_commit = text_field (dict_get payload ''commit''), ep_version = text_field (dict_get payload ''version''),
           ep_headers = headers, ep_error = None, ep_artifact_tree = parse_artifact_tree payload\<rparr>
      | Inr _ \<Rightarrow> failed_endpoint url status headers ''JSON body is not an object'')"

definition answered_endpoint :: "bytes_reader \<Rightarrow> int \<Rightarrow> string \<Rightarrow> http_response \<Rightarrow> endpoint_result" where
  "answered_endpoint loads max_response_bytes url response =
     (let status = hr_status response; headers = normalize_headers (hr_items response) in
      if hr_final_url response \<noteq> url then failed_endpoint url status headers (''unexpected redirect target: '' @ hr_final_url response)
      else
        (case read_bounded response max_response_bytes of
           Inl msg \<Rightarrow> failed_endpoint url status headers msg
         | Inr raw \<Rightarrow> parsed_endpoint loads url status headers raw))"

definition fetch_endpoint :: "bytes_reader \<Rightarrow> (string \<Rightarrow> http_outcome) \<Rightarrow> string \<Rightarrow> bool \<Rightarrow> int \<Rightarrow> env_exc + endpoint_result" where
  "fetch_endpoint loads http url timeout_positive max_response_bytes =
     bindE (raise_when (\<not> timeout_positive) (ValueErr ''timeout must be positive'')) (\<lambda>_.
     bindE (raise_when (max_response_bytes \<le> 0) (ValueErr ''max_response_bytes must be positive'')) (\<lambda>_.
     case http url of
       Response response \<Rightarrow> Inr (answered_endpoint loads max_response_bytes url response)
     | HttpError code items reason \<Rightarrow> Inr (failed_endpoint url code (normalize_headers items) reason)
     | Unreachable msg \<Rightarrow> Inr (failed_endpoint url 0 [] msg)
     | Malformed msg \<Rightarrow> Inl (OtherExc msg)))"

section \<open>The evaluation\<close>

definition truthy_text :: "string option \<Rightarrow> string option" where
  "truthy_text s = (case s of Some m \<Rightarrow> if m = [] then None else Some m | None \<Rightarrow> None)"

definition repr_opt :: "string option \<Rightarrow> string" where
  "repr_opt s = (case s of None \<Rightarrow> ''None'' | Some m \<Rightarrow> py_repr (JStr m))"

definition endpoint_reasons :: "string \<Rightarrow> string \<Rightarrow> endpoint_result \<Rightarrow> string list" where
  "endpoint_reasons expected name result =
     (case truthy_text (ep_error result) of None \<Rightarrow> [] | Some m \<Rightarrow> [name @ '' readback failed: '' @ m]) @
     (if ep_status result \<noteq> 200 then [name @ '' returned HTTP '' @ str_of_int (ep_status result) @ '', expected 200''] else []) @
     (if ep_commit result \<noteq> Some expected
      then [name @ '' commit mismatch: expected '' @ expected @ '', got '' @ repr_opt (ep_commit result)] else []) @
     (if ep_version result \<noteq> Some (take 8 expected) \<and> name = ''frontend''
      then [''frontend version mismatch: expected '' @ take 8 expected @ '', got '' @ repr_opt (ep_version result)] else [])"

definition header_reasons :: "string \<Rightarrow> endpoint_result \<Rightarrow> endpoint_result \<Rightarrow> string list" where
  "header_reasons expected frontend api =
     (let frontend_cache = lower (case dict_get (ep_headers frontend) ''cache-control'' of None \<Rightarrow> [] | Some v \<Rightarrow> v);
          api_build = dict_get (ep_headers api) ''x-weltgewebe-api-build''; edge_build = dict_get (ep_headers api) ''x-weltgewebe-build'' in
      (if \<not> contains ''no-store'' frontend_cache then [''frontend version readback is not served with Cache-Control: no-store''] else []) @
      (if api_build \<noteq> Some expected then [''API build header mismatch: expected '' @ expected @ '', got '' @ repr_opt api_build] else []) @
      (if edge_build \<noteq> Some (take 8 expected) then [''edge build header mismatch: expected '' @ take 8 expected @ '', got '' @ repr_opt edge_build] else []))"

definition artifact_reasons :: "string \<Rightarrow> artifact_tree_result option \<Rightarrow> string list \<times> string" where
  "artifact_reasons expected tree =
     (case tree of
        None \<Rightarrow> ([''frontend artifact_tree declaration is missing''], ''missing'')
      | Some t \<Rightarrow>
          let provenance = (\<lambda>default. case truthy_text (at_provenance t) of None \<Rightarrow> default | Some p \<Rightarrow> p) in
          (case truthy_text (at_error t) of
             Some m \<Rightarrow> ([''frontend artifact_tree declaration is invalid: '' @ m], provenance ''invalid'')
           | None \<Rightarrow>
               ((if at_compile_revision t \<noteq> Some expected
                 then [''frontend artifact_tree compile_revision mismatch: expected '' @ expected @ '', got '' @ repr_opt (at_compile_revision t)] else []) @
                (if at_provenance t \<noteq> Some UNATTESTED_PROVENANCE
                 then [''frontend artifact_tree provenance is unsupported: expected '' @ py_repr (JStr UNATTESTED_PROVENANCE) @
                       '' until an attestation verifier is implemented, got '' @ repr_opt (at_provenance t)] else []),
                provenance ''missing'')))"

definition evaluate :: "string \<Rightarrow> string \<Rightarrow> endpoint_result \<Rightarrow> endpoint_result \<Rightarrow> verification_result" where
  "evaluate verified_at expected frontend api =
     (let identity_reasons = endpoint_reasons expected ''frontend'' frontend @ endpoint_reasons expected ''api'' api @ header_reasons expected frontend api in
      case artifact_reasons expected (ep_artifact_tree frontend) of (tree_reasons, provenance_status) \<Rightarrow>
      let reasons = identity_reasons @ tree_reasons; passed = (reasons = []) in
      \<lparr>vr_schema_version = 3, vr_expected_commit = expected, vr_verified_at = verified_at, vr_pass = passed,
       vr_status = (if passed then LIMITED_PASS_STATUS else ''failed''), vr_pass_scope = (if passed then LIMITED_PASS_SCOPE else ''none''),
       vr_identity_verified = (identity_reasons = []), vr_artifact_tree_declaration_verified = (tree_reasons = []),
       vr_attestation_verified = False, vr_provenance_status = provenance_status, vr_reasons = reasons,
       vr_limitations = (if passed then [''the public verifier does not reconstruct the deployed artifact tree'',
                                         ''artifact provenance is explicitly unattested''] else []),
       vr_frontend = frontend, vr_api = api\<rparr>)"

section \<open>The receipt\<close>

definition json_opt :: "('a \<Rightarrow> json) \<Rightarrow> 'a option \<Rightarrow> json" where
  "json_opt g v = (case v of None \<Rightarrow> JNull | Some a \<Rightarrow> g a)"

definition tree_json :: "artifact_tree_result \<Rightarrow> json" where
  "tree_json t = JDict [(''schema_version'', json_opt JInt (at_schema_version t)), (''sha256'', json_opt JStr (at_sha256 t)),
     (''file_count'', json_opt JInt (at_file_count t)), (''compile_revision'', json_opt JStr (at_compile_revision t)),
     (''provenance'', json_opt JStr (at_provenance t)), (''error'', json_opt JStr (at_error t))]"

definition endpoint_json :: "endpoint_result \<Rightarrow> json" where
  "endpoint_json e = JDict [(''url'', JStr (ep_url e)), (''status'', JInt (ep_status e)), (''commit'', json_opt JStr (ep_commit e)),
     (''version'', json_opt JStr (ep_version e)), (''headers'', JDict (map (\<lambda>(k, v). (k, JStr v)) (ep_headers e))),
     (''error'', json_opt JStr (ep_error e)), (''artifact_tree'', json_opt tree_json (ep_artifact_tree e))]"

definition as_json :: "verification_result \<Rightarrow> json" where
  "as_json r = JDict
     [(''schema_version'', JInt (vr_schema_version r)), (''expected_commit'', JStr (vr_expected_commit r)), (''verified_at'', JStr (vr_verified_at r)),
      (''status'', JStr (vr_status r)), (''pass_scope'', JStr (vr_pass_scope r)), (''identity_verified'', JBool (vr_identity_verified r)),
      (''artifact_tree_declaration_verified'', JBool (vr_artifact_tree_declaration_verified r)),
      (''attestation_verified'', JBool (vr_attestation_verified r)), (''provenance_status'', JStr (vr_provenance_status r)),
      (''reasons'', JList (map JStr (vr_reasons r))), (''limitations'', JList (map JStr (vr_limitations r))),
      (''frontend'', endpoint_json (vr_frontend r)), (''api'', endpoint_json (vr_api r)), (''pass'', JBool (vr_pass r))]"

text \<open>What the command is given and what is outside of it: \<open>mkdirs\<close> is what creating the parent directories does to the file system.\<close>

record release_args =
  la_expected_commit :: string
  la_frontend_url :: string
  la_api_url :: string
  la_timeout_positive :: bool
  la_wait_seconds :: int
  la_poll_seconds :: int
  la_max_response_bytes :: int
  la_parent :: string
  la_name :: string

record release_world =
  lw_loads :: bytes_reader
  lw_dumps :: "json \<Rightarrow> string + string"
  lw_http :: "nat \<Rightarrow> string \<Rightarrow> http_outcome"
  lw_lookup :: "env_fs \<Rightarrow> env_exc + nat"
  lw_mkdirs :: "env_fs \<Rightarrow> env_exc + env_fs"

definition write_receipt :: "env_sys \<Rightarrow> release_world \<Rightarrow> release_args \<Rightarrow> verification_result \<Rightarrow> unit env_io" where
  "write_receipt env lw a result =
     bindX (sysX env (\<lambda>t f. f) (\<lambda>t f. case lw_mkdirs lw f of Inl e \<Rightarrow> (Inl e, f) | Inr f' \<Rightarrow> (Inr (), f'))) (\<lambda>_.
     write_secure_json env (lw_dumps lw) (lw_lookup lw) (la_parent a) (la_name a) (as_json result) (es_euid env) 18 384 DEFAULT_MAX_BYTES)"

section \<open>The command\<close>

definition check_arguments :: "release_args \<Rightarrow> string + string" where
  "check_arguments a =
     bindE (validate_commit (la_expected_commit a)) (\<lambda>expected.
     bindE (raise_when (\<not> la_timeout_positive a) ''timeout must be positive'') (\<lambda>_.
     bindE (raise_when (la_wait_seconds a < 0) ''wait-seconds must not be negative'') (\<lambda>_.
     bindE (raise_when (la_poll_seconds a < 1) ''poll-seconds must be at least one'') (\<lambda>_.
     bindE (raise_when (la_max_response_bytes a < 1) ''max-response-bytes must be at least one'') (\<lambda>_.
     Inr expected)))))"

text \<open>One round: fetch both documents, evaluate, write the receipt.\<close>

definition verify_once :: "env_sys \<Rightarrow> release_world \<Rightarrow> release_args \<Rightarrow> string \<Rightarrow> verification_result env_io" where
  "verify_once env lw a expected =
     bindX (sys_read env (\<lambda>t f. fetch_endpoint (lw_loads lw) (lw_http lw t) (la_frontend_url a) (la_timeout_positive a) (la_max_response_bytes a))) (\<lambda>frontend.
     bindX (sys_read env (\<lambda>t f. fetch_endpoint (lw_loads lw) (lw_http lw t) (la_api_url a) (la_timeout_positive a) (la_max_response_bytes a))) (\<lambda>api.
     bindX (observe env (es_utc env)) (\<lambda>verified_at.
     let result = evaluate verified_at expected frontend api in
     bindX (write_receipt env lw a result) (\<lambda>_. retX result))))"

text \<open>No system call turns the clock; only sleeping and looking at it do.\<close>

lemma keeps_now_sys: "keeps (\<lambda>w. ew_now w = n) (sysX env spoil act)"
  by (simp add: keeps_def wp_sys Let_def split: fault.split)

lemma keeps_now_read: "keeps (\<lambda>w. ew_now w = n) (sys_read env look)"
  unfolding sys_read_def by (rule keeps_now_sys)

lemmas system_calls = os_fstat_def os_open_at_def os_fsync_def observe_def sys_read_def os_create_at_def os_fchmod_def os_write_at_def Let_def
  os_fstat_file_def os_unlink_at_def os_replace_at_def

lemma keeps_now_calls:
  "keeps (\<lambda>w. ew_now w = n) (os_fstat env fd)" "keeps (\<lambda>w. ew_now w = n) (os_fsync env)" "keeps (\<lambda>w. ew_now w = n) (observe env g)"
  "keeps (\<lambda>w. ew_now w = n) (os_create_at env dir name)" "keeps (\<lambda>w. ew_now w = n) (os_fchmod env fd m)" "keeps (\<lambda>w. ew_now w = n) (os_write_at env fd pos data)"
  "keeps (\<lambda>w. ew_now w = n) (os_fstat_file env fd)" "keeps (\<lambda>w. ew_now w = n) (os_unlink_at env dir name)" "keeps (\<lambda>w. ew_now w = n) (os_replace_at env dir source target)"
  unfolding system_calls by (rule keeps_now_sys)+

lemma keeps_now_write_loop: "keeps (\<lambda>w. ew_now w = n) (write_loop env fd e pos)"
proof -
  have "ew_now w = n \<Longrightarrow> ew_now (snd (write_loop env fd e pos w)) = n" for w
  proof (induction env fd e pos w rule: write_loop.induct)
    case (1 env fd e pos w)
    obtain r w1 where step: "os_write_at env fd pos (drop pos e) w = (r, w1)" by (cases "os_write_at env fd pos (drop pos e) w")
    have "ew_now w1 = n" using wpD [OF keepsD [OF keeps_now_calls(6) 1(2)] step] .
    with 1(1) [OF _ step [symmetric]] 1(2) show ?case
      by (subst write_loop.simps) (auto simp: step split: outcome.split)
  qed
  then show ?thesis by (simp add: keeps_def wp_def)
qed

lemma keeps_now_write: "keeps (\<lambda>w. ew_now w = n) (write_receipt env lw a result)"
  unfolding write_receipt_def write_secure_json_def failX_def open_secure_directory_def replace_receipt_def store_temporary_def check_temporary_def Let_def
  by (intro keeping keeps_now_calls keeps_now_write_loop keeps_now_sys)
     (auto split: sum.split intro!: keeping keeps_now_calls keeps_now_write_loop keeps_now_sys simp: sys_read_def)

lemma verify_once_now: "verify_once env lw a expected w = (r, w') \<Longrightarrow> ew_now w' = ew_now w"
proof -
  assume run: "verify_once env lw a expected w = (r, w')"
  have "keeps (\<lambda>u. ew_now u = ew_now w) (verify_once env lw a expected)"
    unfolding verify_once_def Let_def by (intro keeping keeps_now_calls keeps_now_read keeps_now_write)
  from wpD [OF keepsD [OF this refl] run] show ?thesis .
qed

text \<open>
  \<^verbatim>\<open>while True\<close>: the result and the exit code of the round that ended it. The seconds between two rounds are at least one, so
  \<open>poll\<close> counts those beyond it.
\<close>

function poll_loop :: "env_sys \<Rightarrow> release_world \<Rightarrow> release_args \<Rightarrow> string \<Rightarrow> nat \<Rightarrow> int \<Rightarrow> (verification_result \<times> int) env_io" where
  "poll_loop env lw a expected poll deadline w =
     (case verify_once env lw a expected w of
        (Raised e, w1) \<Rightarrow> (Raised e, w1)
      | (Killed, w1) \<Rightarrow> (Killed, w1)
      | (Done result, w1) \<Rightarrow>
          if vr_pass result then (Done (result, 0), w1)
          else
            (case monotonic env w1 of (now, w2) \<Rightarrow>
               if deadline \<le> now then (Done (result, 1), w2)
               else
                 (case sleep env ((int poll + 1) * 1000000) w2 of
                    (Raised e, w3) \<Rightarrow> (Raised e, w3)
                  | (Killed, w3) \<Rightarrow> (Killed, w3)
                  | (Done _, w3) \<Rightarrow> poll_loop env lw a expected poll deadline w3)))"
  by pat_completeness auto
termination
  by (relation "measure (\<lambda>(env, lw, a, expected, poll, deadline, w). nat (deadline - ew_now w))")
     (auto dest!: verify_once_now [OF sym] sleep_now [OF sym] monotonic_now [OF sym])

declare poll_loop.simps [simp del]

text \<open>The exit code, with the result of the last round; 2 for arguments that are refused.\<close>

definition release_main :: "env_sys \<Rightarrow> release_world \<Rightarrow> release_args \<Rightarrow> (verification_result option \<times> int) env_io" where
  "release_main env lw a w =
     (case check_arguments a of
        Inl msg \<Rightarrow> (Done (None, 2), w)
      | Inr expected \<Rightarrow>
          (case monotonic env w of (now, w1) \<Rightarrow>
             bindX (poll_loop env lw a expected (nat (la_poll_seconds a - 1)) (now + la_wait_seconds a * 1000000))
               (\<lambda>(result, code). retX (Some result, code)) w1))"

section \<open>What a pass means\<close>

text \<open>The document a URL serves: answered directly with 200, within the limit, a strict JSON object.\<close>

definition serves :: "bytes_reader \<Rightarrow> (string \<Rightarrow> http_outcome) \<Rightarrow> int \<Rightarrow> string \<Rightarrow> jobject \<Rightarrow> (string, string) dict \<Rightarrow> bool" where
  "serves loads http limit url payload headers \<longleftrightarrow>
     (\<exists>response. http url = Response response \<and> hr_status response = 200 \<and> hr_final_url response = url \<and>
        int (length (hr_body response)) \<le> limit \<and>
        (case hr_content_length response of None \<Rightarrow> True | Some l \<Rightarrow> (\<exists>n. int_of_bytes (strip l) = Some n \<and> 0 \<le> n \<and> n \<le> limit)) \<and>
        loads strict_object_pairs reject_nonfinite_constant (hr_body response) = Inr (JDict payload) \<and> headers = normalize_headers (hr_items response))"

definition declares_tree :: "string \<Rightarrow> jobject \<Rightarrow> bool" where
  "declares_tree expected payload \<longleftrightarrow>
     (\<exists>raw sha n. dict_get payload ''artifact_tree'' = Some (JDict raw) \<and> set (keys_of raw) = set ARTIFACT_TREE_KEYS \<and>
        dict_get raw ''schema_version'' = Some (JInt 1) \<and> dict_get raw ''sha256'' = Some (JStr sha) \<and> length sha = 64 \<and> list_all is_lower_hex sha \<and>
        dict_get raw ''file_count'' = Some (JInt n) \<and> 1 \<le> n \<and> n \<le> 2 ^ 53 - 1 \<and>
        dict_get raw ''compile_revision'' = Some (JStr expected) \<and> length expected = 40 \<and> list_all is_lower_hex expected \<and>
        dict_get raw ''provenance'' = Some (JStr ''unattested''))"

lemma read_bounded_iff:
  assumes "0 < limit"
  shows "read_bounded response limit = Inr raw \<longleftrightarrow> raw = hr_body response \<and> int (length (hr_body response)) \<le> limit \<and>
    (case hr_content_length response of None \<Rightarrow> True | Some l \<Rightarrow> (\<exists>n. int_of_bytes (strip l) = Some n \<and> 0 \<le> n \<and> n \<le> limit))"
proof -
  have body: "take (nat (limit + 1)) b = b" if "int (length b) \<le> limit" for b :: string using that by simp
  have less: "int (length (take (nat (limit + 1)) b)) \<le> limit \<longleftrightarrow> int (length b) \<le> limit" for b :: string
    using assms by (auto simp: min_def)
  show ?thesis
    unfolding read_bounded_def Let_def bindE_eq_Inr raise_when_Inr
    using body [of "hr_body response"] less [of "hr_body response"]
    by (auto split: option.splits simp: not_less simp del: length_take)
qed

lemma text_field_Some [simp]: "text_field v = Some s \<longleftrightarrow> v = Some (JStr s)"
  by (cases v rule: text_field.cases) auto

lemma int_field_Some [simp]: "int_field v = Some i \<longleftrightarrow> v = Some (JInt i)"
  by (cases v rule: int_field.cases) auto

lemma fetch_ok:
  assumes "fetch_endpoint loads http url ok limit = Inr e" "ep_status e = 200" "ep_commit e = Some c"
  shows "\<exists>payload headers. serves loads http limit url payload headers \<and> dict_get payload ''commit'' = Some (JStr c)"
proof -
  obtain response where limit: "0 < limit" and response: "http url = Response response" "e = answered_endpoint loads limit url response"
    using assms by (auto simp: fetch_endpoint_def bindE_eq_Inr raise_when_Inr failed_endpoint_def split: http_outcome.splits)
  with assms(3) have url: "hr_final_url response = url" by (auto simp: answered_endpoint_def failed_endpoint_def Let_def split: if_splits)
  with assms(3) response obtain raw where raw: "read_bounded response limit = Inr raw"
    by (cases "read_bounded response limit") (auto simp: answered_endpoint_def failed_endpoint_def Let_def)
  have e: "e = parsed_endpoint loads url (hr_status response) (normalize_headers (hr_items response)) raw"
    using response url raw by (simp add: answered_endpoint_def)
  with assms(3) obtain payload where payload: "loads strict_object_pairs reject_nonfinite_constant raw = Inr (JDict payload)"
    by (auto simp: parsed_endpoint_def failed_endpoint_def split: sum.splits json.splits)
  with assms(2,3) e have "hr_status response = 200" "text_field (dict_get payload ''commit'') = Some c" by (simp_all add: parsed_endpoint_def)
  with response url raw payload show ?thesis
    by (intro exI [of _ payload] exI [of _ "normalize_headers (hr_items response)"]) (simp add: serves_def read_bounded_iff [OF limit])
qed

lemma fetch_serves:
  assumes "fetch_endpoint loads http url ok limit = Inr e" "serves loads http limit url payload headers"
  shows "e = \<lparr>ep_url = url, ep_status = 200, ep_commit = text_field (dict_get payload ''commit''),
    ep_version = text_field (dict_get payload ''version''), ep_headers = headers, ep_error = None, ep_artifact_tree = parse_artifact_tree payload\<rparr>"
proof -
  have limit: "0 < limit" using assms(1) by (auto simp: fetch_endpoint_def bindE_eq_Inr raise_when_Inr)
  obtain response where response: "http url = Response response" "hr_status response = 200" "hr_final_url response = url"
    "loads strict_object_pairs reject_nonfinite_constant (hr_body response) = Inr (JDict payload)" "headers = normalize_headers (hr_items response)"
    and "read_bounded response limit = Inr (hr_body response)"
    using assms(2) by (auto simp: serves_def read_bounded_iff [OF limit])
  moreover have "e = answered_endpoint loads limit url response"
    using assms(1) response(1) by (auto simp: fetch_endpoint_def bindE_eq_Inr raise_when_Inr)
  ultimately show ?thesis by (simp add: answered_endpoint_def parsed_endpoint_def)
qed

lemma tree_errors_iff:
  "tree_errors raw = [] \<longleftrightarrow> set (keys_of raw) = set ARTIFACT_TREE_KEYS \<and> dict_get raw ''schema_version'' = Some (JInt 1) \<and>
     (\<exists>s. dict_get raw ''sha256'' = Some (JStr s) \<and> length s = 64 \<and> list_all is_lower_hex s) \<and>
     (\<exists>n. dict_get raw ''file_count'' = Some (JInt n) \<and> 1 \<le> n \<and> n \<le> 2 ^ 53 - 1) \<and>
     (\<exists>s. dict_get raw ''compile_revision'' = Some (JStr s) \<and> length s = 40 \<and> list_all is_lower_hex s) \<and>
     (\<exists>s. dict_get raw ''provenance'' = Some (JStr s) \<and> s \<noteq> [])"
proof -
  have keys: "filter (\<lambda>k. k \<notin> set (keys_of raw)) ARTIFACT_TREE_KEYS = [] \<and> sort (filter (\<lambda>k. k \<notin> set ARTIFACT_TREE_KEYS) (keys_of raw)) = [] \<longleftrightarrow>
      set (keys_of raw) = set ARTIFACT_TREE_KEYS"
  proof -
    have "sort ks = [] \<longleftrightarrow> ks = []" for ks :: "string list" by (metis set_empty set_sort)
    then show ?thesis by (simp only: filter_empty_conv not_not) blast
  qed
  have str: "\<not> (case text_field v of None \<Rightarrow> True | Some s \<Rightarrow> \<not> Q s) \<longleftrightarrow> (\<exists>s. v = Some (JStr s) \<and> Q s)" for v Q
    by (cases v rule: text_field.cases) auto
  have num: "\<not> (case int_field v of None \<Rightarrow> True | Some s \<Rightarrow> \<not> Q s) \<longleftrightarrow> (\<exists>s. v = Some (JInt s) \<and> Q s)" for v Q
    by (cases v rule: int_field.cases) auto
  have some: "(if c then [m] else []) = [] \<longleftrightarrow> \<not> c" for c and m :: string by simp
  have unfolded: "tree_errors raw = [] \<longleftrightarrow> (filter (\<lambda>k. k \<notin> set (keys_of raw)) ARTIFACT_TREE_KEYS = [] \<and>
      sort (filter (\<lambda>k. k \<notin> set ARTIFACT_TREE_KEYS) (keys_of raw)) = []) \<and>
      int_field (dict_get raw ''schema_version'') = Some 1 \<and>
      \<not> (case text_field (dict_get raw ''sha256'') of None \<Rightarrow> True | Some s \<Rightarrow> \<not> re_fullmatch SHA256_RE s \<noteq> None) \<and>
      \<not> (case int_field (dict_get raw ''file_count'') of None \<Rightarrow> True | Some n \<Rightarrow> \<not> (1 \<le> n \<and> n \<le> MAX_SAFE_INTEGER)) \<and>
      \<not> (case text_field (dict_get raw ''compile_revision'') of None \<Rightarrow> True | Some s \<Rightarrow> \<not> re_fullmatch COMMIT_RE s \<noteq> None) \<and>
      \<not> (case text_field (dict_get raw ''provenance'') of None \<Rightarrow> True | Some s \<Rightarrow> \<not> s \<noteq> [])"
    unfolding tree_errors_def Let_def append_is_Nil_conv some not_not conj_assoc by (rule refl)
  have sha: "re_fullmatch SHA256_RE s \<noteq> None \<longleftrightarrow> length s = 64 \<and> list_all is_lower_hex s" for s
    unfolding SHA256_RE_def by (rule class_block_fullmatch)
  have commit: "re_fullmatch COMMIT_RE s \<noteq> None \<longleftrightarrow> length s = 40 \<and> list_all is_lower_hex s" for s
    unfolding COMMIT_RE_def by (rule class_block_fullmatch)
  show ?thesis
    unfolding unfolded keys str num sha commit MAX_SAFE_INTEGER_def int_field_Some by (rule refl)
qed

lemma join_Nil_iff: "join sep (x # xs) = [] \<Longrightarrow> x = []"
  by (cases xs) auto

lemma tree_errors_shown: "truthy_text (Some (join ''; '' (tree_errors raw))) = None \<longleftrightarrow> tree_errors raw = []"
proof -
  have "x \<noteq> []" if "x \<in> set (tree_errors raw)" for x
    using that unfolding tree_errors_def Let_def set_append by (elim UnE) (auto split: if_splits)
  then show ?thesis
    by (cases "tree_errors raw") (auto simp: truthy_text_def dest: join_Nil_iff)
qed

lemma artifact_pass: "fst (artifact_reasons expected (parse_artifact_tree payload)) = [] \<longleftrightarrow> declares_tree expected payload"
proof (cases "\<exists>raw. dict_get payload ''artifact_tree'' = Some (JDict raw)")
  case True
  then obtain raw where raw: "dict_get payload ''artifact_tree'' = Some (JDict raw)" by blast
  have "fst (artifact_reasons expected (parse_artifact_tree payload)) = [] \<longleftrightarrow> tree_errors raw = [] \<and>
      dict_get raw ''compile_revision'' = Some (JStr expected) \<and> dict_get raw ''provenance'' = Some (JStr ''unattested'')"
    using tree_errors_shown [of raw]
    by (auto simp: raw parse_artifact_tree_def artifact_reasons_def Let_def UNATTESTED_PROVENANCE_def truthy_text_def split: option.splits if_splits)
  then show ?thesis by (simp only: tree_errors_iff declares_tree_def raw) auto
next
  case False
  then show ?thesis
    by (auto simp: parse_artifact_tree_def artifact_reasons_def declares_tree_def truthy_text_def split: option.splits json.splits)
qed

lemma endpoint_pass:
  "endpoint_reasons expected name r = [] \<longleftrightarrow> truthy_text (ep_error r) = None \<and> ep_status r = 200 \<and> ep_commit r = Some expected \<and>
     (name = ''frontend'' \<longrightarrow> ep_version r = Some (take 8 expected))"
  by (auto simp: endpoint_reasons_def split: option.splits)

lemma evaluate_pass:
  "vr_pass (evaluate now expected f a) \<longleftrightarrow> endpoint_reasons expected ''frontend'' f = [] \<and> endpoint_reasons expected ''api'' a = [] \<and>
     header_reasons expected f a = [] \<and> fst (artifact_reasons expected (ep_artifact_tree f)) = []"
  by (auto simp: evaluate_def Let_def split: prod.splits)

lemma header_pass:
  "header_reasons expected f a = [] \<longleftrightarrow> (\<exists>v. dict_get (ep_headers f) ''cache-control'' = Some v \<and> contains ''no-store'' (lower v)) \<and>
     dict_get (ep_headers a) ''x-weltgewebe-api-build'' = Some expected \<and> dict_get (ep_headers a) ''x-weltgewebe-build'' = Some (take 8 expected)"
proof -
  have "\<not> contains ''no-store'' (lower [])" by code_simp
  then show ?thesis by (auto simp: header_reasons_def Let_def split: option.splits)
qed

section \<open>What the command leaves behind\<close>

definition receipt_in :: "release_world \<Rightarrow> release_args \<Rightarrow> verification_result \<Rightarrow> env_fs \<Rightarrow> bool" where
  "receipt_in lw a result f \<longleftrightarrow>
     (\<exists>dir encoded. (\<exists>g. lw_lookup lw g = Inr dir) \<and> encode_receipt (lw_dumps lw) (as_json result) DEFAULT_MAX_BYTES = Inr encoded \<and>
        file_content (dir, la_name a) f = Some encoded)"

definition evaluated :: "release_world \<Rightarrow> release_args \<Rightarrow> string \<Rightarrow> verification_result \<Rightarrow> bool" where
  "evaluated lw a expected result \<longleftrightarrow>
     (\<exists>now t t' frontend api. result = evaluate now expected frontend api \<and>
        fetch_endpoint (lw_loads lw) (lw_http lw t) (la_frontend_url a) (la_timeout_positive a) (la_max_response_bytes a) = Inr frontend \<and>
        fetch_endpoint (lw_loads lw) (lw_http lw t') (la_api_url a) (la_timeout_positive a) (la_max_response_bytes a) = Inr api)"

lemma write_receipt_returns:
  assumes "calm_sys env" "write_receipt env lw a result w = (Done (), w')"
  shows "receipt_in lw a result (ew_fs w')"
proof -
  obtain w1 where "write_secure_json env (lw_dumps lw) (lw_lookup lw) (la_parent a) (la_name a) (as_json result) (es_euid env) 18 384 DEFAULT_MAX_BYTES w1 = (Done (), w')"
    using assms(2) by (auto simp: write_receipt_def returns)
  then obtain e dir w2 where e: "encode_receipt (lw_dumps lw) (as_json result) DEFAULT_MAX_BYTES = Inr e"
    and opened: "open_secure_directory env (lw_lookup lw) (la_parent a) (es_euid env) 18 w1 = (Done dir, w2)"
    and replaced: "replace_receipt env dir (la_name a) e (es_euid env) w2 = (Done (), w')"
    by (auto simp: write_secure_json_def returns split: sum.splits)
  from replace_receipt_returns [OF assms(1) replaced] have "file_content (dir, la_name a) (ew_fs w') = Some e"
    by (auto simp: installed_def file_content_def inode_at_def)
  with e open_secure_returns [OF assms(1) opened] show ?thesis unfolding receipt_in_def by blast
qed

lemma verify_once_returns:
  assumes "calm_sys env" "verify_once env lw a expected w = (Done result, w')"
  shows "evaluated lw a expected result \<and> receipt_in lw a result (ew_fs w')"
proof -
  have look: "\<exists>t. g t = Inr v" if "sys_read env (\<lambda>t f. g t) u = (Done v, u')" for g :: "nat \<Rightarrow> env_exc + endpoint_result" and v u u'
    using that assms(1) by (auto simp: calm_sys_read split: sum.splits)
  obtain f t a' t' now w1 where "result = evaluate now expected f a'" "write_receipt env lw a result w1 = (Done (), w')"
    "fetch_endpoint (lw_loads lw) (lw_http lw t) (la_frontend_url a) (la_timeout_positive a) (la_max_response_bytes a) = Inr f"
    "fetch_endpoint (lw_loads lw) (lw_http lw t') (la_api_url a) (la_timeout_positive a) (la_max_response_bytes a) = Inr a'"
    using assms(2) by (auto simp: verify_once_def Let_def returns dest!: look)
  with write_receipt_returns [OF assms(1)] show ?thesis unfolding evaluated_def by blast
qed

lemma poll_loop_returns:
  "calm_sys env \<Longrightarrow> poll_loop env lw a expected poll deadline w = (Done (result, code), w') \<Longrightarrow>
     evaluated lw a expected result \<and> receipt_in lw a result (ew_fs w') \<and> code = (if vr_pass result then 0 else 1) \<and>
     (\<not> vr_pass result \<longrightarrow> deadline \<le> ew_now w')"
proof (induction env lw a expected poll deadline w rule: poll_loop.induct)
  case (1 env lw a expected poll deadline w)
  obtain r w1 where once: "verify_once env lw a expected w = (r, w1)" by (cases "verify_once env lw a expected w")
  with 1(3) obtain res where r: "r = Done res" by (cases r) (auto simp: poll_loop.simps [of env lw a expected poll deadline w])
  note sound = verify_once_returns [OF 1(2) once [unfolded r]]
  obtain now w2 where look: "monotonic env w1 = (now, w2)" by (cases "monotonic env w1")
  have w2: "ew_fs w2 = ew_fs w1" "ew_now w2 = now" using look by (auto simp: monotonic_def Let_def)
  show ?case
  proof (cases "vr_pass res \<or> deadline \<le> now")
    case True
    then show ?thesis
      using 1(3) sound w2 by (auto simp: poll_loop.simps [of env lw a expected poll deadline w] once r look split: if_splits)
  next
    case False
    obtain s w3 where slept: "sleep env ((int poll + 1) * 1000000) w2 = (s, w3)" by (cases "sleep env ((int poll + 1) * 1000000) w2")
    with 1(3) False have s: "s = Done ()" by (cases s) (auto simp: poll_loop.simps [of env lw a expected poll deadline w] once r look)
    have "poll_loop env lw a expected poll deadline w3 = (Done (result, code), w')"
      using 1(3) False slept s by (simp add: poll_loop.simps [of env lw a expected poll deadline w] once r look)
    with 1(1) [OF once [symmetric] r _ look [symmetric] _ slept [symmetric] s 1(2)] False show ?thesis by blast
  qed
qed

section \<open>A concrete release\<close>

text \<open>Both documents name the commit of forty \<^verbatim>\<open>a\<close>; the receipt goes to the directory of \<open>receipt_world\<close>.\<close>

definition sample_commit :: string where
  "sample_commit = replicate 40 CHR ''a''"

definition sample_tree :: jobject where
  "sample_tree = [(''schema_version'', JInt 1), (''sha256'', JStr (replicate 64 CHR ''0'')), (''file_count'', JInt 3),
     (''compile_revision'', JStr sample_commit), (''provenance'', JStr ''unattested'')]"

definition sample_frontend :: jobject where
  "sample_frontend = [(''commit'', JStr sample_commit), (''version'', JStr (take 8 sample_commit)), (''artifact_tree'', JDict sample_tree)]"

definition sample_items :: "(string \<times> string) list" where
  "sample_items = [(''cache-control'', ''no-store''), (''x-weltgewebe-api-build'', sample_commit), (''x-weltgewebe-build'', take 8 sample_commit)]"

definition sample_http :: "string \<Rightarrow> http_outcome" where
  "sample_http url = Response \<lparr>hr_status = 200, hr_items = sample_items, hr_final_url = url, hr_content_length = None, hr_body = url\<rparr>"

definition sample_loads :: bytes_reader where
  "sample_loads hook reject body = Inr (JDict (if body = ''f'' then sample_frontend else [(''commit'', JStr sample_commit)]))"

definition sample_release :: release_world where
  "sample_release =
     \<lparr>lw_loads = sample_loads, lw_dumps = (\<lambda>v. Inr ''{}''), lw_http = (\<lambda>t. sample_http), lw_lookup = (\<lambda>f. Inr 1), lw_mkdirs = Inr\<rparr>"

definition sample_args :: release_args where
  "sample_args =
     \<lparr>la_expected_commit = sample_commit, la_frontend_url = ''f'', la_api_url = ''a'', la_timeout_positive = True, la_wait_seconds = 0,
      la_poll_seconds = 15, la_max_response_bytes = 1024, la_parent = ''/d'', la_name = ''r''\<rparr>"

abbreviation release_run :: "(verification_result option \<times> int) outcome \<times> env_world" where
  "release_run \<equiv> release_main (receipt_sys None) sample_release sample_args receipt_world"

abbreviation sample_answer :: "string \<Rightarrow> endpoint_result" where
  "sample_answer url \<equiv> answered_endpoint sample_loads 1024 url
     \<lparr>hr_status = 200, hr_items = sample_items, hr_final_url = url, hr_content_length = None, hr_body = url\<rparr>"

lemma sample_fetch: "fetch_endpoint sample_loads sample_http url True 1024 = Inr (sample_answer url)"
  by (simp add: fetch_endpoint_def raise_when_def sample_http_def)

lemma sample_calm: "calm_sys (receipt_sys None)"
  by (simp add: calm_sys_def receipt_sys_def)

lemma sample_arguments: "check_arguments sample_args = Inr sample_commit"
proof -
  have "strip sample_commit = sample_commit" by code_simp
  moreover have "re_fullmatch COMMIT_RE sample_commit \<noteq> None"
    unfolding COMMIT_RE_def class_block_fullmatch by code_simp
  ultimately show ?thesis by (simp add: check_arguments_def validate_commit_def sample_args_def raise_when_def)
qed

lemma sample_write: "\<exists>w. write_receipt (receipt_sys None) sample_release sample_args result (receipt_world\<lparr>ew_time := 4\<rparr>) = (Done (), w) \<and> ew_now w = 0"
proof -
  have "fst (write_example None (receipt_world\<lparr>ew_time := 5\<rparr>)) = Done ()" "ew_now (snd (write_example None (receipt_world\<lparr>ew_time := 5\<rparr>))) = 0"
    by code_simp+
  moreover have "write_receipt (receipt_sys None) sample_release sample_args result (receipt_world\<lparr>ew_time := 4\<rparr>) =
      write_secure_json (receipt_sys None) (\<lambda>v. Inr ''{}'') (\<lambda>f. Inr 1) ''/d'' ''r'' (as_json result) 0 18 384 DEFAULT_MAX_BYTES (receipt_world\<lparr>ew_time := 5\<rparr>)"
    by (simp add: write_receipt_def bindX_def calm_sysX [OF sample_calm] sample_release_def sample_args_def) (simp add: receipt_sys_def)
  moreover have "write_secure_json (receipt_sys None) (\<lambda>v. Inr ''{}'') (\<lambda>f. Inr 1) ''/d'' ''r'' (as_json result) 0 18 384 DEFAULT_MAX_BYTES =
      write_example None"
  proof -
    have "encode_receipt (\<lambda>v. Inr ''{}'') v DEFAULT_MAX_BYTES = encode_receipt (\<lambda>v. Inr ''{}'') (JDict []) 1024" for v
      by (simp add: encode_receipt_def) code_simp
    then show ?thesis by (simp add: write_secure_json_def DEFAULT_MAX_BYTES_def)
  qed
  ultimately show ?thesis by (metis prod.collapse)
qed

lemma sample_run: "\<exists>result code w. release_run = (Done (Some result, code), w)"
proof -
  let ?result = "evaluate [] sample_commit (sample_answer ''f'') (sample_answer ''a'')"
  obtain w where w: "write_receipt (receipt_sys None) sample_release sample_args ?result (receipt_world\<lparr>ew_time := 4\<rparr>) = (Done (), w)" "ew_now w = 0"
    using sample_write by blast
  have start: "monotonic (receipt_sys None) receipt_world = (0, receipt_world\<lparr>ew_time := 1\<rparr>)"
    by (simp add: monotonic_def receipt_sys_def receipt_world_def)
  have once: "verify_once (receipt_sys None) sample_release sample_args sample_commit (receipt_world\<lparr>ew_time := 1\<rparr>) = (Done ?result, w)"
  proof -
    have "es_utc (receipt_sys None) n = []" "lw_loads sample_release = sample_loads" "lw_http sample_release n = sample_http"
      "la_timeout_positive sample_args" "la_max_response_bytes sample_args = 1024" "la_frontend_url sample_args = ''f''" "la_api_url sample_args = ''a''" for n
      by (simp_all add: receipt_sys_def sample_release_def sample_args_def)
    with w(1) sample_fetch show ?thesis
      by (simp add: verify_once_def bindX_def observe_def calm_sys_read [OF sample_calm] retX_def Let_def numeral_eq_Suc)
  qed
  show ?thesis
  proof -
    have "la_wait_seconds sample_args = 0" by (simp add: sample_args_def)
    moreover have "monotonic (receipt_sys None) w = (0, w\<lparr>ew_time := Suc (ew_time w), ew_now := 0\<rparr>)"
      using w(2) by (simp add: monotonic_def receipt_sys_def)
    moreover note once [simplified]
    ultimately show ?thesis by (simp add: release_main_def sample_arguments start bindX_def retX_def poll_loop.simps)
  qed
qed

section \<open>Properties\<close>

text \<open>
  C25: what a passed release check means. The check passes exactly if both addresses answered 200 without a redirect, with a body and a
  declared length within the limit that is a JSON object under the strict reader, both documents name the expected commit, the
  frontend's version is its first eight characters, its artifact tree has exactly the five fields with a valid digest, file count and
  unattested provenance and was compiled from that commit, the frontend is served with \<^verbatim>\<open>no-store\<close>, and the build headers of the API name
  the commit.
\<close>

theorem release_pass_iff:
  assumes "fetch_endpoint loads http frontend_url ok limit = Inr frontend" "fetch_endpoint loads http' api_url ok limit = Inr api"
  shows "vr_pass (evaluate now expected frontend api) \<longleftrightarrow>
    (\<exists>fp fh ap ah. serves loads http limit frontend_url fp fh \<and> serves loads http' limit api_url ap ah \<and>
       dict_get fp ''commit'' = Some (JStr expected) \<and> dict_get ap ''commit'' = Some (JStr expected) \<and>
       dict_get fp ''version'' = Some (JStr (take 8 expected)) \<and> declares_tree expected fp \<and>
       (\<exists>v. dict_get fh ''cache-control'' = Some v \<and> contains ''no-store'' (lower v)) \<and>
       dict_get ah ''x-weltgewebe-api-build'' = Some expected \<and> dict_get ah ''x-weltgewebe-build'' = Some (take 8 expected))"
    (is "?l \<longleftrightarrow> ?r")
proof
  assume ?l
  note pass = this [unfolded evaluate_pass endpoint_pass header_pass]
  obtain fp fh where f: "serves loads http limit frontend_url fp fh" "dict_get fp ''commit'' = Some (JStr expected)"
    using fetch_ok [OF assms(1)] pass by blast
  obtain ap ah where a: "serves loads http' limit api_url ap ah" "dict_get ap ''commit'' = Some (JStr expected)"
    using fetch_ok [OF assms(2)] pass by blast
  note e = fetch_serves [OF assms(1) f(1)] fetch_serves [OF assms(2) a(1)]
  have "declares_tree expected fp" using pass e(1) artifact_pass by simp
  then show ?r using f a pass e by (intro exI [of _ fp] exI [of _ fh] exI [of _ ap] exI [of _ ah]) simp
next
  assume ?r
  then obtain fp fh ap ah where r: "serves loads http limit frontend_url fp fh" "serves loads http' limit api_url ap ah"
    "dict_get fp ''commit'' = Some (JStr expected)" "dict_get ap ''commit'' = Some (JStr expected)"
    "dict_get fp ''version'' = Some (JStr (take 8 expected))" "declares_tree expected fp"
    "\<exists>v. dict_get fh ''cache-control'' = Some v \<and> contains ''no-store'' (lower v)"
    "dict_get ah ''x-weltgewebe-api-build'' = Some expected" "dict_get ah ''x-weltgewebe-build'' = Some (take 8 expected)"
    by blast
  show ?l
    unfolding evaluate_pass endpoint_pass header_pass
    using r fetch_serves [OF assms(1) r(1)] fetch_serves [OF assms(2) r(2)] artifact_pass [of expected fp] by (simp add: truthy_text_def)
qed

theorem release_pass_iff_witness: "vr_pass (evaluate [] sample_commit (sample_answer ''f'') (sample_answer ''a''))"
proof -
  have headers: "normalize_headers sample_items = sample_items" by code_simp
  have "serves sample_loads sample_http 1024 ''f'' sample_frontend sample_items"
    "serves sample_loads sample_http 1024 ''a'' [(''commit'', JStr sample_commit)] sample_items"
    by (simp_all add: serves_def sample_http_def sample_loads_def headers)
  moreover have "declares_tree sample_commit sample_frontend"
  proof -
    have "list_all is_lower_hex (replicate 64 CHR ''0'')" "list_all is_lower_hex (replicate 40 CHR ''a'')" by code_simp+
    then show ?thesis
      by (simp add: declares_tree_def sample_frontend_def sample_tree_def ARTIFACT_TREE_KEYS_def sample_commit_def insert_commute)
  qed
  moreover have "contains ''no-store'' (lower ''no-store'')" by code_simp
  ultimately show ?thesis
    unfolding release_pass_iff [OF sample_fetch sample_fetch]
    by (intro exI [of _ sample_frontend] exI [of _ sample_items] exI [of _ "[(''commit'', JStr sample_commit)]"])
       (simp add: sample_frontend_def sample_items_def)
qed



end
