(* ===== verification/Py_Float.thy ===== *)
theory Py_Float
  imports Py_Prelude "HOL-Library.Log_Nat"
begin

text \<open>
  Python's \<^verbatim>\<open>float\<close>: IEEE 754 binary64 with rounding to nearest, ties to even. A finite float is its exact value; the two zeros are
  one value, since nothing the sources do tells them apart (Python raises on division by either).

  \<^item> \<open>fl_round\<close> rounds an exact rational result, gradual underflow and overflow included; it is monotone (\<open>fl_round_mono\<close>).
  \<^item> The operations round the exact result; \<^verbatim>\<open>math.sqrt\<close> rounds an exact integer square root with a sticky bit.
  \<^item> \<^verbatim>\<open>sum\<close> over floats is the compensated summation of CPython 3.12, the release the repository pins.
\<close>

section \<open>Rounding\<close>

datatype fl = FFin rat | FPos | FNeg | FNan

definition half_even :: "rat \<Rightarrow> int" where
  "half_even q =
     (let f = \<lfloor>q\<rfloor>; r = q - of_int f in
      if r < 1 / 2 then f else if r > 1 / 2 then f + 1 else if even f then f else f + 1)"

text \<open>The binary exponent of a positive rational.\<close>

definition rat_exp :: "rat \<Rightarrow> int" where
  "rat_exp x =
     (case quotient_of x of (n, d) \<Rightarrow>
        let k = int (floorlog 2 (nat n)) - int (floorlog 2 (nat d)) in if 2 powi k \<le> x then k else k - 1)"

text \<open>The distance of neighbouring floats around a positive rational: 53 significant bits, but never below \<open>2\<^sup>-\<^sup>1\<^sup>0\<^sup>7\<^sup>4\<close>.\<close>

definition ulp_exp :: "rat \<Rightarrow> int" where
  "ulp_exp x = max (rat_exp x - 52) (- 1074)"

definition round_pos :: "rat \<Rightarrow> rat" where
  "round_pos x = of_int (half_even (x / 2 powi ulp_exp x)) * 2 powi ulp_exp x"

definition round_rat :: "rat \<Rightarrow> rat" where
  "round_rat x = (if x = 0 then 0 else if 0 < x then round_pos x else - round_pos (- x))"

definition fl_round :: "rat \<Rightarrow> fl" where
  "fl_round x = (let v = round_rat x in if 2 ^ 1024 \<le> v then FPos else if v \<le> - (2 ^ 1024) then FNeg else FFin v)"

section \<open>Order\<close>

fun fl_le :: "fl \<Rightarrow> fl \<Rightarrow> bool" where
  "fl_le (FFin a) (FFin b) = (a \<le> b)"
| "fl_le FNan _ = False"
| "fl_le _ FNan = False"
| "fl_le FNeg _ = True"
| "fl_le _ FPos = True"
| "fl_le _ _ = False"

definition fl_lt :: "fl \<Rightarrow> fl \<Rightarrow> bool" where
  "fl_lt a b = (fl_le a b \<and> \<not> fl_le b a)"

definition fl_eq :: "fl \<Rightarrow> fl \<Rightarrow> bool" where
  "fl_eq a b = (fl_le a b \<and> fl_le b a)"

fun is_finite :: "fl \<Rightarrow> bool" where
  "is_finite (FFin _) = True"
| "is_finite _ = False"

section \<open>Arithmetic\<close>

fun fl_neg :: "fl \<Rightarrow> fl" where
  "fl_neg (FFin a) = FFin (- a)"
| "fl_neg FPos = FNeg"
| "fl_neg FNeg = FPos"
| "fl_neg FNan = FNan"

fun fl_add :: "fl \<Rightarrow> fl \<Rightarrow> fl" where
  "fl_add (FFin a) (FFin b) = fl_round (a + b)"
| "fl_add FNan _ = FNan"
| "fl_add _ FNan = FNan"
| "fl_add FPos FNeg = FNan"
| "fl_add FNeg FPos = FNan"
| "fl_add FPos _ = FPos"
| "fl_add _ FPos = FPos"
| "fl_add FNeg _ = FNeg"
| "fl_add _ FNeg = FNeg"

definition fl_sub :: "fl \<Rightarrow> fl \<Rightarrow> fl" where
  "fl_sub a b = fl_add a (fl_neg b)"

fun fl_inf :: "bool \<Rightarrow> fl" where
  "fl_inf negative = (if negative then FNeg else FPos)"

fun fl_negative :: "fl \<Rightarrow> bool" where
  "fl_negative (FFin a) = (a < 0)"
| "fl_negative FNeg = True"
| "fl_negative _ = False"

definition fl_mul :: "fl \<Rightarrow> fl \<Rightarrow> fl" where
  "fl_mul a b =
     (case (a, b) of
        (FFin x, FFin y) \<Rightarrow> fl_round (x * y)
      | _ \<Rightarrow> if a = FNan \<or> b = FNan \<or> a = FFin 0 \<or> b = FFin 0 then FNan else fl_inf (fl_negative a \<noteq> fl_negative b))"

text \<open>Division by a value that is not zero; Python raises \<^verbatim>\<open>ZeroDivisionError\<close> for zero.\<close>

definition fl_div :: "fl \<Rightarrow> fl \<Rightarrow> fl" where
  "fl_div a b =
     (case (a, b) of
        (FFin x, FFin y) \<Rightarrow> fl_round (x / y)
      | (FNan, _) \<Rightarrow> FNan
      | (_, FNan) \<Rightarrow> FNan
      | (FFin x, _) \<Rightarrow> FFin 0
      | (_, FFin y) \<Rightarrow> fl_inf (fl_negative a \<noteq> fl_negative b)
      | _ \<Rightarrow> FNan)"

definition fl_abs :: "fl \<Rightarrow> fl" where
  "fl_abs a = (if fl_negative a then fl_neg a else a)"

fun isqrt :: "nat \<Rightarrow> nat" where
  "isqrt n = (if n = 0 then 0 else let r = 2 * isqrt (n div 4) in if (r + 1) * (r + 1) \<le> n then r + 1 else r)"

declare isqrt.simps [simp del]

text \<open>\<^verbatim>\<open>math.sqrt\<close> of a value that is not negative: every finite float is a multiple of \<open>4\<^sup>-\<^sup>6\<^sup>0\<^sup>0\<close>.\<close>

fun fl_sqrt :: "fl \<Rightarrow> fl" where
  "fl_sqrt (FFin x) =
     (let n = nat \<lfloor>x * 4 ^ 600\<rfloor>; s = isqrt n in
      fl_round ((if s * s = n then of_nat s else of_nat s + 1 / 2) / 2 ^ 600))"
| "fl_sqrt a = a"

text \<open>The built-in \<^verbatim>\<open>sum\<close>: Neumaier's compensation, added at the end if it is finite and not zero.\<close>

definition sum_step :: "fl \<times> fl \<Rightarrow> fl \<Rightarrow> fl \<times> fl" where
  "sum_step st x =
     (case st of (acc_sum, c) \<Rightarrow>
        let t = fl_add acc_sum x in
        (t, fl_add c (if fl_le (fl_abs x) (fl_abs acc_sum) then fl_add (fl_sub acc_sum t) x else fl_add (fl_sub x t) acc_sum)))"

definition fl_sum :: "fl list \<Rightarrow> fl" where
  "fl_sum xs =
     (case xs of
        [] \<Rightarrow> FFin 0
      | y # ys \<Rightarrow> (case foldl sum_step (y, FFin 0) ys of (acc_sum, c) \<Rightarrow> if is_finite c \<and> c \<noteq> FFin 0 then fl_add acc_sum c else acc_sum))"

section \<open>Lemmas\<close>

lemma half_even_near: "\<bar>of_int (half_even q) - q\<bar> \<le> 1 / 2"
proof -
  have "of_int \<lfloor>q\<rfloor> \<le> q" "q < of_int \<lfloor>q\<rfloor> + 1" by linarith+
  then show ?thesis unfolding half_even_def Let_def by (simp split: if_split)
qed

lemma half_even_mono: "p \<le> q \<Longrightarrow> half_even p \<le> half_even q"
proof (rule ccontr)
  assume "p \<le> q" "\<not> half_even p \<le> half_even q"
  then have "(of_int (half_even q) :: rat) + 1 \<le> of_int (half_even p)" by linarith
  then have "p = q" using half_even_near [of p] half_even_near [of q] \<open>p \<le> q\<close> by linarith
  then show False using \<open>\<not> half_even p \<le> half_even q\<close> by simp
qed

lemma half_even_int [simp]: "half_even (of_int n) = n"
  by (simp add: half_even_def)

lemma half_even_le: "q \<le> of_int n \<Longrightarrow> half_even q \<le> n"
  using half_even_mono [of q "of_int n"] by simp

lemma half_even_ge: "of_int n \<le> q \<Longrightarrow> n \<le> half_even q"
  using half_even_mono [of "of_int n" q] by simp

lemma floorlog_powi:
  assumes "0 < m"
  shows "(2 :: rat) powi (int (floorlog 2 (nat m)) - 1) \<le> of_int m" "of_int m < (2 :: rat) powi int (floorlog 2 (nat m))"
proof -
  let ?a = "floorlog 2 (nat m)"
  have a: "0 < ?a" using assms by (auto simp: floorlog_eq_zero_iff intro!: gr0I)
  have "2 ^ (?a - 1) \<le> nat m" "nat m < 2 ^ ?a" using floorlog_bounds [of "nat m" 2] assms by auto
  then have "int (2 ^ (?a - 1)) \<le> m" "m < int (2 ^ ?a)" using assms by linarith+
  then have "(of_int (int (2 ^ (?a - 1))) :: rat) \<le> of_int m" "(of_int m :: rat) < of_int (int (2 ^ ?a))"
    by (simp_all only: of_int_le_iff of_int_less_iff)
  moreover have "int ?a - 1 = int (?a - 1)" using a by simp
  ultimately show "(2 :: rat) powi (int ?a - 1) \<le> of_int m" "of_int m < (2 :: rat) powi int ?a"
    by (simp_all only: power_int_of_nat of_int_of_nat_eq of_nat_power of_nat_numeral of_int_power of_int_numeral)
qed

lemma rat_exp_bounds:
  assumes "0 < x"
  shows "2 powi rat_exp x \<le> x" "x < 2 powi (rat_exp x + 1)"
proof -
  obtain n d where q: "quotient_of x = (n, d)" by (cases "quotient_of x")
  have d: "0 < d" using quotient_of_denom_pos [OF q] .
  have x: "x = of_int n / of_int d" using quotient_of_div [OF q] .
  have n: "0 < n" using assms d by (simp add: x zero_less_divide_iff)
  let ?a = "floorlog 2 (nat n)" and ?b = "floorlog 2 (nat d)"
  note N = floorlog_powi [OF n] and D = floorlog_powi [OF d]
  let ?k = "int ?a - int ?b"
  have low: "2 powi (?k - 1) \<le> x"
  proof -
    have "2 powi (?k - 1) * (of_int d :: rat) \<le> 2 powi (?k - 1) * 2 powi int ?b" using D by (intro mult_left_mono) auto
    also have "\<dots> = 2 powi (?k - 1 + int ?b)" by (subst power_int_add) simp_all
    also have "?k - 1 + int ?b = int ?a - 1" by simp
    finally show ?thesis using N d by (simp add: x pos_le_divide_eq)
  qed
  have high: "x < 2 powi (?k + 1)"
  proof -
    have "of_int n < (2 :: rat) powi int ?a" by (rule N)
    also have "int ?a = ?k + 1 + (int ?b - 1)" by simp
    also have "(2 :: rat) powi (?k + 1 + (int ?b - 1)) = 2 powi (?k + 1) * 2 powi (int ?b - 1)" by (subst power_int_add) simp_all
    also have "\<dots> \<le> 2 powi (?k + 1) * of_int d" using D by (intro mult_left_mono) auto
    finally show ?thesis using d by (simp add: x pos_divide_less_eq)
  qed
  have "rat_exp x = (if 2 powi ?k \<le> x then ?k else ?k - 1)" by (simp add: rat_exp_def q Let_def)
  then show "2 powi rat_exp x \<le> x" "x < 2 powi (rat_exp x + 1)" using low high by (auto split: if_splits)
qed

lemma rat_exp_mono: "0 < x \<Longrightarrow> x \<le> y \<Longrightarrow> rat_exp x \<le> rat_exp y"
proof (rule ccontr)
  assume xy: "0 < x" "x \<le> y" "\<not> rat_exp x \<le> rat_exp y"
  then have "rat_exp y + 1 \<le> rat_exp x" by simp
  then have "(2 :: rat) powi (rat_exp y + 1) \<le> 2 powi rat_exp x" by (rule power_int_increasing) simp_all
  then show False using xy rat_exp_bounds(1) [of x] rat_exp_bounds(2) [of y] by linarith
qed

text \<open>Rounding does not cross a power of two that is a multiple of the distance.\<close>

lemma round_pos_le_power: "0 < x \<Longrightarrow> x \<le> 2 powi k \<Longrightarrow> ulp_exp x \<le> k \<Longrightarrow> round_pos x \<le> 2 powi k"
  and round_pos_ge_power: "0 < x \<Longrightarrow> 2 powi k \<le> x \<Longrightarrow> ulp_exp x \<le> k \<Longrightarrow> 2 powi k \<le> round_pos x"
proof -
  let ?u = "2 powi ulp_exp x :: rat"
  have whole: "2 powi k = of_int (2 ^ nat (k - ulp_exp x)) * ?u" if "ulp_exp x \<le> k"
  proof -
    have "(2 :: rat) powi k = 2 powi ((k - ulp_exp x) + ulp_exp x)" by simp
    also have "\<dots> = 2 powi (k - ulp_exp x) * ?u" by (rule power_int_add) simp
    also have "(2 :: rat) powi (k - ulp_exp x) = of_int (2 ^ nat (k - ulp_exp x))" using that by (simp add: power_int_def)
    finally show ?thesis .
  qed
  show "round_pos x \<le> 2 powi k" if "0 < x" "x \<le> 2 powi k" "ulp_exp x \<le> k"
  proof -
    have "x / ?u \<le> of_int (2 ^ nat (k - ulp_exp x))" using that(2) whole [OF that(3)] by (simp add: pos_divide_le_eq)
    from half_even_le [OF this] show ?thesis
      unfolding round_pos_def whole [OF that(3)] by (intro mult_right_mono) (simp_all only: of_int_le_iff, simp)
  qed
  show "2 powi k \<le> round_pos x" if "0 < x" "2 powi k \<le> x" "ulp_exp x \<le> k"
  proof -
    have "of_int (2 ^ nat (k - ulp_exp x)) \<le> x / ?u" using that(2) whole [OF that(3)] by (simp add: pos_le_divide_eq)
    from half_even_ge [OF this] show ?thesis
      unfolding round_pos_def whole [OF that(3)] by (intro mult_right_mono) (simp_all only: of_int_le_iff, simp)
  qed
qed

lemma round_pos_mono:
  assumes "0 < x" "x \<le> y"
  shows "round_pos x \<le> round_pos y"
proof (cases "ulp_exp x = ulp_exp y")
  case True
  have "half_even (x / 2 powi ulp_exp x) \<le> half_even (y / 2 powi ulp_exp x)"
    by (rule half_even_mono) (use assms in \<open>simp add: divide_right_mono\<close>)
  then show ?thesis unfolding round_pos_def True by (intro mult_right_mono) simp_all
next
  case False
  have le: "rat_exp x \<le> rat_exp y" using rat_exp_mono assms by blast
  with False have less: "rat_exp x + 1 \<le> rat_exp y" "ulp_exp x \<le> rat_exp y" "ulp_exp y \<le> rat_exp y"
    by (auto simp: ulp_exp_def max_def split: if_splits)
  have "x < 2 powi (rat_exp x + 1)" "(2 :: rat) powi (rat_exp x + 1) \<le> 2 powi rat_exp y" "2 powi rat_exp y \<le> y"
    using rat_exp_bounds [of x] rat_exp_bounds [of y] assms less by (auto intro!: power_int_increasing)
  then have "round_pos x \<le> 2 powi rat_exp y" "2 powi rat_exp y \<le> round_pos y"
    using round_pos_le_power [of x "rat_exp y"] round_pos_ge_power [of y "rat_exp y"] assms less by auto
  then show ?thesis by linarith
qed

lemma round_pos_nonneg: "0 < x \<Longrightarrow> 0 \<le> round_pos x"
proof -
  assume "0 < x"
  then have "0 \<le> half_even (x / 2 powi ulp_exp x)" by (intro half_even_ge) simp
  then show ?thesis by (simp add: round_pos_def)
qed

lemma round_rat_mono: "x \<le> y \<Longrightarrow> round_rat x \<le> round_rat y"
proof -
  assume xy: "x \<le> y"
  consider "0 < x" | "x \<le> 0" "0 \<le> y" | "y < 0" by linarith
  then show ?thesis
  proof cases
    case 1
    then show ?thesis using round_pos_mono [OF 1 xy] xy by (simp add: round_rat_def)
  next
    case 2
    then show ?thesis using round_pos_nonneg [of y] round_pos_nonneg [of "- x"] by (auto simp: round_rat_def)
  next
    case 3
    then show ?thesis using round_pos_mono [of "- y" "- x"] xy by (simp add: round_rat_def)
  qed
qed

theorem fl_round_mono: "x \<le> y \<Longrightarrow> fl_le (fl_round x) (fl_round y)"
  using round_rat_mono [of x y] by (auto simp: fl_round_def Let_def)

lemma fl_round_not_nan [simp]: "fl_round x \<noteq> FNan"
  by (simp add: fl_round_def Let_def)

lemma isqrt_bounds: "isqrt n * isqrt n \<le> n \<and> n < (isqrt n + 1) * (isqrt n + 1)"
proof (induction n rule: isqrt.induct)
  case (1 n)
  show ?case
  proof (cases "n = 0")
    case True
    then show ?thesis by (simp add: isqrt.simps)
  next
    case False
    let ?h = "isqrt (n div 4)"
    have h: "?h * ?h \<le> n div 4" "n div 4 < (?h + 1) * (?h + 1)" using 1 [OF False] by auto
    have "4 * (?h * ?h) \<le> n" using h(1) by linarith
    moreover have "n < 4 * ((?h + 1) * (?h + 1))" using h(2) by linarith
    moreover have "isqrt n = (if (2 * ?h + 1) * (2 * ?h + 1) \<le> n then 2 * ?h + 1 else 2 * ?h)"
      using False by (subst isqrt.simps) (simp add: Let_def)
    ultimately show ?thesis by (auto simp: algebra_simps)
  qed
qed

text \<open>Numbers with at most 53 bits are not rounded.\<close>

lemma round_pos_exact:
  assumes "0 < m" "m < 2 ^ 53" "- 1074 \<le> k"
  shows "round_pos (of_int m * 2 powi k) = of_int m * 2 powi k"
proof -
  let ?x = "of_int m * 2 powi k :: rat"
  have pos: "0 < ?x" using assms(1) by simp
  have "(of_int m :: rat) < of_int (2 ^ 53)" using assms(2) by (simp only: of_int_less_iff)
  then have "?x < 2 powi 53 * 2 powi k" by (intro mult_strict_right_mono) simp_all
  also have "(2 :: rat) powi 53 * 2 powi k = 2 powi (53 + k)" by (rule power_int_add [symmetric]) simp
  finally have "2 powi rat_exp ?x < (2 :: rat) powi (53 + k)" using rat_exp_bounds(1) [OF pos] by linarith
  then have "rat_exp ?x < 53 + k" by (rule contrapos_pp) (auto intro!: power_int_increasing simp: not_less)
  then have u: "ulp_exp ?x \<le> k" using assms(3) by (simp add: ulp_exp_def)
  have "(2 :: rat) powi k = 2 powi (k - ulp_exp ?x) * 2 powi ulp_exp ?x"
    using power_int_add [of "2 :: rat" "k - ulp_exp ?x" "ulp_exp ?x"] by simp
  also have "(2 :: rat) powi (k - ulp_exp ?x) = of_int (2 ^ nat (k - ulp_exp ?x))" using u by (simp add: power_int_def)
  finally have "?x / 2 powi ulp_exp ?x = of_int (m * 2 ^ nat (k - ulp_exp ?x))" by (simp add: field_simps)
  then have "round_pos ?x = ?x / 2 powi ulp_exp ?x * 2 powi ulp_exp ?x" by (simp only: round_pos_def half_even_int)
  then show ?thesis by simp
qed

lemma fl_round_nat: "n < 2 ^ 53 \<Longrightarrow> fl_round (of_nat n) = FFin (of_nat n)"
proof -
  assume n: "n < 2 ^ 53"
  have "round_rat (of_nat n) = of_nat n"
    using round_pos_exact [of "int n" 0] n by (cases "n = 0") (simp_all add: round_rat_def)
  moreover have "(of_nat n :: rat) < 2 ^ 1024"
  proof -
    have "(of_nat n :: rat) < of_nat (2 ^ 53)" using n by (simp only: of_nat_less_iff)
    then show ?thesis by simp
  qed
  ultimately show ?thesis by (auto simp: fl_round_def Let_def not_le intro: order.strict_trans2 [of _ 0])
qed

lemma isqrt_square: "isqrt (k * k) = k"
proof -
  let ?s = "isqrt (k * k)"
  have b: "?s * ?s \<le> k * k" "k * k < (?s + 1) * (?s + 1)" using isqrt_bounds [of "k * k"] by auto
  have "?s \<le> k" using b(1) by (simp add: power2_nat_le_eq_le flip: power2_eq_square)
  moreover have "k < ?s + 1" using b(2) by (metis mult_le_mono not_less)
  ultimately show ?thesis by simp
qed

lemma fl_sqrt_square: "fl_sqrt (FFin (of_nat n * of_nat n)) = fl_round (of_nat n)"
proof -
  have "of_nat n * of_nat n * (4 :: rat) ^ 600 = of_nat ((n * 2 ^ 600) * (n * 2 ^ 600))" by (simp flip: power_mult_distrib)
  then have "nat \<lfloor>of_nat n * of_nat n * (4 :: rat) ^ 600\<rfloor> = (n * 2 ^ 600) * (n * 2 ^ 600)" by (simp only: floor_of_nat nat_int)
  then show ?thesis by (simp only: fl_sqrt.simps Let_def isqrt_square) simp
qed

end
