(* ===== verification/Search_Core.thy ===== *)
theory Search_Core
  imports Py_Float Py_Regex Py_Json
begin

text \<open>
  \<^verbatim>\<open>scripts/search/hybrid_ranking_core.py\<close>, first part: text normalisation, the privacy boundary, documents and queries, the identity
  of a model and of a generation, and vectors.

  A value that the code checks with \<^verbatim>\<open>isinstance\<close> is a \<open>json\<close> value, or a \<open>raw_number\<close> where floats are computed with. Parameters
  in \<open>search_env\<close>: NFKC normalisation followed by case folding, which are tables over all of Unicode; SHA-256; and what
  \<^verbatim>\<open>list.sort\<close> leaves of a list whose keys contain a NaN, which Python does not specify.
\<close>

section \<open>Constants\<close>

definition NORMALIZATION_REVISION :: string where "NORMALIZATION_REVISION = ''weltgewebe-search-normalization-v1''"
definition RANKING_REVISION :: string where "RANKING_REVISION = ''weltgewebe-hybrid-ranking-v2''"
definition MAX_DIMENSIONS :: int where "MAX_DIMENSIONS = 8192"
definition MAX_CANDIDATES :: nat where "MAX_CANDIDATES = 1000"
definition MAX_TEXT_CHARACTERS :: nat where "MAX_TEXT_CHARACTERS = 65536"

definition STOP_WORDS :: "string list" where
  "STOP_WORDS =
     [''aber'', ''als'', ''am'', ''an'', ''auch'', ''auf'', ''aus'', ''bei'', ''bin'', ''bis'', ''das'', ''dass'', ''dem'', ''den'', ''der'', ''des'',
      ''die'', ''ein'', ''eine'', ''einem'', ''einen'', ''einer'', ''es'', ''etwas'', ''f'' @ [CHR 0xFC] @ ''r'', ''gegen'', ''gemeinsam'', ''hat'',
      ''ich'', ''im'', ''in'', ''ist'', ''kann'', ''man'', ''mein'', ''meine'', ''mit'', ''m'' @ [CHR 0xF6] @ ''chte'', ''nach'', ''nicht'', ''nur'',
      ''oder'', ''ohne'', ''sich'', ''sie'', ''soll'', ''um'', ''und'', ''von'', ''vor'', ''was'', ''wenn'', ''wer'', ''wie'', ''will'', ''wir'', ''wo'',
      ''zu'', ''zum'', ''zur'']"

definition local_char :: "char \<Rightarrow> bool" where
  "local_char c = (is_alpha c \<or> is_digit c \<or> c \<in> set ''.!#$%&*+/=?^_`{|}~-'' \<or> c = CHR 0x27)"

definition domain_char :: "char \<Rightarrow> bool" where
  "domain_char c = (is_alpha c \<or> is_digit c \<or> c = CHR ''-'')"

definition EMAIL_LIKE :: re where
  "EMAIL_LIKE = seqs [WordB, Plus (Chr local_char), Chr (\<lambda>c. c = CHR ''@''), Plus (Chr domain_char),
     Plus (Seq (Chr (\<lambda>c. c = CHR ''.'')) (Plus (Chr domain_char))), WordB]"

definition word_or_dash :: "char \<Rightarrow> bool" where
  "word_or_dash c = (is_word_char c \<or> c = CHR ''-'')"

definition PHONE_LIKE :: re where
  "PHONE_LIKE = seqs [NotBehind word_or_dash,
     alts [Lit ''+49'', Lit ''0049'', seqs [Chr (\<lambda>c. c = CHR ''0''), Chr (\<lambda>c. is_digit c \<and> c \<noteq> CHR ''0''), RepBetween 1 4 (Chr is_digit)]],
     RepBetween 6 14 (Seq (Opt (Chr (\<lambda>c. c \<in> set '' /-''))) (Chr is_digit)), NotAhead word_or_dash]"

definition digit_or_dot :: "char \<Rightarrow> bool" where
  "digit_or_dot c = (is_digit c \<or> c = CHR ''.'')"

definition octet :: re where
  "octet = alts [Seq (Lit ''25'') (Chr (\<lambda>c. c \<in> set ''012345'')), seqs [Lit ''2'', Chr (\<lambda>c. c \<in> set ''01234''), Chr is_digit],
     seqs [Opt (Lit ''1''), Opt (Chr is_digit), Chr is_digit]]"

definition IPV4_LIKE :: re where
  "IPV4_LIKE = seqs [NotBehind digit_or_dot, octet, Rep 3 (Seq (Chr (\<lambda>c. c = CHR ''.'')) octet), NotAhead digit_or_dot]"

section \<open>Errors\<close>

text \<open>The classes of the core, the built-in errors that escape it, and whatever else a provider raises.\<close>

datatype search_exc =
    SearchCoreError string
  | ProviderBoundaryError string
  | ProviderUnavailableError string
  | VectorValidationError string
  | GenerationMismatchError string
  | PrivacyBoundaryError string
  | FloatOverflow
  | ZeroDivision
  | BuiltinTypeError
  | ForeignError string

record search_env =
  se_nfkc_casefold :: "string \<Rightarrow> string"
  se_sha256 :: "string \<Rightarrow> string"
  se_unordered :: "(fl \<times> string) list \<Rightarrow> (fl \<times> string) list"

section \<open>Text\<close>

fun split_by :: "(char \<Rightarrow> bool) \<Rightarrow> string \<Rightarrow> string list" where
  "split_by p [] = [[]]"
| "split_by p (c # cs) = (if p c then [] # split_by p cs else (case split_by p cs of w # ws \<Rightarrow> (c # w) # ws | [] \<Rightarrow> [[c]]))"

text \<open>\<^verbatim>\<open>s.split()\<close>.\<close>

definition split_words :: "string \<Rightarrow> string list" where
  "split_words s = filter (\<lambda>w. w \<noteq> []) (split_by py_isspace s)"

text \<open>\<^verbatim>\<open>re.sub(r"[^\w]+", " ", s)\<close>.\<close>

function blank_runs :: "string \<Rightarrow> string" where
  "blank_runs [] = []"
| "blank_runs (c # cs) = (if is_word_char c then c # blank_runs cs else CHR '' '' # blank_runs (dropWhile (\<lambda>d. \<not> is_word_char d) cs))"
  by pat_completeness auto
termination
  by (relation "measure length") (auto simp: less_Suc_eq_le length_dropWhile_le)

definition normalize_text :: "search_env \<Rightarrow> string \<Rightarrow> string" where
  "normalize_text env s = join '' '' (split_words (blank_runs (se_nfkc_casefold env s)))"

definition require_text :: "json \<Rightarrow> string \<Rightarrow> bool \<Rightarrow> search_exc + string" where
  "require_text v label allow_empty =
     (case v of
        JStr s \<Rightarrow>
          if \<not> allow_empty \<and> strip s = [] then Inl (SearchCoreError (label @ '' must not be empty''))
          else if length s > MAX_TEXT_CHARACTERS
            then Inl (SearchCoreError (label @ '' exceeds '' @ str_of_nat MAX_TEXT_CHARACTERS @ '' characters''))
          else Inr s
      | _ \<Rightarrow> Inl (SearchCoreError (label @ '' must be a string'')))"

definition reject_personal_data :: "string list \<Rightarrow> string \<Rightarrow> search_exc + unit" where
  "reject_personal_data texts label =
     forE (\<lambda>s.
       bindE (raise_when (re_search EMAIL_LIKE s \<noteq> None) (PrivacyBoundaryError (label @ '' contains an email-like value''))) (\<lambda>_.
       bindE (raise_when (re_search PHONE_LIKE s \<noteq> None) (PrivacyBoundaryError (label @ '' contains a phone-like value''))) (\<lambda>_.
       raise_when (re_search IPV4_LIKE s \<noteq> None) (PrivacyBoundaryError (label @ '' contains an IPv4-like value''))))) texts"

section \<open>Identities\<close>

record model_identity =
  mi_provider :: string
  mi_model_id :: string
  mi_model_revision :: string
  mi_runtime_id :: string
  mi_dimensions :: int

text \<open>\<^verbatim>\<open>ModelIdentity(...)\<close>, from values of any type.\<close>

definition model_identity_init :: "json \<Rightarrow> json \<Rightarrow> json \<Rightarrow> json \<Rightarrow> json \<Rightarrow> search_exc + model_identity" where
  "model_identity_init provider model_id model_revision runtime_id dimensions =
     bindE (require_text provider ''provider'' False) (\<lambda>p.
     bindE (require_text model_id ''model_id'' False) (\<lambda>m.
     bindE (require_text model_revision ''model_revision'' False) (\<lambda>v.
     bindE (require_text runtime_id ''runtime_id'' False) (\<lambda>r.
     bindE (raise_when (\<not> startswith p ''local:'') (ProviderBoundaryError ''embedding provider must use the local: namespace'')) (\<lambda>_.
     case dimensions of
       JInt d \<Rightarrow>
         if 1 \<le> d \<and> d \<le> MAX_DIMENSIONS
         then Inr \<lparr>mi_provider = p, mi_model_id = m, mi_model_revision = v, mi_runtime_id = r, mi_dimensions = d\<rparr>
         else Inl (VectorValidationError (''embedding dimensions must be between 1 and '' @ str_of_int MAX_DIMENSIONS))
     | _ \<Rightarrow> Inl (VectorValidationError ''embedding dimensions must be an integer''))))))"

definition model_dict :: "model_identity \<Rightarrow> json" where
  "model_dict m = JDict [(''provider'', JStr (mi_provider m)), (''model_id'', JStr (mi_model_id m)), (''model_revision'', JStr (mi_model_revision m)),
     (''runtime_id'', JStr (mi_runtime_id m)), (''dimensions'', JInt (mi_dimensions m))]"

record generation_identity =
  gi_generation_id :: string
  gi_model :: model_identity
  gi_document_revision :: string
  gi_normalization_revision :: string
  gi_ranking_revision :: string

text \<open>What is hashed into the identifier of a generation.\<close>

definition generation_payload :: "model_identity \<Rightarrow> string \<Rightarrow> json" where
  "generation_payload model document_revision = JDict
     [(''model'', model_dict model), (''document_revision'', JStr document_revision),
      (''normalization_revision'', JStr NORMALIZATION_REVISION), (''ranking_revision'', JStr RANKING_REVISION)]"

definition generation_message :: "model_identity \<Rightarrow> string \<Rightarrow> string" where
  "generation_message model document_revision = utf8_encode (json_dumps (generation_payload model document_revision))"

definition derive_id :: "search_env \<Rightarrow> model_identity \<Rightarrow> string \<Rightarrow> search_exc + string" where
  "derive_id env model document_revision =
     bindE (require_text (JStr document_revision) ''document_revision'' False) (\<lambda>_.
     Inr (''search-gen-'' @ se_sha256 env (generation_message model document_revision)))"

text \<open>\<^verbatim>\<open>GenerationIdentity.__post_init__\<close>.\<close>

definition generation_check :: "search_env \<Rightarrow> generation_identity \<Rightarrow> search_exc + generation_identity" where
  "generation_check env g =
     bindE (require_text (JStr (gi_document_revision g)) ''document_revision'' False) (\<lambda>_.
     bindE (raise_when (gi_normalization_revision g \<noteq> NORMALIZATION_REVISION) (GenerationMismatchError ''normalization revision is not supported by this core'')) (\<lambda>_.
     bindE (raise_when (gi_ranking_revision g \<noteq> RANKING_REVISION) (GenerationMismatchError ''ranking revision is not supported by this core'')) (\<lambda>_.
     bindE (derive_id env (gi_model g) (gi_document_revision g)) (\<lambda>expected.
     bindE (raise_when (gi_generation_id g \<noteq> expected) (GenerationMismatchError ''generation id does not match its immutable identity'')) (\<lambda>_.
     Inr g)))))"

definition build_generation :: "search_env \<Rightarrow> model_identity \<Rightarrow> string \<Rightarrow> search_exc + generation_identity" where
  "build_generation env model document_revision =
     bindE (derive_id env model document_revision) (\<lambda>i.
     generation_check env \<lparr>gi_generation_id = i, gi_model = model, gi_document_revision = document_revision,
       gi_normalization_revision = NORMALIZATION_REVISION, gi_ranking_revision = RANKING_REVISION\<rparr>)"

definition generation_dict :: "generation_identity \<Rightarrow> json" where
  "generation_dict g = JDict [(''generation_id'', JStr (gi_generation_id g)), (''model'', model_dict (gi_model g)),
     (''document_revision'', JStr (gi_document_revision g)), (''normalization_revision'', JStr (gi_normalization_revision g)),
     (''ranking_revision'', JStr (gi_ranking_revision g))]"

section \<open>Documents and queries\<close>

record search_document =
  sd_node_id :: string
  sd_title :: string
  sd_summary :: string
  sd_body :: string
  sd_tags :: "string list"
  sd_kind :: string
  sd_language :: string

text \<open>The arguments of \<^verbatim>\<open>SearchDocument(...)\<close>, of any type; \<open>None\<close> for tags that are not a tuple.\<close>

record document_args =
  da_node_id :: json
  da_title :: json
  da_summary :: json
  da_body :: json
  da_tags :: "json list option"
  da_kind :: json
  da_language :: json
  da_privacy_class :: json
  da_contains_personal_data :: json

definition document_texts :: "search_document \<Rightarrow> string list" where
  "document_texts d = [sd_node_id d, sd_title d, sd_summary d, sd_body d] @ sd_tags d @ [sd_kind d, sd_language d]"

definition document_init :: "document_args \<Rightarrow> search_exc + search_document" where
  "document_init a =
     bindE (require_text (da_node_id a) ''node_id'' False) (\<lambda>node_id.
     bindE (require_text (da_title a) ''title'' False) (\<lambda>title.
     bindE (require_text (da_summary a) ''summary'' True) (\<lambda>summary.
     bindE (require_text (da_body a) ''body'' True) (\<lambda>body.
     bindE (require_text (da_kind a) ''kind'' False) (\<lambda>kind'.
     bindE (require_text (da_language a) ''language'' False) (\<lambda>language.
     bindE (raise_when (da_privacy_class a \<noteq> JStr ''synthetic'' \<or> da_contains_personal_data a \<noteq> JBool False)
       (PrivacyBoundaryError ''search document must be explicitly synthetic and PII-free'')) (\<lambda>_.
     case da_tags a of
       None \<Rightarrow> Inl (SearchCoreError ''search document tags must be an immutable tuple'')
     | Some tags \<Rightarrow>
         bindE (raise_when (length tags = 0 \<or> length tags > 32) (SearchCoreError ''search document must contain between 1 and 32 tags'')) (\<lambda>_.
         bindE (mapE (\<lambda>tag. require_text tag ''tag'' False) tags) (\<lambda>ts.
         let d = \<lparr>sd_node_id = node_id, sd_title = title, sd_summary = summary, sd_body = body, sd_tags = ts, sd_kind = kind', sd_language = language\<rparr> in
         bindE (reject_personal_data (document_texts d) ''search document'') (\<lambda>_. Inr d))))))))))"

definition DOCUMENT_FIELDS :: "string list" where
  "DOCUMENT_FIELDS = [''node_id'', ''title'', ''summary'', ''body'', ''tags'', ''kind'', ''language'', ''privacy_class'', ''contains_personal_data'']"

definition field :: "jobject \<Rightarrow> string \<Rightarrow> json" where
  "field d k = (case dict_get d k of Some v \<Rightarrow> v | None \<Rightarrow> JNull)"

definition from_mapping :: "jobject \<Rightarrow> search_exc + search_document" where
  "from_mapping v =
     bindE (raise_when (set (keys_of v) \<noteq> set DOCUMENT_FIELDS)
       (PrivacyBoundaryError ''search document must contain exactly the authorized search fields'')) (\<lambda>_.
     case field v ''tags'' of
       JList tags \<Rightarrow>
         bindE (raise_when (tags = [] \<or> length tags > 32 \<or> (\<exists>tag \<in> set tags. \<not> is_str tag)) (SearchCoreError ''search document tags are invalid'')) (\<lambda>_.
         document_init \<lparr>da_node_id = field v ''node_id'', da_title = field v ''title'', da_summary = field v ''summary'', da_body = field v ''body'',
           da_tags = Some tags, da_kind = field v ''kind'', da_language = field v ''language'', da_privacy_class = field v ''privacy_class'',
           da_contains_personal_data = field v ''contains_personal_data''\<rparr>)
     | _ \<Rightarrow> Inl (SearchCoreError ''search document tags are invalid''))"

definition document_embedding_text :: "search_document \<Rightarrow> string" where
  "document_embedding_text d = join [CHR 0x0A] [''Titel: '' @ sd_title d, ''Kurzbeschreibung: '' @ sd_summary d, ''Information: '' @ sd_body d,
     ''Tags: '' @ join '', '' (sd_tags d), ''Art: '' @ sd_kind d, ''Sprache: '' @ sd_language d]"

definition content_payload :: "search_env \<Rightarrow> search_document \<Rightarrow> json" where
  "content_payload env d = JDict [(''normalization_revision'', JStr NORMALIZATION_REVISION), (''node_id'', JStr (sd_node_id d)),
     (''title'', JStr (normalize_text env (sd_title d))), (''summary'', JStr (normalize_text env (sd_summary d))),
     (''body'', JStr (normalize_text env (sd_body d))), (''tags'', JList (map (\<lambda>t. JStr (normalize_text env t)) (sd_tags d))),
     (''kind'', JStr (normalize_text env (sd_kind d))), (''language'', JStr (normalize_text env (sd_language d)))]"

definition content_sha256 :: "search_env \<Rightarrow> search_document \<Rightarrow> string" where
  "content_sha256 env d = se_sha256 env (utf8_encode (json_dumps (content_payload env d)))"

text \<open>A query that was accepted is its text.\<close>

definition query_init :: "json \<Rightarrow> json \<Rightarrow> json \<Rightarrow> search_exc + string" where
  "query_init v privacy_class contains_personal_data =
     bindE (require_text v ''query'' False) (\<lambda>s.
     bindE (raise_when (privacy_class \<noteq> JStr ''synthetic'' \<or> contains_personal_data \<noteq> JBool False)
       (PrivacyBoundaryError ''search query must be explicitly synthetic and PII-free'')) (\<lambda>_.
     bindE (reject_personal_data [s] ''search query'') (\<lambda>_. Inr s)))"

definition query_embedding_text :: "string \<Rightarrow> string" where
  "query_embedding_text s = ''Aufgabe: Finde den relevantesten sichtbaren Weltgewebe-Knoten.'' @ [CHR 0x0A] @ ''Anfrage: '' @ s"

section \<open>Vectors\<close>

text \<open>A value in a vector, and what a provider returns for one: a sequence that is neither text nor bytes, or something else.\<close>

datatype raw_number = RInt int | RBool bool | RFloat fl | RNone

datatype raw_vector = RSeq "raw_number list" | RNotSequence

text \<open>\<^verbatim>\<open>float(value)\<close>: an integer beyond the range raises \<^verbatim>\<open>OverflowError\<close>.\<close>

definition float_of_int :: "int \<Rightarrow> search_exc + fl" where
  "float_of_int i = (if is_finite (fl_round (of_int i)) then Inr (fl_round (of_int i)) else Inl FloatOverflow)"

fun convert_number :: "raw_number \<Rightarrow> search_exc + fl" where
  "convert_number (RInt i) = float_of_int i"
| "convert_number (RFloat f) = (if is_finite f then Inr f else Inl (VectorValidationError ''embedding vector contains a non-finite value''))"
| "convert_number _ = Inl (VectorValidationError ''embedding vector contains a non-number'')"

definition vector_norm :: "fl list \<Rightarrow> fl" where
  "vector_norm xs = fl_sqrt (fl_sum (map (\<lambda>v. fl_mul v v) xs))"

definition validate_vector :: "raw_vector \<Rightarrow> int \<Rightarrow> search_exc + fl list" where
  "validate_vector values expected_dimensions =
     bindE (raise_when (\<not> (1 \<le> expected_dimensions \<and> expected_dimensions \<le> MAX_DIMENSIONS))
       (VectorValidationError ''expected dimensions are outside the supported range'')) (\<lambda>_.
     case values of
       RNotSequence \<Rightarrow> Inl (VectorValidationError ''embedding vector must be a numeric sequence'')
     | RSeq vs \<Rightarrow>
         bindE (raise_when (int (length vs) \<noteq> expected_dimensions) (VectorValidationError ''embedding vector dimension mismatch'')) (\<lambda>_.
         bindE (mapE convert_number vs) (\<lambda>converted.
         bindE (raise_when (fl_eq (vector_norm converted) (FFin 0)) (VectorValidationError ''embedding vector has zero norm'')) (\<lambda>_.
         Inr converted))))"

definition cosine_similarity :: "fl list \<Rightarrow> fl list \<Rightarrow> search_exc + fl" where
  "cosine_similarity left right =
     bindE (raise_when (length left \<noteq> length right \<or> left = []) (VectorValidationError ''cosine inputs have different or empty dimensions'')) (\<lambda>_.
     let numerator = fl_sum (map (\<lambda>(a, b). fl_mul a b) (zip left right)) in
     bindE (raise_when (fl_eq (vector_norm left) (FFin 0) \<or> fl_eq (vector_norm right) (FFin 0)) (VectorValidationError ''cosine input has zero norm'')) (\<lambda>_.
     let denominator = fl_mul (vector_norm left) (vector_norm right) in
     if fl_eq denominator (FFin 0) then Inl ZeroDivision else Inr (fl_div numerator denominator)))"

record bound_vector =
  bv_generation_id :: string
  bv_values :: raw_vector

definition build_vector :: "generation_identity \<Rightarrow> raw_vector \<Rightarrow> search_exc + bound_vector" where
  "build_vector generation values =
     bindE (validate_vector values (mi_dimensions (gi_model generation))) (\<lambda>vs.
     Inr \<lparr>bv_generation_id = gi_generation_id generation, bv_values = RSeq (map RFloat vs)\<rparr>)"

end
