(* ===== verification/Search_Rank.thy ===== *)
theory Search_Rank
  imports Search_Core
begin

text \<open>
  \<^verbatim>\<open>scripts/search/hybrid_ranking_core.py\<close>, second part: the lexical signals and their ranking, the fusion with one semantic candidate,
  and the ranking with an embedding provider and its fallback. The query is not an argument of \<open>rank_hybrid\<close>: the code does not look at it there.
\<close>

section \<open>Constants\<close>

definition SEMANTIC_MINIMUM_COSINE :: fl where "SEMANTIC_MINIMUM_COSINE = fl_round (55 / 100)"
definition SEMANTIC_MINIMUM_MARGIN :: fl where "SEMANTIC_MINIMUM_MARGIN = fl_round (15 / 1000)"
definition SEMANTIC_APPEND_LIMIT :: nat where "SEMANTIC_APPEND_LIMIT = 1"

definition RANK_EXACT_TITLE :: int where "RANK_EXACT_TITLE = 0"
definition RANK_EXACT_TAG :: int where "RANK_EXACT_TAG = 1"
definition RANK_TITLE_PREFIX :: int where "RANK_TITLE_PREFIX = 2"
definition RANK_TYPO :: int where "RANK_TYPO = 3"
definition RANK_FULL_TEXT :: int where "RANK_FULL_TEXT = 4"

section \<open>Lexical signals\<close>

definition tokens :: "search_env \<Rightarrow> string \<Rightarrow> string set" where
  "tokens env s = set (filter (\<lambda>w. 2 \<le> length w \<and> w \<notin> set STOP_WORDS) (split_words (normalize_text env s)))"

definition trigrams :: "search_env \<Rightarrow> string \<Rightarrow> string set" where
  "trigrams env s =
     (let normalized = ''  '' @ normalize_text env s @ '' '' in
      set (map (\<lambda>i. take 3 (drop i normalized)) [0..<length normalized - 2]))"

definition true_div :: "nat \<Rightarrow> nat \<Rightarrow> fl" where
  "true_div a b = fl_round (of_nat a / of_nat b)"

definition trigram_similarity :: "search_env \<Rightarrow> string \<Rightarrow> string \<Rightarrow> fl" where
  "trigram_similarity env left right =
     (let l = trigrams env left; r = trigrams env right in
      if l = {} \<or> r = {} then FFin 0 else true_div (card (l \<inter> r)) (card (l \<union> r)))"

definition full_text_fields :: "search_env \<Rightarrow> search_document \<Rightarrow> (string set \<times> fl) list" where
  "full_text_fields env d =
     [(tokens env (sd_title d), FFin 4), (tokens env (join '' '' (sd_tags d)), FFin 3), (tokens env (sd_summary d), FFin 2),
      (tokens env (sd_kind d), FFin 2), (tokens env (sd_body d), FFin 1)]"

definition full_text_score :: "search_env \<Rightarrow> string \<Rightarrow> search_document \<Rightarrow> nat \<times> fl" where
  "full_text_score env query d =
     (let query_tokens = tokens env query in
      if query_tokens = {} then (0, FFin 0)
      else
        (case foldl (\<lambda>(matched, weighted) (field_tokens, weight).
              let common = query_tokens \<inter> field_tokens in
              (matched \<union> common, fl_add weighted (fl_mul weight (fl_round (of_nat (card common))))))
            ({}, FFin 0) (full_text_fields env d) of
           (matched, weighted) \<Rightarrow>
             let required = (if card query_tokens \<le> 3 then 1 else 2) in
             if card matched < required then (card matched, FFin 0)
             else (card matched, fl_div weighted (fl_mul (FFin 4) (fl_round (of_nat (card query_tokens)))))))"

record lexical_hit =
  ls_rank_class :: int
  ls_label :: string
  ls_score :: fl

definition fl_max :: "fl \<Rightarrow> fl \<Rightarrow> fl" where
  "fl_max a b = (if fl_lt a b then b else a)"

definition lexical_signal :: "search_env \<Rightarrow> string \<Rightarrow> search_document \<Rightarrow> lexical_hit option" where
  "lexical_signal env query d =
     (let normalized_query = normalize_text env query; normalized_title = normalize_text env (sd_title d);
          normalized_tags = map (normalize_text env) (sd_tags d) in
      if normalized_title = normalized_query then Some \<lparr>ls_rank_class = RANK_EXACT_TITLE, ls_label = ''exact_title'', ls_score = FFin 1\<rparr>
      else if normalized_query \<in> set normalized_tags then Some \<lparr>ls_rank_class = RANK_EXACT_TAG, ls_label = ''exact_tag'', ls_score = FFin 1\<rparr>
      else if startswith normalized_title normalized_query
        then Some \<lparr>ls_rank_class = RANK_TITLE_PREFIX, ls_label = ''title_prefix'', ls_score = true_div (length normalized_query) (length normalized_title)\<rparr>
      else
        let typo_score = foldl fl_max (trigram_similarity env query (sd_title d))
              (trigram_similarity env query (sd_summary d) # map (trigram_similarity env query) (sd_tags d)) in
        if fl_le (fl_round (30 / 100)) typo_score then Some \<lparr>ls_rank_class = RANK_TYPO, ls_label = ''typo'', ls_score = typo_score\<rparr>
        else
          (case full_text_score env query d of (matched, score) \<Rightarrow>
             if matched \<noteq> 0 \<and> fl_lt (FFin 0) score then Some \<lparr>ls_rank_class = RANK_FULL_TEXT, ls_label = ''full_text'', ls_score = score\<rparr> else None))"

section \<open>Candidates\<close>

datatype ranking_mode = Lexical | Hybrid | LexicalFallback

record ranking_result =
  rk_ranked_node_ids :: "string list"
  rk_mode :: ranking_mode
  rk_generation :: "generation_identity option"
  rk_fallback_reason :: "string option"

definition validate_candidates :: "search_document list \<Rightarrow> search_exc + unit" where
  "validate_candidates candidates =
     bindE (raise_when (length candidates > MAX_CANDIDATES) (SearchCoreError (''candidate set exceeds '' @ str_of_nat MAX_CANDIDATES))) (\<lambda>_.
     raise_when (\<not> distinct (map sd_node_id candidates)) (SearchCoreError ''candidate node ids must be unique''))"

text \<open>
  The precomputed order, of any type: text is refused, a sequence or mapping is turned into a tuple; \<^verbatim>\<open>set(ranked)\<close> raises
  \<^verbatim>\<open>TypeError\<close> on elements that cannot be hashed and identifies equal ones.
\<close>

fun is_hashable :: "json \<Rightarrow> bool" where
  "is_hashable (JList _) = False"
| "is_hashable (JDict _) = False"
| "is_hashable _ = True"

fun py_distinct :: "json list \<Rightarrow> bool" where
  "py_distinct [] = True"
| "py_distinct (x # xs) = (\<not> py_in x xs \<and> py_distinct xs)"

definition node_id_of :: "search_document list \<Rightarrow> json \<Rightarrow> search_exc + string" where
  "node_id_of candidates v =
     (case v of
        JStr s \<Rightarrow> if s \<in> set (map sd_node_id candidates) then Inr s
          else Inl (SearchCoreError ''precomputed lexical ranking exceeds the authorized candidate set'')
      | _ \<Rightarrow> Inl (SearchCoreError ''precomputed lexical ranking exceeds the authorized candidate set''))"

definition check_ranked :: "search_document list \<Rightarrow> json list \<Rightarrow> search_exc + string list" where
  "check_ranked candidates ranked =
     bindE (raise_when (\<exists>v \<in> set ranked. \<not> is_hashable v) BuiltinTypeError) (\<lambda>_.
     bindE (raise_when (\<not> py_distinct ranked) (SearchCoreError ''precomputed lexical ranking contains duplicate node ids'')) (\<lambda>_.
     mapE (node_id_of candidates) ranked))"

definition validate_precomputed_lexical :: "search_document list \<Rightarrow> json \<Rightarrow> search_exc + string list" where
  "validate_precomputed_lexical candidates lexical_ranked_node_ids =
     (case lexical_ranked_node_ids of
        JStr _ \<Rightarrow> Inl (SearchCoreError ''precomputed lexical ranking must be a node-id sequence'')
      | JList ranked \<Rightarrow> check_ranked candidates ranked
      | JDict d \<Rightarrow> check_ranked candidates (map JStr (keys_of d))
      | _ \<Rightarrow> Inl BuiltinTypeError)"

text \<open>\<^verbatim>\<open>xs[:limit]\<close>, for a limit of either sign.\<close>

definition py_take :: "int \<Rightarrow> 'a list \<Rightarrow> 'a list" where
  "py_take n xs = (if 0 \<le> n then take (nat n) xs else take (length xs - nat (- n)) xs)"

definition check_limit :: "int \<Rightarrow> search_exc + unit" where
  "check_limit limit = raise_when (\<not> (1 \<le> limit \<and> limit \<le> 100)) (SearchCoreError ''ranking limit must be between 1 and 100'')"

section \<open>Order of the results\<close>

text \<open>Python's order on floats without NaN, as a linear order; NaN comes last and is never compared by the code below.\<close>

instantiation fl :: linorder
begin

definition less_eq_fl :: "fl \<Rightarrow> fl \<Rightarrow> bool" where
  "less_eq_fl a b = (fl_le a b \<or> b = FNan)"

definition less_fl :: "fl \<Rightarrow> fl \<Rightarrow> bool" where
  "less_fl a b = (a \<le> b \<and> \<not> b \<le> (a :: fl))"

instance
proof
  fix a b c :: fl
  show "a < b \<longleftrightarrow> a \<le> b \<and> \<not> b \<le> a" by (rule less_fl_def)
  show "a \<le> a" by (cases a) (simp_all add: less_eq_fl_def)
  show "a \<le> b \<Longrightarrow> b \<le> c \<Longrightarrow> a \<le> c" by (cases a; cases b; cases c) (auto simp: less_eq_fl_def)
  show "a \<le> b \<Longrightarrow> b \<le> a \<Longrightarrow> a = b" by (cases a; cases b) (auto simp: less_eq_fl_def)
  show "a \<le> b \<or> b \<le> a" by (cases a; cases b) (auto simp: less_eq_fl_def)
qed

end

section \<open>Rankings\<close>

definition scored_candidates :: "search_env \<Rightarrow> string \<Rightarrow> search_document list \<Rightarrow> (int \<times> fl \<times> string) list" where
  "scored_candidates env query candidates =
     List.map_filter (\<lambda>d. map_option (\<lambda>s. (ls_rank_class s, fl_neg (ls_score s), sd_node_id d)) (lexical_signal env query d)) candidates"

definition rank_lexical :: "search_env \<Rightarrow> string \<Rightarrow> search_document list \<Rightarrow> int \<Rightarrow> search_exc + ranking_result" where
  "rank_lexical env query candidates limit =
     bindE (validate_candidates candidates) (\<lambda>_.
     bindE (check_limit limit) (\<lambda>_.
     let scored = sort (scored_candidates env query candidates) in
     Inr \<lparr>rk_ranked_node_ids = map (\<lambda>(_, _, i). i) (py_take limit scored), rk_mode = Lexical, rk_generation = None, rk_fallback_reason = None\<rparr>))"

text \<open>A threshold of any type, between two bounds; converting an integer beyond the range of floats raises.\<close>

definition check_threshold :: "string \<Rightarrow> raw_number \<Rightarrow> rat \<Rightarrow> rat \<Rightarrow> search_exc + fl" where
  "check_threshold label v low high =
     bindE (case v of RInt i \<Rightarrow> float_of_int i | RFloat f \<Rightarrow> Inr f | _ \<Rightarrow> Inl (SearchCoreError (label @ '' must be numeric''))) (\<lambda>f.
     if is_finite f \<and> fl_le (FFin low) f \<and> fl_le f (FFin high) then Inr f
     else Inl (SearchCoreError (label @ '' is outside the supported finite range'')))"

definition check_vectors :: "generation_identity \<Rightarrow> (string, bound_vector) dict \<Rightarrow> search_exc + (string, fl list) dict" where
  "check_vectors generation vectors =
     mapE (\<lambda>(node_id, v).
       bindE (raise_when (bv_generation_id v \<noteq> gi_generation_id generation)
         (GenerationMismatchError (''candidate vector '' @ repr_str node_id @ '' belongs to a different generation''))) (\<lambda>_.
       bindE (validate_vector (bv_values v) (mi_dimensions (gi_model generation))) (\<lambda>vs. Inr (node_id, vs)))) vectors"

definition vector_of :: "(string, fl list) dict \<Rightarrow> string \<Rightarrow> fl list" where
  "vector_of checked node_id = (case dict_get checked node_id of Some vs \<Rightarrow> vs | None \<Rightarrow> [])"

definition semantic_scores :: "search_document list \<Rightarrow> string list \<Rightarrow> fl list \<Rightarrow> (string, fl list) dict \<Rightarrow> search_exc + (fl \<times> string) list" where
  "semantic_scores candidates lexical_ids query_values checked =
     mapE (\<lambda>d. bindE (cosine_similarity query_values (vector_of checked (sd_node_id d))) (\<lambda>score. Inr (score, sd_node_id d)))
       (filter (\<lambda>d. sd_node_id d \<notin> set lexical_ids) candidates)"

text \<open>\<^verbatim>\<open>semantic.sort(key=lambda item: (-item[0], item[1]))\<close>.\<close>

definition semantic_sort :: "search_env \<Rightarrow> (fl \<times> string) list \<Rightarrow> (fl \<times> string) list" where
  "semantic_sort env xs =
     (if \<exists>x \<in> set xs. fst x = FNan then se_unordered env xs else sort_key (\<lambda>x. (fl_neg (fst x), snd x)) xs)"

definition semantic_choice :: "(fl \<times> string) list \<Rightarrow> fl \<Rightarrow> fl \<Rightarrow> string list" where
  "semantic_choice semantic minimum_cosine minimum_margin =
     (case semantic of
        [] \<Rightarrow> []
      | (top_score, _) # others \<Rightarrow>
          let runner_up = (case others of (s, _) # _ \<Rightarrow> s | [] \<Rightarrow> FFin (- 1)) in
          if fl_le minimum_cosine top_score \<and> fl_le minimum_margin (fl_sub top_score runner_up)
          then map snd (take SEMANTIC_APPEND_LIMIT semantic) else [])"

definition rank_hybrid ::
  "search_env \<Rightarrow> search_document list \<Rightarrow> generation_identity \<Rightarrow> bound_vector \<Rightarrow> (string, bound_vector) dict \<Rightarrow> json \<Rightarrow> int \<Rightarrow>
   raw_number \<Rightarrow> raw_number \<Rightarrow> search_exc + ranking_result" where
  "rank_hybrid env candidates generation query_vector candidate_vectors lexical_ranked_node_ids limit semantic_minimum_cosine semantic_minimum_margin =
     bindE (validate_candidates candidates) (\<lambda>_.
     bindE (check_limit limit) (\<lambda>_.
     bindE (check_threshold ''semantic_minimum_cosine'' semantic_minimum_cosine (- 1) 1) (\<lambda>minimum_cosine.
     bindE (check_threshold ''semantic_minimum_margin'' semantic_minimum_margin 0 2) (\<lambda>minimum_margin.
     bindE (raise_when (bv_generation_id query_vector \<noteq> gi_generation_id generation)
       (GenerationMismatchError ''query vector belongs to a different generation'')) (\<lambda>_.
     bindE (validate_vector (bv_values query_vector) (mi_dimensions (gi_model generation))) (\<lambda>query_values.
     bindE (raise_when (set (keys_of candidate_vectors) \<noteq> set (map sd_node_id candidates))
       (GenerationMismatchError ''candidate vectors do not cover the exact authorized candidate set'')) (\<lambda>_.
     bindE (check_vectors generation candidate_vectors) (\<lambda>checked.
     bindE (validate_precomputed_lexical candidates lexical_ranked_node_ids) (\<lambda>lexical_ids.
     bindE (semantic_scores candidates lexical_ids query_values checked) (\<lambda>scores.
     let semantic_ids = semantic_choice (semantic_sort env scores) minimum_cosine minimum_margin;
         ranked = lexical_ids @ filter (\<lambda>i. i \<notin> set lexical_ids) semantic_ids in
     Inr \<lparr>rk_ranked_node_ids = py_take limit ranked, rk_mode = Hybrid, rk_generation = Some generation, rk_fallback_reason = None\<rparr>))))))))))"

section \<open>Providers\<close>

text \<open>A provider answers its calls by their number.\<close>

record embedding_provider =
  pv_identity :: "nat \<Rightarrow> search_exc + model_identity"
  pv_embed :: "nat \<Rightarrow> string list \<Rightarrow> search_exc + raw_vector list"

definition embed_bound ::
  "search_env \<Rightarrow> embedding_provider \<Rightarrow> search_document list \<Rightarrow> string list \<Rightarrow> string \<Rightarrow>
   search_exc + generation_identity \<times> (string, bound_vector) dict \<times> bound_vector list" where
  "embed_bound env provider documents queries document_revision =
     bindE (validate_candidates documents) (\<lambda>_.
     bindE (pv_identity provider 0) (\<lambda>before.
     bindE (pv_embed provider 1 (map document_embedding_text documents)) (\<lambda>document_vectors.
     bindE (pv_embed provider 2 (map query_embedding_text queries)) (\<lambda>query_vectors.
     bindE (pv_identity provider 3) (\<lambda>after.
     bindE (raise_when (before \<noteq> after) (ProviderBoundaryError ''embedding provider identity changed during one measurement'')) (\<lambda>_.
     bindE (raise_when (length document_vectors \<noteq> length documents \<or> length query_vectors \<noteq> length queries)
       (VectorValidationError ''embedding provider returned an unexpected vector count'')) (\<lambda>_.
     bindE (build_generation env before document_revision) (\<lambda>generation.
     bindE (foldE (\<lambda>bound (d, v). bindE (build_vector generation v) (\<lambda>b. Inr (dict_set (sd_node_id d) b bound))) [] (zip documents document_vectors)) (\<lambda>bound_documents.
     bindE (mapE (build_vector generation) query_vectors) (\<lambda>bound_queries.
     Inr (generation, bound_documents, bound_queries)))))))))))"

definition rank_with_provider ::
  "search_env \<Rightarrow> embedding_provider \<Rightarrow> string \<Rightarrow> search_document list \<Rightarrow> string \<Rightarrow> json \<Rightarrow> int \<Rightarrow> search_exc + ranking_result" where
  "rank_with_provider env provider query candidates document_revision lexical_ranked_node_ids limit =
     (case embed_bound env provider candidates [query] document_revision of
        Inl (ProviderUnavailableError msg) \<Rightarrow>
          bindE (validate_precomputed_lexical candidates lexical_ranked_node_ids) (\<lambda>lexical_ids.
          Inr \<lparr>rk_ranked_node_ids = py_take limit lexical_ids, rk_mode = LexicalFallback, rk_generation = None, rk_fallback_reason = Some msg\<rparr>)
      | Inl e \<Rightarrow> Inl e
      | Inr (generation, document_vectors, query_vectors) \<Rightarrow>
          rank_hybrid env candidates generation (hd query_vectors) document_vectors lexical_ranked_node_ids limit
            (RFloat SEMANTIC_MINIMUM_COSINE) (RFloat SEMANTIC_MINIMUM_MARGIN))"

section \<open>A concrete corpus\<close>

definition sample_env :: search_env where
  "sample_env = \<lparr>se_nfkc_casefold = casefold, se_sha256 = (\<lambda>s. s), se_unordered = (\<lambda>xs. xs)\<rparr>"

definition sample_document :: "string \<Rightarrow> search_document" where
  "sample_document name = \<lparr>sd_node_id = name, sd_title = name, sd_summary = [], sd_body = [], sd_tags = [''tag''], sd_kind = ''node'', sd_language = ''de''\<rparr>"

definition sample_corpus :: "search_document list" where
  "sample_corpus = map sample_document [''aa'', ''bb'', ''cc'']"

lemma sample_ids: "map sd_node_id sample_corpus = [''aa'', ''bb'', ''cc'']"
  by (simp add: sample_corpus_def sample_document_def)

lemma sample_candidates: "validate_candidates sample_corpus = Inr ()"
  by (simp add: validate_candidates_def MAX_CANDIDATES_def sample_ids) (simp add: sample_corpus_def)

definition sample_model :: model_identity where
  "sample_model = \<lparr>mi_provider = ''local:test'', mi_model_id = ''m'', mi_model_revision = ''1'', mi_runtime_id = ''r'', mi_dimensions = 2\<rparr>"

definition sample_generation :: generation_identity where
  "sample_generation = \<lparr>gi_generation_id = ''search-gen-'' @ generation_message sample_model ''v1'', gi_model = sample_model, gi_document_revision = ''v1'',
     gi_normalization_revision = NORMALIZATION_REVISION, gi_ranking_revision = RANKING_REVISION\<rparr>"

lemma sample_generation_built: "build_generation sample_env sample_model ''v1'' = Inr sample_generation"
proof -
  have "strip ''v1'' \<noteq> []" by code_simp
  then show ?thesis
    by (simp add: build_generation_def generation_check_def derive_id_def require_text_def sample_generation_def sample_env_def MAX_TEXT_CHARACTERS_def)
qed

end
