(* ===== verification/Search_Privacy.thy ===== *)
theory Search_Privacy
  imports Search_Rank
begin

text \<open>
  The privacy boundary of \<^verbatim>\<open>scripts/search/hybrid_ranking_core.py\<close>: every mailbox and every dotted address in a text is found by the patterns,
  so no document and no query with one gets past its constructor.
\<close>

section \<open>Personal data in texts\<close>

text \<open>An address in dotted decimal notation, not next to further digits or dots.\<close>

definition has_ipv4 :: "string \<Rightarrow> bool" where
  "has_ipv4 s \<longleftrightarrow>
     (\<exists>pre a b c e post. s = pre @ join ''.'' (map str_of_nat [a, b, c, e]) @ post \<and> list_all (\<lambda>n. n \<le> 255) [a, b, c, e] \<and>
        (pre = [] \<or> \<not> digit_or_dot (last pre)) \<and> (post = [] \<or> \<not> digit_or_dot (hd post)))"

text \<open>A mailbox: a local part that starts a word, and a domain of at least two labels that ends one.\<close>

definition has_email :: "string \<Rightarrow> bool" where
  "has_email s \<longleftrightarrow>
     (\<exists>pre l d ds post. s = pre @ (l @ ''@'' @ d @ concat (map (\<lambda>x. CHR ''.'' # x) ds)) @ post \<and>
        l \<noteq> [] \<and> list_all local_char l \<and> ds \<noteq> [] \<and> (\<forall>x \<in> set (d # ds). x \<noteq> [] \<and> list_all domain_char x) \<and>
        is_word_char (hd l) \<and> (pre = [] \<or> \<not> is_word_char (last pre)) \<and> is_word_char (last (last ds)) \<and> (post = [] \<or> \<not> is_word_char (hd post)))"

lemma seqs_snoc: "re_steps (seqs rs) st t \<Longrightarrow> re_steps b t u \<Longrightarrow> re_steps (seqs (rs @ [b])) st u"
proof (induction rs arbitrary: st)
  case Nil
  then have "st = t" by (simp add: seqs_def re_steps_simps)
  with Nil show ?case by (auto simp: seqs_def intro: re_steps.intros)
next
  case (Cons r rs)
  then obtain v where "re_steps r st v" "re_steps (seqs rs) v t" by (auto simp: seqs_def re_steps_simps)
  with Cons show ?case using re_steps.seq [of r st v "seqs (rs @ [b])" u] by (simp add: seqs_def)
qed

text \<open>A word of a pattern between two conditions on its surroundings is found wherever it stands.\<close>

lemma search_guarded:
  assumes "list_all regular rs" "w \<in> lang (seqs rs)"
    and "re_steps a (rev pre, w @ post, []) (rev pre, w @ post, [])" "re_steps b (rev w @ rev pre, post, []) (rev w @ rev pre, post, [])"
  shows "re_search (seqs (a # rs @ [b])) (pre @ w @ post) \<noteq> None"
proof -
  have "re_steps (seqs rs) (rev pre, w @ post, []) (rev w @ rev pre, post, [])" using assms(1,2) by (intro re_steps_lang_intro) simp_all
  from seqs_snoc [OF this assms(4)] assms(3) have "re_steps (seqs (a # rs @ [b])) (rev pre, w @ post, []) (rev w @ rev pre, post, [])"
    by (simp add: seqs_def) (rule re_steps.seq)
  then show ?thesis unfolding re_search_ok_iff by blast
qed

lemma octet_regular: "regular octet"
  by (simp add: octet_def)

lemma small_digit_char: "k < 5 \<Longrightarrow> char_of (48 + k) \<in> set ''01234''" "k < 6 \<Longrightarrow> char_of (48 + k) \<in> set ''012345''" for k :: nat
proof -
  have "\<forall>k \<in> set [0..<5]. char_of (48 + k :: nat) \<in> set ''01234''" "\<forall>k \<in> set [0..<6]. char_of (48 + k :: nat) \<in> set ''012345''" by code_simp+
  then show "k < 5 \<Longrightarrow> char_of (48 + k) \<in> set ''01234''" "k < 6 \<Longrightarrow> char_of (48 + k) \<in> set ''012345''" by simp_all
qed

lemma octet_words:
  "is_digit z \<Longrightarrow> [z] \<in> lang octet" "is_digit y \<Longrightarrow> is_digit z \<Longrightarrow> [y, z] \<in> lang octet"
  "is_digit y \<Longrightarrow> is_digit z \<Longrightarrow> [CHR ''1'', y, z] \<in> lang octet"
  "y \<in> set ''01234'' \<Longrightarrow> is_digit z \<Longrightarrow> [CHR ''2'', y, z] \<in> lang octet" "z \<in> set ''012345'' \<Longrightarrow> [CHR ''2'', CHR ''5'', z] \<in> lang octet"
proof -
  let ?third = "seqs [Opt (Lit ''1''), Opt (Chr is_digit), Chr is_digit]"
  have third: "lang ?third \<subseteq> lang octet" unfolding octet_def alts.simps lang.simps(4) by blast
  have word: "u @ v @ [z] @ [] \<in> lang ?third" if "u \<in> {[], ''1''}" "v = [] \<or> (\<exists>y. v = [y] \<and> is_digit y)" "is_digit z" for u v z
  proof -
    have 1: "[z] @ [] \<in> lang (seqs [Chr is_digit])" by (rule lang_seqs_ConsI) (use that in simp_all)
    have 2: "v @ [z] @ [] \<in> lang (seqs [Opt (Chr is_digit), Chr is_digit])" by (rule lang_seqs_ConsI [OF _ 1]) (use that in auto)
    show ?thesis by (rule lang_seqs_ConsI [OF _ 2]) (use that in auto)
  qed
  show "[z] \<in> lang octet" if "is_digit z" using word [of "[]" "[]" z] that third by auto
  show "[y, z] \<in> lang octet" if "is_digit y" "is_digit z" using word [of "[]" "[y]" z] that third by auto
  show "[CHR ''1'', y, z] \<in> lang octet" if "is_digit y" "is_digit z" using word [of "''1''" "[y]" z] that third by auto
  have second: "''2'' @ [y] @ [z] @ [] \<in> lang (seqs [Lit ''2'', Chr (\<lambda>c. c \<in> set ''01234''), Chr is_digit])" if "y \<in> set ''01234''" "is_digit z" for y z
  proof -
    have 1: "[z] @ [] \<in> lang (seqs [Chr is_digit])" by (rule lang_seqs_ConsI) (use that in simp_all)
    have 2: "[y] @ [z] @ [] \<in> lang (seqs [Chr (\<lambda>c. c \<in> set ''01234''), Chr is_digit])" by (rule lang_seqs_ConsI [OF _ 1]) (use that in auto)
    show ?thesis by (rule lang_seqs_ConsI [OF _ 2]) simp
  qed
  show "[CHR ''2'', y, z] \<in> lang octet" if "y \<in> set ''01234''" "is_digit z"
    unfolding octet_def alts.simps lang.simps(4) using second [OF that] by simp
  show "[CHR ''2'', CHR ''5'', z] \<in> lang octet" if "z \<in> set ''012345''"
    unfolding octet_def alts.simps lang.simps(4) using that by simp
qed

lemma str_of_nat_hundreds:
  "100 \<le> n \<Longrightarrow> n < 1000 \<Longrightarrow> str_of_nat n = [char_of (48 + n div 100), char_of (48 + n div 10 mod 10), char_of (48 + n mod 10)]"
proof -
  assume n: "100 \<le> n" "n < 1000"
  then have "\<not> n < 10" "\<not> n div 10 < 10" "n div 100 < 10" "n div 10 div 10 = n div 100" by (simp_all add: div_mult2_eq [of n 10 10, simplified])
  then show ?thesis by (simp add: str_of_nat.simps [of n] str_of_nat.simps [of "n div 10"] str_of_nat.simps [of "n div 100"])
qed

lemma octet_number: "n \<le> 255 \<Longrightarrow> str_of_nat n \<in> lang octet"
proof -
  assume n: "n \<le> 255"
  have one: "char_of (48 + (1 :: nat)) = CHR ''1''" "char_of (48 + (2 :: nat)) = CHR ''2''" "char_of (48 + (5 :: nat)) = CHR ''5''" by code_simp+
  let ?y = "char_of (48 + n div 10 mod 10) :: char" and ?z = "char_of (48 + n mod 10) :: char"
  have digits: "is_digit ?y" "is_digit ?z" by (simp_all add: is_digit_char)
  consider "n < 10" | "10 \<le> n" "n < 100" | "n div 100 = 1" | "n div 100 = 2" "n div 10 mod 10 < 5" | "n div 100 = 2" "n div 10 mod 10 = 5" "n mod 10 < 6"
  proof -
    have "n = 10 * (n div 10) + n mod 10" "n div 10 = 10 * (n div 10 div 10) + n div 10 mod 10" "n div 10 div 10 = n div 100"
      by (simp_all add: div_mult2_eq [of n 10 10, simplified])
    then have "n div 100 = 2 \<longrightarrow> n div 10 mod 10 < 5 \<or> n div 10 mod 10 = 5 \<and> n mod 10 < 6" using n by linarith
    moreover have "n < 10 \<or> 10 \<le> n \<and> n < 100 \<or> n div 100 = 1 \<or> n div 100 = 2" using n by linarith
    ultimately show ?thesis using that by blast
  qed
  then show ?thesis
  proof cases
    case 1
    then show ?thesis using octet_words(1) [OF digits(2)] by (subst str_of_nat.simps) simp
  next
    case 2
    then have "str_of_nat n = [?y, ?z]" by (simp add: str_of_nat.simps [of n] str_of_nat.simps [of "n div 10"])
    then show ?thesis using octet_words(2) [OF digits] by simp
  next
    case 3
    then have "100 \<le> n" by linarith
    then have "str_of_nat n = [CHR ''1'', ?y, ?z]" using str_of_nat_hundreds [of n] n 3 one by simp
    then show ?thesis using octet_words(3) [OF digits] by simp
  next
    case 4
    then have "100 \<le> n" by linarith
    then have "str_of_nat n = [CHR ''2'', ?y, ?z]" using str_of_nat_hundreds [of n] n 4(1) one by simp
    then show ?thesis using octet_words(4) [OF small_digit_char(1) [OF 4(2)] digits(2)] by simp
  next
    case 5
    then have "100 \<le> n" by linarith
    then have "str_of_nat n = [CHR ''2'', ?y, ?z]" using str_of_nat_hundreds [of n] n 5(1) one by simp
    then show ?thesis using octet_words(5) [OF small_digit_char(2) [OF 5(3)]] 5(2) one(3) by simp
  qed
qed

lemma lang_SeqI: "u \<in> lang a \<Longrightarrow> v \<in> lang b \<Longrightarrow> u @ v \<in> lang (Seq a b)"
  by auto

lemma ipv4_found: "has_ipv4 s \<Longrightarrow> re_search IPV4_LIKE s \<noteq> None"
proof -
  assume "has_ipv4 s"
  then obtain pre a b c e post where s: "s = pre @ join ''.'' (map str_of_nat [a, b, c, e]) @ post" "list_all (\<lambda>n. n \<le> 255) [a, b, c, e]"
    "pre = [] \<or> \<not> digit_or_dot (last pre)" "post = [] \<or> \<not> digit_or_dot (hd post)"
    unfolding has_ipv4_def by blast
  have le: "a \<le> 255" "b \<le> 255" "c \<le> 255" "e \<le> 255" using s(2) by simp_all
  have dot: "CHR ''.'' # str_of_nat n \<in> lang (Seq (Chr (\<lambda>c. c = CHR ''.'')) octet)" if "n \<le> 255" for n
    using octet_number [OF that] by (simp add: lang_Seq_Chr)
  let ?w = "str_of_nat a @ (CHR ''.'' # str_of_nat b) @ (CHR ''.'' # str_of_nat c) @ (CHR ''.'' # str_of_nat e)"
  let ?tail = "(CHR ''.'' # str_of_nat b) @ (CHR ''.'' # str_of_nat c) @ (CHR ''.'' # str_of_nat e) @ []"
  let ?rep = "Rep 3 (Seq (Chr (\<lambda>c. c = CHR ''.'')) octet)"
  have "?tail \<in> lang ?rep" unfolding eval_nat_numeral Rep.simps by (intro lang_SeqI dot le) (simp_all add: octet_number le)
  then have "?tail @ [] \<in> lang (seqs [?rep])" by (rule lang_seqs_ConsI) simp
  with octet_number [OF le(1)] have "str_of_nat a @ ?tail @ [] \<in> lang (seqs [octet, ?rep])" by (rule lang_seqs_ConsI)
  then have "?w \<in> lang (seqs [octet, ?rep])" by (simp only: append_Nil2)
  moreover have "re_steps (NotBehind digit_or_dot) (rev pre, ?w @ post, []) (rev pre, ?w @ post, [])"
    "re_steps (NotAhead digit_or_dot) (rev ?w @ rev pre, post, []) (rev ?w @ rev pre, post, [])"
    using s(3,4) by (auto intro!: re_steps.not_behind re_steps.not_ahead simp: hd_rev)
  ultimately have "re_search IPV4_LIKE (pre @ ?w @ post) \<noteq> None"
    using search_guarded [of "[octet, ?rep]" ?w "NotBehind digit_or_dot" pre post "NotAhead digit_or_dot"] octet_regular
    unfolding IPV4_LIKE_def by simp
  then show ?thesis using s(1) by simp
qed

lemma email_found: "has_email s \<Longrightarrow> re_search EMAIL_LIKE s \<noteq> None"
proof -
  assume "has_email s"
  then obtain pre l d ds post where s: "s = pre @ (l @ ''@'' @ d @ concat (map (\<lambda>x. CHR ''.'' # x) ds)) @ post"
    and l: "l \<noteq> []" "list_all local_char l" and ds: "ds \<noteq> []" "\<forall>x \<in> set (d # ds). x \<noteq> [] \<and> list_all domain_char x"
    and around: "is_word_char (hd l)" "pre = [] \<or> \<not> is_word_char (last pre)" "is_word_char (last (last ds))" "post = [] \<or> \<not> is_word_char (hd post)"
    unfolding has_email_def by blast
  let ?label = "Seq (Chr (\<lambda>c. c = CHR ''.'')) (Plus (Chr domain_char))"
  let ?rs = "[Plus (Chr local_char), Chr (\<lambda>c. c = CHR ''@''), Plus (Chr domain_char), Plus ?label]"
  let ?tail = "concat (map (\<lambda>x. CHR ''.'' # x) ds)" and ?w = "l @ ''@'' @ d @ concat (map (\<lambda>x. CHR ''.'' # x) ds)"
  obtain x xs where x: "ds = x # xs" using ds(1) by (cases ds) auto
  have labels: "CHR ''.'' # y \<in> lang ?label" if "y \<in> set ds" for y
    using ds(2) that unfolding lang_Seq_Chr lang_Plus_Chr by auto
  have star: "concat (map (\<lambda>x. CHR ''.'' # x) xs) \<in> lang (Star ?label)"
    unfolding lang.simps(5) using labels x by (intro CollectI exI [of _ "map (\<lambda>x. CHR ''.'' # x) xs"]) auto
  have "(CHR ''.'' # x) @ concat (map (\<lambda>x. CHR ''.'' # x) xs) \<in> lang (Seq ?label (Star ?label))"
    using labels [of x] x by (intro lang_SeqI star) simp
  then have "?tail \<in> lang (Plus ?label)" unfolding Plus_def [of ?label] x list.map concat.simps .
  then have "?tail @ [] \<in> lang (seqs [Plus ?label])" by (intro lang_seqs_ConsI) simp_all
  then have "d @ ?tail @ [] \<in> lang (seqs [Plus (Chr domain_char), Plus ?label])" by (rule lang_seqs_ConsI [rotated]) (use ds(2) in simp)
  then have "''@'' @ d @ ?tail @ [] \<in> lang (seqs [Chr (\<lambda>c. c = CHR ''@''), Plus (Chr domain_char), Plus ?label])" by (rule lang_seqs_ConsI [rotated]) simp
  then have "l @ ''@'' @ d @ ?tail @ [] \<in> lang (seqs ?rs)" by (rule lang_seqs_ConsI [rotated]) (use l in simp)
  then have word: "?w \<in> lang (seqs ?rs)" by simp
  have ends: "?w \<noteq> []" "hd ?w = hd l" "last ?w = last (last ds)"
  proof -
    have "last ds \<noteq> []" using ds by auto
    then have "last ?tail = last (last ds)" using ds(1) by (cases ds rule: rev_cases) auto
    moreover have "?tail \<noteq> []" using x by simp
    ultimately show "?w \<noteq> []" "hd ?w = hd l" "last ?w = last (last ds)" using l(1) by simp_all
  qed
  have "at_word_boundary (rev pre) (?w @ post)" "at_word_boundary (rev ?w @ rev pre) post"
    using around ends by (auto simp: at_word_boundary_def hd_rev simp del: append_assoc rev_append)
  then show ?thesis
    using search_guarded [of ?rs ?w WordB pre post WordB] word
    unfolding s EMAIL_LIKE_def by (simp add: re_steps.wordb)
qed

definition shows_person :: "string \<Rightarrow> bool" where
  "shows_person s \<longleftrightarrow> has_email s \<or> has_ipv4 s"

lemma reject_personal_data_ok: "reject_personal_data texts label = Inr () \<Longrightarrow> s \<in> set texts \<Longrightarrow> \<not> shows_person s"
  using email_found [of s] ipv4_found [of s] by (auto simp: reject_personal_data_def forE_Inr_iff bindE_eq_Inr shows_person_def)

lemma document_init_ok: "document_init a = Inr d \<Longrightarrow> da_privacy_class a = JStr ''synthetic'' \<and> da_contains_personal_data a = JBool False \<and>
    (\<forall>s \<in> set (document_texts d). \<not> shows_person s)"
  by (auto simp: document_init_def bindE_eq_Inr Let_def split: option.splits dest: reject_personal_data_ok)

section \<open>Property\<close>


text \<open>A pattern that has to consume a certain kind of character matches only texts with such a character.\<close>

fun needs :: "(char \<Rightarrow> bool) \<Rightarrow> re \<Rightarrow> bool" where
  "needs p (Chr q) = (\<forall>c. q c \<longrightarrow> p c)"
| "needs p (Seq a b) = (needs p a \<or> needs p b)"
| "needs p (Alt a b) = (needs p a \<and> needs p b)"
| "needs p _ = False"

lemma needs_steps:
  "re_steps r st t \<Longrightarrow> set (rest_of t) \<subseteq> set (rest_of st) \<and> (needs p r \<longrightarrow> (\<exists>c \<in> set (rest_of st). p c))"
  by (induction rule: re_steps.induct) auto

lemma needs_search:
  assumes "needs p r" "\<forall>c \<in> set s. \<not> p c"
  shows "re_search r s = None"
proof (rule ccontr)
  assume "re_search r s \<noteq> None"
  then obtain w v t where "s = w @ v" "re_steps r (rev w, v, []) t" unfolding re_search_ok_iff by blast
  with needs_steps [of r "(rev w, v, [])" t p] assms show False by auto
qed

lemma plain_text:
  assumes "\<forall>c \<in> set s. c \<noteq> CHR ''@'' \<and> \<not> is_digit c"
  shows "re_search EMAIL_LIKE s = None" "re_search PHONE_LIKE s = None" "re_search IPV4_LIKE s = None"
proof -
  show "re_search EMAIL_LIKE s = None" by (rule needs_search [where p = "\<lambda>c. c = CHR ''@''"]) (use assms in \<open>simp_all add: EMAIL_LIKE_def seqs_def\<close>)
  show "re_search PHONE_LIKE s = None"
    by (rule needs_search [where p = is_digit]) (use assms in \<open>simp_all add: PHONE_LIKE_def seqs_def RepBetween_def eval_nat_numeral\<close>)
  have digits: "is_digit CHR ''0''" "is_digit CHR ''1''" "is_digit CHR ''2''" "is_digit CHR ''3''" "is_digit CHR ''4''" "is_digit CHR ''5''" by code_simp+
  show "re_search IPV4_LIKE s = None"
    by (rule needs_search [where p = is_digit]) (use assms in \<open>simp_all add: IPV4_LIKE_def octet_def seqs_def eval_nat_numeral digits\<close>)
qed

definition sample_mapping :: jobject where
  "sample_mapping = [(''node_id'', JStr ''a''), (''title'', JStr ''b''), (''summary'', JStr []), (''body'', JStr []), (''tags'', JList [JStr ''t'']), (''kind'', JStr ''k''),
     (''language'', JStr ''d''), (''privacy_class'', JStr ''synthetic''), (''contains_personal_data'', JBool False)]"


end
