(* ===== verification/Search_Lexical.thy ===== *)
theory Search_Lexical
  imports Search_Rank
begin

text \<open>
  The lexical ranking of \<^verbatim>\<open>scripts/search/hybrid_ranking_core.py\<close>: it gives the best candidates in a fixed order, its scores are numbers within
  bounds (so that sorting compares no NaN), and a query without words matches everything.
\<close>

section \<open>Lexical ranking\<close>

lemma rank_lexical_permuted:
  assumes "mset candidates = mset candidates'"
  shows "rank_lexical env query candidates limit = rank_lexical env query candidates' limit"
proof -
  have "mset (scored_candidates env query candidates) = mset (scored_candidates env query candidates')"
    unfolding scored_candidates_def List.map_filter_def mset_map mset_filter assms ..
  then have "sort (scored_candidates env query candidates) = sort (scored_candidates env query candidates')"
    by (intro properties_for_sort) simp_all
  moreover have "length candidates = length candidates'" using mset_eq_length [OF assms] .
  moreover have "distinct (map sd_node_id candidates) = distinct (map sd_node_id candidates')"
    using assms by (intro mset_eq_imp_distinct_iff) simp
  ultimately show ?thesis by (simp add: rank_lexical_def validate_candidates_def)
qed

lemma scored_mem:
  "(k, s, i) \<in> set (scored_candidates env query candidates) \<longleftrightarrow>
     (\<exists>d h. d \<in> set candidates \<and> lexical_signal env query d = Some h \<and> k = ls_rank_class h \<and> s = fl_neg (ls_score h) \<and> i = sd_node_id d)"
  by (force simp: scored_candidates_def List.map_filter_def)

lemma scored_ids: "map (\<lambda>(_, _, i). i) (scored_candidates env query candidates) =
    map sd_node_id (filter (\<lambda>d. lexical_signal env query d \<noteq> None) candidates)"
  by (induction candidates) (auto simp: scored_candidates_def map_filter_simps)

text \<open>The first entries of a sorted list are its smallest.\<close>

lemma sorted_take_least:
  fixes ys :: "'a :: linorder list"
  assumes "sorted ys" "x \<in> set (take n ys)" "y \<in> set ys" "y \<notin> set (take n ys)"
  shows "x \<le> y"
proof -
  have "y \<in> set (drop n ys)" using assms(3,4) by (metis Un_iff append_take_drop_id set_append)
  moreover have "sorted (take n ys @ drop n ys)" using assms(1) by simp
  ultimately show ?thesis using assms(2) unfolding sorted_append by blast
qed

section \<open>Bounds of the scores\<close>

lemma fl_round_between:
  assumes "of_nat a \<le> x" "x \<le> of_nat b" "b < 2 ^ 53"
  shows "\<exists>y. fl_round x = FFin y \<and> of_nat a \<le> y \<and> y \<le> of_nat b"
proof -
  have "(of_nat a :: rat) \<le> of_nat b" using assms by linarith
  then have "a < 2 ^ 53" using assms(3) by simp
  then have "fl_le (FFin (of_nat a)) (fl_round x)" "fl_le (fl_round x) (FFin (of_nat b))"
    using fl_round_mono [OF assms(1)] fl_round_mono [OF assms(2)] assms(3) by (simp_all add: fl_round_nat)
  then show ?thesis by (cases "fl_round x") auto
qed

lemma true_div_unit: "a \<le> b \<Longrightarrow> \<exists>x. true_div a b = FFin x \<and> 0 \<le> x \<and> x \<le> 1"
proof -
  assume "a \<le> b"
  then have "(of_nat 0 :: rat) \<le> of_nat a / of_nat b" "of_nat a / of_nat b \<le> (of_nat 1 :: rat)" by (auto simp: divide_le_eq_1)
  from fl_round_between [OF this] show ?thesis by (simp add: true_div_def)
qed

definition unit_score :: "fl \<Rightarrow> bool" where
  "unit_score f \<longleftrightarrow> (\<exists>x. f = FFin x \<and> 0 \<le> x \<and> x \<le> 1)"

lemma trigram_unit: "unit_score (trigram_similarity env l r)"
proof -
  have "card (trigrams env l \<inter> trigrams env r) \<le> card (trigrams env l \<union> trigrams env r)"
    by (rule card_mono) (auto simp: trigrams_def Let_def)
  then show ?thesis using true_div_unit by (auto simp: trigram_similarity_def Let_def unit_score_def)
qed

lemma foldl_fl_max_unit: "unit_score a \<Longrightarrow> \<forall>x \<in> set xs. unit_score x \<Longrightarrow> unit_score (foldl fl_max a xs)"
  by (induction xs arbitrary: a) (auto simp: fl_max_def)

text \<open>Adding a weighted count is exact below \<open>2\<^sup>53\<close>.\<close>

lemma add_count: "a + w * c < 2 ^ 53 \<Longrightarrow> c < 2 ^ 53 \<Longrightarrow> w * c < 2 ^ 53 \<Longrightarrow>
    fl_add (FFin (of_nat a)) (fl_mul (FFin (of_nat w)) (fl_round (of_nat c))) = FFin (of_nat (a + w * c))"
  using fl_round_nat [of "a + w * c"] fl_round_nat [of "w * c"] by (simp add: fl_mul_def fl_round_nat)

lemma weighted_counts:
  assumes "finite Q" "card Q < 2 ^ 49" "a + card Q * sum_list (map snd parts) < 2 ^ 53"
  shows "\<exists>w m. w \<le> card Q * sum_list (map snd parts) \<and>
    foldl (\<lambda>(matched, weighted) (field_tokens, weight). let common = Q \<inter> field_tokens in
        (matched \<union> common, fl_add weighted (fl_mul weight (fl_round (of_nat (card common)))))) (start, FFin (of_nat a))
      (map (\<lambda>(t, k). (t, FFin (of_nat k))) parts) = (m, FFin (of_nat (a + w)))"
  using assms(3)
proof (induction parts arbitrary: a start)
  case Nil
  then show ?case by simp
next
  case (Cons p parts)
  obtain t k where p: "p = (t, k)" by (cases p)
  let ?c = "card (Q \<inter> t)"
  have c: "?c \<le> card Q" using assms(1) by (intro card_mono) auto
  then have kc: "k * ?c \<le> k * card Q" by simp
  have "a + k * card Q + card Q * sum_list (map snd parts) < 2 ^ 53" using Cons.prems by (simp add: p algebra_simps)
  then have bound: "a + k * ?c + card Q * sum_list (map snd parts) < 2 ^ 53" using kc by linarith
  have step: "fl_add (FFin (of_nat a)) (fl_mul (FFin (of_nat k)) (fl_round (of_nat ?c))) = FFin (of_nat (a + k * ?c))"
  proof (rule add_count)
    show "a + k * ?c < 2 ^ 53" "k * ?c < 2 ^ 53" using bound by linarith+
    have "(2 :: nat) ^ 49 \<le> 2 ^ 53" by simp
    then show "?c < 2 ^ 53" using c assms(2) by linarith
  qed
  from Cons.IH [OF bound, of "start \<union> (Q \<inter> t)"] obtain w m where "w \<le> card Q * sum_list (map snd parts)"
    "foldl (\<lambda>(matched, weighted) (field_tokens, weight). let common = Q \<inter> field_tokens in
        (matched \<union> common, fl_add weighted (fl_mul weight (fl_round (of_nat (card common)))))) (start \<union> (Q \<inter> t), FFin (of_nat (a + k * ?c)))
      (map (\<lambda>(t, k). (t, FFin (of_nat k))) parts) = (m, FFin (of_nat (a + k * ?c + w)))" by blast
  moreover have "k * ?c + w \<le> card Q * sum_list (map snd (p # parts))" if "w \<le> card Q * sum_list (map snd parts)" for w
    using that kc by (simp only: p list.map snd_conv sum_list.Cons distrib_left mult.commute [of "card Q" k])
  ultimately show ?case
    by (intro exI [of _ "k * ?c + w"] exI [of _ m]) (simp add: p Let_def step algebra_simps)
qed

lemma full_text_bounds:
  assumes "card (tokens env query) < 2 ^ 49"
  shows "\<exists>x. snd (full_text_score env query d) = FFin x \<and> 0 \<le> x \<and> x \<le> 3"
proof -
  let ?Q = "tokens env query" and ?n = "card (tokens env query)"
  let ?fields = "[(tokens env (sd_title d), 4 :: nat), (tokens env (join '' '' (sd_tags d)), 3), (tokens env (sd_summary d), 2),
      (tokens env (sd_kind d), 2), (tokens env (sd_body d), 1)]"
  have Q: "finite ?Q" by (simp add: tokens_def)
  have fields: "full_text_fields env d = map (\<lambda>(t, k). (t, FFin (of_nat k))) ?fields" by (simp add: full_text_fields_def)
  obtain w m where w: "w \<le> ?n * 12" and fold: "foldl (\<lambda>(matched, weighted) (field_tokens, weight). let common = ?Q \<inter> field_tokens in
        (matched \<union> common, fl_add weighted (fl_mul weight (fl_round (of_nat (card common)))))) ({}, FFin 0) (full_text_fields env d) = (m, FFin (of_nat w))"
  proof -
    have total: "sum_list (map snd ?fields) = 12" by simp
    have "0 + ?n * sum_list (map snd ?fields) < 2 ^ 53" unfolding total using assms by simp
    from weighted_counts [OF Q assms this, of "{}"] show ?thesis unfolding fields [symmetric] total of_nat_0 add_0 by (elim exE conjE) (rule that)
  qed
  show ?thesis
  proof (cases "?Q = {}")
    case False
    then have n: "0 < ?n" using Q by (simp add: card_gt_0_iff)
    have den: "fl_mul (FFin 4) (fl_round (of_nat ?n)) = FFin (of_nat (4 * ?n))"
      using fl_round_nat [of ?n] fl_round_nat [of "4 * ?n"] assms by (simp add: fl_mul_def)
    have "(of_nat w :: rat) \<le> of_nat (?n * 12)" using w by (simp only: of_nat_le_iff)
    then have "of_nat 0 \<le> (of_nat w :: rat) / of_nat (4 * ?n)" "(of_nat w :: rat) / of_nat (4 * ?n) \<le> of_nat 3"
      using n by (simp_all add: divide_le_eq)
    from fl_round_between [OF this] obtain y where "fl_round (of_nat w / of_nat (4 * ?n)) = FFin y" "0 \<le> y" "y \<le> 3" by auto
    then show ?thesis unfolding full_text_score_def Let_def fold [unfolded Let_def] den by (simp add: False fl_div_def)
  qed (simp add: full_text_score_def)
qed

lemma rank_lexical_length:
  "rank_lexical env query candidates limit = Inr r \<Longrightarrow>
     length (rk_ranked_node_ids r) = min (nat limit) (length (filter (\<lambda>d. lexical_signal env query d \<noteq> None) candidates))"
  using arg_cong [OF scored_ids, of length env query candidates]
  by (auto simp: rank_lexical_def check_limit_def py_take_def bindE_eq_Inr Let_def)

section \<open>Properties\<close>



text \<open>
  C39: scores of lexical matches are bounded numbers. With fewer than \<open>2\<^sup>49\<close> tokens in the query, the score of a match in floating-point arithmetic
  is a finite number, at most 1 for an exact, prefix or typo match and at most 3 for a full-text match; no NaN or infinity enters the sorting.
\<close>

theorem lexical_score_bounds:
  assumes "lexical_signal env query d = Some h" "card (tokens env query) < 2 ^ 49"
  shows "\<exists>x. ls_score h = FFin x \<and> 0 \<le> x \<and> x \<le> (if ls_rank_class h = RANK_FULL_TEXT then 3 else 1)"
proof -
  let ?typo = "foldl fl_max (trigram_similarity env query (sd_title d))
      (trigram_similarity env query (sd_summary d) # map (trigram_similarity env query) (sd_tags d))"
  have typo: "unit_score ?typo" by (rule foldl_fl_max_unit) (auto simp: trigram_unit)
  have div: "unit_score (true_div (length (normalize_text env query)) (length (normalize_text env (sd_title d))))"
    if "startswith (normalize_text env (sd_title d)) (normalize_text env query)"
    unfolding unit_score_def using that by (intro true_div_unit) (auto simp: startswith_def dest: arg_cong [of _ _ length])
  obtain x where full: "snd (full_text_score env query d) = FFin x" "0 \<le> x" "x \<le> 3" using full_text_bounds [OF assms(2)] by blast
  show ?thesis
    using assms(1) typo div full unfolding lexical_signal_def Let_def unit_score_def
    by (auto split: if_splits prod.splits simp: RANK_FULL_TEXT_def RANK_EXACT_TITLE_def RANK_EXACT_TAG_def RANK_TITLE_PREFIX_def RANK_TYPO_def)
qed

theorem lexical_score_bounds_witness:
  "\<exists>h x. lexical_signal sample_env ''aa'' (sample_document ''aa'') = Some h \<and> ls_score h = FFin x \<and> x \<le> 1"
proof -
  obtain h where h: "lexical_signal sample_env ''aa'' (sample_document ''aa'') = Some h" "ls_rank_class h = RANK_EXACT_TITLE"
    by (simp add: lexical_signal_def sample_document_def)
  have "card (tokens sample_env ''aa'') \<le> length (split_words (normalize_text sample_env ''aa''))"
    unfolding tokens_def by (rule order_trans [OF card_length length_filter_le])
  moreover have "length (split_words (normalize_text sample_env ''aa'')) = 1" by code_simp
  ultimately have "card (tokens sample_env ''aa'') < 2 ^ 49" by simp
  from lexical_score_bounds [OF h(1) this] h show ?thesis by (auto simp: RANK_EXACT_TITLE_def RANK_FULL_TEXT_def)
qed

text \<open>
  C40: a query that normalises to nothing matches everything. If a query has no word characters, every candidate is a match as a title prefix or better, so
  the ranking is full: it returns \<open>limit\<close> candidates or all of them.
\<close>

theorem wordless_query_matches_all:
  assumes "normalize_text env query = []" "rank_lexical env query candidates limit = Inr r"
  shows "(\<forall>d \<in> set candidates. \<exists>h. lexical_signal env query d = Some h \<and> ls_rank_class h \<le> RANK_TITLE_PREFIX) \<and>
    length (rk_ranked_node_ids r) = min (nat limit) (length candidates)"
proof -
  have all: "\<exists>h. lexical_signal env query d = Some h \<and> ls_rank_class h \<le> RANK_TITLE_PREFIX" for d
    using assms(1) by (auto simp: lexical_signal_def Let_def startswith_def RANK_TITLE_PREFIX_def RANK_EXACT_TITLE_def RANK_EXACT_TAG_def)
  have "filter (\<lambda>d. lexical_signal env query d \<noteq> None) candidates = candidates" using all by (force intro: filter_True)
  then show ?thesis using all rank_lexical_length [OF assms(2)] by simp
qed

theorem wordless_query_matches_all_witness:
  "\<exists>r. rank_lexical sample_env ''!?'' sample_corpus 10 = Inr r \<and> length (rk_ranked_node_ids r) = 3"
proof -
  obtain r where r: "rank_lexical sample_env ''!?'' sample_corpus 10 = Inr r"
    by (simp add: rank_lexical_def sample_candidates check_limit_def)
  have "normalize_text sample_env ''!?'' = []" by code_simp
  from wordless_query_matches_all [OF this r] r show ?thesis by (simp add: sample_corpus_def)
qed

end
