(* ===== verification/Search_Hybrid.thy ===== *)
theory Search_Hybrid
  imports Search_Rank
begin

text \<open>
  The hybrid ranking of \<^verbatim>\<open>scripts/search/hybrid_ranking_core.py\<close>: the lexical order stays in front, at most one semantic candidate is appended and
  exactly when it is admitted, everything returned was authorised, and a generation is bound to its model.
\<close>

section \<open>Which semantic candidate is admitted\<close>

lemma fl_neg_less: "a \<noteq> FNan \<Longrightarrow> b \<noteq> FNan \<Longrightarrow> fl_neg a < fl_neg b \<longleftrightarrow> b < a"
  by (cases a; cases b) (auto simp: less_fl_def less_eq_fl_def)

lemma fl_neg_inject: "fl_neg a = fl_neg b \<longleftrightarrow> a = b"
  by (cases a; cases b) auto

lemma fl_less_iff: "a \<noteq> FNan \<Longrightarrow> b \<noteq> FNan \<Longrightarrow> a < b \<longleftrightarrow> fl_lt a b"
  by (auto simp: less_fl_def less_eq_fl_def fl_lt_def)

text \<open>A margin to the runner-up is a margin to everything below it.\<close>

lemma margin_mono: "fl_le (FFin m) (fl_sub a b) \<Longrightarrow> fl_le c b \<Longrightarrow> fl_le (FFin m) (fl_sub a c)"
proof (cases a; cases b; cases c)
  fix x y z
  assume h: "a = FFin x" "b = FFin y" "c = FFin z" "fl_le (FFin m) (fl_sub a b)" "fl_le c b"
  then have "fl_le (fl_round (x - y)) (fl_round (x - z))" by (intro fl_round_mono) simp
  then show "fl_le (FFin m) (fl_sub a c)"
    using h by (cases "fl_round (x - y)"; cases "fl_round (x - z)") (auto simp: fl_sub_def)
qed (auto simp: fl_sub_def)

definition admitted :: "(fl \<times> string) set \<Rightarrow> fl \<Rightarrow> fl \<Rightarrow> fl \<Rightarrow> string \<Rightarrow> bool" where
  "admitted scores minimum_cosine minimum_margin s i \<longleftrightarrow> (s, i) \<in> scores \<and> fl_le minimum_cosine s \<and>
     (\<forall>s' i'. (s', i') \<in> scores \<and> i' \<noteq> i \<longrightarrow> (fl_lt s' s \<or> s' = s \<and> i < i') \<and> fl_le minimum_margin (fl_sub s s')) \<and>
     (scores = {(s, i)} \<longrightarrow> fl_le minimum_margin (fl_sub s (FFin (- 1))))"

abbreviation semantic_key :: "fl \<times> string \<Rightarrow> fl \<times> string" where
  "semantic_key x \<equiv> (fl_neg (fst x), snd x)"

lemma semantic_key_le:
  assumes "semantic_key (s, j) \<le> semantic_key (s', j')" "s \<noteq> FNan" "s' \<noteq> FNan"
  shows "fl_le s' s" "j \<noteq> j' \<Longrightarrow> fl_lt s' s \<or> s' = s \<and> j < j'"
proof -
  have "fl_neg s < fl_neg s' \<or> fl_neg s = fl_neg s' \<and> j \<le> j'" using assms(1) by (auto simp: less_eq_prod_def order_le_less)
  then have "s' < s \<or> s' = s \<and> j \<le> j'" using fl_neg_less [OF assms(2,3)] by (auto simp: fl_neg_inject)
  moreover have "fl_le s s" using assms(2) by (cases s) simp_all
  ultimately show "fl_le s' s" "j \<noteq> j' \<Longrightarrow> fl_lt s' s \<or> s' = s \<and> j < j'"
    using fl_less_iff [OF assms(3,2)] by (auto simp: fl_lt_def)
qed

definition runner_up :: "(fl \<times> string) list \<Rightarrow> fl" where
  "runner_up others = (case others of (s, _) # _ \<Rightarrow> s | [] \<Rightarrow> FFin (- 1))"

lemma runner_up_best:
  assumes "sorted (map semantic_key others)" "\<forall>x \<in> set others. fst x \<noteq> FNan" "(s, i) \<in> set others"
  shows "fl_le s (runner_up others)"
proof -
  obtain sr jr rest where others: "others = (sr, jr) # rest" using assms(3) by (cases others) auto
  then have "semantic_key (sr, jr) \<le> semantic_key (s, i)" using assms(1,3) by auto
  moreover have "sr \<noteq> FNan" "s \<noteq> FNan" using assms(2,3) by (auto simp: others)
  ultimately show ?thesis using semantic_key_le(1) by (simp add: runner_up_def others)
qed

text \<open>In the sorted list only the first can be admitted, and it is if it passes the two comparisons of the code.\<close>

lemma admitted_first:
  assumes "sorted (map semantic_key ((s0, i0) # others))" "distinct (map snd ((s0, i0) # others))"
    and "\<forall>x \<in> set ((s0, i0) # others). fst x \<noteq> FNan"
  shows "admitted (set ((s0, i0) # others)) c (FFin m) s i \<longleftrightarrow>
    s = s0 \<and> i = i0 \<and> fl_le c s0 \<and> fl_le (FFin m) (fl_sub s0 (runner_up others))" (is "admitted ?S _ _ _ _ \<longleftrightarrow> ?r")
proof
  have first: "semantic_key (s0, i0) \<le> semantic_key x" if "x \<in> set others" for x using assms(1) that by auto
  have fresh: "(s', i0) \<notin> set others" for s' using assms(2) by force
  {
    assume a: "admitted ?S c (FFin m) s i"
    have "i = i0"
    proof (rule ccontr)
      assume "i \<noteq> i0"
      with a have "(s, i) \<in> set others" "fl_lt s0 s \<or> s0 = s \<and> i < i0" by (auto simp: admitted_def)
      with first [of "(s, i)"] semantic_key_le(2) [of s0 i0 s i] assms(3) \<open>i \<noteq> i0\<close> show False by (auto simp: fl_lt_def)
    qed
    moreover from this have "s = s0" using a fresh by (auto simp: admitted_def)
    moreover have "fl_le (FFin m) (fl_sub s0 (runner_up others))"
    proof (cases others)
      case Nil
      then show ?thesis using a calculation by (simp add: admitted_def runner_up_def)
    next
      case (Cons q rest)
      then obtain sr jr where "q = (sr, jr)" "(sr, jr) \<in> set others" by (cases q) auto
      then show ?thesis using a calculation fresh Cons by (auto simp: admitted_def runner_up_def)
    qed
    ultimately show ?r using a by (simp add: admitted_def)
  next
    assume r: ?r
    have "(fl_lt s' s0 \<or> s' = s0 \<and> i0 < j') \<and> fl_le (FFin m) (fl_sub s0 s')" if "(s', j') \<in> ?S" "j' \<noteq> i0" for s' j'
    proof -
      have mem: "(s', j') \<in> set others" using that by auto
      then have "fl_le s' (runner_up others)" using runner_up_best assms by auto
      with r margin_mono have "fl_le (FFin m) (fl_sub s0 s')" by blast
      moreover have "fl_lt s' s0 \<or> s' = s0 \<and> i0 < j'"
        using semantic_key_le(2) [of s0 i0 s' j'] first [OF mem] assms(3) mem that(2) by auto
      ultimately show ?thesis by blast
    qed
    moreover have "fl_le (FFin m) (fl_sub s0 (FFin (- 1)))" if "?S = {(s0, i0)}"
    proof -
      have "others = []" using that fresh by (cases others) auto
      then show ?thesis using r by (simp add: runner_up_def)
    qed
    ultimately show "admitted ?S c (FFin m) s i" using r by (auto simp: admitted_def)
  }
qed

lemma semantic_choice_iff:
  assumes "distinct (map snd xs)" "\<forall>x \<in> set xs. fst x \<noteq> FNan"
  shows "i \<in> set (semantic_choice (semantic_sort env xs) c (FFin m)) \<longleftrightarrow> (\<exists>s. admitted (set xs) c (FFin m) s i)"
proof -
  let ?ys = "sort_key semantic_key xs"
  have sort: "semantic_sort env xs = ?ys" using assms(2) by (auto simp: semantic_sort_def)
  have ys: "set ?ys = set xs" "sorted (map semantic_key ?ys)" "distinct (map snd ?ys)" "\<forall>x \<in> set ?ys. fst x \<noteq> FNan"
    using assms by (simp_all add: distinct_map inj_on_def)
  show ?thesis
  proof (cases ?ys)
    case Nil
    then show ?thesis using ys(1) unfolding sort by (simp add: semantic_choice_def admitted_def)
  next
    case (Cons p others)
    obtain s0 i0 where p: "p = (s0, i0)" by (cases p)
    have "admitted (set xs) c (FFin m) s i \<longleftrightarrow> s = s0 \<and> i = i0 \<and> fl_le c s0 \<and> fl_le (FFin m) (fl_sub s0 (runner_up others))" for s
      using admitted_first [of s0 i0 others c m s i] ys unfolding Cons p by simp
    then show ?thesis
      unfolding sort Cons p by (simp add: semantic_choice_def runner_up_def SEMANTIC_APPEND_LIMIT_def)
  qed
qed

lemma semantic_choice_short: "length (semantic_choice ys c m) \<le> 1"
  by (cases ys) (auto simp: semantic_choice_def SEMANTIC_APPEND_LIMIT_def Let_def split: list.splits)

section \<open>The hybrid ranking\<close>

text \<open>The score of a candidate, and the scores of the candidates that are not ranked lexically.\<close>

definition candidate_score :: "generation_identity \<Rightarrow> bound_vector \<Rightarrow> (string, bound_vector) dict \<Rightarrow> string \<Rightarrow> fl \<Rightarrow> bool" where
  "candidate_score generation query_vector vectors i s \<longleftrightarrow>
     (\<exists>q b v. validate_vector (bv_values query_vector) (mi_dimensions (gi_model generation)) = Inr q \<and> dict_get vectors i = Some b \<and>
        validate_vector (bv_values b) (mi_dimensions (gi_model generation)) = Inr v \<and> cosine_similarity q v = Inr s)"

definition open_scores :: "search_document list \<Rightarrow> string list \<Rightarrow> generation_identity \<Rightarrow> bound_vector \<Rightarrow> (string, bound_vector) dict \<Rightarrow> (fl \<times> string) set" where
  "open_scores candidates lexical generation query_vector vectors =
     {(s, i). i \<in> sd_node_id ` set candidates \<and> i \<notin> set lexical \<and> candidate_score generation query_vector vectors i s}"

lemma check_vectors_get:
  assumes "check_vectors generation vectors = Inr checked"
  shows "dict_get checked i = Some v \<longleftrightarrow>
      (\<exists>b. dict_get vectors i = Some b \<and> validate_vector (bv_values b) (mi_dimensions (gi_model generation)) = Inr v)"
    and "(i, b) \<in> set vectors \<Longrightarrow> bv_generation_id b = gi_generation_id generation"
    and "map fst checked = map fst vectors"
  using assms unfolding check_vectors_def
  by (induction vectors arbitrary: checked) (fastforce simp: bindE_eq_Inr)+

lemma semantic_scores_set:
  assumes "semantic_scores candidates lexical q checked = Inr scores"
  shows "set scores = {(s, i). i \<in> sd_node_id ` set candidates \<and> i \<notin> set lexical \<and> cosine_similarity q (vector_of checked i) = Inr s}"
    and "map snd scores = filter (\<lambda>i. i \<notin> set lexical) (map sd_node_id candidates)"
proof -
  let ?open = "filter (\<lambda>d. sd_node_id d \<notin> set lexical) candidates"
  let ?f = "\<lambda>d. bindE (cosine_similarity q (vector_of checked (sd_node_id d))) (\<lambda>score. Inr (score, sd_node_id d))"
  have two: "list_all2 (\<lambda>d y. ?f d = Inr y) ?open scores" using assms by (simp add: semantic_scores_def mapE_Inr_iff)
  then show "map snd scores = filter (\<lambda>i. i \<notin> set lexical) (map sd_node_id candidates)"
  proof -
    from two have "map snd scores = map sd_node_id ?open"
      by (induction rule: list_all2_induct) (auto simp: bindE_eq_Inr)
    then show ?thesis by (simp add: filter_map comp_def)
  qed
  have "y \<in> set scores \<longleftrightarrow> (\<exists>d \<in> set ?open. ?f d = Inr y)" for y
    using two by (induction rule: list_all2_induct) (auto simp: bindE_eq_Inr)
  then show "set scores = {(s, i). i \<in> sd_node_id ` set candidates \<and> i \<notin> set lexical \<and> cosine_similarity q (vector_of checked i) = Inr s}"
    by (auto simp: bindE_eq_Inr)
qed

lemma check_threshold_finite: "check_threshold label v low high = Inr f \<Longrightarrow> \<exists>x. f = FFin x \<and> low \<le> x \<and> x \<le> high"
  by (cases f) (auto simp: check_threshold_def bindE_eq_Inr split: if_splits)

text \<open>What an answer of the ranking consists of.\<close>

lemma rank_hybrid_parts:
  assumes "rank_hybrid env candidates generation query_vector vectors ranking limit minimum_cosine minimum_margin = Inr r"
  obtains lexical scores c m where "distinct (map sd_node_id candidates)" "1 \<le> limit" "limit \<le> 100"
    "check_threshold ''semantic_minimum_cosine'' minimum_cosine (- 1) 1 = Inr c" "check_threshold ''semantic_minimum_margin'' minimum_margin 0 2 = Inr m"
    "bv_generation_id query_vector = gi_generation_id generation" "\<forall>(i, b) \<in> set vectors. bv_generation_id b = gi_generation_id generation"
    "validate_precomputed_lexical candidates ranking = Inr lexical"
    "set scores = open_scores candidates lexical generation query_vector vectors"
    "map snd scores = filter (\<lambda>i. i \<notin> set lexical) (map sd_node_id candidates)"
    "r = \<lparr>rk_ranked_node_ids = take (nat limit) (lexical @ filter (\<lambda>i. i \<notin> set lexical) (semantic_choice (semantic_sort env scores) c m)),
       rk_mode = Hybrid, rk_generation = Some generation, rk_fallback_reason = None\<rparr>"
proof -
  obtain c m q checked lexical scores where distinct: "distinct (map sd_node_id candidates)" and limit: "1 \<le> limit" "limit \<le> 100"
    and c: "check_threshold ''semantic_minimum_cosine'' minimum_cosine (- 1) 1 = Inr c"
    and m: "check_threshold ''semantic_minimum_margin'' minimum_margin 0 2 = Inr m"
    and bound: "bv_generation_id query_vector = gi_generation_id generation"
    and q: "validate_vector (bv_values query_vector) (mi_dimensions (gi_model generation)) = Inr q"
    and cover: "set (keys_of vectors) = set (map sd_node_id candidates)"
    and checked: "check_vectors generation vectors = Inr checked"
    and lexical: "validate_precomputed_lexical candidates ranking = Inr lexical"
    and scores: "semantic_scores candidates lexical q checked = Inr scores"
    and r: "r = \<lparr>rk_ranked_node_ids = py_take limit (lexical @ filter (\<lambda>i. i \<notin> set lexical) (semantic_choice (semantic_sort env scores) c m)),
       rk_mode = Hybrid, rk_generation = Some generation, rk_fallback_reason = None\<rparr>"
    using assms unfolding rank_hybrid_def validate_candidates_def check_limit_def by (auto simp: bindE_eq_Inr Let_def)
  have "(\<exists>b v. dict_get vectors i = Some b \<and> validate_vector (bv_values b) (mi_dimensions (gi_model generation)) = Inr v \<and> cosine_similarity q v = Inr s) \<longleftrightarrow>
      cosine_similarity q (vector_of checked i) = Inr s" if i: "i \<in> sd_node_id ` set candidates" for i s
  proof -
    have "i \<in> set (keys_of checked)" using i cover check_vectors_get(3) [OF checked] by simp
    then obtain v where "dict_get checked i = Some v" by (cases "dict_get checked i") (simp_all add: map_of_eq_None_iff)
    then show ?thesis using check_vectors_get(1) [OF checked, of i v] by (auto simp: vector_of_def)
  qed
  then have "set scores = open_scores candidates lexical generation query_vector vectors"
    unfolding semantic_scores_set(1) [OF scores] open_scores_def candidate_score_def using q by auto
  moreover have "\<forall>(i, b) \<in> set vectors. bv_generation_id b = gi_generation_id generation" using check_vectors_get(2) [OF checked] by auto
  ultimately show ?thesis
    using distinct limit c m bound lexical semantic_scores_set(2) [OF scores] r by (intro that [of c m lexical scores]) (auto simp: py_take_def)
qed

section \<open>Rankings with a provider\<close>

lemma py_distinct_strings: "py_distinct (map JStr xs) \<longleftrightarrow> distinct xs"
  by (induction xs) (auto simp: py_in_def list_ex_iff)

lemma check_ranked_ok: "check_ranked candidates xs = Inr ids \<Longrightarrow> xs = map JStr ids \<and> distinct ids \<and> set ids \<subseteq> sd_node_id ` set candidates"
proof -
  assume h: "check_ranked candidates xs = Inr ids"
  then have "list_all2 (\<lambda>x i. node_id_of candidates x = Inr i) xs ids" and d: "py_distinct xs"
    by (auto simp: check_ranked_def bindE_eq_Inr mapE_Inr_iff)
  then have "xs = map JStr ids \<and> set ids \<subseteq> sd_node_id ` set candidates"
    by (induction rule: list_all2_induct) (auto simp: node_id_of_def split: json.splits if_splits)
  with d show ?thesis using py_distinct_strings by blast
qed

lemma lexical_authorised:
  "validate_precomputed_lexical candidates ranking = Inr ids \<Longrightarrow> distinct ids \<and> set ids \<subseteq> sd_node_id ` set candidates"
  using check_ranked_ok by (auto simp: validate_precomputed_lexical_def split: json.splits)

lemma semantic_choice_sub: "set (semantic_choice ys c m) \<subseteq> snd ` set ys"
proof -
  have "set (map snd (take SEMANTIC_APPEND_LIMIT ys)) \<subseteq> snd ` set ys" by (auto dest: in_set_takeD)
  then show ?thesis by (cases ys) (auto simp: semantic_choice_def Let_def)
qed

lemma rank_hybrid_authorised:
  assumes "\<And>xs. set (se_unordered env xs) \<subseteq> set xs"
    and "rank_hybrid env candidates generation query_vector vectors ranking limit minimum_cosine minimum_margin = Inr r"
  shows "distinct (rk_ranked_node_ids r) \<and> set (rk_ranked_node_ids r) \<subseteq> sd_node_id ` set candidates \<and> rk_mode r = Hybrid \<and>
    rk_generation r = Some generation \<and> rk_fallback_reason r = None"
proof -
  from rank_hybrid_parts [OF assms(2)] obtain lexical scores c m where lexical: "validate_precomputed_lexical candidates ranking = Inr lexical"
    and scores: "map snd scores = filter (\<lambda>i. i \<notin> set lexical) (map sd_node_id candidates)"
    and r: "r = \<lparr>rk_ranked_node_ids = take (nat limit) (lexical @ filter (\<lambda>i. i \<notin> set lexical) (semantic_choice (semantic_sort env scores) c m)),
       rk_mode = Hybrid, rk_generation = Some generation, rk_fallback_reason = None\<rparr>" by metis
  let ?choice = "semantic_choice (semantic_sort env scores) c m"
  have "set (semantic_sort env scores) \<subseteq> set scores" using assms(1) by (auto simp: semantic_sort_def)
  moreover have "snd ` set scores \<subseteq> sd_node_id ` set candidates" using arg_cong [OF scores, of set] by auto
  ultimately have "set ?choice \<subseteq> sd_node_id ` set candidates" using semantic_choice_sub [of "semantic_sort env scores" c m] by blast
  moreover have "distinct ?choice" using semantic_choice_short [of "semantic_sort env scores" c m] by (cases ?choice) auto
  ultimately have "distinct (lexical @ filter (\<lambda>i. i \<notin> set lexical) ?choice) \<and>
      set (lexical @ filter (\<lambda>i. i \<notin> set lexical) ?choice) \<subseteq> sd_node_id ` set candidates"
    using lexical_authorised [OF lexical] by auto
  then show ?thesis unfolding r by (auto simp del: take_append dest!: in_set_takeD intro!: distinct_take)
qed

lemma validate_vector_error: "validate_vector v n \<noteq> Inl (ProviderUnavailableError msg)"
proof -
  have "convert_number x \<noteq> Inl (ProviderUnavailableError msg)" for x
    by (cases x) (auto simp: float_of_int_def)
  then show ?thesis
    by (auto simp: validate_vector_def bindE_eq_Inl split: raw_vector.splits dest!: mapE_Inl_D)
qed

lemma build_generation_error: "build_generation env model revision \<noteq> Inl (ProviderUnavailableError msg)"
  by (auto simp: build_generation_def derive_id_def generation_check_def require_text_def bindE_eq_Inl split: if_splits)

lemma build_generation_ok:
  "build_generation env model revision = Inr g \<Longrightarrow> gi_model g = model \<and> gi_document_revision g = revision \<and>
     gi_generation_id g = ''search-gen-'' @ se_sha256 env (generation_message model revision)"
  by (auto simp: build_generation_def derive_id_def generation_check_def bindE_eq_Inr)

definition unavailable :: "embedding_provider \<Rightarrow> search_document list \<Rightarrow> string \<Rightarrow> string \<Rightarrow> bool" where
  "unavailable provider candidates query msg \<longleftrightarrow>
     pv_identity provider 0 = Inl (ProviderUnavailableError msg) \<or>
     pv_embed provider 1 (map document_embedding_text candidates) = Inl (ProviderUnavailableError msg) \<or>
     pv_embed provider 2 [query_embedding_text query] = Inl (ProviderUnavailableError msg) \<or>
     pv_identity provider 3 = Inl (ProviderUnavailableError msg)"

lemma embed_bound_unavailable:
  assumes "embed_bound env provider candidates [query] revision = Inl (ProviderUnavailableError msg)"
  shows "unavailable provider candidates query msg"
proof -
  have "foldE (\<lambda>bound (d, v). bindE (build_vector g v) (\<lambda>b. Inr (dict_set (sd_node_id d) b bound))) acc xs \<noteq> Inl (ProviderUnavailableError msg)" for g acc xs
    by (induction xs arbitrary: acc) (auto simp: bindE_eq_Inl build_vector_def validate_vector_error)
  moreover have "mapE (build_vector g) xs \<noteq> Inl (ProviderUnavailableError msg)" for g xs
    by (auto simp: build_vector_def bindE_eq_Inl validate_vector_error dest!: mapE_Inl_D)
  ultimately show ?thesis
    using assms build_generation_error
    by (auto simp: embed_bound_def validate_candidates_def bindE_eq_Inl unavailable_def)
qed

section \<open>Identity of a generation\<close>

lemma generation_message_inject:
  "generation_message m d = generation_message m' d' \<longleftrightarrow> m = m' \<and> d = d'"
proof
  assume "generation_message m d = generation_message m' d'"
  then have "canon (generation_payload m d) = canon (generation_payload m' d')"
    unfolding generation_message_def utf8_encode_inj
    by (subst (asm) json_dumps_eq_iff) (simp_all add: generation_payload_def model_dict_def)
  then show "m = m' \<and> d = d'"
    by (simp add: generation_payload_def model_dict_def)
qed simp

section \<open>A vector whose norm overflows\<close>

lemma huge_square: "fl_mul (FFin (2 ^ 600)) (FFin (2 ^ 600)) = FPos"
proof -
  have "rat_exp (2 ^ 1200) \<le> 1200"
  proof (rule ccontr)
    assume "\<not> rat_exp (2 ^ 1200) \<le> 1200"
    then have "(2 :: rat) powi 1201 \<le> 2 powi rat_exp (2 ^ 1200)" by (intro power_int_increasing) simp_all
    also have "\<dots> \<le> 2 ^ 1200" by (rule rat_exp_bounds(1)) simp
    finally show False by simp
  qed
  then have "(2 :: rat) powi 1200 \<le> round_pos (2 ^ 1200)" by (intro round_pos_ge_power) (simp_all add: ulp_exp_def)
  then have "2 ^ 1024 \<le> round_rat (2 ^ 1200)" by (simp add: round_rat_def)
  moreover have "(2 :: rat) ^ 600 * 2 ^ 600 = 2 ^ 1200" by simp
  ultimately show ?thesis by (simp only: fl_mul_def prod.case fl.case fl_round_def Let_def if_True)
qed

definition huge_value :: rat where
  "huge_value = 2 ^ 600"

lemma huge_norm: "vector_norm [FFin huge_value] = FPos"
  by (simp add: vector_norm_def fl_sum_def huge_square [folded huge_value_def])

text \<open>A finite vector is accepted although its norm overflows, and its similarity to itself is NaN.\<close>

lemma overflow_cosine_nan:
  "validate_vector (RSeq [RFloat (FFin huge_value)]) 1 = Inr [FFin huge_value] \<and> cosine_similarity [FFin huge_value] [FFin huge_value] = Inr FNan"
proof -
  have "fl_mul FPos FPos = FPos" by (simp add: fl_mul_def)
  then show ?thesis
    by (simp add: validate_vector_def cosine_similarity_def huge_norm huge_square [folded huge_value_def] fl_eq_def fl_sum_def fl_div_def MAX_DIMENSIONS_def Let_def)
qed

text \<open>The fallback does not check the limit.\<close>

lemma fallback_limit_unchecked:
  assumes "validate_candidates candidates = Inr ()" "pv_identity provider 0 = Inl (ProviderUnavailableError msg)"
    and "validate_precomputed_lexical candidates ranking = Inr lexical"
  shows "\<exists>r. rank_with_provider env provider query candidates revision ranking limit = Inr r"
  using assms by (simp add: rank_with_provider_def embed_bound_def)

section \<open>A concrete ranking\<close>

definition sample_vector :: "fl \<Rightarrow> fl \<Rightarrow> bound_vector" where
  "sample_vector x y = \<lparr>bv_generation_id = gi_generation_id sample_generation, bv_values = RSeq [RFloat x, RFloat y]\<rparr>"

definition sample_vectors :: "(string, bound_vector) dict" where
  "sample_vectors = [(''aa'', sample_vector (FFin 1) (FFin 0)), (''bb'', sample_vector (FFin 1) (FFin 0)), (''cc'', sample_vector (FFin 0) (FFin 1))]"

abbreviation sample_hybrid :: "search_exc + ranking_result" where
  "sample_hybrid \<equiv> rank_hybrid sample_env sample_corpus sample_generation (sample_vector (FFin 1) (FFin 0)) sample_vectors (JList [JStr ''aa'']) 10
     (RFloat (FFin (1 / 2))) (RFloat (FFin 0))"

lemma small_rounds [simp]: "fl_round 0 = FFin 0" "fl_round 1 = FFin 1"
  using fl_round_nat [of 0] fl_round_nat [of 1] by simp_all

lemma sample_norms: "vector_norm [FFin 1, FFin 0] = FFin 1" "vector_norm [FFin 0, FFin 1] = FFin 1"
  using fl_sqrt_square [of 1]
  by (simp_all add: vector_norm_def fl_sum_def sum_step_def fl_mul_def fl_abs_def fl_sub_def Let_def del: fl_sqrt.simps)

lemma sample_valid:
  "validate_vector (RSeq [RFloat (FFin 1), RFloat (FFin 0)]) 2 = Inr [FFin 1, FFin 0]" "validate_vector (RSeq [RFloat (FFin 0), RFloat (FFin 1)]) 2 = Inr [FFin 0, FFin 1]"
  by (simp_all add: validate_vector_def sample_norms fl_eq_def MAX_DIMENSIONS_def)

lemma sample_cosines:
  "cosine_similarity [FFin 1, FFin 0] [FFin 1, FFin 0] = Inr (FFin 1)" "cosine_similarity [FFin 1, FFin 0] [FFin 0, FFin 1] = Inr (FFin 0)"
  by (simp_all add: cosine_similarity_def sample_norms fl_eq_def fl_sum_def sum_step_def fl_mul_def fl_abs_def fl_sub_def fl_div_def Let_def)

lemma sample_lexical: "validate_precomputed_lexical sample_corpus (JList [JStr ''aa'']) = Inr [''aa'']"
  by (simp add: validate_precomputed_lexical_def check_ranked_def node_id_of_def sample_ids py_in_def del: set_map)

lemma sample_thresholds:
  "check_threshold label (RFloat (FFin (1 / 2))) (- 1) 1 = Inr (FFin (1 / 2))" "check_threshold label (RFloat (FFin 0)) 0 2 = Inr (FFin 0)"
  by (simp_all add: check_threshold_def)

lemma sample_dimensions: "mi_dimensions (gi_model sample_generation) = 2"
  by (simp add: sample_generation_def sample_model_def)

lemma sample_scores: "open_scores sample_corpus [''aa''] sample_generation (sample_vector (FFin 1) (FFin 0)) sample_vectors = {(FFin 1, ''bb''), (FFin 0, ''cc'')}"
proof -
  have "sd_node_id ` set sample_corpus = {''aa'', ''bb'', ''cc''}" using arg_cong [OF sample_ids, of set] by simp
  moreover have "candidate_score sample_generation (sample_vector (FFin 1) (FFin 0)) sample_vectors ''bb'' s \<longleftrightarrow> s = FFin 1"
    "candidate_score sample_generation (sample_vector (FFin 1) (FFin 0)) sample_vectors ''cc'' s \<longleftrightarrow> s = FFin 0" for s
    by (auto simp: candidate_score_def sample_vectors_def sample_vector_def sample_dimensions sample_valid sample_cosines)
  ultimately show ?thesis unfolding open_scores_def by auto
qed

lemma sample_hybrid_returns: "\<exists>r. sample_hybrid = Inr r"
proof -
  have "check_vectors sample_generation sample_vectors = Inr [(''aa'', [FFin 1, FFin 0]), (''bb'', [FFin 1, FFin 0]), (''cc'', [FFin 0, FFin 1])]"
    by (simp add: check_vectors_def sample_vectors_def sample_vector_def sample_dimensions sample_valid)
  moreover have "semantic_scores sample_corpus [''aa''] [FFin 1, FFin 0] [(''aa'', [FFin 1, FFin 0]), (''bb'', [FFin 1, FFin 0]), (''cc'', [FFin 0, FFin 1])] =
      Inr [(FFin 1, ''bb''), (FFin 0, ''cc'')]"
    by (simp add: semantic_scores_def vector_of_def sample_corpus_def sample_document_def sample_cosines)
  moreover have "validate_vector (bv_values (sample_vector (FFin 1) (FFin 0))) 2 = Inr [FFin 1, FFin 0]"
    "bv_generation_id (sample_vector (FFin 1) (FFin 0)) = gi_generation_id sample_generation"
    "set (keys_of sample_vectors) = set (map sd_node_id sample_corpus)" "check_limit 10 = Inr ()"
    by (simp_all add: sample_vector_def sample_valid sample_ids sample_vectors_def check_limit_def del: set_map)
  ultimately show ?thesis
    unfolding rank_hybrid_def sample_candidates sample_lexical sample_thresholds sample_dimensions by (simp del: list.set list.map set_map)
qed

section \<open>Properties\<close>



text \<open>
  C22: rankings with a provider are safe. Provided sorting invents no entries, every id that is returned was among the candidates, and none is returned
  twice. A ranking with a fallback reason is the given lexical order, cut to the limit, and some call of the provider really raised that very unavailability;
  every other ranking is bound to a generation whose model the provider reported before and after embedding.
\<close>

theorem provider_ranking_sound:
  assumes "\<And>xs. set (se_unordered env xs) \<subseteq> set xs"
    and "rank_with_provider env provider query candidates revision ranking limit = Inr r"
  shows "distinct (rk_ranked_node_ids r) \<and> set (rk_ranked_node_ids r) \<subseteq> sd_node_id ` set candidates \<and>
    (case rk_fallback_reason r of
       Some msg \<Rightarrow> rk_mode r = LexicalFallback \<and> rk_generation r = None \<and> unavailable provider candidates query msg \<and>
         (\<exists>lexical. validate_precomputed_lexical candidates ranking = Inr lexical \<and> rk_ranked_node_ids r = py_take limit lexical)
     | None \<Rightarrow> rk_mode r = Hybrid \<and> (\<exists>model generation. rk_generation r = Some generation \<and>
         pv_identity provider 0 = Inr model \<and> pv_identity provider 3 = Inr model \<and> gi_model generation = model \<and>
         gi_generation_id generation = ''search-gen-'' @ se_sha256 env (generation_message model revision)))"
proof (cases "embed_bound env provider candidates [query] revision")
  case (Inl e)
  then obtain msg lexical where "e = ProviderUnavailableError msg" and lexical: "validate_precomputed_lexical candidates ranking = Inr lexical"
    and "r = \<lparr>rk_ranked_node_ids = py_take limit lexical, rk_mode = LexicalFallback, rk_generation = None, rk_fallback_reason = Some msg\<rparr>"
    using assms(2) by (cases e) (auto simp: rank_with_provider_def bindE_eq_Inr)
  with Inl embed_bound_unavailable lexical_authorised [OF lexical] show ?thesis
    by (auto simp: py_take_def dest: in_set_takeD intro: distinct_take)
next
  case (Inr t)
  then obtain generation vectors queries where t: "t = (generation, vectors, queries)" by (cases t)
  with Inr assms(2) have "rank_hybrid env candidates generation (hd queries) vectors ranking limit
      (RFloat SEMANTIC_MINIMUM_COSINE) (RFloat SEMANTIC_MINIMUM_MARGIN) = Inr r" by (simp add: rank_with_provider_def)
  note ranked = rank_hybrid_authorised [OF assms(1) this]
  obtain model where "pv_identity provider 0 = Inr model" "pv_identity provider 3 = Inr model" "build_generation env model revision = Inr generation"
    using Inr t by (auto simp: embed_bound_def bindE_eq_Inr)
  with build_generation_ok ranked show ?thesis by auto
qed

theorem provider_ranking_sound_witness:
  "\<exists>r. rank_with_provider sample_env \<lparr>pv_identity = (\<lambda>n. Inl (ProviderUnavailableError ''off'')), pv_embed = (\<lambda>n ts. Inr [])\<rparr> ''aa'' sample_corpus ''v1''
       (JList [JStr ''aa'']) 10 = Inr r \<and> set (rk_ranked_node_ids r) \<subseteq> sd_node_id ` set sample_corpus"
proof -
  let ?p = "\<lparr>pv_identity = (\<lambda>n. Inl (ProviderUnavailableError ''off'')), pv_embed = (\<lambda>n ts. Inr [])\<rparr>"
  obtain r where r: "rank_with_provider sample_env ?p ''aa'' sample_corpus ''v1'' (JList [JStr ''aa'']) 10 = Inr r"
    using fallback_limit_unchecked [OF sample_candidates _ sample_lexical, of ?p "''off''" sample_env "''aa''" "''v1''" 10] by auto
  have "\<And>xs. set (se_unordered sample_env xs) \<subseteq> set xs" by (simp add: sample_env_def)
  from provider_ranking_sound [OF this r] r show ?thesis by blast
qed

text \<open>
  C38: the identifier of a generation binds its identity. Two generations with the same identifier have the same model (provider, model, revision, runtime,
  dimensions) and the same document revision, unless two different messages have the same SHA-256.
\<close>

theorem generation_binds:
  assumes "build_generation env model revision = Inr g" "build_generation env model' revision' = Inr g'" "gi_generation_id g = gi_generation_id g'"
  shows "model = model' \<and> revision = revision' \<or> (\<exists>a b. a \<noteq> b \<and> se_sha256 env a = se_sha256 env b)"
proof -
  have "se_sha256 env (generation_message model revision) = se_sha256 env (generation_message model' revision')"
    using build_generation_ok [OF assms(1)] build_generation_ok [OF assms(2)] assms(3) by simp
  then show ?thesis using generation_message_inject [of model revision model' revision'] by blast
qed

theorem generation_binds_witness: "\<exists>g. build_generation sample_env sample_model ''v1'' = Inr g \<and> (sample_model = sample_model \<and> ''v1'' = ''v1'' \<or>
    (\<exists>a b. a \<noteq> b \<and> se_sha256 sample_env a = se_sha256 sample_env b))"
  using generation_binds [OF sample_generation_built sample_generation_built refl] sample_generation_built by blast

end
