(* ===== verification/Spec2Isabelle.thy ===== *)
theory Spec2Isabelle
  imports Run_Task Review_Command Deploy_Archive Env_Atomic Release_Verify Search_Privacy Search_Lexical
    Search_Hybrid
begin

text \<open>
  \<^bold>\<open>Verification of the governance, deployment and search core of Weltgewebe.\<close>

  The repository lets agents and reviewers change it only through machine-checked contracts. Its Python code under
  \<^verbatim>\<open>scripts/\<close> decides which task contracts are admissible, runs them dry, checks the handoff that an agent
  returns, checks the registry of claims the tasks refer to, and decides whether the review evidence of a pull request
  suffices for a merge; for a release it checks what is unpacked on the host, reconciles the settings, and verifies what the
  public sees. The core of the semantic search ranks the nodes of the product. This development
  models these programs and proves what they promise.

  \<^bold>\<open>Parts and how they interact.\<close>
  \<^item> \<^verbatim>\<open>agent/json_contract.py\<close> reads JSON strictly and validates it against a subset of JSON Schema. Every other
    agent program calls it.
  \<^item> \<^verbatim>\<open>docmeta/validate_claim_registry.py\<close> checks the registry of claims.
  \<^item> \<^verbatim>\<open>agent/check_non_ideal_task.py\<close> is the guard of a task contract: schema, path scopes, claims, wording.
  \<^item> \<^verbatim>\<open>agent/validate_handoff.py\<close> checks a handoff against its task, calling schema validation and the guard.
  \<^item> \<^verbatim>\<open>agent/run_task.py\<close> is the dry run: it validates a task, plans it, builds a handoff that the validator
    accepts, and publishes an evidence bundle atomically, without changing the repository.
  \<^item> \<^verbatim>\<open>quality/attention_impact_contract.py\<close> and \<^verbatim>\<open>quality/review_governance.py\<close> are the merge gate.
  \<^item> \<^verbatim>\<open>ops/validate_web_deploy_archive.py\<close> decides which web builds may be unpacked on the host, and
    \<^verbatim>\<open>ops/reconcile_public_login_smtp_env.py\<close> carries the approved settings over into the host's environment file.
  \<^item> \<^verbatim>\<open>ops/verify_public_release_commit.py\<close> polls the public addresses until they show the released commit and leaves a
    receipt, through \<^verbatim>\<open>ops/weltgewebe_secure_receipt_io.py\<close>.
  \<^item> \<^verbatim>\<open>search/hybrid_ranking_core.py\<close> ranks documents by lexical signals and appends at most one semantic match.

  \<^bold>\<open>Theories.\<close>
  \<^item> \<open>Py_Prelude\<close>, \<open>Py_Regex\<close>, \<open>Py_Json\<close>: the Python the programs use. Results \<open>error + value\<close> with
    \<open>bindE\<close>; strings over the 256 characters U+0000 to U+00FF; UTF-8; dictionaries as association lists in insertion
    order; a backtracking regular-expression engine, sound and complete for its step relation; JSON values with Python's
    \<^verbatim>\<open>==\<close>, truth and \<^verbatim>\<open>repr\<close>.
  \<^item> \<open>Json_Contract\<close> (\<^verbatim>\<open>json_contract.py\<close>), \<open>Json_Accepts\<close>: the validator and its declarative meaning.
    Recursion is bounded by fuel, which stands for the interpreter's recursion limit; enough fuel always gives a
    result for schemas without reference cycles, and a cycle is shown to end in \<^verbatim>\<open>RecursionError\<close>.
  \<^item> \<open>Repo_Fs\<close>: paths, symbolic links, resolution inside the repository.
  \<^item> \<open>Claim_Registry\<close> (\<^verbatim>\<open>validate_claim_registry.py\<close>), \<open>Non_Ideal_Task\<close> (\<^verbatim>\<open>check_non_ideal_task.py\<close>),
    \<open>Handoff\<close> and \<open>Handoff_Contract\<close> (\<^verbatim>\<open>validate_handoff.py\<close> with the two schemas of \<^verbatim>\<open>contracts/agent\<close>): each
    has an abstract specification and a theorem that an empty report means exactly this specification. The locale
    \<open>normaliser\<close> is the contract of path normalisation, interpreted for files and for scopes.
  \<^item> \<open>Run_World\<close>: the world of the runner and its monad; \<open>Run_Logic\<close>: a program logic with a postcondition for
    returning and one for raising. \<open>Evidence_Bundle\<close>, \<open>Publish_Atomic\<close>, \<open>Git_State\<close>, \<open>Run_Task\<close>: evidence and its
    bindings, publication, repository fingerprint, the run and its command line (\<^verbatim>\<open>run_task.py\<close>).
  \<^item> \<open>Attention_Impact\<close> (\<^verbatim>\<open>attention_impact_contract.py\<close>), \<open>Review_Governance\<close> (risk, bundles, evidence,
    evaluation), \<open>Review_Gate\<close> (what the evaluation guarantees), \<open>Review_Command\<close> (git, output directory, commands).

  \<^item> \<open>Prefix_Code\<close>: length-prefixed records. The locale \<open>prefix_code\<close> says that a record can be read off the front of the
    bytes; it is interpreted for the parts and untracked files of the fingerprint (\<open>Git_State\<close>) and for the fields of the
    reconciliation plan.
  \<^item> \<open>Deploy_Archive\<close> (\<^verbatim>\<open>validate_web_deploy_archive.py\<close>).
  \<^item> \<open>Env_Reconcile\<close> (the text processing and the plan of \<^verbatim>\<open>reconcile_public_login_smtp_env.py\<close>), \<open>Env_World\<close> (a file system with
    inodes and directory entries, system calls that fail, processes that die or interfere, and a calculus of weakest
    preconditions), \<open>Env_Apply\<close> (the functions with effects), \<open>Env_Atomic\<close> (what a run does to the files). The locale
    \<open>frame\<close> is the contract between the two: a property of all files but the run's own is kept by creating, filling and
    removing own files.
  \<^item> \<open>Secure_Receipt\<close> (\<^verbatim>\<open>weltgewebe_secure_receipt_io.py\<close>, on the same file system) and \<open>Release_Verify\<close>
    (\<^verbatim>\<open>verify_public_release_commit.py\<close>; its loop ends because every round that goes on sleeps at least a second).
  \<^item> \<open>Py_Float\<close>: Python's floats as IEEE doubles over exact rationals, with a proof that rounding is monotone. \<open>Search_Core\<close> and
    \<open>Search_Rank\<close> (\<^verbatim>\<open>hybrid_ranking_core.py\<close>); \<open>Search_Privacy\<close>, \<open>Search_Lexical\<close> and \<open>Search_Hybrid\<close> prove its properties.

  Names follow the source, without leading underscores; where a name would clash, it carries a prefix or suffix
  (\<open>guard_main\<close>, \<open>handoff_main\<close>, \<open>run_main\<close>, \<open>gov_main\<close>, \<open>archive_main\<close>, \<open>reconcile_main\<close> and \<open>release_main\<close> are the \<^verbatim>\<open>main\<close> functions). A class or dataclass is a
  record, a raised exception a value of \<open>py_error\<close>, \<open>run_exc\<close>, \<open>gov_error\<close>, \<open>env_exc\<close> or \<open>search_exc\<close>.

  \<^bold>\<open>What is shown.\<close>
  \<^item> Validation: accepted instances are exactly those that satisfy the declarative reading of the schema; the validator
    terminates; findings come sorted and without repetition; two ways the schema reader escapes its own error type.
  \<^item> Contracts: an empty report of the registry check, the guard and the handoff check is equivalent to the
    specification; a handoff that is ready for review has passed every required validation inside its scopes; path
    normalisation, scope matching, the claim identifier language and the prohibited wording are characterised.
  \<^item> Dry run: whatever system call fails and whatever other processes do in the meantime, the evidence directory is
    absent or complete; no outcome is reported unless the repository was seen unchanged afterwards; the
    fingerprint input is injective; without faults publication succeeds; accepted paths stay where they may be.
  \<^item> Merge gate: evidence counts only if it is authorised, bound to this very change and hashed over its own text; a
    passing evaluation has the reviews its risk demands and no standing objection; risk is the maximum over the paths;
    the statistics parser reads what git prints; the command fails closed.
  \<^item> Deployment: exactly the bounded trees of plain files below \<^verbatim>\<open>build\<close> are accepted, and unpacking them stays there; the
    reconciled settings read back as planned and are a fixed point; the confirmed plan hash binds every input; a run that
    fails or is killed at any system call leaves the destination as it was or exactly as planned; a run that reports
    success left a faithful backup; a dry run writes nothing.
  \<^item> Release: a receipt is replaced atomically and reads back as written; the check passes exactly if both addresses serve the
    commit with its declared artifact tree; exit code and receipt agree with the last evaluation.
  \<^item> Search: mailboxes and IPv4 addresses do not get past the constructors; the lexical ranking gives the best matches whatever
    order the candidates come in, with bounded scores; the hybrid ranking keeps that order and appends exactly the admitted
    candidate; only authorised ids are returned, and a fallback only follows a real unavailability; identifiers bind generations.

  \<^bold>\<open>Parameters.\<close> Not defined here, but arguments of the definitions: \<^verbatim>\<open>json.loads\<close> and \<^verbatim>\<open>raw_decode\<close>,
  patterns given in a schema, \<^verbatim>\<open>datetime.fromisoformat\<close>, SHA-256, git and its answers, HTTP answers, NFKC with case folding, an
  embedding provider, the order of a sorted list with NaN keys, the clock, random names, which system
  call fails and when, and what other processes do.

  \<^bold>\<open>Not modelled.\<close> Argument parsing and the text printed on the terminal; the German text of the review request (only the
  values in it); characters beyond U+00FF. The platform, staging, performance and operations scripts start containers,
  clusters and load tests and are orchestration of outside tools; the documentation generators and validators under
  \<^verbatim>\<open>docmeta\<close> and \<^verbatim>\<open>ci\<close> each check one document by literal comparison; the search probes run SQL. The
  Rust service and the web client are not Python.
\<close>

end
